(* ===== verification/Prelude.thy ===== *)
theory Prelude
  imports Complex_Main "HOL-Library.AList" "HOL-Library.List_Lexorder" "HOL-Library.Char_ord"
    "HOL-Library.Product_Lexorder" "HOL-Library.Monad_Syntax"
begin

text \<open>
  Shared vocabulary of the development: the exceptions a Python operation can raise, Python's
  list indexing and slicing (negative positions included), ordered dictionaries, counters, and
  the two interfaces several components use: an inductive invariant of a transition system and
  a quorum system.
\<close>

section \<open>Exceptions and results\<close>

datatype py_exn =
  ValueError string
| KeyError
| IndexError
| TypeError
| OverflowError
| JSONDecodeError
| UnicodeDecodeError
| UnicodeEncodeError
| RecursionError
| AttributeError
| ZeroDivisionError

type_synonym 'a outcome = "py_exn + 'a"

text \<open>What \<open>except ValueError\<close> catches: the class and its subclasses.\<close>

fun is_value_error :: "py_exn \<Rightarrow> bool" where
  "is_value_error (ValueError _) = True"
| "is_value_error JSONDecodeError = True"
| "is_value_error UnicodeDecodeError = True"
| "is_value_error UnicodeEncodeError = True"
| "is_value_error _ = False"

named_theorems node_simps \<open>field equations of the state-passing operations\<close>
named_theorems inv_rules \<open>preservation of an invariant by one operation\<close>

fun map_outcome :: "('a \<Rightarrow> 'e + 'b) \<Rightarrow> 'a list \<Rightarrow> 'e + 'b list" where
  "map_outcome f [] = Inr []"
| "map_outcome f (x # xs) =
     (case f x of Inl e \<Rightarrow> Inl e
      | Inr y \<Rightarrow> (case map_outcome f xs of Inl e \<Rightarrow> Inl e | Inr ys \<Rightarrow> Inr (y # ys)))"

lemma map_sum_Inr [simp]: "map_sum f g r = Inr y \<longleftrightarrow> (\<exists>x. r = Inr x \<and> y = g x)"
  by (cases r) auto

lemma map_sum_Inl [simp]: "map_sum f g r = Inl y \<longleftrightarrow> (\<exists>x. r = Inl x \<and> y = f x)"
  by (cases r) auto

definition collect :: "('e + 'a) list \<Rightarrow> 'e + 'a list" where
  "collect = map_outcome (\<lambda>r. r)"

lemma map_outcome_Inr:
  "map_outcome f xs = Inr ys \<longleftrightarrow> list_all2 (\<lambda>x y. f x = Inr y) xs ys"
  by (induction xs arbitrary: ys) (auto simp: list_all2_Cons1 split: sum.splits, metis Inr_inject)

lemma map_outcome_total:
  "(\<And>x. x \<in> set xs \<Longrightarrow> f x = Inr (g x)) \<Longrightarrow> map_outcome f xs = Inr (map g xs)"
  by (induction xs) auto

section \<open>Python lists\<close>

definition py_len :: "'a list \<Rightarrow> int" where
  "py_len xs = int (length xs)"

lemma py_len_simps [simp]:
  "py_len [] = 0" "py_len (x # xs) = py_len xs + 1" "py_len (xs @ ys) = py_len xs + py_len ys"
  by (simp_all add: py_len_def)

lemma py_len_nonneg [simp]: "0 \<le> py_len xs"
  by (simp add: py_len_def)

text \<open>\<open>xs[i]\<close>: negative positions count from the end, anything else out of range raises.\<close>

definition py_index :: "'a list \<Rightarrow> int \<Rightarrow> 'a option" where
  "py_index xs i =
     (let j = (if i < 0 then py_len xs + i else i)
      in if 0 \<le> j \<and> j < py_len xs then Some (xs ! nat j) else None)"

lemma py_index_in: "0 \<le> i \<Longrightarrow> i < py_len xs \<Longrightarrow> py_index xs i = Some (xs ! nat i)"
  by (simp add: py_index_def)

text \<open>A slice bound: negative bounds count from the end, and both ends are clamped.\<close>

definition py_bound :: "'a list \<Rightarrow> int \<Rightarrow> nat" where
  "py_bound xs i = nat (if i < 0 then max 0 (py_len xs + i) else min i (py_len xs))"

definition py_slice_from :: "'a list \<Rightarrow> int \<Rightarrow> 'a list" where
  "py_slice_from xs i = drop (py_bound xs i) xs"

definition py_slice :: "'a list \<Rightarrow> int \<Rightarrow> int \<Rightarrow> 'a list" where
  "py_slice xs i j = drop (py_bound xs i) (take (py_bound xs j) xs)"

text \<open>\<open>del xs[i:]\<close> keeps what is before the bound.\<close>

definition py_del_from :: "'a list \<Rightarrow> int \<Rightarrow> 'a list" where
  "py_del_from xs i = take (py_bound xs i) xs"

lemma py_slice_from_nonneg: "0 \<le> i \<Longrightarrow> py_slice_from xs i = drop (nat i) xs"
  by (auto simp: py_slice_from_def py_bound_def py_len_def min_def)

lemma py_del_from_nonneg: "0 \<le> i \<Longrightarrow> py_del_from xs i = take (nat i) xs"
  by (auto simp: py_del_from_def py_bound_def py_len_def min_def)

lemma py_slice_nonneg:
  "0 \<le> i \<Longrightarrow> 0 \<le> j \<Longrightarrow> py_slice xs i j = drop (nat i) (take (nat j) xs)"
  by (auto simp: py_slice_def py_bound_def py_len_def min_def)

section \<open>Dictionaries\<close>

lemma set_update_sub: "set (AList.update k v S) \<subseteq> insert (k, v) (set S)"
  by (induction S) auto

section \<open>Interfaces\<close>

text \<open>An inductive invariant: it holds at the start and every step keeps it.\<close>

locale inductive_invariant =
  fixes start :: "'s \<Rightarrow> bool"
    and step :: "'s \<Rightarrow> 's \<Rightarrow> bool"
    and inv :: "'s \<Rightarrow> bool"
  assumes start_inv: "start s \<Longrightarrow> inv s"
    and step_inv: "inv s \<Longrightarrow> step s t \<Longrightarrow> inv t"
begin

lemma steps_inv: "step\<^sup>*\<^sup>* s t \<Longrightarrow> inv s \<Longrightarrow> inv t"
  by (induction rule: rtranclp_induct) (auto intro: step_inv)

lemma reachable_inv: "start s \<Longrightarrow> step\<^sup>*\<^sup>* s t \<Longrightarrow> inv t"
  by (blast intro: steps_inv start_inv)

end

text \<open>A quorum system: any two quorums of the member set share a member.\<close>

locale quorum_system =
  fixes quorum :: "'m \<Rightarrow> 'v set \<Rightarrow> bool"
  assumes quorum_meet: "quorum m Q \<Longrightarrow> quorum m R \<Longrightarrow> \<exists>v. v \<in> Q \<and> v \<in> R"
begin

text \<open>If every voter votes at most once, two ballots with a quorum behind each agree.\<close>

lemma single_vote_agree:
  assumes "quorum m Q" "quorum m R"
    and "\<forall>v\<in>Q. vote v a" "\<forall>v\<in>R. vote v b"
    and "\<And>v x y. vote v x \<Longrightarrow> vote v y \<Longrightarrow> x = y"
  shows "a = b"
  using quorum_meet [OF assms(1,2)] assms(3-5) by blast

end

end
