(* ===== verification/Raft.thy ===== *)
theory Raft
  imports Prelude
begin

text \<open>
  The replica of \<open>fleetqox/raft.py\<close>: the message classes, the state of \<open>RaftNode\<close> and
  every method of it. A method that mutates the node returns the new node; a method that can
  raise (a missing key of \<open>next_index\<close> or \<open>match_index\<close>, an index out of range)
  returns an outcome beside it. Terms and log indexes are Python integers, hence \<open>int\<close>.
\<close>

section \<open>Messages and state\<close>

datatype role = FOLLOWER | CANDIDATE | LEADER

record 'c log_entry =
  le_term :: int
  le_command :: 'c

record request_vote_request =
  rv_term :: int
  rv_candidate_id :: string
  rv_last_log_index :: int
  rv_last_log_term :: int

record request_vote_response =
  rvr_term :: int
  rvr_vote_granted :: bool
  rvr_voter_id :: string

record 'c append_entries_request =
  ae_term :: int
  ae_leader_id :: string
  ae_prev_log_index :: int
  ae_prev_log_term :: int
  ae_entries :: "'c log_entry list"
  ae_leader_commit :: int

record append_entries_response =
  aer_term :: int
  aer_success :: bool
  aer_follower_id :: string
  aer_match_length_hint :: int

record 'c outbox =
  ob_request_votes :: "(string \<times> request_vote_request) list"
  ob_append_entries :: "(string \<times> 'c append_entries_request) list"

definition empty_outbox :: "'c outbox" where
  "empty_outbox = \<lparr>ob_request_votes = [], ob_append_entries = []\<rparr>"

record 'c raft_node =
  node_id :: string
  peer_ids :: "string list"
  cluster_size :: int
  majority :: int
  current_term :: int
  voted_for :: "string option"
  node_log :: "'c log_entry list"
  commit_index :: int
  last_applied :: int
  next_index :: "string \<rightharpoonup> int"
  match_index :: "string \<rightharpoonup> int"
  votes_received :: "string set"
  node_role :: role
  leader_id :: "string option"

definition new_raft_node :: "string \<Rightarrow> string list \<Rightarrow> 'c raft_node outcome" where
  "new_raft_node nid peers =
     (if nid = [] \<or> nid \<in> set peers
      then Inl (ValueError ''node_id must be set and absent from peer_ids'')
      else if peers = [] then Inl (ValueError ''a Raft cluster needs at least one peer'')
      else Inr \<lparr>node_id = nid, peer_ids = peers, cluster_size = py_len peers + 1,
        majority = (py_len peers + 1) div 2 + 1, current_term = 0, voted_for = None,
        node_log = [], commit_index = -1, last_applied = -1, next_index = Map.empty,
        match_index = Map.empty, votes_received = {}, node_role = FOLLOWER,
        leader_id = None\<rparr>)"

section \<open>Log helpers\<close>

definition last_log_index :: "'c raft_node \<Rightarrow> int" where
  "last_log_index n = py_len (node_log n) - 1"

definition last_log_term :: "'c raft_node \<Rightarrow> int" where
  "last_log_term n = (if node_log n = [] then 0 else le_term (last (node_log n)))"

definition log_up_to_date :: "'c raft_node \<Rightarrow> int \<Rightarrow> int \<Rightarrow> bool" where
  "log_up_to_date n candidate_last_term candidate_last_index =
     (let my_term = last_log_term n
      in if candidate_last_term \<noteq> my_term then candidate_last_term > my_term
         else candidate_last_index \<ge> last_log_index n)"

definition step_down_if_stale :: "int \<Rightarrow> 'c raft_node \<Rightarrow> 'c raft_node" where
  "step_down_if_stale t n =
     (if t > current_term n
      then n\<lparr>current_term := t, voted_for := None, node_role := FOLLOWER,
             votes_received := {}\<rparr>
      else n)"

section \<open>Role transitions\<close>

definition on_election_timeout :: "'c raft_node \<Rightarrow> 'c raft_node \<times> 'c outbox" where
  "on_election_timeout n =
     (if node_role n = LEADER then (n, empty_outbox)
      else
        let n' = n\<lparr>node_role := CANDIDATE, current_term := current_term n + 1,
                    voted_for := Some (node_id n), votes_received := {node_id n},
                    leader_id := None\<rparr>;
            request = \<lparr>rv_term = current_term n', rv_candidate_id = node_id n',
                        rv_last_log_index = last_log_index n',
                        rv_last_log_term = last_log_term n'\<rparr>
        in (n', empty_outbox\<lparr>ob_request_votes := map (\<lambda>p. (p, request)) (peer_ids n')\<rparr>))"

definition append_entries_for :: "'c raft_node \<Rightarrow> string \<Rightarrow> 'c append_entries_request outcome" where
  "append_entries_for n peer =
     (case next_index n peer of
        None \<Rightarrow> Inl KeyError
      | Some next_idx \<Rightarrow>
          let prev_index = next_idx - 1;
              prev_term = (if 0 \<le> prev_index \<and> prev_index < py_len (node_log n)
                           then le_term (node_log n ! nat prev_index) else 0)
          in Inr \<lparr>ae_term = current_term n, ae_leader_id = node_id n,
                   ae_prev_log_index = prev_index, ae_prev_log_term = prev_term,
                   ae_entries = py_slice_from (node_log n) next_idx,
                   ae_leader_commit = commit_index n\<rparr>)"

definition on_heartbeat_due :: "'c raft_node \<Rightarrow> 'c outbox outcome" where
  "on_heartbeat_due n =
     (if node_role n \<noteq> LEADER then Inr empty_outbox
      else case map_outcome (\<lambda>p. map_sum id (\<lambda>r. (p, r)) (append_entries_for n p)) (peer_ids n) of
             Inl e \<Rightarrow> Inl e
           | Inr sends \<Rightarrow> Inr (empty_outbox\<lparr>ob_append_entries := sends\<rparr>))"

definition become_leader :: "'c raft_node \<Rightarrow> 'c raft_node \<times> 'c outbox outcome" where
  "become_leader n =
     (let next_len = py_len (node_log n);
          n' = n\<lparr>node_role := LEADER, leader_id := Some (node_id n),
                  next_index := (\<lambda>p. if p \<in> set (peer_ids n) then Some next_len else None),
                  match_index := (\<lambda>p. if p \<in> set (peer_ids n) then Some (-1) else None)\<rparr>
      in (n', on_heartbeat_due n'))"

section \<open>RPC handlers, receiver side\<close>

definition handle_request_vote ::
    "request_vote_request \<Rightarrow> 'c raft_node \<Rightarrow> 'c raft_node \<times> request_vote_response" where
  "handle_request_vote r n0 =
     (let n = step_down_if_stale (rv_term r) n0
      in if rv_term r < current_term n
         then (n, \<lparr>rvr_term = current_term n, rvr_vote_granted = False, rvr_voter_id = node_id n\<rparr>)
         else
           let can_vote = (voted_for n = None \<or> voted_for n = Some (rv_candidate_id r));
               grant = (can_vote \<and> log_up_to_date n (rv_last_log_term r) (rv_last_log_index r));
               n' = (if grant then n\<lparr>voted_for := Some (rv_candidate_id r)\<rparr> else n)
           in (n', \<lparr>rvr_term = current_term n', rvr_vote_granted = grant,
                    rvr_voter_id = node_id n'\<rparr>))"

text \<open>The loop over the entries: the log is extended, or cut at the first conflict.\<close>

fun merge_entries ::
    "'c log_entry list \<Rightarrow> int \<Rightarrow> 'c log_entry list \<Rightarrow> 'c log_entry list \<times> py_exn option" where
  "merge_entries lg index [] = (lg, None)"
| "merge_entries lg index (entry # entries) =
     (if index < py_len lg then
        (case py_index lg index of
           None \<Rightarrow> (lg, Some IndexError)
         | Some mine \<Rightarrow>
             if le_term mine \<noteq> le_term entry
             then merge_entries (py_del_from lg index @ [entry]) (index + 1) entries
             else merge_entries lg (index + 1) entries)
      else merge_entries (lg @ [entry]) (index + 1) entries)"

definition append_response :: "'c raft_node \<Rightarrow> bool \<Rightarrow> append_entries_response" where
  "append_response n ok =
     \<lparr>aer_term = current_term n, aer_success = ok, aer_follower_id = node_id n,
      aer_match_length_hint = py_len (node_log n)\<rparr>"

definition append_accepted ::
    "'c append_entries_request \<Rightarrow> 'c raft_node \<Rightarrow> 'c raft_node \<times> append_entries_response outcome" where
  "append_accepted r n =
     (case merge_entries (node_log n) (ae_prev_log_index r + 1) (ae_entries r) of
        (lg', Some e) \<Rightarrow> (n\<lparr>node_log := lg'\<rparr>, Inl e)
      | (lg', None) \<Rightarrow>
          let n1 = n\<lparr>node_log := lg'\<rparr>;
              n2 = (if ae_leader_commit r > commit_index n1
                    then n1\<lparr>commit_index := min (ae_leader_commit r) (py_len lg' - 1)\<rparr>
                    else n1)
          in (n2, Inr (append_response n2 True)))"

definition handle_append_entries ::
    "'c append_entries_request \<Rightarrow> 'c raft_node \<Rightarrow> 'c raft_node \<times> append_entries_response outcome" where
  "handle_append_entries r n0 =
     (let n = step_down_if_stale (ae_term r) n0
      in if ae_term r < current_term n then (n, Inr (append_response n False))
         else
           let n1 = n\<lparr>node_role := FOLLOWER, leader_id := Some (ae_leader_id r)\<rparr>
           in if ae_prev_log_index r \<ge> 0 then
                if ae_prev_log_index r \<ge> py_len (node_log n1)
                then (n1, Inr (append_response n1 False))
                else if le_term (node_log n1 ! nat (ae_prev_log_index r)) \<noteq> ae_prev_log_term r
                then let n2 = n1\<lparr>node_log := py_del_from (node_log n1) (ae_prev_log_index r)\<rparr>
                     in (n2, Inr (append_response n2 False))
                else append_accepted r n1
              else append_accepted r n1)"

section \<open>RPC handlers, sender side\<close>

definition handle_request_vote_response ::
    "request_vote_response \<Rightarrow> 'c raft_node \<Rightarrow> 'c raft_node \<times> 'c outbox outcome" where
  "handle_request_vote_response r n0 =
     (let n = step_down_if_stale (rvr_term r) n0
      in if node_role n \<noteq> CANDIDATE \<or> rvr_term r \<noteq> current_term n
         then (n, Inr empty_outbox)
         else if rvr_vote_granted r then
           let n' = n\<lparr>votes_received := insert (rvr_voter_id r) (votes_received n)\<rparr>
           in if int (card (votes_received n')) \<ge> majority n' then become_leader n'
              else (n', Inr empty_outbox)
         else (n, Inr empty_outbox))"

fun count_matching :: "'c raft_node \<Rightarrow> int \<Rightarrow> string list \<Rightarrow> int outcome" where
  "count_matching n i [] = Inr 0"
| "count_matching n i (p # ps) =
     (case match_index n p of
        None \<Rightarrow> Inl KeyError
      | Some m \<Rightarrow> (case count_matching n i ps of
                     Inl e \<Rightarrow> Inl e
                   | Inr k \<Rightarrow> Inr ((if m \<ge> i then 1 else 0) + k)))"

text \<open>The loop \<open>for candidate_index in range(len(self.log) - 1, self.commit_index, -1)\<close>.\<close>

function advance_from :: "'c raft_node \<Rightarrow> int \<Rightarrow> 'c raft_node \<times> py_exn option" where
  "advance_from n i =
     (if i \<le> commit_index n then (n, None)
      else case py_index (node_log n) i of
             None \<Rightarrow> (n, Some IndexError)
           | Some entry \<Rightarrow>
               if le_term entry \<noteq> current_term n then advance_from n (i - 1)
               else case count_matching n i (peer_ids n) of
                      Inl e \<Rightarrow> (n, Some e)
                    | Inr k \<Rightarrow> if 1 + k \<ge> majority n then (n\<lparr>commit_index := i\<rparr>, None)
                               else advance_from n (i - 1))"
  by pat_completeness auto
termination
  by (relation "measure (\<lambda>(n, i). nat (i - commit_index n))") auto

declare advance_from.simps [simp del]

definition advance_commit_index :: "'c raft_node \<Rightarrow> 'c raft_node \<times> py_exn option" where
  "advance_commit_index n = advance_from n (py_len (node_log n) - 1)"

definition handle_append_entries_response ::
    "string \<Rightarrow> append_entries_response \<Rightarrow> 'c raft_node \<Rightarrow> 'c raft_node \<times> 'c outbox outcome" where
  "handle_append_entries_response peer r n0 =
     (let n = step_down_if_stale (aer_term r) n0
      in if node_role n \<noteq> LEADER \<or> aer_term r \<noteq> current_term n
         then (n, Inr empty_outbox)
         else if aer_success r then
           let n1 = n\<lparr>match_index := (match_index n)(peer \<mapsto> aer_match_length_hint r - 1),
                       next_index := (next_index n)(peer \<mapsto> aer_match_length_hint r)\<rparr>
           in (case advance_commit_index n1 of
                 (n2, None) \<Rightarrow> (n2, Inr empty_outbox)
               | (n2, Some e) \<Rightarrow> (n2, Inl e))
         else
           let n1 = n\<lparr>next_index := (next_index n)(peer \<mapsto> max 0 (aer_match_length_hint r))\<rparr>
           in (case append_entries_for n1 peer of
                 Inl e \<Rightarrow> (n1, Inl e)
               | Inr req \<Rightarrow> (n1, Inr (empty_outbox\<lparr>ob_append_entries := [(peer, req)]\<rparr>))))"

section \<open>Client-facing operations\<close>

definition propose :: "'c \<Rightarrow> 'c raft_node \<Rightarrow> 'c raft_node \<times> int option" where
  "propose command n =
     (if node_role n \<noteq> LEADER then (n, None)
      else let n' = n\<lparr>node_log := node_log n @
                       [\<lparr>le_term = current_term n, le_command = command\<rparr>]\<rparr>
           in (n', Some (last_log_index n')))"

definition take_newly_committed :: "'c raft_node \<Rightarrow> 'c raft_node \<times> 'c list" where
  "take_newly_committed n =
     (if commit_index n \<le> last_applied n then (n, [])
      else (n\<lparr>last_applied := commit_index n\<rparr>,
            map le_command (py_slice (node_log n) (last_applied n + 1) (commit_index n + 1))))"

definition is_leader :: "'c raft_node \<Rightarrow> bool" where
  "is_leader n \<longleftrightarrow> node_role n = LEADER"

end
