(* ===== verification/PyFloat.thy ===== *)
theory PyFloat
  imports Prelude "HOL-Library.Log_Nat"
begin

text \<open>
  Python's \<open>float\<close>: IEEE 754 double precision with round to nearest, ties to even, over the
  rational numbers. A finite float is the rational it denotes (the two zeros, which no
  comparison tells apart, are one value); every arithmetic operation is the exact rational
  operation followed by one rounding. Comparisons are Python's, false on NaN.
\<close>

section \<open>Rounding\<close>

datatype pyfloat = Fin rat | PInf | NInf | NaN

definition round_even :: "rat \<Rightarrow> int" where
  "round_even x =
     (let f = \<lfloor>x\<rfloor>; d = x - of_int f
      in if d < 1/2 then f else if 1/2 < d then f + 1 else if even f then f else f + 1)"

text \<open>The binary exponent of a positive rational, from the bit lengths of its quotient.\<close>

definition rat_exp :: "rat \<Rightarrow> int" where
  "rat_exp x =
     (case quotient_of x of (p, q) \<Rightarrow>
        let e = bitlen p - bitlen q in if 2 powi e \<le> x then e else e - 1)"

definition ulp_exp :: "rat \<Rightarrow> int" where
  "ulp_exp x = max (rat_exp \<bar>x\<bar> - 52) (-1074)"

definition grid :: "int \<Rightarrow> rat \<Rightarrow> rat" where
  "grid e x = of_int (round_even (x / 2 powi e)) * 2 powi e"

definition nearest :: "rat \<Rightarrow> rat" where
  "nearest x = (if x = 0 then 0 else grid (ulp_exp x) x)"

definition dbl :: "rat \<Rightarrow> pyfloat" where
  "dbl x = (let y = nearest x
            in if \<bar>y\<bar> < 2 powi 1024 then Fin y else if 0 < y then PInf else NInf)"

lemma round_even_bounds: "x - 1/2 \<le> of_int (round_even x)" "of_int (round_even x) \<le> x + 1/2"
  by (auto simp: round_even_def Let_def) linarith+

lemma round_even_of_int [simp]: "round_even (of_int k) = k"
  by (simp add: round_even_def)

lemma round_even_0 [simp]: "round_even 0 = 0"
  using round_even_of_int [of 0] by simp

lemma powi_less: "(2 :: rat) powi a < 2 powi b \<Longrightarrow> a < b"
  by (rule ccontr) (use power_int_increasing [of b a "2 :: rat"] in auto)

lemma round_even_mono:
  assumes "x \<le> y" shows "round_even x \<le> round_even y"
proof (cases "\<lfloor>x\<rfloor> = \<lfloor>y\<rfloor>")
  case True
  with assms show ?thesis by (auto simp: round_even_def Let_def)
next
  case False
  with floor_mono [OF assms] have lt: "\<lfloor>x\<rfloor> + 1 \<le> \<lfloor>y\<rfloor>" by simp
  have "round_even x \<le> \<lfloor>x\<rfloor> + 1" "\<lfloor>y\<rfloor> \<le> round_even y" by (auto simp: round_even_def Let_def)
  with lt show ?thesis by simp
qed

lemma round_even_minus: "round_even (- x) = - round_even x"
proof (cases "x = of_int \<lfloor>x\<rfloor>")
  case True
  then show ?thesis by (metis of_int_minus round_even_of_int)
next
  case False
  then have c: "\<lfloor>- x\<rfloor> = - \<lfloor>x\<rfloor> - 1" by linarith
  show ?thesis unfolding round_even_def Let_def c by auto
qed

lemma bitlen_powi:
  assumes "0 < p"
  shows "2 powi (bitlen p - 1) \<le> (of_int p :: rat)" "of_int p < (2 powi bitlen p :: rat)"
proof -
  have pos: "1 \<le> bitlen p" using assms bitlen_eq_zero_iff [of p] bitlen_nonneg [of p] by linarith
  have "(of_int (2 ^ nat (bitlen p - 1)) :: rat) \<le> of_int p"
    "(of_int p :: rat) < of_int (2 ^ nat (bitlen p))"
    using bitlen_bounds [OF assms] by (simp_all only: of_int_le_iff of_int_less_iff)
  with pos show "2 powi (bitlen p - 1) \<le> (of_int p :: rat)" "of_int p < (2 powi bitlen p :: rat)"
    by (simp_all add: power_int_def)
qed

lemma rat_exp_bounds:
  assumes "0 < x" shows "2 powi (rat_exp x) \<le> x" "x < 2 powi (rat_exp x + 1)"
proof -
  obtain p q where pq: "quotient_of x = (p, q)" by (cases "quotient_of x")
  then have q: "0 < q" and x: "x = of_int p / of_int q"
    by (auto simp: quotient_of_denom_pos quotient_of_div)
  with assms have p: "0 < p" by (simp add: zero_less_divide_iff)
  define a b where "a = bitlen p" and "b = bitlen q"
  have P: "2 powi (a - 1) \<le> (of_int p :: rat)" "of_int p < (2 powi a :: rat)"
    and Q: "2 powi (b - 1) \<le> (of_int q :: rat)" "of_int q < (2 powi b :: rat)"
    using bitlen_powi [OF p] bitlen_powi [OF q] by (simp_all add: a_def b_def)
  have up: "x < 2 powi (a - b + 1)"
  proof -
    have "x < 2 powi a / 2 powi (b - 1)" unfolding x
      using P Q p q by (intro frac_less) auto
    also have "\<dots> = 2 powi (a - b + 1)" by (simp add: algebra_simps flip: power_int_diff)
    finally show ?thesis .
  qed
  have low: "2 powi (a - b - 1) \<le> x"
  proof -
    have "2 powi (a - b - 1) = 2 powi (a - 1) / (2 powi b :: rat)"
      by (simp add: algebra_simps flip: power_int_diff)
    also have "\<dots> \<le> x" unfolding x using P Q p q by (intro frac_le) auto
    finally show ?thesis .
  qed
  show "2 powi (rat_exp x) \<le> x" "x < 2 powi (rat_exp x + 1)"
    using up low by (auto simp: rat_exp_def pq a_def [symmetric] b_def [symmetric] Let_def)
qed
lemma rat_exp_unique:
  assumes "2 powi k \<le> x" "x < 2 powi (k + 1)" shows "rat_exp x = k"
proof -
  have pos: "0 < x" using assms(1) by (smt (verit, best) order_less_le_trans zero_less_power_int zero_less_numeral)
  note b = rat_exp_bounds [OF pos]
  have "k < rat_exp x + 1" "rat_exp x < k + 1"
    using order_le_less_trans [OF assms(1) b(2)] order_le_less_trans [OF b(1) assms(2)]
    by (auto dest: powi_less)
  then show ?thesis by simp
qed

lemma rat_exp_mono:
  assumes "0 < x" "x \<le> y" shows "rat_exp x \<le> rat_exp y"
proof -
  have "2 powi (rat_exp x) < (2 :: rat) powi (rat_exp y + 1)"
    using rat_exp_bounds(1) [of x] rat_exp_bounds(2) [of y] assms by linarith
  then show ?thesis by (auto dest: powi_less)
qed

lemma grid_mono: "x \<le> y \<Longrightarrow> grid e x \<le> grid e y"
  by (simp add: grid_def round_even_mono divide_right_mono mult_right_mono)

lemma grid_minus: "grid e (- x) = - grid e x"
  by (simp add: grid_def round_even_minus)

lemma grid_multiple [simp]: "grid e (of_int m * 2 powi e) = of_int m * 2 powi e"
  by (simp add: grid_def)

lemma powi_multiple: "e \<le> k \<Longrightarrow> (2 :: rat) powi k = of_int (2 ^ nat (k - e)) * 2 powi e"
proof -
  assume "e \<le> k"
  then have "(2 :: rat) powi (k - e) = of_int (2 ^ nat (k - e))" by (simp add: power_int_def)
  then show ?thesis by (metis add_diff_cancel diff_add_cancel power_int_add zero_neq_numeral)
qed

lemma grid_powi: "e \<le> k \<Longrightarrow> grid e (2 powi k) = 2 powi k"
  by (metis grid_multiple powi_multiple)

lemma nearest_minus: "nearest (- x) = - nearest x"
  by (simp add: nearest_def ulp_exp_def grid_minus)

lemma nearest_pos_mono:
  assumes "0 < x" "x \<le> y" shows "nearest x \<le> nearest y"
proof (cases "ulp_exp x = ulp_exp y")
  case True
  with assms show ?thesis by (simp add: nearest_def grid_mono)
next
  case False
  have le: "rat_exp x \<le> rat_exp y" using assms by (rule rat_exp_mono)
  with False assms have lt: "rat_exp x < rat_exp y" "ulp_exp x \<le> rat_exp y" "ulp_exp y \<le> rat_exp y"
    by (auto simp: ulp_exp_def)
  have "x \<le> 2 powi (rat_exp x + 1)" using rat_exp_bounds(2) [OF assms(1)] by simp
  also have "\<dots> \<le> 2 powi (rat_exp y)" using lt(1) by (intro power_int_increasing) auto
  finally have "grid (ulp_exp x) x \<le> 2 powi (rat_exp y)"
    using grid_mono grid_powi [OF lt(2)] by metis
  also have "\<dots> \<le> grid (ulp_exp y) y"
    using grid_mono grid_powi [OF lt(3)] rat_exp_bounds(1) [of y] assms by (metis order_less_le_trans)
  finally show ?thesis using assms by (simp add: nearest_def)
qed

lemma nearest_nonneg: "0 \<le> x \<Longrightarrow> 0 \<le> nearest x"
  using grid_mono [of 0 x "ulp_exp x"] by (auto simp: nearest_def grid_def)

lemma nearest_mono:
  assumes "x \<le> y" shows "nearest x \<le> nearest y"
proof -
  consider "0 < x" | "x \<le> 0" "0 \<le> y" | "y < 0" by linarith
  then show ?thesis
  proof cases
    case 1 then show ?thesis using assms by (rule nearest_pos_mono)
  next
    case 2
    then show ?thesis using nearest_nonneg [of y] nearest_nonneg [of "- x"] by (simp add: nearest_minus)
  next
    case 3
    with assms have "nearest (- y) \<le> nearest (- x)" by (intro nearest_pos_mono) auto
    then show ?thesis by (simp add: nearest_minus)
  qed
qed

text \<open>A rational with at most 53 significant bits above the least exponent is a float.\<close>

definition representable :: "rat \<Rightarrow> bool" where
  "representable x \<longleftrightarrow> (\<exists>m e. x = of_int m * 2 powi e \<and> \<bar>m\<bar> < 2 ^ 53 \<and> -1074 \<le> e)"

lemma nearest_representable:
  assumes "representable x" shows "nearest x = x"
proof (cases "x = 0")
  case False
  from assms obtain m e where x: "x = of_int m * 2 powi e" and m: "\<bar>m\<bar> < 2 ^ 53" and e: "-1074 \<le> e"
    by (auto simp: representable_def)
  have "2 powi (rat_exp \<bar>x\<bar>) \<le> \<bar>x\<bar>" using False by (intro rat_exp_bounds) auto
  also have "\<bar>x\<bar> = of_int \<bar>m\<bar> * 2 powi e" by (simp add: x abs_mult)
  also have "\<dots> < 2 powi 53 * 2 powi e"
    using m by (intro mult_strict_right_mono) (auto simp: of_int_less_numeral_power_cancel_iff simp flip: of_int_abs)
  also have "\<dots> = 2 powi (53 + e)" by (simp add: power_int_add)
  finally have "rat_exp \<bar>x\<bar> < 53 + e" by (auto dest: powi_less)
  with e have u: "ulp_exp x \<le> e" by (simp add: ulp_exp_def)
  have "x = of_int (m * 2 ^ nat (e - ulp_exp x)) * 2 powi (ulp_exp x)"
    using powi_multiple [OF u] by (simp add: x mult.assoc)
  then have "grid (ulp_exp x) x = x" by (metis grid_multiple)
  with False show ?thesis by (simp add: nearest_def)
qed (simp add: nearest_def)

lemma representable_int: "\<bar>k\<bar> < 2 ^ 53 \<Longrightarrow> representable (of_int k)"
  unfolding representable_def by (intro exI [of _ k] exI [of _ 0]) simp

section \<open>Evaluation\<close>

text \<open>Rounding on numerator and denominator, which keeps evaluation on integers.\<close>

definition round_frac :: "int \<Rightarrow> int \<Rightarrow> int" where
  "round_frac n d =
     (let f = n div d; r = 2 * (n mod d)
      in if r < d then f else if d < r then f + 1 else if even f then f else f + 1)"

definition frac_exp :: "int \<Rightarrow> int \<Rightarrow> int" where
  "frac_exp p q =
     (let e = bitlen p - bitlen q
      in if (if 0 \<le> e then q * 2 ^ nat e \<le> p else q \<le> p * 2 ^ nat (- e)) then e else e - 1)"

definition dbl_frac :: "int \<Rightarrow> int \<Rightarrow> pyfloat" where
  "dbl_frac p q =
     (if p = 0 then Fin 0
      else let u = max (frac_exp \<bar>p\<bar> q - 52) (-1074)
           in if 0 \<le> u then
                let y = round_frac p (q * 2 ^ nat u) * 2 ^ nat u
                in if \<bar>y\<bar> < 2 ^ 1024 then Fin (of_int y) else if 0 < y then PInf else NInf
              else
                let m = round_frac (p * 2 ^ nat (- u)) q; k = 2 ^ nat (- u)
                in if \<bar>m\<bar> < 2 ^ 1024 * k then Fin (Fract m k) else if 0 < m then PInf else NInf)"

lemma round_frac: "0 < d \<Longrightarrow> round_even (of_int n / of_int d) = round_frac n d"
proof -
  assume d: "0 < d"
  have f: "\<lfloor>of_int n / of_int d :: rat\<rfloor> = n div d" by (rule floor_divide_of_int_eq)
  have "(of_int n :: rat) = of_int (n div d) * of_int d + of_int (n mod d)"
    by (metis div_mult_mod_eq of_int_add of_int_mult)
  then have r: "of_int n / of_int d - of_int (n div d) = (of_int (n mod d) / of_int d :: rat)"
    using d by (simp add: field_simps)
  have c: "(of_int (n mod d) / of_int d :: rat) < 1/2 \<longleftrightarrow> 2 * (n mod d) < d"
    "1/2 < (of_int (n mod d) / of_int d :: rat) \<longleftrightarrow> d < 2 * (n mod d)"
    using d by (simp_all add: field_simps flip: of_int_mult) (metis of_int_less_iff of_int_mult of_int_numeral)+
  show ?thesis unfolding round_even_def Let_def f r c round_frac_def by simp
qed

lemma powi_frac:
  "0 \<le> u \<Longrightarrow> (2 :: rat) powi u = of_int (2 ^ nat u)"
  "u < 0 \<Longrightarrow> (2 :: rat) powi u = 1 / of_int (2 ^ nat (- u))"
  by (simp_all add: power_int_def inverse_eq_divide power_one_over)

lemma frac_exp:
  assumes "0 < p" "0 < q" "quotient_of x = (p, q)" shows "rat_exp x = frac_exp p q"
proof -
  have x: "x = of_int p / of_int q" using assms(3) by (rule quotient_of_div)
  have "2 powi e \<le> x \<longleftrightarrow> (if 0 \<le> e then q * 2 ^ nat e \<le> p else q \<le> p * 2 ^ nat (- e))" for e
  proof (cases "0 \<le> e")
    case True
    have "2 powi e \<le> x \<longleftrightarrow> (of_int (q * 2 ^ nat e) :: rat) \<le> of_int p"
      unfolding x powi_frac(1) [OF True] using assms(2) by (simp add: pos_le_divide_eq mult.commute)
    then show ?thesis using True by (simp only: of_int_le_iff if_True)
  next
    case False
    then have "2 powi e \<le> x \<longleftrightarrow> (of_int q :: rat) \<le> of_int (p * 2 ^ nat (- e))"
      unfolding x using assms(2) by (subst powi_frac(2)) (auto simp: field_simps)
    then show ?thesis using False by (simp only: of_int_le_iff if_False)
  qed
  then show ?thesis by (simp add: rat_exp_def assms(3) frac_exp_def Let_def)
qed

lemma dbl_code [code]: "dbl x = (case quotient_of x of (p, q) \<Rightarrow> dbl_frac p q)"
proof -
  obtain p q where pq: "quotient_of x = (p, q)" by (cases "quotient_of x")
  then have q: "0 < q" and x: "x = of_int p / of_int q"
    by (auto simp: quotient_of_denom_pos quotient_of_div)
  show ?thesis
  proof (cases "p = 0")
    case True then show ?thesis using pq x by (simp add: dbl_frac_def dbl_def nearest_def)
  next
    case False
    define u where "u = max (frac_exp \<bar>p\<bar> q - 52) (-1074)"
    have "quotient_of \<bar>x\<bar> = (\<bar>p\<bar>, q)" using pq by (simp add: rat_abs_code)
    then have "rat_exp \<bar>x\<bar> = frac_exp \<bar>p\<bar> q" using False q by (intro frac_exp) auto
    then have ux: "ulp_exp x = u" by (simp add: ulp_exp_def u_def)
    have n: "nearest x = of_int (round_even (x / 2 powi u)) * 2 powi u"
    proof -
      have "x \<noteq> 0" using False x q by simp
      then show ?thesis by (simp add: nearest_def ux grid_def)
    qed
    have big: "(2 :: rat) powi 1024 = of_int (2 ^ 1024)" by (simp add: power_int_def)
    show ?thesis
    proof (cases "0 \<le> u")
      case True
      have xu: "x / 2 powi u = of_int p / of_int (q * 2 ^ nat u)" by (simp add: x powi_frac(1) [OF True])
      have "0 < q * 2 ^ nat u" using q by simp
      from round_frac [OF this, of p]
      have "nearest x = of_int (round_frac p (q * 2 ^ nat u)) * 2 powi u" by (simp only: n xu)
      then have "nearest x = of_int (round_frac p (q * 2 ^ nat u) * 2 ^ nat u)"
        by (simp only: powi_frac(1) [OF True] of_int_mult)
      then show ?thesis
        using True False unfolding dbl_def big pq
        by (simp only: of_int_abs [symmetric] of_int_less_iff of_int_0_less_iff dbl_frac_def Let_def
            u_def [symmetric] if_True if_False prod.case)
    next
      case u: False
      define k :: int where "k = 2 ^ nat (- u)"
      have k: "0 < k" "(2 :: rat) powi u = 1 / of_int k" using u powi_frac(2) [of u] by (simp_all add: k_def)
      have "x / 2 powi u = of_int (p * k) / of_int q" by (simp add: x k)
      then have nx: "nearest x = of_int (round_frac (p * k) q) / of_int k"
        unfolding n k(2) using q by (simp only: round_frac) simp
      have "\<bar>nearest x\<bar> < 2 powi 1024 \<longleftrightarrow> \<bar>round_frac (p * k) q\<bar> < 2 ^ 1024 * k"
        "0 < nearest x \<longleftrightarrow> 0 < round_frac (p * k) q"
        unfolding nx big using k(1)
        by (simp_all only: abs_divide of_int_abs [symmetric] of_int_less_iff of_int_0_less_iff
            pos_divide_less_eq of_int_mult [symmetric] abs_of_pos zero_less_divide_iff) auto
      then show ?thesis
        using u False unfolding dbl_def pq
        by (simp only: dbl_frac_def Let_def u_def [symmetric] if_True if_False prod.case k_def [symmetric]
            Fract_of_int_quotient nx)
    qed
  qed
qed

section \<open>Comparison\<close>

fun is_fin :: "pyfloat \<Rightarrow> bool" where
  "is_fin (Fin _) = True" | "is_fin _ = False"

instantiation pyfloat :: ord
begin

fun less_eq_pyfloat :: "pyfloat \<Rightarrow> pyfloat \<Rightarrow> bool" where
  "less_eq_pyfloat (Fin a) (Fin b) = (a \<le> b)"
| "less_eq_pyfloat NaN _ = False"
| "less_eq_pyfloat _ NaN = False"
| "less_eq_pyfloat NInf _ = True"
| "less_eq_pyfloat _ PInf = True"
| "less_eq_pyfloat PInf _ = False"
| "less_eq_pyfloat _ NInf = False"

fun less_pyfloat :: "pyfloat \<Rightarrow> pyfloat \<Rightarrow> bool" where
  "less_pyfloat (Fin a) (Fin b) = (a < b)"
| "less_pyfloat NaN _ = False"
| "less_pyfloat _ NaN = False"
| "less_pyfloat PInf _ = False"
| "less_pyfloat _ NInf = False"
| "less_pyfloat NInf _ = True"
| "less_pyfloat _ PInf = True"

instance ..

end

text \<open>\<open>==\<close> on floats is false for NaN.\<close>

definition feq :: "pyfloat \<Rightarrow> pyfloat \<Rightarrow> bool" where
  "feq x y \<longleftrightarrow> x = y \<and> x \<noteq> NaN"

lemma fle_refl: "x \<noteq> NaN \<Longrightarrow> x \<le> (x :: pyfloat)"
  by (cases x) auto

lemma fle_trans: "x \<le> y \<Longrightarrow> y \<le> z \<Longrightarrow> x \<le> (z :: pyfloat)"
  by (cases x; cases y; cases z) auto

lemma fless_le_trans: "x < y \<Longrightarrow> y \<le> z \<Longrightarrow> x < (z :: pyfloat)"
  by (cases x; cases y; cases z) auto

lemma fle_less_trans: "x \<le> y \<Longrightarrow> y < z \<Longrightarrow> x < (z :: pyfloat)"
  by (cases x; cases y; cases z) auto

lemma fless_trans: "x < y \<Longrightarrow> y < z \<Longrightarrow> x < (z :: pyfloat)"
  by (cases x; cases y; cases z) auto

lemma fless_imp_le: "x < y \<Longrightarrow> x \<le> (y :: pyfloat)"
  by (cases x; cases y) auto

lemma fnot_less: "x \<noteq> NaN \<Longrightarrow> y \<noteq> NaN \<Longrightarrow> \<not> x < y \<longleftrightarrow> y \<le> (x :: pyfloat)"
  by (cases x; cases y) auto

lemma fle_not_NaN: "x \<le> y \<Longrightarrow> x \<noteq> NaN \<and> y \<noteq> (NaN :: pyfloat)"
  by (cases x; cases y) auto

lemma fless_irrefl [simp]: "\<not> x < (x :: pyfloat)"
  by (cases x) auto

text \<open>\<open>min(a, b)\<close> and \<open>max(a, b)\<close> keep the first argument unless the second is strictly
  smaller, or greater.\<close>

definition py_min :: "'a::ord \<Rightarrow> 'a \<Rightarrow> 'a" where
  "py_min a b = (if b < a then b else a)"

definition py_max :: "'a::ord \<Rightarrow> 'a \<Rightarrow> 'a" where
  "py_max a b = (if a < b then b else a)"

section \<open>Arithmetic\<close>

instantiation pyfloat :: "{zero, one, plus, minus, times, uminus}"
begin

definition zero_pyfloat :: pyfloat where "0 = Fin 0"

definition one_pyfloat :: pyfloat where "1 = Fin 1"

fun uminus_pyfloat :: "pyfloat \<Rightarrow> pyfloat" where
  "uminus_pyfloat (Fin a) = Fin (- a)"
| "uminus_pyfloat PInf = NInf"
| "uminus_pyfloat NInf = PInf"
| "uminus_pyfloat NaN = NaN"

fun plus_pyfloat :: "pyfloat \<Rightarrow> pyfloat \<Rightarrow> pyfloat" where
  "plus_pyfloat (Fin a) (Fin b) = dbl (a + b)"
| "plus_pyfloat NaN _ = NaN"
| "plus_pyfloat _ NaN = NaN"
| "plus_pyfloat PInf NInf = NaN"
| "plus_pyfloat NInf PInf = NaN"
| "plus_pyfloat PInf _ = PInf"
| "plus_pyfloat _ PInf = PInf"
| "plus_pyfloat NInf _ = NInf"
| "plus_pyfloat _ NInf = NInf"

definition minus_pyfloat :: "pyfloat \<Rightarrow> pyfloat \<Rightarrow> pyfloat" where
  "x - y = x + (- y :: pyfloat)"

fun fsign :: "pyfloat \<Rightarrow> rat" where
  "fsign (Fin a) = sgn a"
| "fsign PInf = 1"
| "fsign NInf = -1"
| "fsign NaN = 0"

fun times_pyfloat :: "pyfloat \<Rightarrow> pyfloat \<Rightarrow> pyfloat" where
  "times_pyfloat (Fin a) (Fin b) = dbl (a * b)"
| "times_pyfloat NaN _ = NaN"
| "times_pyfloat _ NaN = NaN"
| "times_pyfloat x y =
     (if fsign x * fsign y = 0 then NaN else if fsign x * fsign y > 0 then PInf else NInf)"

instance ..

end

text \<open>Division; a zero divisor, where Python raises, is excluded at every use in the source.\<close>

fun fdiv :: "pyfloat \<Rightarrow> pyfloat \<Rightarrow> pyfloat" where
  "fdiv (Fin a) (Fin b) = (if b = 0 then NaN else dbl (a / b))"
| "fdiv NaN _ = NaN"
| "fdiv _ NaN = NaN"
| "fdiv (Fin a) _ = Fin 0"
| "fdiv x (Fin b) = (if b = 0 then NaN else if fsign x * sgn b > 0 then PInf else NInf)"
| "fdiv _ _ = NaN"

text \<open>\<open>x // y\<close> for finite operands and a quotient below $2^{53}$.\<close>

fun ffloordiv :: "pyfloat \<Rightarrow> pyfloat \<Rightarrow> pyfloat" where
  "ffloordiv (Fin a) (Fin b) = (if b = 0 then NaN else dbl (of_int \<lfloor>a / b\<rfloor>))"
| "ffloordiv _ _ = NaN"

text \<open>\<open>int(x)\<close> truncates; \<open>float(n)\<close> rounds, and raises beyond the largest float.\<close>

fun py_int_of_float :: "pyfloat \<Rightarrow> int outcome" where
  "py_int_of_float (Fin a) = Inr (if 0 \<le> a then \<lfloor>a\<rfloor> else \<lceil>a\<rceil>)"
| "py_int_of_float NaN = Inl (ValueError ''cannot convert float NaN to integer'')"
| "py_int_of_float _ = Inl OverflowError"

definition py_float_of_int :: "int \<Rightarrow> pyfloat outcome" where
  "py_float_of_int n = (case dbl (of_int n) of Fin a \<Rightarrow> Inr (Fin a) | _ \<Rightarrow> Inl OverflowError)"

lemmas fconst = zero_pyfloat_def one_pyfloat_def

lemma dbl_0 [simp]: "dbl 0 = Fin 0"
  by (simp add: dbl_def nearest_def)

lemma dbl_not_NaN [simp]: "dbl x \<noteq> NaN"
  by (simp add: dbl_def Let_def)

lemma dbl_mono: "x \<le> y \<Longrightarrow> dbl x \<le> dbl y"
  using nearest_mono [of x y] by (auto simp: dbl_def Let_def)

lemma dbl_nonneg: "0 \<le> x \<Longrightarrow> 0 \<le> dbl x"
  using dbl_mono [of 0 x] by (simp add: fconst)

lemma dbl_exact: "representable x \<Longrightarrow> \<bar>x\<bar> < 2 powi 1024 \<Longrightarrow> dbl x = Fin x"
  by (simp add: dbl_def nearest_representable)

lemma dbl_int:
  assumes "\<bar>k\<bar> < 2 ^ 53" shows "dbl (of_int k) = Fin (of_int k)"
proof (rule dbl_exact)
  show "representable (of_int k)" using assms by (rule representable_int)
  have "\<bar>of_int k :: rat\<bar> < 2 ^ 53"
    using assms by (metis of_int_abs of_int_less_numeral_power_cancel_iff)
  also have "(2 :: rat) ^ 53 < 2 ^ 1024" by (rule power_strict_increasing) auto
  finally show "\<bar>of_int k :: rat\<bar> < 2 powi 1024" by (simp add: power_int_def)
qed

lemma dbl_1 [simp]: "dbl 1 = Fin 1"
  using dbl_int [of 1] by simp

text \<open>Small integers survive \<open>int(float(n))\<close>.\<close>

lemma int_float_exact:
  assumes "\<bar>k\<bar> < 2 ^ 53"
  shows "py_float_of_int k = Inr (Fin (of_int k)) \<and> py_int_of_float (Fin (of_int k)) = Inr k"
  using dbl_int [OF assms] by (simp add: py_float_of_int_def)

lemma fadd_nonneg: "0 \<le> x \<Longrightarrow> 0 \<le> y \<Longrightarrow> (0 :: pyfloat) \<le> x + y"
  by (cases x; cases y) (auto simp: zero_pyfloat_def dbl_nonneg [unfolded zero_pyfloat_def])

lemma fmul_nonneg: "0 \<le> Fin a \<Longrightarrow> 0 \<le> Fin b \<Longrightarrow> (0 :: pyfloat) \<le> Fin a * Fin b"
  by (auto simp: zero_pyfloat_def dbl_nonneg [unfolded zero_pyfloat_def])

lemma fdiv_nonneg: "0 \<le> Fin a \<Longrightarrow> 0 < Fin b \<Longrightarrow> (0 :: pyfloat) \<le> fdiv (Fin a) (Fin b)"
  by (auto simp: zero_pyfloat_def dbl_nonneg [unfolded zero_pyfloat_def])

definition clip01 :: "pyfloat \<Rightarrow> pyfloat" where
  "clip01 x = py_min 1 (py_max 0 x)"

lemma clip01_bounds: "0 \<le> clip01 x \<and> clip01 x \<le> 1"
  by (cases x) (auto simp: clip01_def py_min_def py_max_def fconst)

lemma py_min_le: "x \<noteq> NaN \<Longrightarrow> py_min (x :: pyfloat) y \<le> x"
  by (cases x; cases y) (auto simp: py_min_def)

lemma py_min_ge: "z \<le> x \<Longrightarrow> z \<le> y \<or> y = NaN \<Longrightarrow> z \<le> py_min (x :: pyfloat) y"
  by (auto simp: py_min_def)

end
