(* ===== verification/PyObj.thy ===== *)
theory PyObj
  imports PyFloat
begin

text \<open>
  The dynamic values the program passes around: what \<open>json.loads\<close> builds and what a
  record, event or document of the source holds. A Python \<open>str\<close> is its UTF-8 encoding, a
  list of 8-bit characters (code point order is byte order); a \<open>dict\<close> is the list of its
  items in insertion order, and a tuple is a list. The section also holds the conversions the
  source applies to such values: truth, \<open>or\<close>, \<open>str\<close>, \<open>int\<close> and \<open>float\<close>, and the
  \<open>_optional_*\<close> helpers that several modules repeat. White space and digits outside ASCII,
  which Python also accepts in a number, are not accepted here.
\<close>

section \<open>Values\<close>

datatype py_obj =
  is_none: PNone
| is_bool: PBool (the_bool: bool)
| is_int: PInt (the_int: int)
| is_float: PFloat (the_float: pyfloat)
| is_str: PStr (the_str: string)
| is_list: PList (the_list: "py_obj list")
| is_dict: PDict (the_dict: "(string \<times> py_obj) list")

type_synonym py_dict = "(string \<times> py_obj) list"

text \<open>\<open>d.get(k)\<close> and \<open>d.get(k, default)\<close>.\<close>

definition dget_or :: "py_obj \<Rightarrow> py_dict \<Rightarrow> string \<Rightarrow> py_obj" where
  "dget_or dflt d k = (case map_of d k of None \<Rightarrow> dflt | Some v \<Rightarrow> v)"

definition dget :: "py_dict \<Rightarrow> string \<Rightarrow> py_obj" where
  "dget d k = dget_or PNone d k"

definition in_dict :: "string \<Rightarrow> py_dict \<Rightarrow> bool" where
  "in_dict k d \<longleftrightarrow> map_of d k \<noteq> None"

fun py_truth :: "py_obj \<Rightarrow> bool" where
  "py_truth PNone = False"
| "py_truth (PBool b) = b"
| "py_truth (PInt i) = (i \<noteq> 0)"
| "py_truth (PFloat x) = (x \<noteq> Fin 0)"
| "py_truth (PStr s) = (s \<noteq> [])"
| "py_truth (PList xs) = (xs \<noteq> [])"
| "py_truth (PDict d) = (d \<noteq> [])"

text \<open>\<open>a or b\<close>.\<close>

definition py_or :: "py_obj \<Rightarrow> py_obj \<Rightarrow> py_obj" where
  "py_or a b = (if py_truth a then a else b)"

fun of_optional :: "('a \<Rightarrow> py_obj) \<Rightarrow> 'a option \<Rightarrow> py_obj" where
  "of_optional f None = PNone" | "of_optional f (Some x) = f x"

text \<open>An integer that is not a boolean, a number that is not a boolean.\<close>

fun plain_int :: "py_obj \<Rightarrow> int option" where
  "plain_int (PInt i) = Some i" | "plain_int _ = None"

fun plain_number :: "py_obj \<Rightarrow> bool" where
  "plain_number (PInt _) = True" | "plain_number (PFloat _) = True" | "plain_number _ = False"

section \<open>Decimal digits\<close>

definition digit_char :: "nat \<Rightarrow> char" where
  "digit_char d = char_of (48 + d)"

definition is_digit :: "char \<Rightarrow> bool" where
  "is_digit c \<longleftrightarrow> 48 \<le> (of_char c :: nat) \<and> (of_char c :: nat) \<le> 57"

definition digit_val :: "char \<Rightarrow> nat" where
  "digit_val c = of_char c - 48"

text \<open>The digits of a non-negative integer, and the integer that digits denote.\<close>

function dec_digits :: "int \<Rightarrow> string" where
  "dec_digits i =
     (if i < 10 then [digit_char (nat i)]
      else dec_digits (i div 10) @ [digit_char (nat (i mod 10))])"
  by pat_completeness auto
termination
  by (relation "measure nat") auto

declare dec_digits.simps [simp del]

definition dec_value :: "string \<Rightarrow> int" where
  "dec_value s = foldl (\<lambda>n c. 10 * n + int (digit_val c)) 0 s"

definition dec_of_int :: "int \<Rightarrow> string" where
  "dec_of_int i = (if i < 0 then CHR ''-'' # dec_digits (- i) else dec_digits i)"

lemma digit_char [simp]: "d < 10 \<Longrightarrow> is_digit (digit_char d)" "d < 10 \<Longrightarrow> digit_val (digit_char d) = d"
  by (simp_all add: is_digit_def digit_val_def digit_char_def of_char_of)

lemma dec_digits_digits: "0 \<le> i \<Longrightarrow> list_all is_digit (dec_digits i)"
proof (induction i rule: dec_digits.induct)
  case (1 i)
  then show ?case
    by (subst dec_digits.simps) (auto simp: nat_less_iff intro!: digit_char(1))
qed

lemma dec_digits_nonempty [simp]: "dec_digits i \<noteq> []"
  by (subst dec_digits.simps) simp

lemma dec_value_snoc: "dec_value (s @ [c]) = 10 * dec_value s + int (digit_val c)"
  by (simp add: dec_value_def)

lemma dec_value_digits [simp]: "0 \<le> i \<Longrightarrow> dec_value (dec_digits i) = i"
proof (induction i rule: dec_digits.induct)
  case (1 i)
  show ?case
  proof (cases "i < 10")
    case True with 1 show ?thesis by (subst dec_digits.simps) (simp add: dec_value_def nat_less_iff)
  next
    case False with 1 show ?thesis
      by (subst dec_digits.simps) (simp add: dec_value_snoc nat_less_iff)
  qed
qed

text \<open>No leading zero, unless the number is zero.\<close>

lemma dec_digits_hd: "0 < i \<Longrightarrow> hd (dec_digits i) \<noteq> CHR ''0''"
proof (induction i rule: dec_digits.induct)
  case (1 i)
  show ?case
  proof (cases "i < 10")
    case True
    with 1 have "digit_val (digit_char (nat i)) \<noteq> digit_val (CHR ''0'')"
      by (subst digit_char) (simp_all add: digit_val_def nat_less_iff)
    then have "digit_char (nat i) \<noteq> CHR ''0''" by metis
    with True show ?thesis by (subst dec_digits.simps) simp
  next
    case False with 1 show ?thesis by (subst dec_digits.simps) simp
  qed
qed

section \<open>Numbers in text\<close>

text \<open>A run of digits in which single underscores may separate digits.\<close>

fun more_digits :: "string \<Rightarrow> string \<times> string" where
  "more_digits [] = ([], [])"
| "more_digits (c # cs) =
     (if is_digit c then (let (ds, r) = more_digits cs in (c # ds, r))
      else case cs of
             [] \<Rightarrow> ([], [c])
           | d # _ \<Rightarrow> if c = CHR ''_'' \<and> is_digit d then more_digits cs else ([], c # cs))"

fun digit_part :: "string \<Rightarrow> string \<times> string" where
  "digit_part [] = ([], [])"
| "digit_part (c # cs) = (if is_digit c then more_digits (c # cs) else ([], c # cs))"

definition is_space :: "char \<Rightarrow> bool" where
  "is_space c \<longleftrightarrow> (of_char c :: nat) \<in> {9, 10, 11, 12, 13, 28, 29, 30, 31, 32}"

definition py_strip :: "string \<Rightarrow> string" where
  "py_strip s = rev (dropWhile is_space (rev (dropWhile is_space s)))"

fun py_sign :: "string \<Rightarrow> bool \<times> string" where
  "py_sign (c # cs) =
     (if c = CHR ''-'' then (True, cs) else if c = CHR ''+'' then (False, cs) else (False, c # cs))"
| "py_sign [] = (False, [])"

definition lower_char :: "char \<Rightarrow> char" where
  "lower_char c = (let n = of_char c :: nat in if 65 \<le> n \<and> n \<le> 90 then char_of (n + 32) else c)"

text \<open>The exponent of a float literal: \<open>Some 0\<close> when there is none.\<close>

definition exponent_part :: "string \<Rightarrow> int option" where
  "exponent_part s =
     (case s of
        [] \<Rightarrow> Some 0
      | c # cs \<Rightarrow>
          if lower_char c \<noteq> CHR ''e'' then None
          else case py_sign cs of (neg, r) \<Rightarrow>
            case digit_part r of (ds, rest) \<Rightarrow>
              if ds = [] \<or> rest \<noteq> [] then None
              else Some (if neg then - dec_value ds else dec_value ds))"

definition decimal_value :: "bool \<Rightarrow> string \<Rightarrow> string \<Rightarrow> int \<Rightarrow> rat" where
  "decimal_value neg ds fs e =
     (if neg then -1 else 1) * of_int (dec_value (ds @ fs)) * 10 powi (e - int (length fs))"

text \<open>\<open>float(s)\<close> for text, \<open>None\<close> where it raises ValueError.\<close>

definition py_float_of_str :: "string \<Rightarrow> pyfloat option" where
  "py_float_of_str s0 =
     (case py_sign (py_strip s0) of (neg, s) \<Rightarrow>
        if map lower_char s \<in> {''inf'', ''infinity''} then Some (if neg then NInf else PInf)
        else if map lower_char s = ''nan'' then Some NaN
        else case digit_part s of (ds, r) \<Rightarrow>
          case (case r of c # cs \<Rightarrow> if c = CHR ''.'' then digit_part cs else ([], r)
                        | [] \<Rightarrow> ([], [])) of (fs, rest) \<Rightarrow>
            if ds = [] \<and> fs = [] then None
            else map_option (\<lambda>e. dbl (decimal_value neg ds fs e)) (exponent_part rest))"

text \<open>A number compared by its exact value.\<close>

fun exact_number :: "py_obj \<Rightarrow> pyfloat" where
  "exact_number (PInt i) = Fin (of_int i)"
| "exact_number (PFloat x) = x"
| "exact_number _ = NaN"

text \<open>\<open>int(s)\<close> for text; more than 4300 digits raise as well.\<close>

definition py_int_of_str :: "string \<Rightarrow> int option" where
  "py_int_of_str s0 =
     (case py_sign (py_strip s0) of (neg, s) \<Rightarrow>
        case digit_part s of (ds, r) \<Rightarrow>
          if ds = [] \<or> r \<noteq> [] \<or> 4300 < length ds then None
          else Some (if neg then - dec_value ds else dec_value ds))"

section \<open>Conversions\<close>

fun py_float :: "py_obj \<Rightarrow> pyfloat outcome" where
  "py_float (PBool b) = Inr (if b then 1 else 0)"
| "py_float (PInt i) = py_float_of_int i"
| "py_float (PFloat x) = Inr x"
| "py_float (PStr s) =
     (case py_float_of_str s of
        None \<Rightarrow> Inl (ValueError ''could not convert string to float'') | Some x \<Rightarrow> Inr x)"
| "py_float _ = Inl TypeError"

text \<open>\<open>int(float(value))\<close>.\<close>

definition int_of_float_of :: "py_obj \<Rightarrow> int outcome" where
  "int_of_float_of v = (case py_float v of Inl e \<Rightarrow> Inl e | Inr x \<Rightarrow> py_int_of_float x)"

section \<open>Text of a value\<close>

text \<open>The decimal exponent of a positive rational, and the shortest digits that read back as it.\<close>

definition dec_exp :: "rat \<Rightarrow> int" where
  "dec_exp x =
     (case quotient_of x of (p, q) \<Rightarrow>
        let e = int (length (dec_digits p)) - int (length (dec_digits q))
        in if 10 powi e \<le> x then e else e - 1)"

text \<open>The decimal with \<open>p\<close> significant digits nearest to \<open>x\<close> among those that round to it.\<close>

definition digits_at :: "rat \<Rightarrow> nat \<Rightarrow> (int \<times> int) option" where
  "digits_at x p =
     (let s = dec_exp x - int p + 1;
          m = \<lfloor>x / 10 powi s\<rfloor>;
          good = (\<lambda>k. nearest (of_int k * 10 powi s) = x)
      in if good m \<and> (\<not> good (m + 1) \<or> x / 10 powi s - of_int m \<le> 1/2) then Some (m, s)
         else if good (m + 1) then Some (m + 1, s) else None)"

fun shortest_from :: "rat \<Rightarrow> nat \<Rightarrow> nat \<Rightarrow> int \<times> int" where
  "shortest_from x p 0 = (\<lfloor>x / 10 powi (dec_exp x - 16)\<rfloor>, dec_exp x - 16)"
| "shortest_from x p (Suc k) =
     (case digits_at x p of Some r \<Rightarrow> r | None \<Rightarrow> shortest_from x (p + 1) k)"

definition trim_zeros :: "string \<Rightarrow> string" where
  "trim_zeros s = rev (dropWhile (\<lambda>c. c = CHR ''0'') (rev s))"

definition repr_exponent :: "int \<Rightarrow> string" where
  "repr_exponent e =
     (let ds = dec_digits \<bar>e\<bar>
      in ''e'' @ (if e < 0 then ''-'' else ''+'') @ (if length ds < 2 then CHR ''0'' # ds else ds))"

definition repr_digits :: "string \<Rightarrow> int \<Rightarrow> string" where
  "repr_digits ds pt =
     (if pt \<le> -4 \<or> 16 < pt
      then take 1 ds @ (if length ds = 1 then [] else CHR ''.'' # drop 1 ds) @ repr_exponent (pt - 1)
      else if pt \<le> 0 then ''0.'' @ replicate (nat (- pt)) (CHR ''0'') @ ds
      else if int (length ds) \<le> pt
      then ds @ replicate (nat pt - length ds) (CHR ''0'') @ ''.0''
      else take (nat pt) ds @ ''.'' @ drop (nat pt) ds)"

fun float_repr :: "pyfloat \<Rightarrow> string" where
  "float_repr PInf = ''inf''"
| "float_repr NInf = ''-inf''"
| "float_repr NaN = ''nan''"
| "float_repr (Fin x) =
     (if x = 0 then ''0.0''
      else case shortest_from \<bar>x\<bar> 1 17 of (m, s) \<Rightarrow>
        let ds = dec_digits m
        in (if x < 0 then ''-'' else []) @ repr_digits (trim_zeros ds) (s + int (length ds)))"

text \<open>\<open>repr\<close> of a string; characters outside ASCII count as printable.\<close>

definition hex_digit :: "nat \<Rightarrow> char" where
  "hex_digit d = (if d < 10 then char_of (48 + d) else char_of (87 + d))"

definition repr_char :: "char \<Rightarrow> char \<Rightarrow> string" where
  "repr_char q c =
     (let n = of_char c :: nat
      in if c = q \<or> n = 92 then [CHR 0x5C, c]
         else if n = 10 then [CHR 0x5C, CHR ''n'']
         else if n = 13 then [CHR 0x5C, CHR ''r'']
         else if n = 9 then [CHR 0x5C, CHR ''t'']
         else if n < 32 \<or> n = 127
         then [CHR 0x5C, CHR ''x'', hex_digit (n div 16), hex_digit (n mod 16)]
         else [c])"

definition str_repr :: "string \<Rightarrow> string" where
  "str_repr s =
     (let q = (if CHR 0x27 \<in> set s \<and> CHR 0x22 \<notin> set s then CHR 0x22 else CHR 0x27)
      in [q] @ concat (map (repr_char q) s) @ [q])"

fun join_with :: "string \<Rightarrow> string list \<Rightarrow> string" where
  "join_with sep [] = []"
| "join_with sep [s] = s"
| "join_with sep (s # t # ss) = s @ sep @ join_with sep (t # ss)"

primrec py_repr :: "py_obj \<Rightarrow> string" where
  "py_repr PNone = ''None''"
| "py_repr (PBool b) = (if b then ''True'' else ''False'')"
| "py_repr (PInt i) = dec_of_int i"
| "py_repr (PFloat x) = float_repr x"
| "py_repr (PStr s) = str_repr s"
| "py_repr (PList xs) = ''['' @ join_with '', '' (map py_repr xs) @ '']''"
| "py_repr (PDict d) =
     ''{'' @ join_with '', '' (map (\<lambda>(k, r). str_repr k @ '': '' @ r) (map (map_prod id py_repr) d)) @ ''}''"

definition py_str :: "py_obj \<Rightarrow> string" where
  "py_str v = (case v of PStr s \<Rightarrow> s | _ \<Rightarrow> py_repr v)"

lemma py_str_simps [simp]: "py_str (PStr s) = s" "py_str (PInt i) = dec_of_int i"
  by (simp_all add: py_str_def)

end
