(* ===== verification/Json.thy ===== *)
theory Json
  imports PyObj
begin

text \<open>
  The parts of Python's \<open>json\<close> module and of its UTF-8 codec that the program uses:
  \<open>json.dumps(v, sort_keys=True, separators=(",", ":"))\<close> with \<open>allow_nan\<close> either way,
  \<open>json.loads\<close>, and \<open>bytes.decode("utf-8")\<close>. The parser takes fuel; the amount
  \<open>json_loads\<close> passes is always enough (\<open>json_loads_fuel\<close>). Python's limit on
  nesting depth is not modelled.
\<close>

section \<open>UTF-8\<close>

abbreviation byte :: "char \<Rightarrow> int" where
  "byte c \<equiv> of_char c"

definition is_cont :: "int \<Rightarrow> char \<Rightarrow> bool" where
  "is_cont lo c \<longleftrightarrow> lo \<le> byte c \<and> byte c \<le> 191"

fun utf8_ok :: "string \<Rightarrow> bool" where
  "utf8_ok [] = True"
| "utf8_ok [a] = (byte a < 128)"
| "utf8_ok [a, b] =
     (if byte a < 128 then utf8_ok [b]
      else 194 \<le> byte a \<and> byte a \<le> 223 \<and> is_cont 128 b)"
| "utf8_ok [a, b, c] =
     (if byte a < 128 then utf8_ok [b, c]
      else if 194 \<le> byte a \<and> byte a \<le> 223 then is_cont 128 b \<and> utf8_ok [c]
      else 224 \<le> byte a \<and> byte a \<le> 239 \<and> is_cont (if byte a = 224 then 160 else 128) b \<and>
           (byte a = 237 \<longrightarrow> byte b \<le> 159) \<and> is_cont 128 c)"
| "utf8_ok (a # b # c # d # s) =
     (if byte a < 128 then utf8_ok (b # c # d # s)
      else if 194 \<le> byte a \<and> byte a \<le> 223 then is_cont 128 b \<and> utf8_ok (c # d # s)
      else if 224 \<le> byte a \<and> byte a \<le> 239
      then is_cont (if byte a = 224 then 160 else 128) b \<and>
           (byte a = 237 \<longrightarrow> byte b \<le> 159) \<and> is_cont 128 c \<and> utf8_ok (d # s)
      else 240 \<le> byte a \<and> byte a \<le> 244 \<and> is_cont (if byte a = 240 then 144 else 128) b \<and>
           (byte a = 244 \<longrightarrow> byte b \<le> 143) \<and> is_cont 128 c \<and> is_cont 128 d \<and> utf8_ok s)"

definition decode_utf8 :: "string \<Rightarrow> string outcome" where
  "decode_utf8 bs = (if utf8_ok bs then Inr bs else Inl UnicodeDecodeError)"

definition chr_of :: "int \<Rightarrow> char" where
  "chr_of n = char_of n"

definition utf8_encode :: "int \<Rightarrow> string" where
  "utf8_encode n =
     (if n < 128 then [chr_of n]
      else if n < 2048 then [chr_of (192 + n div 64), chr_of (128 + n mod 64)]
      else if n < 65536
      then [chr_of (224 + n div 4096), chr_of (128 + n div 64 mod 64), chr_of (128 + n mod 64)]
      else [chr_of (240 + n div 262144), chr_of (128 + n div 4096 mod 64),
            chr_of (128 + n div 64 mod 64), chr_of (128 + n mod 64)])"

text \<open>The code points of a string held as UTF-8.\<close>

fun points :: "string \<Rightarrow> int list" where
  "points [] = []"
| "points [a] = [byte a]"
| "points [a, b] =
     (if byte a < 128 then byte a # points [b] else [(byte a - 192) * 64 + (byte b - 128)])"
| "points [a, b, c] =
     (if byte a < 128 then byte a # points [b, c]
      else if byte a < 224 then ((byte a - 192) * 64 + (byte b - 128)) # points [c]
      else [(byte a - 224) * 4096 + (byte b - 128) * 64 + (byte c - 128)])"
| "points (a # b # c # d # s) =
     (if byte a < 128 then byte a # points (b # c # d # s)
      else if byte a < 224 then ((byte a - 192) * 64 + (byte b - 128)) # points (c # d # s)
      else if byte a < 240
      then ((byte a - 224) * 4096 + (byte b - 128) * 64 + (byte c - 128)) # points (d # s)
      else ((byte a - 240) * 262144 + (byte b - 128) * 4096 + (byte c - 128) * 64 +
            (byte d - 128)) # points s)"

section \<open>Writing\<close>

definition hex4 :: "int \<Rightarrow> string" where
  "hex4 n = map (\<lambda>d. hex_digit (nat d))
     [n div 4096 mod 16, n div 256 mod 16, n div 16 mod 16, n mod 16]"

definition escape_unit :: "int \<Rightarrow> string" where
  "escape_unit n = CHR 0x5C # CHR ''u'' # hex4 n"

definition escape_point :: "int \<Rightarrow> string" where
  "escape_point n =
     (if n = 34 then [CHR 0x5C, CHR 0x22]
      else if n = 92 then [CHR 0x5C, CHR 0x5C]
      else if n = 10 then [CHR 0x5C, CHR ''n'']
      else if n = 13 then [CHR 0x5C, CHR ''r'']
      else if n = 9 then [CHR 0x5C, CHR ''t'']
      else if n = 12 then [CHR 0x5C, CHR ''f'']
      else if n = 8 then [CHR 0x5C, CHR ''b'']
      else if 32 \<le> n \<and> n \<le> 126 then [chr_of n]
      else if n < 65536 then escape_unit n
      else escape_unit (55296 + (n - 65536) div 1024) @ escape_unit (56320 + (n - 65536) mod 1024))"

definition dump_string :: "string \<Rightarrow> string" where
  "dump_string s = CHR 0x22 # concat (map escape_point (points s)) @ [CHR 0x22]"

definition dump_float :: "bool \<Rightarrow> pyfloat \<Rightarrow> string outcome" where
  "dump_float allow_nan x =
     (if is_fin x then Inr (float_repr x)
      else if \<not> allow_nan then Inl (ValueError ''Out of range float values are not JSON compliant'')
      else Inr (case x of NaN \<Rightarrow> ''NaN'' | NInf \<Rightarrow> ''-Infinity'' | _ \<Rightarrow> ''Infinity''))"

primrec json_dumps :: "bool \<Rightarrow> py_obj \<Rightarrow> string outcome" where
  "json_dumps nan PNone = Inr ''null''"
| "json_dumps nan (PBool b) = Inr (if b then ''true'' else ''false'')"
| "json_dumps nan (PInt i) = Inr (dec_of_int i)"
| "json_dumps nan (PFloat x) = dump_float nan x"
| "json_dumps nan (PStr s) = Inr (dump_string s)"
| "json_dumps nan (PList xs) =
     (case collect (map (json_dumps nan) xs) of
        Inl e \<Rightarrow> Inl e | Inr ss \<Rightarrow> Inr (''['' @ join_with '','' ss @ '']''))"
| "json_dumps nan (PDict d) =
     (case collect (map (\<lambda>(k, r). map_sum id (\<lambda>s. dump_string k @ '':'' @ s) r)
                        (sort_key fst (map (map_prod id (json_dumps nan)) d))) of
        Inl e \<Rightarrow> Inl e | Inr ss \<Rightarrow> Inr (''{'' @ join_with '','' ss @ ''}''))"

section \<open>Reading\<close>

definition skip_ws :: "string \<Rightarrow> string" where
  "skip_ws s = dropWhile (\<lambda>c. c \<in> {CHR '' '', CHR 0x09, CHR 0x0A, CHR 0x0D}) s"

definition hex_val :: "char \<Rightarrow> int option" where
  "hex_val c =
     (let n = byte c
      in if 48 \<le> n \<and> n \<le> 57 then Some (n - 48)
         else if 65 \<le> n \<and> n \<le> 70 then Some (n - 55)
         else if 97 \<le> n \<and> n \<le> 102 then Some (n - 87) else None)"

fun read_hex4 :: "string \<Rightarrow> (int \<times> string) option" where
  "read_hex4 (a # b # c # d # s) =
     (case (hex_val a, hex_val b, hex_val c, hex_val d) of
        (Some w, Some x, Some y, Some z) \<Rightarrow> Some (((w * 16 + x) * 16 + y) * 16 + z, s)
      | _ \<Rightarrow> None)"
| "read_hex4 _ = None"

definition plain_escape :: "char \<Rightarrow> char option" where
  "plain_escape c =
     (if c \<in> {CHR 0x22, CHR 0x5C, CHR ''/''} then Some c
      else if c = CHR ''b'' then Some (CHR 0x08)
      else if c = CHR ''f'' then Some (CHR 0x0C)
      else if c = CHR ''n'' then Some (CHR 0x0A)
      else if c = CHR ''r'' then Some (CHR 0x0D)
      else if c = CHR ''t'' then Some (CHR 0x09) else None)"

text \<open>A low surrogate escape that follows a high one; the pair is one code point.\<close>

definition low_surrogate :: "string \<Rightarrow> (int \<times> string) option" where
  "low_surrogate s =
     (case s of
        a # b # r \<Rightarrow>
          if a = CHR 0x5C \<and> b = CHR ''u''
          then (case read_hex4 r of
                  Some (n, r') \<Rightarrow> if 56320 \<le> n \<and> n \<le> 57343 then Some (n, r') else None
                | None \<Rightarrow> None)
          else None
      | _ \<Rightarrow> None)"

text \<open>The text of a string up to its closing quote, decoded, and what follows it.\<close>

fun scan_string :: "nat \<Rightarrow> string \<Rightarrow> (string \<times> string) option" where
  "scan_string 0 s = None"
| "scan_string (Suc n) s =
     (case s of
        [] \<Rightarrow> None
      | c # cs \<Rightarrow>
          if c = CHR 0x22 then Some ([], cs)
          else if byte c < 32 then None
          else if c \<noteq> CHR 0x5C then map_option (map_prod (Cons c) id) (scan_string n cs)
          else (case cs of
                  [] \<Rightarrow> None
                | d # ds \<Rightarrow>
                    if d = CHR ''u'' then
                      (case read_hex4 ds of
                         None \<Rightarrow> None
                       | Some (u, r) \<Rightarrow>
                           (case (if 55296 \<le> u \<and> u \<le> 56319 then low_surrogate r else None) of
                              Some (w, r') \<Rightarrow>
                                map_option (map_prod ((@) (utf8_encode
                                    (65536 + (u - 55296) * 1024 + (w - 56320)))) id)
                                  (scan_string n r')
                            | None \<Rightarrow>
                                map_option (map_prod ((@) (utf8_encode u)) id) (scan_string n r)))
                    else (case plain_escape d of
                            None \<Rightarrow> None
                          | Some e \<Rightarrow> map_option (map_prod (Cons e) id) (scan_string n ds))))"

text \<open>A number: an integer unless a fraction or an exponent follows.\<close>

definition scan_fraction :: "string \<Rightarrow> string \<times> string" where
  "scan_fraction s =
     (case s of
        c # cs \<Rightarrow>
          if c = CHR ''.'' \<and> takeWhile is_digit cs \<noteq> []
          then (takeWhile is_digit cs, dropWhile is_digit cs) else ([], s)
      | [] \<Rightarrow> ([], []))"

definition scan_exponent :: "string \<Rightarrow> int option \<times> string" where
  "scan_exponent s =
     (case s of
        c # cs \<Rightarrow>
          (case py_sign cs of (neg, r) \<Rightarrow>
             if lower_char c = CHR ''e'' \<and> takeWhile is_digit r \<noteq> []
             then (Some (if neg then - dec_value (takeWhile is_digit r)
                         else dec_value (takeWhile is_digit r)), dropWhile is_digit r)
             else (None, s))
      | [] \<Rightarrow> (None, []))"

definition scan_int :: "string \<Rightarrow> (string \<times> string) option" where
  "scan_int s =
     (case s of
        [] \<Rightarrow> None
      | c # cs \<Rightarrow>
          if c = CHR ''0'' then Some ([c], cs)
          else if is_digit c then Some (takeWhile is_digit s, dropWhile is_digit s) else None)"

definition scan_number :: "bool \<Rightarrow> string \<Rightarrow> (py_obj \<times> string) outcome" where
  "scan_number neg s =
     (case scan_int s of
        None \<Rightarrow> Inl JSONDecodeError
      | Some (ds, r) \<Rightarrow>
          case scan_fraction r of (fs, r1) \<Rightarrow>
            case scan_exponent r1 of (ex, r2) \<Rightarrow>
              if fs = [] \<and> ex = None then
                if 4300 < length ds then Inl (ValueError ''Exceeds the limit for integer string conversion'')
                else Inr (PInt (if neg then - dec_value ds else dec_value ds), r2)
              else Inr (PFloat (dbl (decimal_value neg ds fs (case ex of None \<Rightarrow> 0 | Some e \<Rightarrow> e))), r2))"

fun strip_prefix :: "string \<Rightarrow> string \<Rightarrow> string option" where
  "strip_prefix [] s = Some s"
| "strip_prefix (p # ps) (c # cs) = (if p = c then strip_prefix ps cs else None)"
| "strip_prefix (p # ps) [] = None"

definition scan_atom :: "string \<Rightarrow> (py_obj \<times> string) outcome" where
  "scan_atom s =
     (case strip_prefix ''null'' s of Some r \<Rightarrow> Inr (PNone, r) | None \<Rightarrow>
      case strip_prefix ''true'' s of Some r \<Rightarrow> Inr (PBool True, r) | None \<Rightarrow>
      case strip_prefix ''false'' s of Some r \<Rightarrow> Inr (PBool False, r) | None \<Rightarrow>
      case strip_prefix ''NaN'' s of Some r \<Rightarrow> Inr (PFloat NaN, r) | None \<Rightarrow>
      case strip_prefix ''Infinity'' s of Some r \<Rightarrow> Inr (PFloat PInf, r) | None \<Rightarrow>
      case strip_prefix ''-Infinity'' s of Some r \<Rightarrow> Inr (PFloat NInf, r) | None \<Rightarrow>
      case strip_prefix ''-'' s of Some r \<Rightarrow> scan_number True r | None \<Rightarrow> scan_number False s)"

fun parse_value :: "nat \<Rightarrow> string \<Rightarrow> (py_obj \<times> string) outcome"
and parse_elements :: "nat \<Rightarrow> py_obj list \<Rightarrow> string \<Rightarrow> (py_obj \<times> string) outcome"
and parse_members :: "nat \<Rightarrow> py_dict \<Rightarrow> string \<Rightarrow> (py_obj \<times> string) outcome" where
  "parse_value 0 s = Inl RecursionError"
| "parse_value (Suc n) s =
     (case s of
        [] \<Rightarrow> Inl JSONDecodeError
      | c # cs \<Rightarrow>
          if c = CHR 0x22 then
            (case scan_string (length s) cs of
               None \<Rightarrow> Inl JSONDecodeError | Some (t, r) \<Rightarrow> Inr (PStr t, r))
          else if c = CHR ''['' then
            (case strip_prefix '']'' (skip_ws cs) of
               Some r \<Rightarrow> Inr (PList [], r) | None \<Rightarrow> parse_elements n [] (skip_ws cs))
          else if c = CHR ''{'' then
            (case strip_prefix ''}'' (skip_ws cs) of
               Some r \<Rightarrow> Inr (PDict [], r) | None \<Rightarrow> parse_members n [] (skip_ws cs))
          else scan_atom s)"
| "parse_elements 0 acc s = Inl RecursionError"
| "parse_elements (Suc n) acc s =
     (case parse_value n s of
        Inl e \<Rightarrow> Inl e
      | Inr (v, r) \<Rightarrow>
          (case skip_ws r of
             [] \<Rightarrow> Inl JSONDecodeError
           | c # cs \<Rightarrow>
               if c = CHR '','' then parse_elements n (acc @ [v]) (skip_ws cs)
               else if c = CHR '']'' then Inr (PList (acc @ [v]), cs)
               else Inl JSONDecodeError))"
| "parse_members 0 acc s = Inl RecursionError"
| "parse_members (Suc n) acc s =
     (case strip_prefix [CHR 0x22] s of
        None \<Rightarrow> Inl JSONDecodeError
      | Some s1 \<Rightarrow>
          (case scan_string (length s) s1 of
             None \<Rightarrow> Inl JSONDecodeError
           | Some (k, r) \<Rightarrow>
               (case strip_prefix '':'' (skip_ws r) of
                  None \<Rightarrow> Inl JSONDecodeError
                | Some r1 \<Rightarrow>
                    (case parse_value n (skip_ws r1) of
                       Inl e \<Rightarrow> Inl e
                     | Inr (v, r2) \<Rightarrow>
                         (case skip_ws r2 of
                            [] \<Rightarrow> Inl JSONDecodeError
                          | c # cs \<Rightarrow>
                              if c = CHR '','' then parse_members n (AList.update k v acc) (skip_ws cs)
                              else if c = CHR ''}'' then Inr (PDict (AList.update k v acc), cs)
                              else Inl JSONDecodeError)))))"

definition json_loads :: "string \<Rightarrow> py_obj outcome" where
  "json_loads s =
     (case parse_value (2 * length s + 2) (skip_ws s) of
        Inl e \<Rightarrow> Inl e
      | Inr (v, r) \<Rightarrow> if skip_ws r = [] then Inr v else Inl JSONDecodeError)"

section \<open>The fuel is enough\<close>

lemma length_skip_ws: "length (skip_ws s) \<le> length s"
  by (simp add: skip_ws_def length_dropWhile_le)

lemma strip_prefix_length: "strip_prefix p s = Some r \<Longrightarrow> length s = length p + length r"
  by (induction p s rule: strip_prefix.induct) (auto split: if_splits)

lemma read_hex4_length: "read_hex4 s = Some (n, r) \<Longrightarrow> length r < length s"
  by (induction s rule: read_hex4.induct) (auto split: option.splits)

lemma low_surrogate_length: "low_surrogate s = Some (n, r) \<Longrightarrow> length r < length s"
  by (auto simp: low_surrogate_def split: list.splits if_splits option.splits dest!: read_hex4_length)

lemma scan_string_length: "scan_string n s = Some (t, r) \<Longrightarrow> length r < length s"
proof (induction n arbitrary: s t r)
  case (Suc n)
  then show ?case
    by (auto split: list.splits if_splits option.splits prod.splits
        dest!: Suc.IH read_hex4_length low_surrogate_length)
qed simp

declare scan_string.simps [simp del]

lemma scan_fraction_length: "scan_fraction s = (fs, r) \<Longrightarrow> length r \<le> length s"
  by (auto simp: scan_fraction_def le_SucI length_dropWhile_le split: list.splits if_splits)

lemma py_sign_length: "py_sign s = (b, r) \<Longrightarrow> length r \<le> length s"
  by (cases s) (auto split: if_splits)

lemma scan_exponent_length: "scan_exponent s = (e, r) \<Longrightarrow> length r \<le> length s"
  by (auto simp: scan_exponent_def split: list.splits if_splits prod.splits dest!: py_sign_length
      intro: le_trans [OF length_dropWhile_le] le_SucI)

lemma scan_int_length: "scan_int s = Some (ds, r) \<Longrightarrow> length r < length s"
  by (auto simp: scan_int_def less_Suc_eq_le length_dropWhile_le split: list.splits if_splits)

lemma scan_number_length: "scan_number b s = Inr (v, r) \<Longrightarrow> length r < length s"
  by (auto simp: scan_number_def split: option.splits prod.splits if_splits
      dest!: scan_int_length scan_fraction_length scan_exponent_length)

lemma scan_number_error: "scan_number b s \<noteq> Inl RecursionError"
  by (auto simp: scan_number_def split: option.splits prod.splits)

lemma strip_prefix_Cons_length: "strip_prefix (p # ps) s = Some r \<Longrightarrow> length r < length s"
  by (drule strip_prefix_length) simp

lemma atom_case:
  assumes "(case strip_prefix (p # ps) s of Some q \<Rightarrow> Inr (w, q) | None \<Rightarrow> k) = Inr (v, r)"
    and "k = Inr (v, r) \<Longrightarrow> length r < length s"
  shows "length r < length s"
  using assms by (auto split: option.splits dest: strip_prefix_Cons_length)

lemma scan_atom_length: "scan_atom s = Inr (v, r) \<Longrightarrow> length r < length s"
  unfolding scan_atom_def
  apply (erule atom_case)+
  apply (auto split: option.splits dest!: scan_number_length strip_prefix_Cons_length)
  done

lemma scan_atom_error: "scan_atom s \<noteq> Inl RecursionError"
  unfolding scan_atom_def by (simp add: scan_number_error split: option.split)

lemma after_bracket:
  assumes "(case strip_prefix (p # ps) (skip_ws cs) of Some q \<Rightarrow> Inr (w, q) | None \<Rightarrow> k) = Inr (v, r)"
    and "k = Inr (v, r) \<Longrightarrow> length r < length (skip_ws cs)"
  shows "length r < Suc (length cs)"
  using atom_case [OF assms] length_skip_ws [of cs] by linarith

lemma parse_length:
  "parse_value n s = Inr (v, r) \<Longrightarrow> length r < length s"
  "parse_elements n acc s = Inr (v, r) \<Longrightarrow> length r < length s"
  "parse_members n d s = Inr (v, r) \<Longrightarrow> length r < length s"
proof (induction n arbitrary: s v r acc d)
  case (Suc n)
  { case 1
    show ?case
    proof (cases s)
      case (Cons c cs)
      consider (str) "c = CHR 0x22" | (arr) "c = CHR ''[''" | (obj) "c = CHR ''{''"
        | (atom) "scan_atom s = Inr (v, r)" "c \<notin> {CHR 0x22, CHR ''['', CHR ''{''}"
        using 1 Cons by (auto split: if_splits)
      then show ?thesis
      proof cases
        case str
        then show ?thesis
          using 1 Cons by (fastforce split: option.splits dest!: scan_string_length)
      next
        case arr
        with 1 Cons have "(case strip_prefix '']'' (skip_ws cs) of
            Some q \<Rightarrow> Inr (PList [], q) | None \<Rightarrow> parse_elements n [] (skip_ws cs)) = Inr (v, r)" by simp
        then show ?thesis using Cons Suc.IH(2) by (simp add: after_bracket)
      next
        case obj
        with 1 Cons have "(case strip_prefix ''}'' (skip_ws cs) of
            Some q \<Rightarrow> Inr (PDict [], q) | None \<Rightarrow> parse_members n [] (skip_ws cs)) = Inr (v, r)" by simp
        then show ?thesis using Cons Suc.IH(3) by (simp add: after_bracket)
      next
        case atom then show ?thesis by (simp add: scan_atom_length)
      qed
    qed (use 1 in simp) }
  { case 2
    then obtain w q where a: "parse_value n s = Inr (w, q)" by (auto split: sum.splits)
    from a 2 obtain c cs where b: "skip_ws q = c # cs" by (auto split: list.splits)
    have l: "length cs < length q" "length q < length s"
      using length_skip_ws [of q] b Suc.IH(1) [OF a] by auto
    show ?case
    proof (cases "c = CHR '',''")
      case True
      then have "parse_elements n (acc @ [w]) (skip_ws cs) = Inr (v, r)" using 2 a b by simp
      from Suc.IH(2) [OF this] show ?thesis using l length_skip_ws [of cs] by linarith
    next
      case False then show ?thesis using 2 a b l by (auto split: if_splits)
    qed }
  { case 3
    then obtain s1 k q0 s2 where a: "strip_prefix [CHR 0x22] s = Some s1"
        "scan_string (length s) s1 = Some (k, q0)" "strip_prefix '':'' (skip_ws q0) = Some s2"
      by (auto split: option.splits)
    with 3 obtain w q where b: "parse_value n (skip_ws s2) = Inr (w, q)" by (auto split: sum.splits)
    from a b 3 obtain c cs where c: "skip_ws q = c # cs" by (auto split: list.splits)
    have l: "length cs < length q" "length q < length s2" "length s2 < length q0" "length q0 < length s"
      using length_skip_ws [of q] c Suc.IH(1) [OF b] length_skip_ws [of s2] length_skip_ws [of q0]
        scan_string_length [OF a(2)] strip_prefix_Cons_length [OF a(1)] strip_prefix_Cons_length [OF a(3)]
      by auto
    show ?case
    proof (cases "c = CHR '',''")
      case True
      then have "parse_members n (AList.update k w d) (skip_ws cs) = Inr (v, r)" using 3 a b c by simp
      from Suc.IH(3) [OF this] show ?thesis using l length_skip_ws [of cs] by linarith
    next
      case False then show ?thesis using 3 a b c l by (auto split: if_splits)
    qed }
qed simp_all

lemma parse_fuel:
  "2 * length s < n \<Longrightarrow> parse_value n s \<noteq> Inl RecursionError"
  "2 * length s + 1 < n \<Longrightarrow> parse_elements n acc s \<noteq> Inl RecursionError"
  "2 * length s + 1 < n \<Longrightarrow> parse_members n d s \<noteq> Inl RecursionError"
proof (induction n arbitrary: s acc d)
  case (Suc n)
  { case 1
    show ?case
    proof (cases s)
      case (Cons c cs)
      have "2 * length (skip_ws cs) + 1 < n" using 1 Cons length_skip_ws [of cs] by simp
      then show ?thesis
        using Cons Suc.IH(2) [of "skip_ws cs" "[]"] Suc.IH(3) [of "skip_ws cs" "[]"] scan_atom_error [of s]
        by (simp split: option.split)
    qed simp }
  { case 2
    have v: "parse_value n s \<noteq> Inl RecursionError" using 2 by (intro Suc.IH(1)) simp
    have "parse_elements n (acc @ [w]) (skip_ws cs) \<noteq> Inl RecursionError"
      if "parse_value n s = Inr (w, q)" "skip_ws q = c # cs" for w q c cs
      using 2 that parse_length(1) [OF that(1)] length_skip_ws [of q] length_skip_ws [of cs]
      by (intro Suc.IH(2)) auto
    with v show ?case by (auto split: sum.split list.split) }
  { case 3
    have v: "parse_value n (skip_ws s2) \<noteq> Inl RecursionError"
      if "strip_prefix [CHR 0x22] s = Some s1" "scan_string (length s) s1 = Some (k, q0)"
        "strip_prefix '':'' (skip_ws q0) = Some s2" for s1 k q0 s2
      using 3 length_skip_ws [of s2] length_skip_ws [of q0] scan_string_length [OF that(2)]
        strip_prefix_Cons_length [OF that(1)] strip_prefix_Cons_length [OF that(3)]
      by (intro Suc.IH(1)) simp
    have "parse_members n (AList.update k w d) (skip_ws cs) \<noteq> Inl RecursionError"
      if "strip_prefix [CHR 0x22] s = Some s1" "scan_string (length s) s1 = Some (k, q0)"
        "strip_prefix '':'' (skip_ws q0) = Some s2" "parse_value n (skip_ws s2) = Inr (w, q)"
        "skip_ws q = c # cs" for s1 k q0 s2 w q c cs
      using 3 that parse_length(1) [OF that(4)] length_skip_ws [of q] length_skip_ws [of cs]
        length_skip_ws [of s2] length_skip_ws [of q0] scan_string_length [OF that(2)]
        strip_prefix_Cons_length [OF that(1)] strip_prefix_Cons_length [OF that(3)]
      by (intro Suc.IH(3)) auto
    with v show ?case by (auto split: option.split sum.split list.split) }
qed simp_all

lemma json_loads_fuel: "json_loads s \<noteq> Inl RecursionError"
  using parse_fuel(1) [of "skip_ws s" "2 * length s + 2"] length_skip_ws [of s]
  by (auto simp: json_loads_def split: sum.split)

end
