(* ===== verification/Url.thy ===== *)
theory Url
  imports Json
begin

text \<open>
  What \<open>handle_request\<close> uses of \<open>urllib.parse\<close>: the path and the query of \<open>urlsplit\<close> and
  the dictionary of \<open>parse_qs\<close>, as in Python 3.11. The check of a bracketed host and the
  NFKC check of a network location need tables of the library: they are the argument
  \<open>bad_netloc\<close>.
\<close>

section \<open>Splitting\<close>

fun split_on :: "char \<Rightarrow> string \<Rightarrow> string list" where
  "split_on c [] = [[]]"
| "split_on c (x # xs) =
     (if x = c then [] # split_on c xs
      else case split_on c xs of [] \<Rightarrow> [[x]] | p # ps \<Rightarrow> (x # p) # ps)"

text \<open>\<open>s.partition(c)\<close>: before the first \<open>c\<close>, and what follows it.\<close>

definition before :: "char \<Rightarrow> string \<Rightarrow> string" where
  "before c s = takeWhile (\<lambda>x. x \<noteq> c) s"

definition after :: "char \<Rightarrow> string \<Rightarrow> string" where
  "after c s = drop 1 (dropWhile (\<lambda>x. x \<noteq> c) s)"

definition is_alpha :: "char \<Rightarrow> bool" where
  "is_alpha c \<longleftrightarrow> (65 \<le> byte c \<and> byte c \<le> 90) \<or> (97 \<le> byte c \<and> byte c \<le> 122)"

definition scheme_char :: "char \<Rightarrow> bool" where
  "scheme_char c \<longleftrightarrow> is_alpha c \<or> is_digit c \<or> c \<in> {CHR ''+'', CHR ''-'', CHR ''.''}"

definition clean_url :: "string \<Rightarrow> string" where
  "clean_url u = filter (\<lambda>c. byte c \<notin> {9, 10, 13}) (dropWhile (\<lambda>c. byte c \<le> 32) u)"

definition drop_scheme :: "string \<Rightarrow> string" where
  "drop_scheme u =
     (let s = before (CHR '':'') u
      in if CHR '':'' \<in> set u \<and> s \<noteq> [] \<and> is_alpha (hd s) \<and> list_all scheme_char s
         then after (CHR '':'') u else u)"

definition urlsplit :: "(string \<Rightarrow> bool) \<Rightarrow> string \<Rightarrow> (string \<times> string) outcome" where
  "urlsplit bad_netloc url =
     (let u = drop_scheme (clean_url url);
          has_netloc = (take 2 u = ''//'');
          delim = (\<lambda>c. c = CHR ''/'' \<or> c = CHR ''?'' \<or> c = CHR 0x23);
          netloc = (if has_netloc then takeWhile (\<lambda>c. \<not> delim c) (drop 2 u) else []);
          rest = (if has_netloc then dropWhile (\<lambda>c. \<not> delim c) (drop 2 u) else u);
          no_fragment = before (CHR 0x23) rest
      in if (CHR ''['' \<in> set netloc) \<noteq> (CHR '']'' \<in> set netloc)
         then Inl (ValueError ''Invalid IPv6 URL'')
         else if bad_netloc netloc then Inl (ValueError ''invalid network location'')
         else Inr (before (CHR ''?'') no_fragment, after (CHR ''?'') no_fragment))"

section \<open>Percent decoding\<close>

fun unquote_to_bytes :: "string \<Rightarrow> string" where
  "unquote_to_bytes (c # a # b # s) =
     (if c = CHR ''%'' then
        (case (hex_val a, hex_val b) of
           (Some x, Some y) \<Rightarrow> chr_of (16 * x + y) # unquote_to_bytes s
         | _ \<Rightarrow> c # unquote_to_bytes (a # b # s))
      else c # unquote_to_bytes (a # b # s))"
| "unquote_to_bytes s = s"

text \<open>\<open>decode('utf-8', 'replace')\<close>: one replacement character for each longest prefix of a
  well-formed sequence that is not continued.\<close>

definition replacement :: string where
  "replacement = [CHR 0xEF, CHR 0xBF, CHR 0xBD]"

text \<open>The number of continuation bytes after a lead byte and the range of the first.\<close>

definition lead_info :: "char \<Rightarrow> (nat \<times> int \<times> int) option" where
  "lead_info c =
     (let n = byte c
      in if n < 128 then Some (0, 128, 191)
         else if 194 \<le> n \<and> n \<le> 223 then Some (1, 128, 191)
         else if n = 224 then Some (2, 160, 191)
         else if n = 237 then Some (2, 128, 159)
         else if 225 \<le> n \<and> n \<le> 239 then Some (2, 128, 191)
         else if n = 240 then Some (3, 144, 191)
         else if n = 244 then Some (3, 128, 143)
         else if 241 \<le> n \<and> n \<le> 243 then Some (3, 128, 191)
         else None)"

text \<open>How many of the bytes that follow continue the sequence.\<close>

fun continued :: "nat \<Rightarrow> int \<Rightarrow> int \<Rightarrow> string \<Rightarrow> nat" where
  "continued 0 lo hi s = 0"
| "continued (Suc n) lo hi [] = 0"
| "continued (Suc n) lo hi (c # s) =
     (if lo \<le> byte c \<and> byte c \<le> hi then Suc (continued n 128 191 s) else 0)"

function decode_replace :: "string \<Rightarrow> string" where
  "decode_replace [] = []"
| "decode_replace (c # s) =
     (case lead_info c of
        None \<Rightarrow> replacement @ decode_replace s
      | Some (n, lo, hi) \<Rightarrow>
          (let k = continued n lo hi s
           in (if k = n then c # take k s else replacement) @ decode_replace (drop k s)))"
  by pat_completeness auto
termination by (relation "measure length") auto

text \<open>\<open>unquote\<close> decodes each run of ASCII characters on its own.\<close>

function unquote :: "string \<Rightarrow> string" where
  "unquote [] = []"
| "unquote (c # s) =
     (let p = (\<lambda>x. byte x < 128)
      in if p c then decode_replace (unquote_to_bytes (takeWhile p (c # s))) @ unquote (dropWhile p s)
         else c # unquote s)"
  by pat_completeness auto
termination
  by (relation "measure length") (auto simp: le_imp_less_Suc length_dropWhile_le)

definition unquote_plus :: "string \<Rightarrow> string" where
  "unquote_plus s = unquote (map (\<lambda>c. if c = CHR ''+'' then CHR '' '' else c) s)"

section \<open>Queries\<close>

definition parse_qsl :: "string \<Rightarrow> (string \<times> string) list" where
  "parse_qsl q =
     map (\<lambda>f. (unquote_plus (before (CHR ''='') f), unquote_plus (after (CHR ''='') f)))
       (filter (\<lambda>f. after (CHR ''='') f \<noteq> []) (split_on (CHR ''&'') q))"

text \<open>\<open>parse_qs(q)\<close>, read with \<open>query.get(key, [])\<close>.\<close>

definition query_values :: "(string \<times> string) list \<Rightarrow> string \<Rightarrow> string list" where
  "query_values qs key = map snd (filter (\<lambda>e. fst e = key) qs)"

end
