(* ===== verification/RaftService.thy ===== *)
theory RaftService
  imports Raft Json Url
begin

text \<open>
  \<open>scripts/fleetqox_raft_node_service.py\<close>: the service around one replica, with its state
  machine, its election deadline, the documents of its RPCs and its HTTP routes. A block that holds
  the lock is one operation; a new deadline is drawn by the caller, and what a block sends is returned.
  A field of a peer's document that has not the type of the message class counts as an error here.
\<close>

section \<open>State\<close>

record raft_service =
  sv_node :: "py_obj raft_node"
  sv_peer_urls :: "string \<rightharpoonup> string"
  sv_state_machine :: py_dict
  sv_deadline :: pyfloat

definition new_raft_service :: "py_obj raft_node \<Rightarrow> (string \<rightharpoonup> string) \<Rightarrow> pyfloat \<Rightarrow> raft_service" where
  "new_raft_service n urls deadline =
     \<lparr>sv_node = n, sv_peer_urls = urls, sv_state_machine = [], sv_deadline = deadline\<rparr>"

text \<open>\<open>random.uniform\<close> gives the timeout in milliseconds.\<close>

definition new_election_deadline :: "pyfloat \<Rightarrow> pyfloat \<Rightarrow> pyfloat" where
  "new_election_deadline now timeout_ms = now + fdiv timeout_ms (dbl 1000)"

section \<open>Documents\<close>

definition int_field :: "py_dict \<Rightarrow> string \<Rightarrow> int outcome" where
  "int_field d k =
     (case map_of d k of None \<Rightarrow> Inl KeyError | Some (PInt i) \<Rightarrow> Inr i | Some _ \<Rightarrow> Inl TypeError)"

definition str_field :: "py_dict \<Rightarrow> string \<Rightarrow> string outcome" where
  "str_field d k =
     (case map_of d k of None \<Rightarrow> Inl KeyError | Some (PStr s) \<Rightarrow> Inr s | Some _ \<Rightarrow> Inl TypeError)"

definition bool_field :: "py_dict \<Rightarrow> string \<Rightarrow> bool outcome" where
  "bool_field d k =
     (case map_of d k of None \<Rightarrow> Inl KeyError | Some (PBool b) \<Rightarrow> Inr b | Some _ \<Rightarrow> Inl TypeError)"

definition vote_document :: "request_vote_request \<Rightarrow> py_dict" where
  "vote_document r =
     [(''term'', PInt (rv_term r)), (''candidate_id'', PStr (rv_candidate_id r)),
      (''last_log_index'', PInt (rv_last_log_index r)), (''last_log_term'', PInt (rv_last_log_term r))]"

definition vote_of_document :: "py_dict \<Rightarrow> request_vote_request outcome" where
  "vote_of_document d =
     (case int_field d ''term'' of Inl e \<Rightarrow> Inl e | Inr t \<Rightarrow>
     (case str_field d ''candidate_id'' of Inl e \<Rightarrow> Inl e | Inr c \<Rightarrow>
     (case int_field d ''last_log_index'' of Inl e \<Rightarrow> Inl e | Inr i \<Rightarrow>
     (case int_field d ''last_log_term'' of Inl e \<Rightarrow> Inl e | Inr u \<Rightarrow>
        Inr \<lparr>rv_term = t, rv_candidate_id = c, rv_last_log_index = i, rv_last_log_term = u\<rparr>))))"

definition vote_reply_document :: "request_vote_response \<Rightarrow> py_dict" where
  "vote_reply_document r =
     [(''term'', PInt (rvr_term r)), (''vote_granted'', PBool (rvr_vote_granted r)), (''voter_id'', PStr (rvr_voter_id r))]"

definition vote_reply_of_document :: "py_dict \<Rightarrow> request_vote_response outcome" where
  "vote_reply_of_document d =
     (case int_field d ''term'' of Inl e \<Rightarrow> Inl e | Inr t \<Rightarrow>
     (case bool_field d ''vote_granted'' of Inl e \<Rightarrow> Inl e | Inr g \<Rightarrow>
     (case str_field d ''voter_id'' of Inl e \<Rightarrow> Inl e | Inr v \<Rightarrow>
        Inr \<lparr>rvr_term = t, rvr_vote_granted = g, rvr_voter_id = v\<rparr>)))"

definition entry_document :: "py_obj log_entry \<Rightarrow> py_obj" where
  "entry_document e = PDict [(''term'', PInt (le_term e)), (''command'', le_command e)]"

definition entry_of_document :: "py_obj \<Rightarrow> py_obj log_entry outcome" where
  "entry_of_document v =
     (case v of
        PDict d \<Rightarrow>
          (case int_field d ''term'' of Inl e \<Rightarrow> Inl e | Inr t \<Rightarrow>
          (case map_of d ''command'' of None \<Rightarrow> Inl KeyError | Some c \<Rightarrow> Inr \<lparr>le_term = t, le_command = c\<rparr>))
      | _ \<Rightarrow> Inl TypeError)"

definition append_document :: "py_obj append_entries_request \<Rightarrow> py_dict" where
  "append_document r =
     [(''term'', PInt (ae_term r)), (''leader_id'', PStr (ae_leader_id r)),
      (''prev_log_index'', PInt (ae_prev_log_index r)), (''prev_log_term'', PInt (ae_prev_log_term r)),
      (''entries'', PList (map entry_document (ae_entries r))), (''leader_commit'', PInt (ae_leader_commit r))]"

definition entries_of_document :: "py_dict \<Rightarrow> py_obj log_entry list outcome" where
  "entries_of_document d =
     (case dget_or (PList []) d ''entries'' of PList vs \<Rightarrow> map_outcome entry_of_document vs | _ \<Rightarrow> Inl TypeError)"

definition append_of_document :: "py_dict \<Rightarrow> py_obj append_entries_request outcome" where
  "append_of_document d =
     (case entries_of_document d of Inl e \<Rightarrow> Inl e | Inr es \<Rightarrow>
     (case int_field d ''term'' of Inl e \<Rightarrow> Inl e | Inr t \<Rightarrow>
     (case str_field d ''leader_id'' of Inl e \<Rightarrow> Inl e | Inr l \<Rightarrow>
     (case int_field d ''prev_log_index'' of Inl e \<Rightarrow> Inl e | Inr i \<Rightarrow>
     (case int_field d ''prev_log_term'' of Inl e \<Rightarrow> Inl e | Inr u \<Rightarrow>
     (case int_field d ''leader_commit'' of Inl e \<Rightarrow> Inl e | Inr c \<Rightarrow>
        Inr \<lparr>ae_term = t, ae_leader_id = l, ae_prev_log_index = i, ae_prev_log_term = u, ae_entries = es,
             ae_leader_commit = c\<rparr>))))))"

definition append_reply_document :: "append_entries_response \<Rightarrow> py_dict" where
  "append_reply_document r =
     [(''term'', PInt (aer_term r)), (''success'', PBool (aer_success r)), (''follower_id'', PStr (aer_follower_id r)),
      (''match_length_hint'', PInt (aer_match_length_hint r))]"

definition append_reply_of_document :: "py_dict \<Rightarrow> append_entries_response outcome" where
  "append_reply_of_document d =
     (case int_field d ''term'' of Inl e \<Rightarrow> Inl e | Inr t \<Rightarrow>
     (case bool_field d ''success'' of Inl e \<Rightarrow> Inl e | Inr s \<Rightarrow>
     (case str_field d ''follower_id'' of Inl e \<Rightarrow> Inl e | Inr f \<Rightarrow>
     (case int_field d ''match_length_hint'' of Inl e \<Rightarrow> Inl e | Inr m \<Rightarrow>
        Inr \<lparr>aer_term = t, aer_success = s, aer_follower_id = f, aer_match_length_hint = m\<rparr>))))"

section \<open>Applying committed commands\<close>

text \<open>The keys of the state machine are text; a put under another key counts as an error.\<close>

definition apply_command :: "py_obj \<Rightarrow> py_dict \<Rightarrow> py_dict outcome" where
  "apply_command command sm =
     (case command of
        PDict d \<Rightarrow>
          if dget d ''kind'' = PStr ''put''
          then (case (map_of d ''value'', map_of d ''key'') of
                  (Some v, Some (PStr k)) \<Rightarrow> Inr (AList.update k v sm)
                | (Some _, Some _) \<Rightarrow> Inl TypeError
                | _ \<Rightarrow> Inl KeyError)
          else Inr sm
      | _ \<Rightarrow> Inr sm)"

fun apply_commands :: "py_obj list \<Rightarrow> py_dict \<Rightarrow> py_dict \<times> py_exn option" where
  "apply_commands [] sm = (sm, None)"
| "apply_commands (c # cs) sm =
     (case apply_command c sm of Inl e \<Rightarrow> (sm, Some e) | Inr sm' \<Rightarrow> apply_commands cs sm')"

definition apply_committed :: "raft_service \<Rightarrow> raft_service \<times> py_exn option" where
  "apply_committed sv =
     (case take_newly_committed (sv_node sv) of (n, cs) \<Rightarrow>
      case apply_commands cs (sv_state_machine sv) of (sm, e) \<Rightarrow>
        (sv\<lparr>sv_node := n, sv_state_machine := sm\<rparr>, e))"

section \<open>RPCs\<close>

definition handle_vote_rpc :: "pyfloat \<Rightarrow> py_dict \<Rightarrow> raft_service \<Rightarrow> raft_service \<times> py_dict outcome" where
  "handle_vote_rpc fresh d sv =
     (case vote_of_document d of
        Inl e \<Rightarrow> (sv, Inl e)
      | Inr r \<Rightarrow>
          (case handle_request_vote r (sv_node sv) of (n, resp) \<Rightarrow>
             (sv\<lparr>sv_node := n, sv_deadline := (if rvr_vote_granted resp then fresh else sv_deadline sv)\<rparr>,
              Inr (vote_reply_document resp))))"

definition handle_append_rpc :: "pyfloat \<Rightarrow> py_dict \<Rightarrow> raft_service \<Rightarrow> raft_service \<times> py_dict outcome" where
  "handle_append_rpc fresh d sv =
     (case append_of_document d of
        Inl e \<Rightarrow> (sv, Inl e)
      | Inr r \<Rightarrow>
          (case handle_append_entries r (sv_node sv) of
             (n, Inl e) \<Rightarrow> (sv\<lparr>sv_node := n\<rparr>, Inl e)
           | (n, Inr resp) \<Rightarrow>
               (case apply_committed (sv\<lparr>sv_node := n,
                       sv_deadline := (if aer_term resp \<ge> current_term n then fresh else sv_deadline sv)\<rparr>) of
                  (sv', Some e) \<Rightarrow> (sv', Inl e)
                | (sv', None) \<Rightarrow> (sv', Inr (append_reply_document resp)))))"

text \<open>A message to a peer: the URL and the document; \<open>send_outbox\<close> starts a thread for each.\<close>

definition vote_call :: "raft_service \<Rightarrow> string \<Rightarrow> request_vote_request \<Rightarrow> (string \<times> py_dict) outcome" where
  "vote_call sv peer r =
     (case sv_peer_urls sv peer of
        None \<Rightarrow> Inl KeyError | Some url \<Rightarrow> Inr (url @ ''/raft/request_vote'', vote_document r))"

definition append_call :: "raft_service \<Rightarrow> string \<Rightarrow> py_obj append_entries_request \<Rightarrow> (string \<times> py_dict) outcome" where
  "append_call sv peer r =
     (case sv_peer_urls sv peer of
        None \<Rightarrow> Inl KeyError | Some url \<Rightarrow> Inr (url @ ''/raft/append_entries'', append_document r))"

definition send_outbox :: "raft_service \<Rightarrow> py_obj outbox \<Rightarrow> (string \<times> py_dict) outcome list" where
  "send_outbox sv ob =
     map (\<lambda>(peer, r). vote_call sv peer r) (ob_request_votes ob) @
     map (\<lambda>(peer, r). append_call sv peer r) (ob_append_entries ob)"

text \<open>What comes back: nothing, when the call failed or was no object.\<close>

definition vote_replied :: "py_dict option \<Rightarrow> raft_service \<Rightarrow> raft_service \<times> py_obj outbox outcome" where
  "vote_replied reply sv =
     (case reply of
        None \<Rightarrow> (sv, Inr empty_outbox)
      | Some d \<Rightarrow>
          (case vote_reply_of_document d of
             Inl e \<Rightarrow> (sv, Inl e)
           | Inr resp \<Rightarrow>
               (case handle_request_vote_response resp (sv_node sv) of (n, out) \<Rightarrow> (sv\<lparr>sv_node := n\<rparr>, out))))"

definition append_replied ::
    "string \<Rightarrow> py_dict option \<Rightarrow> raft_service \<Rightarrow> raft_service \<times> py_obj outbox outcome" where
  "append_replied peer reply sv =
     (case reply of
        None \<Rightarrow> (sv, Inr empty_outbox)
      | Some d \<Rightarrow>
          (case append_reply_of_document d of
             Inl e \<Rightarrow> (sv, Inl e)
           | Inr resp \<Rightarrow>
               (case handle_append_entries_response peer resp (sv_node sv) of
                  (n, Inl e) \<Rightarrow> (sv\<lparr>sv_node := n\<rparr>, Inl e)
                | (n, Inr ob) \<Rightarrow>
                    (case apply_committed (sv\<lparr>sv_node := n\<rparr>) of
                       (sv', Some e) \<Rightarrow> (sv', Inl e) | (sv', None) \<Rightarrow> (sv', Inr ob)))))"

section \<open>Timers\<close>

definition election_tick :: "pyfloat \<Rightarrow> pyfloat \<Rightarrow> raft_service \<Rightarrow> raft_service \<times> py_obj outbox" where
  "election_tick now fresh sv =
     (if is_leader (sv_node sv) then (sv\<lparr>sv_deadline := fresh\<rparr>, empty_outbox)
      else if sv_deadline sv \<le> now
      then (case on_election_timeout (sv_node sv) of (n, ob) \<Rightarrow> (sv\<lparr>sv_node := n, sv_deadline := fresh\<rparr>, ob))
      else (sv, empty_outbox))"

definition heartbeat_tick :: "raft_service \<Rightarrow> py_obj outbox outcome" where
  "heartbeat_tick sv = (if \<not> is_leader (sv_node sv) then Inr empty_outbox else on_heartbeat_due (sv_node sv))"

section \<open>Clients\<close>

definition put_command :: "string \<Rightarrow> string \<Rightarrow> py_obj" where
  "put_command key v = PDict [(''kind'', PStr ''put''), (''key'', PStr key), (''value'', PStr v)]"

definition propose_put ::
    "string \<Rightarrow> string \<Rightarrow> raft_service \<Rightarrow> raft_service \<times> (int option \<times> py_obj outbox) outcome" where
  "propose_put key v sv =
     (case propose (put_command key v) (sv_node sv) of
        (n, None) \<Rightarrow> (sv\<lparr>sv_node := n\<rparr>, Inr (None, empty_outbox))
      | (n, Some i) \<Rightarrow>
          (sv\<lparr>sv_node := n\<rparr>, map_sum id (\<lambda>ob. (Some i, ob)) (on_heartbeat_due n)))"

text \<open>The polls of a waiting client: the time and the replica at each. Without a further poll the
  client still waits.\<close>

fun wait_for_commit :: "int \<Rightarrow> pyfloat \<Rightarrow> (pyfloat \<times> py_obj raft_node) list \<Rightarrow> bool option" where
  "wait_for_commit i deadline [] = None"
| "wait_for_commit i deadline ((now, n) # polls) =
     (if \<not> now < deadline then Some False
      else if i \<le> last_applied n then Some True
      else if \<not> is_leader n then Some False
      else wait_for_commit i deadline polls)"

fun role_value :: "role \<Rightarrow> string" where
  "role_value FOLLOWER = ''follower''"
| "role_value CANDIDATE = ''candidate''"
| "role_value LEADER = ''leader''"

definition service_status :: "raft_service \<Rightarrow> py_dict" where
  "service_status sv =
     (let n = sv_node sv
      in [(''schema_version'', PStr ''fleetrmw.raft_node_service.v1''), (''node_id'', PStr (node_id n)),
          (''role'', PStr (role_value (node_role n))), (''term'', PInt (current_term n)),
          (''leader_id'', of_optional PStr (leader_id n)), (''log_length'', PInt (py_len (node_log n))),
          (''commit_index'', PInt (commit_index n)), (''last_applied'', PInt (last_applied n)),
          (''state_machine_size'', PInt (py_len (sv_state_machine sv)))])"

section \<open>HTTP\<close>

type_synonym reply = "int \<times> py_dict"

text \<open>The body of a request, from its \<open>content-length\<close> header and the bytes read.\<close>

definition read_json :: "string \<Rightarrow> string \<Rightarrow> py_dict option" where
  "read_json length_header body =
     (case py_int_of_str length_header of
        None \<Rightarrow> None
      | Some _ \<Rightarrow>
          (case decode_utf8 body of
             Inl _ \<Rightarrow> None
           | Inr text \<Rightarrow> (case json_loads text of Inr (PDict d) \<Rightarrow> Some d | _ \<Rightarrow> None)))"

definition invalid_request :: reply where
  "invalid_request = (400, [(''status'', PStr ''invalid_request'')])"

definition answer_rpc ::
    "(py_dict \<Rightarrow> raft_service \<Rightarrow> raft_service \<times> py_dict outcome) \<Rightarrow> py_dict option \<Rightarrow> raft_service \<Rightarrow>
     raft_service \<times> reply outcome" where
  "answer_rpc rpc document sv =
     (case document of
        None \<Rightarrow> (sv, Inr invalid_request)
      | Some d \<Rightarrow> (case rpc d sv of (sv', r) \<Rightarrow> (sv', map_sum id (\<lambda>reply. (200, reply)) r)))"

text \<open>The routes of a POST but \<open>/kv\<close>.\<close>

definition post_route ::
    "pyfloat \<Rightarrow> string \<Rightarrow> py_dict option \<Rightarrow> raft_service \<Rightarrow> raft_service \<times> reply outcome" where
  "post_route fresh path document sv =
     (if path = ''/raft/request_vote'' then answer_rpc (handle_vote_rpc fresh) document sv
      else if path = ''/raft/append_entries'' then answer_rpc (handle_append_rpc fresh) document sv
      else (sv, Inr (404, [(''status'', PStr ''not_found'')])))"

text \<open>A POST to \<open>/kv\<close>: the request, the leader as one block sees it, the proposal in the next, and
  the reply when the wait is over.\<close>

definition put_request :: "py_dict option \<Rightarrow> (string \<times> string) option" where
  "put_request document =
     (case document of
        None \<Rightarrow> None
      | Some d \<Rightarrow>
          (case (dget d ''key'', dget d ''value'') of
             (PStr k, PStr v) \<Rightarrow> if k = [] then None else Some (k, v)
           | _ \<Rightarrow> None))"

definition not_leader :: "string option \<Rightarrow> reply" where
  "not_leader leader = (409, [(''status'', PStr ''not_leader''), (''leader_id'', of_optional PStr leader)])"

definition put_reply :: "int \<Rightarrow> bool \<Rightarrow> reply" where
  "put_reply i committed =
     (if committed then 200 else 503,
      [(''status'', PStr (if committed then ''committed'' else ''commit_timed_out'')), (''index'', PInt i)])"

definition put_admitted :: "py_dict option \<Rightarrow> raft_service \<Rightarrow> reply + (string \<times> string \<times> string option)" where
  "put_admitted document sv =
     (case put_request document of
        None \<Rightarrow> Inl invalid_request
      | Some (k, v) \<Rightarrow>
          if \<not> is_leader (sv_node sv) then Inl (not_leader (leader_id (sv_node sv)))
          else Inr (k, v, leader_id (sv_node sv)))"

definition put_proposed ::
    "string \<times> string \<times> string option \<Rightarrow> raft_service \<Rightarrow> raft_service \<times> (reply + int) outcome" where
  "put_proposed admission sv =
     (case admission of (k, v, leader) \<Rightarrow>
      case propose_put k v sv of
        (sv', Inl e) \<Rightarrow> (sv', Inl e)
      | (sv', Inr (None, _)) \<Rightarrow> (sv', Inr (Inl (not_leader leader)))
      | (sv', Inr (Some i, _)) \<Rightarrow> (sv', Inr (Inr i)))"

definition put_answered :: "int \<Rightarrow> pyfloat \<Rightarrow> (pyfloat \<times> py_obj raft_node) list \<Rightarrow> reply option" where
  "put_answered i started polls = map_option (put_reply i) (wait_for_commit i (started + dbl 5) polls)"

definition get_route :: "(string \<Rightarrow> bool) \<Rightarrow> string \<Rightarrow> raft_service \<Rightarrow> reply outcome" where
  "get_route bad_netloc path sv =
     (if path = ''/status'' then Inr (200, service_status sv)
      else if take 3 path = ''/kv'' then
        (case urlsplit bad_netloc path of
           Inl e \<Rightarrow> Inl e
         | Inr (_, query) \<Rightarrow>
             (case query_values (parse_qsl query) ''key'' of
                [] \<Rightarrow> Inr (400, [(''status'', PStr ''missing_key'')])
              | key # _ \<Rightarrow>
                  (case dget (sv_state_machine sv) key of
                     PNone \<Rightarrow> Inr (404, [(''status'', PStr ''not_found''), (''key'', PStr key)])
                   | v \<Rightarrow> Inr (200, [(''status'', PStr ''ok''), (''key'', PStr key), (''value'', v)]))))
      else Inr (404, [(''status'', PStr ''not_found'')]))"

end
