(* ===== verification/RaftCluster.thy ===== *)
theory RaftCluster
  imports Raft
begin

text \<open>
  A cluster of replicas and its network. An event is one call of a \<open>RaftNode\<close> method by
  the driver: an election timer, a heartbeat timer, the delivery of a message, a client's
  proposal, or the application of committed commands. A message once sent stays in the network,
  so delivery may be late, repeated, out of order or never. Four fields are history and are
  never read by a step: the votes and leaderships the nodes have held, the logs that proposals
  produced, and the commands each node has applied.
\<close>

section \<open>The cluster as a transition system\<close>

datatype 'c envelope =
  VoteReq string request_vote_request
| VoteResp string request_vote_response
| AppendReq string "'c append_entries_request"
| AppendResp string string append_entries_response

datatype 'c event =
  Timeout string
| Heartbeat string
| Deliver "'c envelope"
| Propose string 'c
| Apply string

record 'c cluster =
  nodes :: "string \<rightharpoonup> 'c raft_node"
  net :: "'c envelope set"
  cast_votes :: "(string \<times> int \<times> string) set"
  elections :: "(string \<times> int) set"
  proposals :: "'c log_entry list set"
  applied :: "string \<Rightarrow> 'c list"

definition outbox_envelopes :: "'c outbox \<Rightarrow> 'c envelope set" where
  "outbox_envelopes ob =
     set (map (\<lambda>(p, r). VoteReq p r) (ob_request_votes ob))
     \<union> set (map (\<lambda>(p, r). AppendReq p r) (ob_append_entries ob))"

definition outcome_envelopes :: "'c outbox outcome \<Rightarrow> 'c envelope set" where
  "outcome_envelopes out = (case out of Inl _ \<Rightarrow> {} | Inr ob \<Rightarrow> outbox_envelopes ob)"

text \<open>Write a node's new state back, send its messages, and record the history.\<close>

definition settle :: "string \<Rightarrow> 'c raft_node \<Rightarrow> 'c envelope set \<Rightarrow> 'c cluster \<Rightarrow> 'c cluster" where
  "settle x n ms c = c\<lparr>nodes := (nodes c)(x \<mapsto> n), net := net c \<union> ms,
     cast_votes := (case voted_for n of None \<Rightarrow> cast_votes c
                    | Some w \<Rightarrow> insert (x, current_term n, w) (cast_votes c)),
     elections := (if node_role n = LEADER then insert (x, current_term n) (elections c)
                   else elections c)\<rparr>"

fun deliver :: "'c envelope \<Rightarrow> 'c cluster \<Rightarrow> 'c cluster option" where
  "deliver (VoteReq x r) c =
     (case nodes c x of None \<Rightarrow> None | Some n \<Rightarrow>
        (case handle_request_vote r n of (n', resp) \<Rightarrow>
           Some (settle x n' {VoteResp (rv_candidate_id r) resp} c)))"
| "deliver (VoteResp x resp) c =
     (case nodes c x of None \<Rightarrow> None | Some n \<Rightarrow>
        (case handle_request_vote_response resp n of (n', out) \<Rightarrow>
           Some (settle x n' (outcome_envelopes out) c)))"
| "deliver (AppendReq x r) c =
     (case nodes c x of None \<Rightarrow> None | Some n \<Rightarrow>
        (case handle_append_entries r n of (n', out) \<Rightarrow>
           Some (settle x n' (case out of Inl _ \<Rightarrow> {} | Inr resp \<Rightarrow>
                                {AppendResp (ae_leader_id r) x resp}) c)))"
| "deliver (AppendResp x peer resp) c =
     (case nodes c x of None \<Rightarrow> None | Some n \<Rightarrow>
        (case handle_append_entries_response peer resp n of (n', out) \<Rightarrow>
           Some (settle x n' (outcome_envelopes out) c)))"

fun run_event :: "'c event \<Rightarrow> 'c cluster \<Rightarrow> 'c cluster option" where
  "run_event (Timeout x) c =
     (case nodes c x of None \<Rightarrow> None | Some n \<Rightarrow>
        (case on_election_timeout n of (n', ob) \<Rightarrow> Some (settle x n' (outbox_envelopes ob) c)))"
| "run_event (Heartbeat x) c =
     (case nodes c x of None \<Rightarrow> None | Some n \<Rightarrow>
        Some (settle x n (outcome_envelopes (on_heartbeat_due n)) c))"
| "run_event (Deliver m) c = (if m \<in> net c then deliver m c else None)"
| "run_event (Propose x command) c =
     (case nodes c x of None \<Rightarrow> None | Some n \<Rightarrow>
        (case propose command n of
           (n', None) \<Rightarrow> Some (settle x n' {} c)
         | (n', Some i) \<Rightarrow>
             Some ((settle x n' {} c)\<lparr>proposals := insert (node_log n') (proposals c)\<rparr>)))"
| "run_event (Apply x) c =
     (case nodes c x of None \<Rightarrow> None | Some n \<Rightarrow>
        (case take_newly_committed n of (n', commands) \<Rightarrow>
           Some ((settle x n' {} c)\<lparr>applied := (applied c)(x := applied c x @ commands)\<rparr>)))"

fun run_events :: "'c event list \<Rightarrow> 'c cluster \<Rightarrow> 'c cluster option" where
  "run_events [] c = Some c"
| "run_events (e # es) c = (case run_event e c of None \<Rightarrow> None | Some c' \<Rightarrow> run_events es c')"

definition valid_members :: "string list \<Rightarrow> bool" where
  "valid_members ms \<longleftrightarrow> distinct ms \<and> [] \<notin> set ms \<and> 2 \<le> length ms"

definition member_node :: "string list \<Rightarrow> string \<Rightarrow> 'c raft_node option" where
  "member_node ms x =
     (if x \<in> set ms
      then (case new_raft_node x (filter (\<lambda>p. p \<noteq> x) ms) of Inl _ \<Rightarrow> None | Inr n \<Rightarrow> Some n)
      else None)"

definition init_cluster :: "string list \<Rightarrow> 'c cluster" where
  "init_cluster ms = \<lparr>nodes = member_node ms, net = {}, cast_votes = {}, elections = {},
     proposals = {}, applied = (\<lambda>_. [])\<rparr>"

definition cluster_start :: "string list \<Rightarrow> 'c cluster \<Rightarrow> bool" where
  "cluster_start ms c \<longleftrightarrow> valid_members ms \<and> c = init_cluster ms"

inductive cluster_step :: "'c cluster \<Rightarrow> 'c cluster \<Rightarrow> bool" where
  event: "run_event e c = Some c' \<Longrightarrow> cluster_step c c'"

definition cluster_reachable :: "string list \<Rightarrow> 'c cluster \<Rightarrow> bool" where
  "cluster_reachable ms c \<longleftrightarrow> (\<exists>s. cluster_start ms s \<and> cluster_step\<^sup>*\<^sup>* s c)"

lemma run_events_steps: "run_events es c = Some c' \<Longrightarrow> cluster_step\<^sup>*\<^sup>* c c'"
  by (induction es arbitrary: c)
    (auto split: option.splits intro: cluster_step.event converse_rtranclp_into_rtranclp)

lemma run_events_reachable:
  "valid_members ms \<Longrightarrow> run_events es (init_cluster ms) = Some c \<Longrightarrow> cluster_reachable ms c"
  by (auto simp: cluster_reachable_def cluster_start_def intro: run_events_steps)

section \<open>What one operation may change\<close>

text \<open>Identity never changes; the term never falls; a vote stands for the rest of its term.\<close>

definition node_grows :: "'c raft_node \<Rightarrow> 'c raft_node \<Rightarrow> bool" where
  "node_grows n n' \<longleftrightarrow> node_id n' = node_id n \<and> peer_ids n' = peer_ids n \<and>
     majority n' = majority n \<and> current_term n \<le> current_term n' \<and>
     (current_term n' = current_term n \<longrightarrow>
        (\<forall>w. voted_for n = Some w \<longrightarrow> voted_for n' = Some w))"

text \<open>A node is a candidate or leader only by keeping its role, or by a new term's timeout.\<close>

definition role_grows :: "'c raft_node \<Rightarrow> 'c raft_node \<Rightarrow> bool" where
  "role_grows n n' \<longleftrightarrow>
     (node_role n' = CANDIDATE \<longrightarrow>
        node_role n = CANDIDATE \<and> current_term n' = current_term n \<or>
        current_term n' = current_term n + 1 \<and> voted_for n' = Some (node_id n) \<and>
        votes_received n' = {node_id n}) \<and>
     (node_role n' = LEADER \<longrightarrow>
        node_role n \<noteq> FOLLOWER \<and> current_term n' = current_term n)"

lemma node_grows_refl [simp]: "node_grows n n" and role_grows_refl [simp]: "role_grows n n"
  by (auto simp: node_grows_def role_grows_def)

lemmas grows_defs = node_grows_def role_grows_def

lemma step_down_simps [simp]:
  "node_id (step_down_if_stale t n) = node_id n"
  "peer_ids (step_down_if_stale t n) = peer_ids n"
  "majority (step_down_if_stale t n) = majority n"
  "node_log (step_down_if_stale t n) = node_log n"
  "commit_index (step_down_if_stale t n) = commit_index n"
  "last_applied (step_down_if_stale t n) = last_applied n"
  "next_index (step_down_if_stale t n) = next_index n"
  "match_index (step_down_if_stale t n) = match_index n"
  "current_term (step_down_if_stale t n) = max t (current_term n)"
  "voted_for (step_down_if_stale t n) = (if t > current_term n then None else voted_for n)"
  "node_role (step_down_if_stale t n) = (if t > current_term n then FOLLOWER else node_role n)"
  "votes_received (step_down_if_stale t n) = (if t > current_term n then {} else votes_received n)"
  by (simp_all add: step_down_if_stale_def)

lemma grows_timeout [inv_rules]:
  "on_election_timeout n = (n', ob) \<Longrightarrow> node_grows n n' \<and> role_grows n n'"
  by (auto simp: on_election_timeout_def grows_defs Let_def split: if_splits)

lemma grows_request_vote [inv_rules]:
  "handle_request_vote r n = (n', resp) \<Longrightarrow> node_grows n n' \<and> role_grows n n'"
  by (auto simp: handle_request_vote_def grows_defs Let_def split: if_splits)

lemma grows_append_accepted:
  assumes "append_accepted r n = (n', out)"
  shows "node_id n' = node_id n \<and> peer_ids n' = peer_ids n \<and> majority n' = majority n \<and>
    current_term n' = current_term n \<and> voted_for n' = voted_for n \<and>
    node_role n' = node_role n \<and> votes_received n' = votes_received n \<and>
    next_index n' = next_index n \<and> match_index n' = match_index n"
  using assms by (auto simp: append_accepted_def Let_def split: prod.splits option.splits if_splits)

text \<open>The four ways an AppendEntries request is answered.\<close>

definition follow :: "'c append_entries_request \<Rightarrow> 'c raft_node \<Rightarrow> 'c raft_node" where
  "follow r n = (step_down_if_stale (ae_term r) n)
     \<lparr>node_role := FOLLOWER, leader_id := Some (ae_leader_id r)\<rparr>"

lemma follow_simps [simp]:
  "node_id (follow r n) = node_id n" "peer_ids (follow r n) = peer_ids n"
  "majority (follow r n) = majority n" "node_log (follow r n) = node_log n"
  "commit_index (follow r n) = commit_index n" "last_applied (follow r n) = last_applied n"
  "next_index (follow r n) = next_index n" "match_index (follow r n) = match_index n"
  "current_term (follow r n) = max (ae_term r) (current_term n)"
  "voted_for (follow r n) = (if ae_term r > current_term n then None else voted_for n)"
  "node_role (follow r n) = FOLLOWER"
  by (simp_all add: follow_def)

lemma append_entries_cases:
  assumes "handle_append_entries r n = (n', out)"
  obtains (stale) "ae_term r < current_term n" "n' = n" "out = Inr (append_response n False)"
  | (gap) "current_term n \<le> ae_term r" "py_len (node_log n) \<le> ae_prev_log_index r"
      "n' = follow r n" "out = Inr (append_response n' False)"
  | (conflict) "current_term n \<le> ae_term r" "0 \<le> ae_prev_log_index r"
      "n' = (follow r n)\<lparr>node_log := take (nat (ae_prev_log_index r)) (node_log n)\<rparr>"
      "out = Inr (append_response n' False)"
  | (accepted) "current_term n \<le> ae_term r" "append_accepted r (follow r n) = (n', out)"
      "ae_prev_log_index r < 0 \<or> 0 \<le> ae_prev_log_index r \<and>
         ae_prev_log_index r < py_len (node_log n) \<and>
         le_term (node_log n ! nat (ae_prev_log_index r)) = ae_prev_log_term r"
proof (cases "ae_term r < current_term n")
  case True
  with assms have "n' = n" "out = Inr (append_response n False)"
    by (auto simp: handle_append_entries_def step_down_if_stale_def)
  with True show thesis by (rule stale)
next
  case False
  then have le: "current_term n \<le> ae_term r" by simp
  with assms show thesis
    unfolding handle_append_entries_def Let_def follow_def [symmetric]
    by (auto split: if_splits simp: py_del_from_nonneg intro: gap conflict accepted)
qed

lemma grows_append_entries [inv_rules]:
  assumes "handle_append_entries r n = (n', out)"
  shows "node_grows n n' \<and> role_grows n n'"
  using assms
  by (cases rule: append_entries_cases) (auto simp: grows_defs dest: grows_append_accepted)

lemma grows_vote_response [inv_rules]:
  "handle_request_vote_response r n = (n', out) \<Longrightarrow> node_grows n n' \<and> role_grows n n'"
  by (auto simp: handle_request_vote_response_def become_leader_def grows_defs Let_def
      split: if_splits)

text \<open>The commit loop moves the commit index and nothing else.\<close>

lemma advance_from_frame:
  "advance_from n i = (n', e) \<Longrightarrow> \<exists>k. n' = n\<lparr>commit_index := k\<rparr> \<and> commit_index n \<le> k"
proof (induction n i rule: advance_from.induct)
  case (1 n i)
  show ?case
  proof (cases "i \<le> commit_index n")
    case True
    with "1.prems" show ?thesis by (auto simp: advance_from.simps [of n i] intro: exI [of _ "commit_index n"])
  next
    case False
    with 1 show ?thesis
      by (auto simp: advance_from.simps [of n i] split: option.splits sum.splits if_splits
          intro: exI [of _ "commit_index n"] exI [of _ i])
  qed
qed

lemma advance_commit_frame:
  "advance_commit_index n = (n', e) \<Longrightarrow> \<exists>k. n' = n\<lparr>commit_index := k\<rparr> \<and> commit_index n \<le> k"
  unfolding advance_commit_index_def by (rule advance_from_frame)

lemma grows_append_response [inv_rules]:
  "handle_append_entries_response p r n = (n', out) \<Longrightarrow> node_grows n n' \<and> role_grows n n'"
  by (auto simp: handle_append_entries_response_def grows_defs Let_def
      split: if_splits prod.splits option.splits sum.splits dest!: advance_commit_frame)

lemma grows_propose [inv_rules]:
  "propose command n = (n', i) \<Longrightarrow> node_grows n n' \<and> role_grows n n'"
  by (auto simp: propose_def grows_defs Let_def split: if_splits)

lemma grows_take [inv_rules]:
  "take_newly_committed n = (n', cs) \<Longrightarrow> node_grows n n' \<and> role_grows n n'"
  by (auto simp: take_newly_committed_def grows_defs split: if_splits)

section \<open>Majorities\<close>

definition majority_of :: "string list \<Rightarrow> string set \<Rightarrow> bool" where
  "majority_of ms Q \<longleftrightarrow> Q \<subseteq> set ms \<and> int (length ms) div 2 + 1 \<le> int (card Q)"

lemma majorities_meet:
  assumes "majority_of ms Q" "majority_of ms R"
  shows "\<exists>v. v \<in> Q \<and> v \<in> R"
proof (rule ccontr)
  assume "\<nexists>v. v \<in> Q \<and> v \<in> R"
  then have "Q \<inter> R = {}" by blast
  moreover have sub: "Q \<subseteq> set ms" "R \<subseteq> set ms" and fin: "finite Q" "finite R"
    using assms finite_subset by (auto simp: majority_of_def)
  ultimately have "card Q + card R = card (Q \<union> R)" by (simp add: card_Un_disjoint)
  also have "\<dots> \<le> card (set ms)" using sub by (intro card_mono) auto
  also have "\<dots> \<le> length ms" by (rule card_length)
  finally have "card Q + card R \<le> length ms" .
  then show False using assms by (auto simp: majority_of_def)
qed

interpretation majorities: quorum_system majority_of
  by unfold_locales (rule majorities_meet)

section \<open>Votes and leaderships\<close>

definition member_ok :: "string list \<Rightarrow> string \<Rightarrow> 'c raft_node \<Rightarrow> bool" where
  "member_ok ms x n \<longleftrightarrow> x \<in> set ms \<and> node_id n = x \<and> set (peer_ids n) = set ms - {x} \<and>
     majority n = int (length ms) div 2 + 1"

definition votes_sound :: "'c cluster \<Rightarrow> bool" where
  "votes_sound c \<longleftrightarrow>
     (\<forall>v t w. (v, t, w) \<in> cast_votes c \<longrightarrow> (\<exists>n. nodes c v = Some n \<and>
        (t < current_term n \<or> t = current_term n \<and> voted_for n = Some w))) \<and>
     (\<forall>v t w w'. (v, t, w) \<in> cast_votes c \<longrightarrow> (v, t, w') \<in> cast_votes c \<longrightarrow> w = w') \<and>
     (\<forall>d r. VoteResp d r \<in> net c \<longrightarrow> rvr_vote_granted r \<longrightarrow>
        (rvr_voter_id r, rvr_term r, d) \<in> cast_votes c)"

definition roles_sound :: "'c cluster \<Rightarrow> bool" where
  "roles_sound c \<longleftrightarrow> (\<forall>x n. nodes c x = Some n \<longrightarrow>
     (node_role n \<noteq> FOLLOWER \<longrightarrow> (\<forall>v\<in>votes_received n. (v, current_term n, x) \<in> cast_votes c)) \<and>
     (node_role n = LEADER \<longrightarrow> (x, current_term n) \<in> elections c))"

definition elections_sound :: "string list \<Rightarrow> 'c cluster \<Rightarrow> bool" where
  "elections_sound ms c \<longleftrightarrow> (\<forall>l t. (l, t) \<in> elections c \<longrightarrow>
     (\<exists>Q. majority_of ms Q \<and> (\<forall>v\<in>Q. (v, t, l) \<in> cast_votes c)) \<and>
     (\<exists>n. nodes c l = Some n \<and>
        (t < current_term n \<or> t = current_term n \<and> node_role n \<noteq> CANDIDATE)))"

definition vote_inv :: "string list \<Rightarrow> 'c cluster \<Rightarrow> bool" where
  "vote_inv ms c \<longleftrightarrow> (\<forall>x n. nodes c x = Some n \<longrightarrow> member_ok ms x n) \<and>
     votes_sound c \<and> roles_sound c \<and> elections_sound ms c"

lemma settle_simps [simp]:
  "nodes (settle x n ms c) = (nodes c)(x \<mapsto> n)"
  "net (settle x n ms c) = net c \<union> ms"
  "proposals (settle x n ms c) = proposals c"
  "applied (settle x n ms c) = applied c"
  by (simp_all add: settle_def split: option.splits)

lemma cast_votes_settle:
  "(v, t, w) \<in> cast_votes (settle x n ms c) \<longleftrightarrow>
     (v, t, w) \<in> cast_votes c \<or> v = x \<and> t = current_term n \<and> voted_for n = Some w"
  by (auto simp: settle_def split: option.splits)

lemma elections_settle:
  "(l, t) \<in> elections (settle x n ms c) \<longleftrightarrow>
     (l, t) \<in> elections c \<or> l = x \<and> t = current_term n \<and> node_role n = LEADER"
  by (auto simp: settle_def split: option.splits)

lemma member_ok_grows: "member_ok ms x n \<Longrightarrow> node_grows n n' \<Longrightarrow> member_ok ms x n'"
  by (simp add: member_ok_def node_grows_def)

lemma votes_sound_settle:
  assumes sound: "votes_sound c" and x: "nodes c x = Some n" and grows: "node_grows n n'"
    and msgs: "\<And>d r. VoteResp d r \<in> ms \<Longrightarrow> rvr_vote_granted r \<Longrightarrow>
      (rvr_voter_id r, rvr_term r, d) \<in> cast_votes (settle x n' ms c)"
  shows "votes_sound (settle x n' ms c)"
proof -
  have held: "t < current_term n' \<or> t = current_term n' \<and> voted_for n' = Some w"
    if "(x, t, w) \<in> cast_votes c" for t w
  proof -
    from sound x that have "t < current_term n \<or> t = current_term n \<and> voted_for n = Some w"
      by (fastforce simp: votes_sound_def)
    with grows show ?thesis by (auto simp: node_grows_def)
  qed
  from sound have one: "\<And>v t w w'. (v, t, w) \<in> cast_votes c \<Longrightarrow> (v, t, w') \<in> cast_votes c \<Longrightarrow> w = w'"
    and old: "\<And>v t w. (v, t, w) \<in> cast_votes c \<Longrightarrow> \<exists>n. nodes c v = Some n \<and>
        (t < current_term n \<or> t = current_term n \<and> voted_for n = Some w)"
    and net: "\<And>d r. VoteResp d r \<in> net c \<Longrightarrow> rvr_vote_granted r \<Longrightarrow>
        (rvr_voter_id r, rvr_term r, d) \<in> cast_votes c"
    by (auto simp: votes_sound_def)
  show ?thesis
    unfolding votes_sound_def
  proof (intro conjI allI impI)
    fix v t w assume "(v, t, w) \<in> cast_votes (settle x n' ms c)"
    then show "\<exists>m. nodes (settle x n' ms c) v = Some m \<and>
        (t < current_term m \<or> t = current_term m \<and> voted_for m = Some w)"
      using held old by (cases "v = x") (auto simp: cast_votes_settle)
  next
    fix v t w w'
    assume "(v, t, w) \<in> cast_votes (settle x n' ms c)" "(v, t, w') \<in> cast_votes (settle x n' ms c)"
    then show "w = w'" using one held by (fastforce simp: cast_votes_settle)
  next
    fix d r assume "VoteResp d r \<in> net (settle x n' ms c)" "rvr_vote_granted r"
    then show "(rvr_voter_id r, rvr_term r, d) \<in> cast_votes (settle x n' ms c)"
      using net msgs by (auto simp: cast_votes_settle)
  qed
qed

text \<open>A majority stands behind a node that is leader after an operation.\<close>

definition roles_from :: "'c cluster \<Rightarrow> 'c raft_node \<Rightarrow> 'c raft_node \<Rightarrow> bool" where
  "roles_from c n n' \<longleftrightarrow>
     (node_role n' \<noteq> FOLLOWER \<longrightarrow> (\<forall>v\<in>votes_received n'. (v, current_term n', node_id n') \<in> cast_votes c
        \<or> v = node_id n' \<and> voted_for n' = Some v)) \<and>
     (node_role n' = LEADER \<longrightarrow> majority n' \<le> int (card (votes_received n'))
        \<or> (node_id n', current_term n') \<in> elections c)"

lemma vote_inv_settle:
  assumes inv: "vote_inv ms c" and x: "nodes c x = Some n" and grows: "node_grows n n'"
    and role: "role_grows n n'" and from_c: "roles_from c n n'"
    and msgs: "\<And>d r. VoteResp d r \<in> es \<Longrightarrow> rvr_vote_granted r \<Longrightarrow>
      (rvr_voter_id r, rvr_term r, d) \<in> cast_votes (settle x n' es c)"
  shows "vote_inv ms (settle x n' es c)"
proof -
  let ?d = "settle x n' es c"
  from inv x have mem: "member_ok ms x n" and vs: "votes_sound c" and rs: "roles_sound c"
    and es: "elections_sound ms c" and all: "\<And>y m. nodes c y = Some m \<Longrightarrow> member_ok ms y m"
    by (auto simp: vote_inv_def)
  from mem grows have mem': "member_ok ms x n'" by (rule member_ok_grows)
  then have id: "node_id n' = x" by (simp add: member_ok_def)
  have vs': "votes_sound ?d" using vs x grows msgs by (rule votes_sound_settle)
  have rs': "roles_sound ?d"
    using rs from_c id unfolding roles_sound_def roles_from_def
    by (auto simp: cast_votes_settle elections_settle)
  have voters: "v \<in> set ms" if "(v, t, w) \<in> cast_votes ?d" for v t w
  proof -
    from vs' that obtain m where "nodes ?d v = Some m" unfolding votes_sound_def by blast
    with all mem' show ?thesis by (auto simp: member_ok_def split: if_splits)
  qed
  have old: "\<exists>Q. majority_of ms Q \<and> (\<forall>v\<in>Q. (v, t, l) \<in> cast_votes ?d)"
    if "(l, t) \<in> elections c" for l t
    using es that by (fastforce simp: elections_sound_def cast_votes_settle)
  have new: "\<exists>Q. majority_of ms Q \<and> (\<forall>v\<in>Q. (v, current_term n', x) \<in> cast_votes ?d)"
    if lead: "node_role n' = LEADER"
  proof (cases "(x, current_term n') \<in> elections c")
    case True then show ?thesis by (rule old)
  next
    case False
    have "\<forall>v\<in>votes_received n'. (v, current_term n', x) \<in> cast_votes ?d"
      using rs' lead by (auto simp: roles_sound_def)
    moreover from this have "majority_of ms (votes_received n')"
      using from_c False lead voters mem' id by (auto simp: roles_from_def majority_of_def member_ok_def)
    ultimately show ?thesis by blast
  qed
  have holder: "\<exists>m. nodes ?d l = Some m \<and>
      (t < current_term m \<or> t = current_term m \<and> node_role m \<noteq> CANDIDATE)"
    if "(l, t) \<in> elections ?d" for l t
  proof (cases "l = x \<and> t = current_term n' \<and> node_role n' = LEADER")
    case False
    with that have "(l, t) \<in> elections c" by (auto simp: elections_settle)
    with es obtain m where m: "nodes c l = Some m"
        "t < current_term m \<or> t = current_term m \<and> node_role m \<noteq> CANDIDATE"
      unfolding elections_sound_def by blast
    have keep: "node_role n' \<noteq> CANDIDATE"
      if "current_term n' = current_term n" "node_role n \<noteq> CANDIDATE"
      using role that by (simp add: role_grows_def)
    have "current_term n \<le> current_term n'" using grows by (simp add: node_grows_def)
    then show ?thesis using m x keep
      by (cases "l = x"; cases "current_term n' = current_term n") auto
  next
    case True
    then show ?thesis by simp
  qed
  have backed: "\<exists>Q. majority_of ms Q \<and> (\<forall>v\<in>Q. (v, t, l) \<in> cast_votes ?d)"
    if "(l, t) \<in> elections ?d" for l t
    using that old [of l t] new by (simp add: elections_settle) metis
  have es': "elections_sound ms ?d"
    unfolding elections_sound_def by (intro allI impI conjI; (rule backed | rule holder))
  have "\<forall>y m. nodes ?d y = Some m \<longrightarrow> member_ok ms y m" using all mem' by simp
  with vs' rs' es' show ?thesis by (simp add: vote_inv_def)
qed

text \<open>Most operations leave a candidate or leader as it was, or make it a follower.\<close>

definition role_keeps :: "'c raft_node \<Rightarrow> 'c raft_node \<Rightarrow> bool" where
  "role_keeps n n' \<longleftrightarrow> (node_role n' \<noteq> FOLLOWER \<longrightarrow>
     node_role n' = node_role n \<and> current_term n' = current_term n \<and>
     votes_received n' = votes_received n)"

lemma role_keeps_refl [simp]: "role_keeps n n"
  by (simp add: role_keeps_def)

lemma role_keeps_request_vote:
  "handle_request_vote r n = (n', resp) \<Longrightarrow> role_keeps n n'"
  by (auto simp: handle_request_vote_def role_keeps_def Let_def split: if_splits)

lemma role_keeps_append_entries:
  "handle_append_entries r n = (n', out) \<Longrightarrow> role_keeps n n'"
  by (erule append_entries_cases) (auto simp: role_keeps_def dest: grows_append_accepted)

lemma role_keeps_append_response:
  "handle_append_entries_response p r n = (n', out) \<Longrightarrow> role_keeps n n'"
  by (auto simp: handle_append_entries_response_def role_keeps_def Let_def
      split: if_splits prod.splits option.splits sum.splits dest!: advance_commit_frame)

lemma role_keeps_propose: "propose command n = (n', i) \<Longrightarrow> role_keeps n n'"
  by (auto simp: propose_def role_keeps_def Let_def split: if_splits)

lemma role_keeps_take: "take_newly_committed n = (n', cs) \<Longrightarrow> role_keeps n n'"
  by (auto simp: take_newly_committed_def role_keeps_def split: if_splits)

lemma roles_from_keeps:
  assumes "roles_sound c" "nodes c x = Some n" "node_id n = x" "node_grows n n'" "role_keeps n n'"
  shows "roles_from c n n'"
  using assms by (auto simp: roles_sound_def roles_from_def role_keeps_def node_grows_def)

lemma roles_from_timeout:
  assumes "on_election_timeout n = (n', ob)" "roles_sound c" "nodes c x = Some n" "node_id n = x"
  shows "roles_from c n n'"
proof (cases "node_role n = LEADER")
  case True
  with assms(1) have "n' = n" by (simp add: on_election_timeout_def)
  then show ?thesis using assms by (intro roles_from_keeps) auto
next
  case False
  with assms(1) show ?thesis by (auto simp: on_election_timeout_def roles_from_def Let_def)
qed

lemma vote_response_cases:
  assumes "handle_request_vote_response r n = (n', out)"
  obtains (ignored) "role_keeps n n'"
  | (counted) "rvr_vote_granted r" "node_role n = CANDIDATE" "rvr_term r = current_term n"
      "current_term n' = current_term n" "node_id n' = node_id n"
      "votes_received n' = insert (rvr_voter_id r) (votes_received n)"
      "majority n' = majority n"
      "node_role n' = LEADER \<longrightarrow> majority n' \<le> int (card (votes_received n'))"
  using assms
  by (auto simp: handle_request_vote_response_def role_keeps_def become_leader_def Let_def
      split: if_splits)

lemma roles_from_vote_response:
  assumes "handle_request_vote_response r n = (n', out)" "votes_sound c" "roles_sound c"
    and "nodes c x = Some n" "node_id n = x" "VoteResp x r \<in> net c"
  shows "roles_from c n n'"
  using assms(1)
proof (cases rule: vote_response_cases)
  case ignored
  then show ?thesis using assms grows_vote_response [OF assms(1)] by (intro roles_from_keeps) auto
next
  case counted
  have "(rvr_voter_id r, rvr_term r, x) \<in> cast_votes c"
    using assms(2,6) counted(1) unfolding votes_sound_def by blast
  with counted assms(3-5) show ?thesis by (auto simp: roles_from_def roles_sound_def)
qed

text \<open>Only a granted vote sends a granting response, and it names the vote just cast.\<close>

lemma no_vote_resp [simp]: "VoteResp d r \<notin> outbox_envelopes ob"
  "VoteResp d r \<notin> outcome_envelopes out"
  by (auto simp: outbox_envelopes_def outcome_envelopes_def split: sum.splits)

lemma request_vote_granted:
  "handle_request_vote r n = (n', resp) \<Longrightarrow> rvr_vote_granted resp \<Longrightarrow>
     rvr_voter_id resp = node_id n \<and> rvr_term resp = current_term n' \<and>
     voted_for n' = Some (rv_candidate_id r)"
  by (auto simp: handle_request_vote_def Let_def split: if_splits)

lemma vote_inv_keeps:
  assumes inv: "vote_inv ms c" and x: "nodes c x = Some n"
    and grows: "node_grows n n' \<and> role_grows n n'" and keeps: "role_keeps n n'"
    and msgs: "\<And>d r. VoteResp d r \<in> es \<Longrightarrow> rvr_vote_granted r \<Longrightarrow>
      (rvr_voter_id r, rvr_term r, d) \<in> cast_votes (settle x n' es c)"
  shows "vote_inv ms (settle x n' es c)"
proof -
  have "node_id n = x" "roles_sound c" using inv x by (auto simp: vote_inv_def member_ok_def)
  with x grows keeps have "roles_from c n n'" by (intro roles_from_keeps) auto
  with inv x grows msgs show ?thesis by (intro vote_inv_settle) auto
qed

lemma vote_inv_history [simp]:
  "vote_inv ms (c\<lparr>proposals := P\<rparr>) = vote_inv ms c"
  "vote_inv ms (c\<lparr>applied := A\<rparr>) = vote_inv ms c"
  by (simp_all add: vote_inv_def votes_sound_def roles_sound_def elections_sound_def)

lemma vote_inv_deliver:
  assumes inv: "vote_inv ms c" and m: "m \<in> net c" and step: "deliver m c = Some c'"
  shows "vote_inv ms c'"
proof (cases m)
  case (VoteReq x r)
  with step obtain n n' resp where n: "nodes c x = Some n"
      "handle_request_vote r n = (n', resp)"
      "c' = settle x n' {VoteResp (rv_candidate_id r) resp} c"
    by (auto split: option.splits prod.splits)
  have "node_id n = x" using inv n(1) by (auto simp: vote_inv_def member_ok_def)
  with n show ?thesis
    using inv grows_request_vote [OF n(2)] role_keeps_request_vote [OF n(2)] request_vote_granted [OF n(2)]
    by (auto intro!: vote_inv_keeps simp: cast_votes_settle)
next
  case (VoteResp x r)
  with step obtain n n' out where n: "nodes c x = Some n"
      "handle_request_vote_response r n = (n', out)" "c' = settle x n' (outcome_envelopes out) c"
    by (auto split: option.splits prod.splits)
  have "roles_from c n n'"
    using roles_from_vote_response [OF n(2)] inv n(1) m VoteResp
    by (auto simp: vote_inv_def member_ok_def)
  with n inv grows_vote_response [OF n(2)] show ?thesis by (auto intro!: vote_inv_settle)
next
  case (AppendReq x r)
  with step obtain n n' out where n: "nodes c x = Some n"
      "handle_append_entries r n = (n', out)"
      "c' = settle x n' (case out of Inl _ \<Rightarrow> {} | Inr resp \<Rightarrow> {AppendResp (ae_leader_id r) x resp}) c"
    by (auto split: option.splits prod.splits)
  then show ?thesis
    using inv grows_append_entries [OF n(2)] role_keeps_append_entries [OF n(2)]
    by (auto intro!: vote_inv_keeps split: sum.splits)
next
  case (AppendResp x peer r)
  with step obtain n n' out where n: "nodes c x = Some n"
      "handle_append_entries_response peer r n = (n', out)" "c' = settle x n' (outcome_envelopes out) c"
    by (auto split: option.splits prod.splits)
  then show ?thesis
    using inv grows_append_response [OF n(2)] role_keeps_append_response [OF n(2)]
    by (auto intro!: vote_inv_keeps)
qed

lemma vote_inv_timeout:
  assumes inv: "vote_inv ms c" and n: "nodes c x = Some n" "on_election_timeout n = (n', ob)"
  shows "vote_inv ms (settle x n' (outbox_envelopes ob) c)"
proof -
  have "roles_from c n n'"
    using roles_from_timeout [OF n(2)] inv n(1) by (auto simp: vote_inv_def member_ok_def)
  with inv n grows_timeout [OF n(2)] show ?thesis by (auto intro!: vote_inv_settle)
qed

lemma vote_inv_event:
  assumes inv: "vote_inv ms c" and step: "run_event e c = Some c'"
  shows "vote_inv ms c'"
proof (cases e)
  case (Timeout x)
  with step inv show ?thesis by (auto intro: vote_inv_timeout split: option.splits prod.splits)
next
  case (Heartbeat x)
  with step inv show ?thesis
    by (auto intro!: vote_inv_keeps split: option.splits)
next
  case (Deliver m)
  with step inv show ?thesis by (auto intro: vote_inv_deliver split: if_splits)
next
  case (Propose x command)
  with step inv show ?thesis
    by (auto intro!: vote_inv_keeps dest: grows_propose role_keeps_propose split: option.splits prod.splits)
next
  case (Apply x)
  with step inv show ?thesis
    by (auto intro!: vote_inv_keeps dest: grows_take role_keeps_take split: option.splits prod.splits)
qed

lemma member_node_ok:
  assumes "valid_members ms" "member_node ms x = Some n"
  shows "member_ok ms x n \<and> node_role n = FOLLOWER \<and> voted_for n = None \<and> node_log n = [] \<and>
    current_term n = 0 \<and> commit_index n = -1 \<and> last_applied n = -1 \<and> next_index n = Map.empty \<and>
    match_index n = Map.empty"
proof -
  from assms have x: "x \<in> set ms" and d: "distinct ms"
    by (auto simp: member_node_def valid_members_def split: if_splits)
  have "int (length (filter (\<lambda>p. p \<noteq> x) ms)) + 1 = int (length ms)"
    using x d by (induction ms) (auto intro!: arg_cong [where f = length] simp: filter_id_conv)
  with assms x show ?thesis
    by (auto simp: member_node_def new_raft_node_def member_ok_def py_len_def split: if_splits)
qed

lemma vote_inv_start: "cluster_start ms c \<Longrightarrow> vote_inv ms c"
  using member_node_ok
  by (fastforce simp: cluster_start_def init_cluster_def vote_inv_def votes_sound_def roles_sound_def
      elections_sound_def)

interpretation votes: inductive_invariant "cluster_start ms" cluster_step "vote_inv ms" for ms
  by unfold_locales (auto intro: vote_inv_start vote_inv_event elim: cluster_step.cases)

lemma reachable_vote_inv: "cluster_reachable ms c \<Longrightarrow> vote_inv ms c"
  by (auto simp: cluster_reachable_def intro: votes.reachable_inv)

end
