(* ===== verification/RaftLogs.thy ===== *)
theory RaftLogs
  imports RaftCluster
begin

text \<open>
  Logs in a reachable cluster. Every prefix of every log was at some time the whole log of a
  leader that had just appended a proposal; such logs are determined by their length and the
  term of their last entry. Log matching, the append-only leader and the absence of exceptions
  in the handlers follow.
\<close>

section \<open>Grounded logs\<close>

definition grounded :: "'c log_entry list set \<Rightarrow> 'c log_entry list \<Rightarrow> bool" where
  "grounded H L \<longleftrightarrow> (\<forall>i. 0 < i \<longrightarrow> i \<le> length L \<longrightarrow> take i L \<in> H)"

definition determined :: "'c log_entry list set \<Rightarrow> bool" where
  "determined H \<longleftrightarrow> (\<forall>L\<in>H. \<forall>L'\<in>H. length L = length L' \<longrightarrow>
     le_term (last L) = le_term (last L') \<longrightarrow> L = L')"

definition segment :: "'c log_entry list set \<Rightarrow> 'c append_entries_request \<Rightarrow> bool" where
  "segment H r \<longleftrightarrow> -1 \<le> ae_prev_log_index r \<and>
     (ae_entries r = [] \<or>
      (\<exists>L. grounded H L \<and> ae_prev_log_index r + 1 \<le> py_len L \<and>
         ae_entries r = drop (nat (ae_prev_log_index r + 1)) L \<and>
         (0 \<le> ae_prev_log_index r \<longrightarrow>
            ae_prev_log_term r = le_term (L ! nat (ae_prev_log_index r)))))"

lemma grounded_Nil [simp]: "grounded H []"
  by (simp add: grounded_def)

lemma grounded_take: "grounded H L \<Longrightarrow> grounded H (take k L)"
  by (auto simp: grounded_def min_def)

lemma grounded_mono: "grounded H L \<Longrightarrow> H \<subseteq> H' \<Longrightarrow> grounded H' L"
  by (auto simp: grounded_def)

lemma grounded_snoc: "grounded H L \<Longrightarrow> grounded (insert (L @ [e]) H) (L @ [e])"
  by (auto simp: grounded_def le_Suc_eq)

lemma segment_mono: "segment H r \<Longrightarrow> H \<subseteq> H' \<Longrightarrow> segment H' r"
  by (auto simp: segment_def dest: grounded_mono)

lemma last_take_Suc: "i < length L \<Longrightarrow> last (take (Suc i) L) = L ! i"
  by (simp add: take_Suc_conv_app_nth)

text \<open>Two grounded logs with the same term at a position agree up to that position.\<close>

lemma determined_prefix:
  assumes "determined H" "grounded H L" "grounded H L'" "i < length L" "i < length L'"
    and "le_term (L ! i) = le_term (L' ! i)"
  shows "take (Suc i) L = take (Suc i) L'"
proof -
  from assms have "take (Suc i) L \<in> H" "take (Suc i) L' \<in> H" by (auto simp: grounded_def)
  with assms show ?thesis unfolding determined_def by (simp add: last_take_Suc)
qed

lemma determined_insert:
  assumes "determined H"
    and "\<And>L. L \<in> H \<Longrightarrow> length L = length K \<Longrightarrow> le_term (last L) \<noteq> le_term (last K)"
  shows "determined (insert K H)"
  using assms unfolding determined_def by (auto dest: sym)

lemma take_Suc_agree:
  assumes "take k xs = take k ys" "k < length xs" "k < length ys" "xs ! k = ys ! k"
  shows "take (Suc k) xs = take (Suc k) ys"
  using assms by (simp add: take_Suc_conv_app_nth)

lemma take_self_le:
  assumes "L = take (length L) xs" shows "length L \<le> length xs"
  using arg_cong [OF assms, of length] by simp

lemma take_self_append:
  assumes "L = take (length L) xs" shows "L = take (length L) (xs @ ys)"
  using assms take_self_le [OF assms] by simp

section \<open>Merging a segment\<close>

text \<open>
  Merging the entries of a grounded log \<open>L\<close> from a position where the two logs agree never
  raises; the result is grounded and starts with all of \<open>L\<close>.
\<close>

lemma merge_entries_grounded:
  assumes det: "determined H" and L: "grounded H L"
  shows "grounded H lg \<Longrightarrow> take k lg = take k L \<Longrightarrow> k \<le> length lg \<Longrightarrow> k \<le> length L \<Longrightarrow>
    \<exists>lg'. merge_entries lg (int k) (drop k L) = (lg', None) \<and> grounded H lg' \<and>
      take (length L) lg' = L"
proof (induction "length L - k" arbitrary: k lg)
  case 0
  then show ?case by auto
next
  case (Suc d)
  then have k: "k < length L" by simp
  then have split: "drop k L = L ! k # drop (Suc k) L" by (simp add: Cons_nth_drop_Suc)
  have step: "int k + 1 = int (Suc k)" by simp
  show ?case
  proof (cases "k < length lg \<and> le_term (lg ! k) = le_term (L ! k)")
    case True
    then have agree: "take (Suc k) lg = take (Suc k) L"
      using determined_prefix [OF det Suc.prems(1) L] k by blast
    have "\<exists>lg'. merge_entries lg (int (Suc k)) (drop (Suc k) L) = (lg', None) \<and>
        grounded H lg' \<and> take (length L) lg' = L"
      using Suc.hyps(2) Suc.prems(1) agree True k by (intro Suc.hyps(1)) auto
    with True show ?thesis by (simp add: split py_index_def py_len_def step)
  next
    case False
    let ?lg = "take k lg @ [L ! k]"
    have lg: "?lg = take (Suc k) L" using Suc.prems(2) k by (simp add: take_Suc_conv_app_nth)
    have "\<exists>lg'. merge_entries ?lg (int (Suc k)) (drop (Suc k) L) = (lg', None) \<and>
        grounded H lg' \<and> take (length L) lg' = L"
      using Suc.hyps(2) k L by (intro Suc.hyps(1)) (auto simp: lg grounded_take min_def)
    moreover have "merge_entries lg (int k) (drop k L) = merge_entries ?lg (int (Suc k)) (drop (Suc k) L)"
      using False Suc.prems(3)
      by (auto simp: split py_index_def py_len_def py_del_from_nonneg add.commute)
    ultimately show ?thesis by simp
  qed
qed

text \<open>An accepted request leaves a grounded log that starts with the sender's log.\<close>

lemma append_accepted_grounded:
  assumes det: "determined H" and n: "grounded H (node_log n)" and seg: "segment H r"
    and at: "ae_prev_log_index r < 0 \<or> 0 \<le> ae_prev_log_index r \<and>
         ae_prev_log_index r < py_len (node_log n) \<and>
         le_term (node_log n ! nat (ae_prev_log_index r)) = ae_prev_log_term r"
  obtains lg' where "merge_entries (node_log n) (ae_prev_log_index r + 1) (ae_entries r) = (lg', None)"
    and "grounded H lg'"
    and "take (nat (ae_prev_log_index r + 1)) lg' = take (nat (ae_prev_log_index r + 1)) (node_log n)"
    and "take (length (ae_entries r)) (drop (nat (ae_prev_log_index r + 1)) lg') = ae_entries r"
proof (cases "ae_entries r = []")
  case True
  with n show thesis by (intro that [of "node_log n"]) auto
next
  case False
  with seg obtain L where L: "grounded H L" "ae_prev_log_index r + 1 \<le> py_len L"
      "ae_entries r = drop (nat (ae_prev_log_index r + 1)) L" "-1 \<le> ae_prev_log_index r"
      "0 \<le> ae_prev_log_index r \<longrightarrow> ae_prev_log_term r = le_term (L ! nat (ae_prev_log_index r))"
    by (auto simp: segment_def)
  let ?k = "nat (ae_prev_log_index r + 1)"
  have agree: "take ?k (node_log n) = take ?k L \<and> ?k \<le> length (node_log n) \<and> ?k \<le> length L"
  proof (cases "ae_prev_log_index r < 0")
    case True
    with L(4) have "?k = 0" by simp
    then show ?thesis by simp
  next
    case False
    with L(2) at have "nat (ae_prev_log_index r) < length L" "nat (ae_prev_log_index r) < length (node_log n)"
      by (auto simp: py_len_def)
    moreover from False have "?k = Suc (nat (ae_prev_log_index r))" by simp
    ultimately show ?thesis using determined_prefix [OF det n L(1)] False L(5) at by auto
  qed
  from agree have "\<exists>lg'. merge_entries (node_log n) (int ?k) (drop ?k L) = (lg', None) \<and>
      grounded H lg' \<and> take (length L) lg' = L"
    by (intro merge_entries_grounded [OF det L(1) n]) auto
  then obtain lg' where lg: "merge_entries (node_log n) (int ?k) (drop ?k L) = (lg', None)"
    "grounded H lg'" "take (length L) lg' = L" by blast
  have "int ?k = ae_prev_log_index r + 1" using L(4) by simp
  moreover have "take ?k lg' = take ?k L"
    using arg_cong [OF lg(3), of "take ?k"] agree by (simp add: min_absorb1)
  moreover have "take (length (drop ?k L)) (drop ?k lg') = drop ?k L"
    using arg_cong [OF lg(3), of "drop ?k"] by (simp add: drop_take)
  ultimately show thesis using L(3) lg agree that by auto
qed

lemma append_entries_grounded:
  assumes det: "determined H" and n: "grounded H (node_log n)" and seg: "segment H r"
    and run: "handle_append_entries r n = (n', out)"
  shows "grounded H (node_log n') \<and> (\<exists>resp. out = Inr resp)"
  using run
proof (cases rule: append_entries_cases)
  case accepted
  obtain lg' where lg: "merge_entries (node_log (follow r n)) (ae_prev_log_index r + 1) (ae_entries r) = (lg', None)"
    "grounded H lg'"
    by (rule append_accepted_grounded [OF det _ seg, of "follow r n"]) (use n accepted(3) in auto)
  then show ?thesis using accepted(2) by (auto simp: append_accepted_def Let_def)
qed (use n grounded_take in auto)

section \<open>The log invariant\<close>

definition log_inv :: "'c cluster \<Rightarrow> bool" where
  "log_inv c \<longleftrightarrow> determined (proposals c) \<and>
     (\<forall>x n. nodes c x = Some n \<longrightarrow> grounded (proposals c) (node_log n)) \<and>
     (\<forall>L\<in>proposals c. \<exists>l. (l, le_term (last L)) \<in> elections c) \<and>
     (\<forall>x n. nodes c x = Some n \<longrightarrow> node_role n = LEADER \<longrightarrow>
        (\<forall>L\<in>proposals c. le_term (last L) = current_term n \<longrightarrow> L = take (length L) (node_log n))) \<and>
     (\<forall>d r. AppendReq d r \<in> net c \<longrightarrow> segment (proposals c) r)"

definition next_ok :: "'c raft_node \<Rightarrow> bool" where
  "next_ok n \<longleftrightarrow> (\<forall>p k. next_index n p = Some k \<longrightarrow> 0 \<le> k)"

definition index_ok :: "'c raft_node \<Rightarrow> bool" where
  "index_ok n \<longleftrightarrow> next_ok n \<and>
     -1 \<le> last_applied n \<and> -1 \<le> commit_index n \<and>
     (node_role n = LEADER \<longrightarrow> (\<forall>p\<in>set (peer_ids n). next_index n p \<noteq> None \<and> match_index n p \<noteq> None))"

definition index_inv :: "'c cluster \<Rightarrow> bool" where
  "index_inv c \<longleftrightarrow> (\<forall>x n. nodes c x = Some n \<longrightarrow> index_ok n) \<and>
     (\<forall>d p r. AppendResp d p r \<in> net c \<longrightarrow> 0 \<le> aer_match_length_hint r)"

text \<open>The one leader of a term.\<close>

lemma vote_inv_backed:
  "vote_inv ms c \<Longrightarrow> (l, t) \<in> elections c \<Longrightarrow>
     \<exists>Q. majority_of ms Q \<and> (\<forall>v\<in>Q. (v, t, l) \<in> cast_votes c)"
  by (simp add: vote_inv_def elections_sound_def)

lemma vote_inv_past:
  "vote_inv ms c \<Longrightarrow> (l, t) \<in> elections c \<Longrightarrow> nodes c l = Some n \<Longrightarrow>
     t < current_term n \<or> t = current_term n \<and> node_role n \<noteq> CANDIDATE"
  unfolding vote_inv_def elections_sound_def by (metis option.inject)

lemma vote_inv_once:
  "vote_inv ms c \<Longrightarrow> (v, t, x) \<in> cast_votes c \<Longrightarrow> (v, t, y) \<in> cast_votes c \<Longrightarrow> x = y"
  unfolding vote_inv_def votes_sound_def by blast

lemma vote_inv_one_leader:
  assumes "vote_inv ms c" "(a, t) \<in> elections c" "(b, t) \<in> elections c"
  shows "a = b"
proof -
  from vote_inv_backed [OF assms(1,2)] obtain Q
    where Q: "majority_of ms Q" "\<forall>v\<in>Q. (v, t, a) \<in> cast_votes c" by blast
  from vote_inv_backed [OF assms(1,3)] obtain R
    where R: "majority_of ms R" "\<forall>v\<in>R. (v, t, b) \<in> cast_votes c" by blast
  show ?thesis
    by (rule majorities.single_vote_agree
        [where vote = "\<lambda>v w. (v, t, w) \<in> cast_votes c", OF Q(1) R(1) Q(2) R(2)])
      (rule vote_inv_once [OF assms(1)])
qed

text \<open>A node that leads after an operation led before it, or was just elected.\<close>

definition leads_from :: "'c raft_node \<Rightarrow> 'c raft_node \<Rightarrow> bool" where
  "leads_from n n' \<longleftrightarrow> (node_role n' = LEADER \<longrightarrow> current_term n' = current_term n \<and>
     (node_role n = LEADER \<and> node_log n' = node_log n \<or> node_role n = CANDIDATE))"

lemma log_inv_settle:
  assumes inv: "log_inv c" and votes: "vote_inv ms c" "vote_inv ms (settle x n' es c)"
    and x: "nodes c x = Some n" and lg: "grounded (proposals c) (node_log n')"
    and lead: "leads_from n n'"
    and msgs: "\<And>d r. AppendReq d r \<in> es \<Longrightarrow> segment (proposals c) r"
  shows "log_inv (settle x n' es c)"
proof -
  have elected: "(l, t) \<in> elections c \<Longrightarrow> (l, t) \<in> elections (settle x n' es c)" for l t
    by (simp add: elections_settle)
  have fresh: False
    if new: "node_role n' = LEADER" "node_role n = CANDIDATE" "current_term n' = current_term n"
      and L: "L \<in> proposals c" "le_term (last L) = current_term n'" for L
  proof -
    obtain l where l: "(l, current_term n') \<in> elections c"
      using inv L unfolding log_inv_def by metis
    have "(x, current_term n') \<in> elections (settle x n' es c)" using new(1) by (simp add: elections_settle)
    with l elected votes(2) have "l = x" by (blast intro: vote_inv_one_leader)
    with vote_inv_past [OF votes(1) l, of n] x new(2,3) show False by auto
  qed
  have prefix: "L = take (length L) (node_log n')"
    if "node_role n' = LEADER" "L \<in> proposals c" "le_term (last L) = current_term n'" for L
  proof (cases "node_role n = LEADER")
    case True
    with that(1) lead have "node_log n' = node_log n" "current_term n' = current_term n"
      by (auto simp: leads_from_def)
    with True that inv x show ?thesis unfolding log_inv_def by metis
  next
    case False
    with that lead fresh show ?thesis by (auto simp: leads_from_def)
  qed
  show ?thesis
    using inv lg msgs elected prefix unfolding log_inv_def
    by (simp add: all_conj_distrib) blast
qed

lemma append_entries_for_segment:
  assumes "append_entries_for n p = Inr r" "next_ok n" "grounded H (node_log n)"
  shows "segment H r"
proof -
  from assms(1,2) obtain k where k: "next_index n p = Some k" "0 \<le> k"
    by (auto simp: append_entries_for_def next_ok_def split: option.splits)
  with assms(1) have r: "ae_prev_log_index r = k - 1" "ae_entries r = drop (nat k) (node_log n)"
      "ae_prev_log_term r = (if 0 \<le> k - 1 \<and> k - 1 < py_len (node_log n)
         then le_term (node_log n ! nat (k - 1)) else 0)"
    by (auto simp: append_entries_for_def Let_def py_slice_from_nonneg)
  show ?thesis
  proof (cases "k \<le> py_len (node_log n)")
    case True
    with r k assms(3) show ?thesis by (auto simp: segment_def intro!: exI [of _ "node_log n"])
  next
    case False
    with r k show ?thesis by (auto simp: segment_def py_len_def)
  qed
qed

lemma heartbeat_segments:
  assumes "AppendReq d r \<in> outcome_envelopes (on_heartbeat_due n)" "next_ok n" "grounded H (node_log n)"
  shows "segment H r"
proof -
  from assms(1) obtain ob where ob: "on_heartbeat_due n = Inr ob" "(d, r) \<in> set (ob_append_entries ob)"
    by (auto simp: outcome_envelopes_def outbox_envelopes_def split: sum.splits)
  from ob have "append_entries_for n d = Inr r"
    by (auto simp: on_heartbeat_due_def empty_outbox_def map_outcome_Inr list_all2_conv_all_nth
        in_set_conv_nth split: if_splits sum.splits)
  then show ?thesis using assms(2,3) by (rule append_entries_for_segment)
qed

section \<open>Every event keeps the log invariant\<close>

lemma leads_from_keeps: "role_keeps n n' \<Longrightarrow> node_log n' = node_log n \<Longrightarrow> leads_from n n'"
  by (auto simp: role_keeps_def leads_from_def)

lemma log_timeout:
  "on_election_timeout n = (n', ob) \<Longrightarrow> node_log n' = node_log n \<and> leads_from n n'"
  "on_election_timeout n = (n', ob) \<Longrightarrow> AppendReq d r \<notin> outbox_envelopes ob"
  by (auto simp: on_election_timeout_def leads_from_def outbox_envelopes_def empty_outbox_def
      Let_def split: if_splits)

lemma log_request_vote:
  "handle_request_vote r n = (n', resp) \<Longrightarrow> node_log n' = node_log n \<and> leads_from n n'"
  by (auto simp: handle_request_vote_def leads_from_def Let_def split: if_splits)

lemma log_append_entries: "handle_append_entries r n = (n', out) \<Longrightarrow> leads_from n n'"
  by (erule append_entries_cases) (auto simp: leads_from_def dest: grows_append_accepted)

lemma log_vote_response:
  "handle_request_vote_response r n = (n', out) \<Longrightarrow> node_log n' = node_log n \<and> leads_from n n'"
  by (auto simp: handle_request_vote_response_def become_leader_def leads_from_def Let_def
      split: if_splits)

lemma log_append_response:
  assumes "handle_append_entries_response p r n = (n', out)"
  shows "node_log n' = node_log n \<and> leads_from n n'"
proof -
  have "node_log n' = node_log n"
    using assms by (auto simp: handle_append_entries_response_def Let_def
        split: if_splits prod.splits option.splits sum.splits dest!: advance_commit_frame)
  with role_keeps_append_response [OF assms] show ?thesis by (simp add: leads_from_keeps)
qed

lemma log_take:
  "take_newly_committed n = (n', cs) \<Longrightarrow> node_log n' = node_log n \<and> leads_from n n'"
  by (auto simp: take_newly_committed_def leads_from_def split: if_splits)

lemma empty_outbox_envelopes [simp]: "outcome_envelopes (Inr empty_outbox) = {}"
  by (simp add: outcome_envelopes_def outbox_envelopes_def empty_outbox_def)

lemma segments_vote_response:
  assumes "handle_request_vote_response r n = (n', out)" "AppendReq d q \<in> outcome_envelopes out"
    and "grounded H (node_log n)"
  shows "segment H q"
proof -
  from assms(1,2) obtain m where m: "become_leader m = (n', out)" "node_log m = node_log n"
    by (auto simp: handle_request_vote_response_def Let_def split: if_splits)
  have n': "node_log n' = node_log n" using m by (auto simp: become_leader_def Let_def)
  have out: "out = on_heartbeat_due n'" using m(1) by (auto simp: become_leader_def Let_def)
  have "next_ok n'" using m(1) by (auto simp: become_leader_def next_ok_def Let_def split: if_splits)
  then show ?thesis using assms(2,3) n' unfolding out by (auto intro: heartbeat_segments)
qed

lemma segments_append_response:
  assumes run: "handle_append_entries_response p r n = (n', out)"
    and q: "AppendReq d q \<in> outcome_envelopes out" and "next_ok n" "grounded H (node_log n)"
  shows "segment H q"
proof -
  let ?m = "(step_down_if_stale (aer_term r) n)\<lparr>next_index := (next_index n)(p \<mapsto> max 0 (aer_match_length_hint r))\<rparr>"
  from run q have "append_entries_for ?m p = Inr q"
    by (auto simp: handle_append_entries_response_def outcome_envelopes_def outbox_envelopes_def
        empty_outbox_def Let_def split: if_splits prod.splits option.splits sum.splits)
  moreover have "next_ok ?m" using assms(3) by (auto simp: next_ok_def)
  ultimately show ?thesis using assms(4) by (auto intro: append_entries_for_segment)
qed

lemma log_inv_propose:
  assumes inv: "log_inv c" and votes: "vote_inv ms c" and x: "nodes c x = Some n"
    and lead: "node_role n = LEADER" and n': "n' = n\<lparr>node_log := node_log n @ [e]\<rparr>"
    and e: "le_term e = current_term n"
  shows "log_inv ((settle x n' {} c)\<lparr>proposals := insert (node_log n') (proposals c)\<rparr>)"
proof -
  let ?H = "proposals c" and ?L = "node_log n @ [e]"
  from votes x lead have here: "(x, current_term n) \<in> elections c"
    unfolding vote_inv_def roles_sound_def by blast
  from inv x lead have own: "\<And>L. L \<in> ?H \<Longrightarrow> le_term (last L) = current_term n \<Longrightarrow>
      L = take (length L) (node_log n)" unfolding log_inv_def by blast
  then have short: "length L \<noteq> length ?L" if "L \<in> ?H" "le_term (last L) = current_term n" for L
    using take_self_le [OF own [OF that]] by simp
  have det: "determined (insert ?L ?H)"
  proof (rule determined_insert)
    show "determined ?H" using inv by (simp add: log_inv_def)
  next
    fix L assume "L \<in> ?H" "length L = length ?L"
    with short e show "le_term (last L) \<noteq> le_term (last ?L)" by auto
  qed
  have grd: "grounded (insert ?L ?H) (node_log m)" if "nodes (settle x n' {} c) y = Some m" for y m
    using that inv x grounded_snoc [of ?H "node_log n" e] n'
    by (auto simp: log_inv_def split: if_splits intro: grounded_mono)
  have pre: "L = take (length L) (node_log m)"
    if m: "nodes (settle x n' {} c) y = Some m" "node_role m = LEADER"
      and L: "L \<in> insert ?L ?H" "le_term (last L) = current_term m" for y m L
  proof (cases "y = x")
    case True
    with m(1) have "m = n'" by simp
    then have "node_log m = ?L" "current_term m = current_term n" using n' by simp_all
    show ?thesis
    proof (cases "L = ?L")
      case False
      with L(1) have "L \<in> ?H" by simp
      then have "L = take (length L) (node_log n)"
        using own L(2) \<open>current_term m = current_term n\<close> by simp
      then have "L = take (length L) ?L" by (rule take_self_append)
      then show ?thesis using \<open>node_log m = ?L\<close> by simp
    qed (use \<open>node_log m = ?L\<close> in simp)
  next
    case False
    with m have y: "nodes c y = Some m" by simp
    with votes m(2) have "(y, current_term m) \<in> elections c"
      unfolding vote_inv_def roles_sound_def by blast
    with vote_inv_one_leader [OF votes] here False have "current_term m \<noteq> current_term n" by metis
    with L e have "L \<in> ?H" by auto
    with inv y m(2) L(2) show ?thesis unfolding log_inv_def by blast
  qed
  have seg: "AppendReq d r \<in> net c \<Longrightarrow> segment (insert ?L ?H) r" for d r
    using inv unfolding log_inv_def by (blast intro: segment_mono)
  have backed: "\<exists>l. (l, le_term (last L)) \<in> elections (settle x n' {} c)" if "L \<in> insert ?L ?H" for L
    using that inv here e unfolding log_inv_def by (auto simp: elections_settle)
  show ?thesis
    using det grd pre seg backed n' unfolding log_inv_def by simp
qed

lemma log_inv_history [simp]: "log_inv (c\<lparr>applied := A\<rparr>) = log_inv c"
  by (simp add: log_inv_def)

lemma log_inv_nodes:
  "log_inv c \<Longrightarrow> nodes c x = Some n \<Longrightarrow> grounded (proposals c) (node_log n)"
  "log_inv c \<Longrightarrow> AppendReq d r \<in> net c \<Longrightarrow> segment (proposals c) r"
  "log_inv c \<Longrightarrow> determined (proposals c)"
  by (auto simp: log_inv_def)

lemma index_inv_nodes:
  "index_inv c \<Longrightarrow> nodes c x = Some n \<Longrightarrow> index_ok n"
  "index_inv c \<Longrightarrow> nodes c x = Some n \<Longrightarrow> next_ok n"
  "index_inv c \<Longrightarrow> AppendResp d p r \<in> net c \<Longrightarrow> 0 \<le> aer_match_length_hint r"
  by (auto simp: index_inv_def index_ok_def)

lemma log_inv_deliver:
  assumes inv: "log_inv c" "vote_inv ms c" "vote_inv ms c'" "index_inv c"
    and m: "m \<in> net c" and step: "deliver m c = Some c'"
  shows "log_inv c'"
proof (cases m)
  case (VoteReq x r)
  with step obtain n n' resp where n: "nodes c x = Some n" "handle_request_vote r n = (n', resp)"
      "c' = settle x n' {VoteResp (rv_candidate_id r) resp} c"
    by (auto split: option.splits prod.splits)
  show ?thesis
    unfolding n(3)
    by (rule log_inv_settle [where ms = ms and n = n])
      (use inv n log_request_vote [OF n(2)] log_inv_nodes in auto)
next
  case (VoteResp x r)
  with step obtain n n' out where n: "nodes c x = Some n"
      "handle_request_vote_response r n = (n', out)" "c' = settle x n' (outcome_envelopes out) c"
    by (auto split: option.splits prod.splits)
  have g: "grounded (proposals c) (node_log n)" using inv(1) n(1) by (rule log_inv_nodes)
  show ?thesis unfolding n(3)
    by (rule log_inv_settle [where ms = ms and n = n])
      (use inv n log_vote_response [OF n(2)] g segments_vote_response [OF n(2) _ g] in auto)
next
  case (AppendReq x r)
  with step obtain n n' out where n: "nodes c x = Some n" "handle_append_entries r n = (n', out)"
      "c' = settle x n' (case out of Inl _ \<Rightarrow> {} | Inr resp \<Rightarrow> {AppendResp (ae_leader_id r) x resp}) c"
    by (auto split: option.splits prod.splits)
  have "grounded (proposals c) (node_log n')"
    using append_entries_grounded [OF _ _ _ n(2)] inv(1) n(1) m AppendReq log_inv_nodes by blast
  then show ?thesis unfolding n(3)
    by (intro log_inv_settle [where ms = ms and n = n])
      (use inv n log_append_entries [OF n(2)] in \<open>auto split: sum.splits\<close>)
next
  case (AppendResp x peer r)
  with step obtain n n' out where n: "nodes c x = Some n"
      "handle_append_entries_response peer r n = (n', out)" "c' = settle x n' (outcome_envelopes out) c"
    by (auto split: option.splits prod.splits)
  have g: "grounded (proposals c) (node_log n)" using inv(1) n(1) by (rule log_inv_nodes)
  have k: "next_ok n" using inv(4) n(1) by (rule index_inv_nodes)
  show ?thesis unfolding n(3)
    by (rule log_inv_settle [where ms = ms and n = n])
      (use inv n log_append_response [OF n(2)] g segments_append_response [OF n(2) _ k g] in auto)
qed

lemma log_inv_event:
  assumes inv: "log_inv c" "vote_inv ms c" "index_inv c" and step: "run_event e c = Some c'"
  shows "log_inv c'"
proof -
  have inv': "vote_inv ms c'" using inv(2) step by (rule vote_inv_event)
  show ?thesis
  proof (cases e)
    case (Timeout x)
    with step obtain n n' ob where n: "nodes c x = Some n" "on_election_timeout n = (n', ob)"
        "c' = settle x n' (outbox_envelopes ob) c" by (auto split: option.splits prod.splits)
    show ?thesis unfolding n(3)
      by (rule log_inv_settle [where ms = ms and n = n])
        (use inv inv' n log_timeout [OF n(2)] log_inv_nodes in auto)
  next
    case (Heartbeat x)
    with step obtain n where n: "nodes c x = Some n"
        "c' = settle x n (outcome_envelopes (on_heartbeat_due n)) c" by (auto split: option.splits)
    have g: "grounded (proposals c) (node_log n)" using inv(1) n(1) by (rule log_inv_nodes)
    have k: "next_ok n" using inv(3) n(1) by (rule index_inv_nodes)
    show ?thesis unfolding n(2)
      by (rule log_inv_settle [where ms = ms and n = n])
        (use inv inv' n g leads_from_keeps [of n n] heartbeat_segments [OF _ k g] in auto)
  next
    case (Deliver m)
    with step inv inv' show ?thesis by (auto intro: log_inv_deliver split: if_splits)
  next
    case (Propose x command)
    with step obtain n where n: "nodes c x = Some n" by (auto split: option.splits)
    show ?thesis
    proof (cases "node_role n = LEADER")
      case True
      let ?n = "n\<lparr>node_log := node_log n @ [\<lparr>le_term = current_term n, le_command = command\<rparr>]\<rparr>"
      from True Propose step n
      have "c' = (settle x ?n {} c)\<lparr>proposals := insert (node_log ?n) (proposals c)\<rparr>"
        by (simp add: propose_def Let_def)
      then show ?thesis using log_inv_propose [OF inv(1,2) n True refl] by simp
    next
      case False
      with Propose step n have c': "c' = settle x n {} c" by (auto simp: propose_def)
      show ?thesis unfolding c'
        by (rule log_inv_settle [where ms = ms and n = n])
          (use inv inv' n c' log_inv_nodes leads_from_keeps [of n n] in auto)
    qed
  next
    case (Apply x)
    with step obtain n n' cs where n: "nodes c x = Some n" "take_newly_committed n = (n', cs)"
        "c' = (settle x n' {} c)\<lparr>applied := (applied c)(x := applied c x @ cs)\<rparr>"
      by (auto split: option.splits prod.splits)
    have "vote_inv ms (settle x n' {} c)" using inv' n(3) by simp
    then have "log_inv (settle x n' {} c)"
      by (intro log_inv_settle [where ms = ms and n = n])
        (use inv n log_take [OF n(2)] log_inv_nodes in auto)
    then show ?thesis by (simp add: n(3))
  qed
qed

section \<open>Indexes\<close>

lemma index_ok_keeps:
  assumes "index_ok n" "role_keeps n n'" "peer_ids n' = peer_ids n" "next_index n' = next_index n"
    and "match_index n' = match_index n" "-1 \<le> commit_index n'" "-1 \<le> last_applied n'"
  shows "index_ok n'"
  using assms by (auto simp: index_ok_def next_ok_def role_keeps_def)

lemma index_append_accepted:
  "append_accepted r n = (n', out) \<Longrightarrow> -1 \<le> commit_index n \<Longrightarrow>
     -1 \<le> commit_index n' \<and> last_applied n' = last_applied n"
  by (auto simp: append_accepted_def Let_def py_len_def split: prod.splits option.splits if_splits)

lemma index_append_entries:
  assumes run: "handle_append_entries r n = (n', out)" and ok: "index_ok n"
  shows "index_ok n'"
proof -
  have frame: "peer_ids n' = peer_ids n" "next_index n' = next_index n" "match_index n' = match_index n"
    "-1 \<le> commit_index n' \<and> last_applied n' = last_applied n"
    using run ok
    by (cases rule: append_entries_cases;
        auto simp: index_ok_def dest: grows_append_accepted index_append_accepted)+
  with index_ok_keeps [OF ok role_keeps_append_entries [OF run]] ok show ?thesis
    by (auto simp: index_ok_def)
qed

lemma append_entries_hint:
  assumes "handle_append_entries r n = (n', Inr resp)"
  shows "0 \<le> aer_match_length_hint resp"
  using assms
  by (cases rule: append_entries_cases)
    (auto simp: append_response_def append_accepted_def Let_def split: prod.splits option.splits)

lemma index_vote_response:
  assumes run: "handle_request_vote_response r n = (n', out)" and ok: "index_ok n"
  shows "index_ok n'"
  using run ok
  by (auto simp: handle_request_vote_response_def become_leader_def index_ok_def next_ok_def Let_def
      split: if_splits)

lemma index_append_response:
  assumes run: "handle_append_entries_response p r n = (n', out)" and ok: "index_ok n"
    and hint: "0 \<le> aer_match_length_hint r"
  shows "index_ok n'"
  using run ok hint
  by (auto simp: handle_append_entries_response_def index_ok_def next_ok_def Let_def
      split: if_splits prod.splits option.splits sum.splits dest!: advance_commit_frame)

lemma index_other:
  "on_election_timeout n = (n', ob) \<Longrightarrow> index_ok n \<Longrightarrow> index_ok n'"
  "handle_request_vote q n = (n', resp) \<Longrightarrow> index_ok n \<Longrightarrow> index_ok n'"
  "propose command n = (n', i) \<Longrightarrow> index_ok n \<Longrightarrow> index_ok n'"
  "take_newly_committed n = (n', cs) \<Longrightarrow> index_ok n \<Longrightarrow> index_ok n'"
  by (auto simp: on_election_timeout_def handle_request_vote_def propose_def take_newly_committed_def
      index_ok_def next_ok_def Let_def split: if_splits)

lemma index_inv_settle:
  assumes "index_inv c" "index_ok n" "\<And>d p r. AppendResp d p r \<in> es \<Longrightarrow> 0 \<le> aer_match_length_hint r"
  shows "index_inv (settle x n es c)"
  using assms by (auto simp: index_inv_def)

lemma no_append_resp [simp]: "AppendResp d p r \<notin> outbox_envelopes ob"
  "AppendResp d p r \<notin> outcome_envelopes out"
  by (auto simp: outbox_envelopes_def outcome_envelopes_def split: sum.splits)

lemma index_inv_history [simp]: "index_inv (c\<lparr>applied := A\<rparr>) = index_inv c"
  "index_inv (c\<lparr>proposals := P\<rparr>) = index_inv c"
  by (simp_all add: index_inv_def)

lemma index_inv_deliver:
  assumes inv: "index_inv c" and m: "m \<in> net c" and step: "deliver m c = Some c'"
  shows "index_inv c'"
  using step inv m
  by (cases m)
    (auto split: option.splits prod.splits sum.splits intro!: index_inv_settle
      dest: index_inv_nodes(1,3) intro: index_other index_append_entries index_vote_response
        index_append_response append_entries_hint)

lemma index_inv_event:
  assumes inv: "index_inv c" and step: "run_event e c = Some c'"
  shows "index_inv c'"
  using step inv
  by (cases e)
    (auto split: option.splits prod.splits if_splits intro!: index_inv_settle
      dest: index_inv_nodes(1) index_inv_deliver intro: index_other,
     (blast intro: index_other index_inv_nodes(1))+)

definition raft_inv :: "string list \<Rightarrow> 'c cluster \<Rightarrow> bool" where
  "raft_inv ms c \<longleftrightarrow> vote_inv ms c \<and> log_inv c \<and> index_inv c"

lemma member_node_fresh:
  "valid_members ms \<Longrightarrow> member_node ms x = Some n \<Longrightarrow>
     index_ok n \<and> node_log n = [] \<and> node_role n \<noteq> LEADER"
  using member_node_ok [of ms x n] by (auto simp: index_ok_def next_ok_def)

lemma raft_inv_start: "cluster_start ms c \<Longrightarrow> raft_inv ms c"
  using vote_inv_start [of ms c] member_node_fresh [of ms]
  by (fastforce simp: raft_inv_def log_inv_def index_inv_def cluster_start_def init_cluster_def
      determined_def)

lemma raft_inv_step: "raft_inv ms c \<Longrightarrow> cluster_step c c' \<Longrightarrow> raft_inv ms c'"
  by (auto simp: raft_inv_def elim!: cluster_step.cases
      intro: vote_inv_event log_inv_event index_inv_event)

interpretation raft: inductive_invariant "cluster_start ms" cluster_step "raft_inv ms" for ms
  by unfold_locales (auto intro: raft_inv_start raft_inv_step)

lemma reachable_raft_inv: "cluster_reachable ms c \<Longrightarrow> raft_inv ms c"
  by (auto simp: cluster_reachable_def intro: raft.reachable_inv)

lemma reachable_invs:
  assumes "cluster_reachable ms c"
  shows "vote_inv ms c" "log_inv c" "index_inv c"
  using reachable_raft_inv [OF assms] by (auto simp: raft_inv_def)

end
