(* ===== verification/RaftSafety.thy ===== *)
theory RaftSafety
  imports RaftLogs
begin

text \<open>
  What the replicas guarantee together, and one guarantee they do not give: two nodes of a
  reachable cluster can apply different commands at the same position.
\<close>

section \<open>One operation\<close>

text \<open>What the commit loop returns, as a specification over the whole range it scans.\<close>

definition committable :: "'c raft_node \<Rightarrow> int \<Rightarrow> bool" where
  "committable n i \<longleftrightarrow> commit_index n < i \<and> i < py_len (node_log n) \<and>
     le_term (node_log n ! nat i) = current_term n \<and>
     majority n \<le> 1 + int (length (filter (\<lambda>p. i \<le> the (match_index n p)) (peer_ids n)))"

lemma count_matching_filter:
  "\<forall>p\<in>set ps. match_index n p \<noteq> None \<Longrightarrow>
     count_matching n i ps = Inr (int (length (filter (\<lambda>p. i \<le> the (match_index n p)) ps)))"
  by (induction ps) (auto split: option.splits)

lemma advance_from_spec:
  assumes "\<forall>p\<in>set (peer_ids n). match_index n p \<noteq> None" "-1 \<le> commit_index n" "i < py_len (node_log n)"
  shows "\<exists>k. advance_from n i = (n\<lparr>commit_index := k\<rparr>, None) \<and>
    (k = commit_index n \<and> (\<forall>j\<le>i. \<not> committable n j) \<or>
     committable n k \<and> k \<le> i \<and> (\<forall>j\<le>i. committable n j \<longrightarrow> j \<le> k))"
  using assms
proof (induction n i rule: advance_from.induct)
  case (1 n i)
  show ?case
  proof (cases "i \<le> commit_index n")
    case True
    then show ?thesis
      by (auto simp: advance_from.simps [of n i] committable_def intro!: exI [of _ "commit_index n"])
  next
    case False
    then have at: "py_index (node_log n) i = Some (node_log n ! nat i)"
      using "1.prems" by (simp add: py_index_in)
    note count = count_matching_filter [OF "1.prems"(1), of i]
    show ?thesis
    proof (cases "committable n i")
      case True
      with False at count show ?thesis
        by (auto simp: advance_from.simps [of n i] committable_def intro!: exI [of _ i])
    next
      case not: False
      then have eq: "advance_from n i = advance_from n (i - 1)"
        using False at count "1.prems" by (auto simp: advance_from.simps [of n i] committable_def)
      have "\<exists>k. advance_from n (i - 1) = (n\<lparr>commit_index := k\<rparr>, None) \<and>
          (k = commit_index n \<and> (\<forall>j\<le>i - 1. \<not> committable n j) \<or>
           committable n k \<and> k \<le> i - 1 \<and> (\<forall>j\<le>i - 1. committable n j \<longrightarrow> j \<le> k))"
      proof (cases "le_term (node_log n ! nat i) = current_term n")
        case True
        with 1(2) [OF False at _ count] "1.prems" False not show ?thesis
          by (auto simp: committable_def)
      next
        case other: False
        with 1(1) [OF False at] "1.prems" show ?thesis by auto
      qed
      moreover have "j \<le> i \<Longrightarrow> committable n j \<Longrightarrow> j \<le> i - 1" for j
        using not by (cases "j = i") auto
      ultimately show ?thesis unfolding eq by (metis order_trans zle_diff1_eq less_imp_le)
    qed
  qed
qed

text \<open>C30: the leader's commit rule. When every peer has a match index, the scan raises
  nothing and moves the commit index to the greatest position above it whose entry is of the
  current term and held by a majority according to the match indexes; if there is none it
  leaves the commit index alone.\<close>

theorem commit_rule:
  assumes "\<forall>p\<in>set (peer_ids n). match_index n p \<noteq> None" and "-1 \<le> commit_index n"
  shows "\<exists>k. advance_commit_index n = (n\<lparr>commit_index := k\<rparr>, None) \<and>
    (k = commit_index n \<and> (\<forall>j. \<not> committable n j) \<or>
     committable n k \<and> (\<forall>j. committable n j \<longrightarrow> j \<le> k))"
proof -
  have above: "committable n j \<Longrightarrow> j \<le> py_len (node_log n) - 1" for j
    by (simp add: committable_def)
  show ?thesis
    using advance_from_spec [OF assms, of "py_len (node_log n) - 1"] above
    unfolding advance_commit_index_def by (metis zle_diff1_eq order_refl less_add_one diff_add_cancel)
qed

definition sample_leader :: "string raft_node" where
  "sample_leader = \<lparr>node_id = ''a'', peer_ids = [''b'', ''c''], cluster_size = 3, majority = 2,
     current_term = 2, voted_for = Some ''a'',
     node_log = [\<lparr>le_term = 1, le_command = ''x''\<rparr>, \<lparr>le_term = 2, le_command = ''y''\<rparr>],
     commit_index = -1, last_applied = -1,
     next_index = [''b'' \<mapsto> 2, ''c'' \<mapsto> 0], match_index = [''b'' \<mapsto> 1, ''c'' \<mapsto> -1],
     votes_received = {''a'', ''b''}, node_role = LEADER, leader_id = Some ''a''\<rparr>"

theorem commit_rule_witness:
  "\<exists>k. advance_commit_index sample_leader = (sample_leader\<lparr>commit_index := k\<rparr>, None) \<and>
    (k = -1 \<and> (\<forall>j. \<not> committable sample_leader j) \<or>
     committable sample_leader k \<and> (\<forall>j. committable sample_leader j \<longrightarrow> j \<le> k))"
  using commit_rule [of sample_leader] by (simp add: sample_leader_def)

section \<open>The cluster\<close>

definition abc :: "string list" where
  "abc = [''a'', ''b'', ''c'']"

lemma valid_abc [simp]: "valid_members abc"
  by (simp add: valid_members_def abc_def)

lemma reachable_by_run:
  "run_events es (init_cluster abc) = Some c \<Longrightarrow> cluster_reachable abc c"
  by (rule run_events_reachable [OF valid_abc])

definition node_at :: "'c cluster \<Rightarrow> string \<Rightarrow> 'c raft_node" where
  "node_at c x = the (nodes c x)"

lemma node_at: "nodes c x \<noteq> None \<Longrightarrow> nodes c x = Some (node_at c x)"
  by (auto simp: node_at_def)

definition vreq :: "int \<Rightarrow> string \<Rightarrow> int \<Rightarrow> int \<Rightarrow> request_vote_request" where
  "vreq t x i lt = \<lparr>rv_term = t, rv_candidate_id = x, rv_last_log_index = i, rv_last_log_term = lt\<rparr>"

definition vresp :: "int \<Rightarrow> string \<Rightarrow> request_vote_response" where
  "vresp t v = \<lparr>rvr_term = t, rvr_vote_granted = True, rvr_voter_id = v\<rparr>"

definition areq ::
    "int \<Rightarrow> string \<Rightarrow> int \<Rightarrow> int \<Rightarrow> string log_entry list \<Rightarrow> int \<Rightarrow> string append_entries_request" where
  "areq t l p pt es k = \<lparr>ae_term = t, ae_leader_id = l, ae_prev_log_index = p,
     ae_prev_log_term = pt, ae_entries = es, ae_leader_commit = k\<rparr>"

definition aresp :: "int \<Rightarrow> bool \<Rightarrow> string \<Rightarrow> int \<Rightarrow> append_entries_response" where
  "aresp t ok f h = \<lparr>aer_term = t, aer_success = ok, aer_follower_id = f, aer_match_length_hint = h\<rparr>"

definition entry_of :: "int \<Rightarrow> string \<Rightarrow> string log_entry" where
  "entry_of t x = \<lparr>le_term = t, le_command = x\<rparr>"

text \<open>Two elections: \<open>b\<close> leads term 1 and keeps an entry to itself, \<open>c\<close> leads term 2.\<close>

definition two_leaders_run :: "string event list" where
  "two_leaders_run = [
     Timeout ''b'', Deliver (VoteReq ''a'' (vreq 1 ''b'' (-1) 0)),
     Deliver (VoteResp ''b'' (vresp 1 ''a'')), Propose ''b'' ''x'',
     Timeout ''c'', Timeout ''c'', Deliver (VoteReq ''a'' (vreq 2 ''c'' (-1) 0)),
     Deliver (VoteResp ''c'' (vresp 2 ''a'')), Propose ''c'' ''y'']"

definition two_leaders :: "string cluster" where
  "two_leaders = the (run_events two_leaders_run (init_cluster abc))"

lemma two_leaders_runs: "run_events two_leaders_run (init_cluster abc) = Some two_leaders"
proof -
  have "run_events two_leaders_run (init_cluster abc :: string cluster) \<noteq> None" by code_simp
  then show ?thesis by (auto simp: two_leaders_def)
qed

lemma two_leaders_reachable: "cluster_reachable abc two_leaders"
  by (rule reachable_by_run [OF two_leaders_runs])

text \<open>C3: election safety. In every reachable cluster, whatever was lost, repeated or
  delayed, at most one node has ever been leader in a term, and no voter has ever held two
  votes in one term.\<close>

theorem election_safety:
  assumes "cluster_reachable ms c"
  shows "((a, t) \<in> elections c \<and> (b, t) \<in> elections c \<longrightarrow> a = b) \<and>
    ((v, t, x) \<in> cast_votes c \<and> (v, t, y) \<in> cast_votes c \<longrightarrow> x = y) \<and>
    (nodes c a = Some n \<and> node_role n = LEADER \<longrightarrow> (a, current_term n) \<in> elections c)"
proof -
  note inv = reachable_invs(1) [OF assms]
  have "nodes c a = Some n \<Longrightarrow> node_role n = LEADER \<Longrightarrow> (a, current_term n) \<in> elections c"
    using inv by (simp add: vote_inv_def roles_sound_def)
  with vote_inv_one_leader [OF inv] vote_inv_once [OF inv] show ?thesis by blast
qed

theorem election_safety_witness:
  "{a. (a, 2) \<in> elections two_leaders} = {''c''} \<and> {a. (a, 1) \<in> elections two_leaders} = {''b''}"
proof -
  have "(''c'', 2) \<in> elections two_leaders" "(''b'', 1) \<in> elections two_leaders" by code_simp+
  with election_safety [OF two_leaders_reachable] show ?thesis by blast
qed

text \<open>The leader \<open>c\<close> has replicated its entry to \<open>a\<close>.\<close>

definition replicated_run :: "string event list" where
  "replicated_run = two_leaders_run @ [Heartbeat ''c'',
     Deliver (AppendReq ''a'' (areq 2 ''c'' (-1) 0 [entry_of 2 ''y''] (-1)))]"

definition replicated :: "string cluster" where
  "replicated = the (run_events replicated_run (init_cluster abc))"

lemma replicated_reachable: "cluster_reachable abc replicated"
proof -
  have "run_events replicated_run (init_cluster abc :: string cluster) \<noteq> None" by code_simp
  then show ?thesis by (intro reachable_by_run) (auto simp: replicated_def)
qed

text \<open>C6: log matching. If the logs of two nodes of a reachable cluster have entries of the
  same term at one position, the logs are identical up to and including that position.\<close>

theorem log_matching:
  assumes "cluster_reachable ms c" and "nodes c a = Some n" and "nodes c b = Some m"
    and "i < length (node_log n)" and "i < length (node_log m)"
    and "le_term (node_log n ! i) = le_term (node_log m ! i)"
  shows "take (Suc i) (node_log n) = take (Suc i) (node_log m)"
  using assms(4-6) determined_prefix log_inv_nodes(1,3) [OF reachable_invs(2) [OF assms(1)]] assms(2,3)
  by blast

theorem log_matching_witness:
  "take (Suc 0) (node_log (node_at replicated ''a'')) = take (Suc 0) (node_log (node_at replicated ''c''))"
proof (rule log_matching [OF replicated_reachable])
  have "nodes replicated ''a'' \<noteq> None" "nodes replicated ''c'' \<noteq> None" by code_simp+
  then show "nodes replicated ''a'' = Some (node_at replicated ''a'')"
    "nodes replicated ''c'' = Some (node_at replicated ''c'')" by (auto intro: node_at)
qed code_simp+

lemma leads_refl: "leads_from n n"
  by (simp add: leads_from_def)

lemmas leads_ops = log_timeout(1) [THEN conjunct2] log_request_vote [THEN conjunct2]
  log_vote_response [THEN conjunct2] log_append_entries log_append_response [THEN conjunct2]
  log_take [THEN conjunct2]

lemma leads_deliver:
  assumes "deliver m c = Some c'" "nodes c x = Some n" "nodes c' x = Some n'"
  shows "leads_from n n'"
  using assms by (cases m) (auto split: if_splits option.splits prod.splits intro: leads_refl leads_ops)

lemma leads_event:
  assumes "run_event e c = Some c'" "nodes c x = Some n" "nodes c' x = Some n'"
    and "\<And>y command. e \<noteq> Propose y command"
  shows "leads_from n n'"
  using assms
  by (cases e) (auto split: if_splits option.splits prod.splits intro: leads_refl leads_ops leads_deliver)

text \<open>The leader is append-only. An event that leaves a node leader in the same term
  leaves its log as it was or adds entries at the end; it never removes or replaces one.\<close>

theorem leader_append_only:
  assumes "run_event e c = Some c'" and "nodes c x = Some n" and "nodes c' x = Some n'"
    and "node_role n = LEADER" and "node_role n' = LEADER"
  shows "\<exists>es. node_log n' = node_log n @ es"
proof (cases "\<exists>y command. e = Propose y command")
  case True
  with assms show ?thesis by (auto simp: propose_def Let_def split: if_splits option.splits)
next
  case False
  with assms leads_event [OF assms(1-3)] show ?thesis by (auto simp: leads_from_def)
qed

definition extended :: "string cluster" where
  "extended = the (run_event (Propose ''c'' ''w'') replicated)"

lemma extended_step: "run_event (Propose ''c'' ''w'') replicated = Some extended"
proof -
  have "run_event (Propose ''c'' ''w'') replicated \<noteq> None" by code_simp
  then show ?thesis by (auto simp: extended_def)
qed

theorem leader_append_only_witness:
  "\<exists>es. node_log (node_at extended ''c'') = node_log (node_at replicated ''c'') @ es"
proof (rule leader_append_only [OF extended_step])
  have "nodes replicated ''c'' \<noteq> None" "nodes extended ''c'' \<noteq> None" by code_simp+
  then show "nodes replicated ''c'' = Some (node_at replicated ''c'')"
    "nodes extended ''c'' = Some (node_at extended ''c'')" by (auto intro: node_at)
qed code_simp+

lemma heartbeat_total:
  assumes "node_role n = LEADER \<longrightarrow> (\<forall>p\<in>set (peer_ids n). next_index n p \<noteq> None)"
  shows "\<exists>ob. on_heartbeat_due n = Inr ob"
proof (cases "node_role n = LEADER")
  case True
  define send where "send p = (case append_entries_for n p of Inr r \<Rightarrow> (p, r) | Inl _ \<Rightarrow> undefined)" for p
  have "map_outcome (\<lambda>p. map_sum id (Pair p) (append_entries_for n p)) (peer_ids n) =
      Inr (map send (peer_ids n))"
    using assms True
    by (intro map_outcome_total) (auto simp: send_def append_entries_for_def Let_def split: option.splits)
  with True show ?thesis by (simp add: on_heartbeat_due_def)
qed (simp add: on_heartbeat_due_def)

lemma vote_response_total: "\<exists>ob. snd (handle_request_vote_response r n) = Inr ob"
  by (auto simp: handle_request_vote_response_def become_leader_def Let_def intro!: heartbeat_total)

lemma append_response_total:
  assumes ok: "index_ok n" and p: "p \<in> set (peer_ids n)"
  shows "\<exists>ob. snd (handle_append_entries_response p r n) = Inr ob"
proof (cases "node_role (step_down_if_stale (aer_term r) n) = LEADER")
  case True
  let ?m = "(step_down_if_stale (aer_term r) n)
    \<lparr>match_index := (match_index n)(p \<mapsto> aer_match_length_hint r - 1),
     next_index := (next_index n)(p \<mapsto> aer_match_length_hint r)\<rparr>"
  have "\<forall>q\<in>set (peer_ids ?m). match_index ?m q \<noteq> None" "-1 \<le> commit_index ?m"
    using True ok by (auto simp: index_ok_def split: if_splits)
  then obtain k where "advance_commit_index ?m = (?m\<lparr>commit_index := k\<rparr>, None)"
    using advance_from_spec [of ?m "py_len (node_log ?m) - 1"] by (auto simp: advance_commit_index_def)
  then show ?thesis
    by (auto simp: handle_append_entries_response_def append_entries_for_def Let_def)
qed (simp add: handle_append_entries_response_def Let_def)

lemma no_handler_raises_total:
  assumes "cluster_reachable ms c" "nodes c x = Some n" "AppendReq x r \<in> net c"
  shows "\<exists>n' resp. handle_append_entries r n = (n', Inr resp)"
  using append_entries_grounded [of "proposals c" n r] log_inv_nodes [OF reachable_invs(2) [OF assms(1)]]
    assms(2,3) by (metis prod.exhaust)

text \<open>No handler raises. In a reachable cluster no message in the network and no timer
  makes a method of \<open>RaftNode\<close> raise: every key of \<open>next_index\<close> and
  \<open>match_index\<close> it looks up is present and every log position it reads exists.\<close>

theorem no_handler_raises:
  assumes "cluster_reachable ms c" and "nodes c x = Some n"
  shows "(\<exists>ob. on_heartbeat_due n = Inr ob) \<and>
    (\<forall>r. AppendReq x r \<in> net c \<longrightarrow> (\<exists>resp. snd (handle_append_entries r n) = Inr resp)) \<and>
    (\<forall>r. \<exists>ob. snd (handle_request_vote_response r n) = Inr ob) \<and>
    (\<forall>p r. p \<in> set (peer_ids n) \<longrightarrow> (\<exists>ob. snd (handle_append_entries_response p r n) = Inr ob))"
proof -
  note inv = reachable_invs [OF assms(1)]
  have ok: "index_ok n" using inv(3) assms(2) by (rule index_inv_nodes)
  have "\<exists>resp. snd (handle_append_entries r n) = Inr resp" if "AppendReq x r \<in> net c" for r
    using no_handler_raises_total [OF assms that] by auto
  with ok heartbeat_total vote_response_total append_response_total [OF ok] show ?thesis
    by (auto simp: index_ok_def)
qed

theorem no_handler_raises_witness:
  "(\<exists>ob. on_heartbeat_due (node_at replicated ''c'') = Inr ob) \<and>
   (\<exists>resp. snd (handle_append_entries (areq 2 ''c'' (-1) 0 [entry_of 2 ''y''] (-1))
      (node_at replicated ''a'')) = Inr resp)"
proof -
  have "nodes replicated ''a'' \<noteq> None" "nodes replicated ''c'' \<noteq> None" by code_simp+
  note n = this [THEN node_at]
  have "AppendReq ''a'' (areq 2 ''c'' (-1) 0 [entry_of 2 ''y''] (-1)) \<in> net replicated" by code_simp
  with no_handler_raises [OF replicated_reachable n(1)] no_handler_raises [OF replicated_reachable n(2)]
  show ?thesis by blast
qed

text \<open>An accepted request installs the leader's entries. In a reachable cluster, when a
  node answers a request in the network with success, its log holds exactly the request's
  entries from the position after \<open>prev_log_index\<close> on, and what it held before that position
  is unchanged.\<close>

theorem accepted_entries_installed:
  assumes "cluster_reachable ms c" and "nodes c x = Some n" and "AppendReq x r \<in> net c"
    and "handle_append_entries r n = (n', Inr resp)" and "aer_success resp"
  shows "let k = nat (ae_prev_log_index r + 1) in
    take k (node_log n') = take k (node_log n) \<and>
    take (length (ae_entries r)) (drop k (node_log n')) = ae_entries r"
proof -
  note inv = log_inv_nodes [OF reachable_invs(2) [OF assms(1)]]
  from assms(4) show ?thesis
  proof (cases rule: append_entries_cases)
    case accepted
    obtain lg' where lg: "merge_entries (node_log (follow r n)) (ae_prev_log_index r + 1) (ae_entries r) = (lg', None)"
      "take (nat (ae_prev_log_index r + 1)) lg' = take (nat (ae_prev_log_index r + 1)) (node_log (follow r n))"
      "take (length (ae_entries r)) (drop (nat (ae_prev_log_index r + 1)) lg') = ae_entries r"
      by (rule append_accepted_grounded [OF inv(3) _ inv(2) [OF assms(3)], of "follow r n"])
        (use inv(1) [OF assms(2)] accepted(3) in auto)
    have "node_log n' = lg'" using accepted(2) lg(1) by (auto simp: append_accepted_def Let_def)
    with lg show ?thesis by (simp add: Let_def)
  qed (use assms(5) in \<open>auto simp: append_response_def\<close>)
qed

definition install_request :: "string append_entries_request" where
  "install_request = areq 2 ''c'' (-1) 0 [entry_of 2 ''y''] (-1)"

theorem accepted_entries_installed_witness:
  "take 1 (drop 0 (node_log (fst (handle_append_entries install_request (node_at replicated ''a''))))) =
     [entry_of 2 ''y'']"
proof -
  have "nodes replicated ''a'' \<noteq> None" by code_simp
  note n = this [THEN node_at]
  have m: "AppendReq ''a'' install_request \<in> net replicated" by code_simp
  obtain n' resp where run: "handle_append_entries install_request (node_at replicated ''a'') = (n', Inr resp)"
    using no_handler_raises_total [OF replicated_reachable n m] by blast
  have "aer_success (projr (snd (handle_append_entries install_request (node_at replicated ''a''))))"
    by code_simp
  with run have "aer_success resp" by simp
  from accepted_entries_installed [OF replicated_reachable n m run this]
  have "take (length (ae_entries install_request))
      (drop (nat (ae_prev_log_index install_request + 1)) (node_log n')) = ae_entries install_request"
    by (simp add: Let_def)
  with run show ?thesis by (simp add: install_request_def areq_def)
qed

text \<open>
  The run of the violation: \<open>b\<close> leads term 1 and appends \<open>x\<close> without replicating it;
  \<open>c\<close> leads term 2, its empty heartbeat reaches \<open>b\<close>, whose log of length 1 passes
  for a match of \<open>c\<close>'s new entry \<open>y\<close>; \<open>c\<close> applies \<open>y\<close>. Then \<open>b\<close> leads term 3
  and applies \<open>x\<close> at the same position.
\<close>

definition divergence_run :: "string event list" where
  "divergence_run = two_leaders_run @ [
     Deliver (AppendReq ''b'' (areq 2 ''c'' (-1) 0 [] (-1))),
     Deliver (AppendResp ''c'' ''b'' (aresp 2 True ''b'' 1)), Apply ''c'',
     Timeout ''b'', Deliver (VoteReq ''a'' (vreq 3 ''b'' 0 1)),
     Deliver (VoteResp ''b'' (vresp 3 ''a'')), Propose ''b'' ''z'',
     Deliver (AppendReq ''a'' (areq 3 ''b'' 0 1 [] (-1))),
     Deliver (AppendResp ''b'' ''a'' (aresp 3 False ''a'' 0)),
     Deliver (AppendReq ''a'' (areq 3 ''b'' (-1) 0 [entry_of 1 ''x'', entry_of 3 ''z''] (-1))),
     Deliver (AppendResp ''b'' ''a'' (aresp 3 True ''a'' 2)), Apply ''b'']"

text \<open>C28: state machine safety fails. A follower answers an accepted request with the length
  of its whole log, also where its log goes on after the leader's entries; the leader takes that
  as its match index and commits an entry the follower does not have. There is a reachable
  cluster of three nodes, without any message lost or repeated, where one node has applied
  \<open>y\<close> as its first command and another has applied \<open>x\<close> there.\<close>

theorem state_machine_safety_violated:
  "\<exists>c :: string cluster. cluster_reachable abc c \<and> applied c ''c'' = [''y''] \<and>
     applied c ''b'' = [''x'', ''z'']"
proof -
  define out where "out = run_events divergence_run (init_cluster abc :: string cluster)"
  have "map_option (\<lambda>c. (applied c ''c'', applied c ''b'')) out = Some ([''y''], [''x'', ''z''])"
    unfolding out_def by code_simp
  then obtain c where "run_events divergence_run (init_cluster abc) = Some c"
    "applied c ''c'' = [''y'']" "applied c ''b'' = [''x'', ''z'']"
    by (auto simp: out_def)
  then show ?thesis using reachable_by_run by blast
qed

end
