(* ===== verification/RaftFleet.thy ===== *)
theory RaftFleet
  imports RaftService RaftSafety
begin

text \<open>
  A fleet of node services and the documents in transit between them, as a transition system, and
  its relation to the cluster of replicas: the calls of a service are events of the cluster.
\<close>

section \<open>The fleet\<close>

text \<open>A call goes from its caller to a peer, a reply from the peer back to the caller.\<close>

datatype message =
  VoteCall string string py_dict
| AppendCall string string py_dict
| VoteReply string string py_dict
| AppendReply string string py_dict

record fleet =
  fl_services :: "string \<rightharpoonup> raft_service"
  fl_transit :: "message set"

datatype fleet_op =
  ElectionTimer string pyfloat pyfloat
| HeartbeatTimer string
| CallArrives message pyfloat
| ReplyArrives message
| ClientPut string string string

text \<open>What a service sends: the calls whose peer has a URL.\<close>

definition sent_calls :: "string \<Rightarrow> raft_service \<Rightarrow> py_obj outbox \<Rightarrow> message set" where
  "sent_calls s sv ob =
     set (map (\<lambda>(p, r). VoteCall s p (vote_document r)) (filter (\<lambda>(p, r). sv_peer_urls sv p \<noteq> None) (ob_request_votes ob))) \<union>
     set (map (\<lambda>(p, r). AppendCall s p (append_document r)) (filter (\<lambda>(p, r). sv_peer_urls sv p \<noteq> None) (ob_append_entries ob)))"

definition sent_if :: "string \<Rightarrow> raft_service \<Rightarrow> py_obj outbox outcome \<Rightarrow> message set" where
  "sent_if s sv out = (case out of Inl _ \<Rightarrow> {} | Inr ob \<Rightarrow> sent_calls s sv ob)"

definition after_op :: "string \<Rightarrow> raft_service \<Rightarrow> message set \<Rightarrow> fleet \<Rightarrow> fleet" where
  "after_op x sv ms F = F\<lparr>fl_services := (fl_services F)(x \<mapsto> sv), fl_transit := fl_transit F \<union> ms\<rparr>"

definition replied :: "(py_dict \<Rightarrow> message) \<Rightarrow> reply outcome \<Rightarrow> message set" where
  "replied f r = (case r of Inr (code, d) \<Rightarrow> if code = 200 then {f d} else {} | Inl _ \<Rightarrow> {})"

fun call_arrives :: "message \<Rightarrow> pyfloat \<Rightarrow> fleet \<Rightarrow> fleet option" where
  "call_arrives (VoteCall s x d) fresh F =
     (case fl_services F x of None \<Rightarrow> None | Some sv \<Rightarrow>
        (case post_route fresh ''/raft/request_vote'' (Some d) sv of (sv', r) \<Rightarrow>
           Some (after_op x sv' (replied (VoteReply s x) r) F)))"
| "call_arrives (AppendCall s x d) fresh F =
     (case fl_services F x of None \<Rightarrow> None | Some sv \<Rightarrow>
        (case post_route fresh ''/raft/append_entries'' (Some d) sv of (sv', r) \<Rightarrow>
           Some (after_op x sv' (replied (AppendReply s x) r) F)))"
| "call_arrives _ fresh F = None"

fun reply_arrives :: "message \<Rightarrow> fleet \<Rightarrow> fleet option" where
  "reply_arrives (VoteReply s x d) F =
     (case fl_services F s of None \<Rightarrow> None | Some sv \<Rightarrow>
        (case vote_replied (Some d) sv of (sv', out) \<Rightarrow> Some (after_op s sv' (sent_if s sv' out) F)))"
| "reply_arrives (AppendReply s x d) F =
     (case fl_services F s of None \<Rightarrow> None | Some sv \<Rightarrow>
        (case append_replied x (Some d) sv of (sv', out) \<Rightarrow> Some (after_op s sv' (sent_if s sv' out) F)))"
| "reply_arrives _ F = None"

fun fleet_op_run :: "fleet_op \<Rightarrow> fleet \<Rightarrow> fleet option" where
  "fleet_op_run (ElectionTimer x now fresh) F =
     (case fl_services F x of None \<Rightarrow> None | Some sv \<Rightarrow>
        (case election_tick now fresh sv of (sv', ob) \<Rightarrow> Some (after_op x sv' (sent_calls x sv' ob) F)))"
| "fleet_op_run (HeartbeatTimer x) F =
     (case fl_services F x of None \<Rightarrow> None | Some sv \<Rightarrow>
        Some (after_op x sv (sent_if x sv (heartbeat_tick sv)) F))"
| "fleet_op_run (CallArrives m fresh) F = (if m \<in> fl_transit F then call_arrives m fresh F else None)"
| "fleet_op_run (ReplyArrives m) F = (if m \<in> fl_transit F then reply_arrives m F else None)"
| "fleet_op_run (ClientPut x k v) F =
     (case fl_services F x of None \<Rightarrow> None | Some sv \<Rightarrow>
        (case propose_put k v sv of (sv', out) \<Rightarrow>
           Some (after_op x sv' (sent_if x sv' (map_sum id snd out)) F)))"

fun fleet_run :: "fleet_op list \<Rightarrow> fleet \<Rightarrow> fleet option" where
  "fleet_run [] F = Some F"
| "fleet_run (p # ps) F = (case fleet_op_run p F of None \<Rightarrow> None | Some F' \<Rightarrow> fleet_run ps F')"

definition fleet_start :: "string list \<Rightarrow> (string \<Rightarrow> string \<rightharpoonup> string) \<Rightarrow> (string \<Rightarrow> pyfloat) \<Rightarrow> fleet" where
  "fleet_start ms urls deadlines =
     \<lparr>fl_services = (\<lambda>x. map_option (\<lambda>n. new_raft_service n (urls x) (deadlines x)) (member_node ms x)), fl_transit = {}\<rparr>"

section \<open>Documents are the messages\<close>

lemma document_fields [simp]:
  "int_field ((k, v) # d) q = (if k = q then (case v of PInt i \<Rightarrow> Inr i | _ \<Rightarrow> Inl TypeError) else int_field d q)"
  "str_field ((k, v) # d) q = (if k = q then (case v of PStr s \<Rightarrow> Inr s | _ \<Rightarrow> Inl TypeError) else str_field d q)"
  "bool_field ((k, v) # d) q = (if k = q then (case v of PBool b \<Rightarrow> Inr b | _ \<Rightarrow> Inl TypeError) else bool_field d q)"
  by (simp_all add: int_field_def str_field_def bool_field_def)

lemma vote_documents [simp]: "vote_of_document (vote_document r) = Inr r"
  by (simp add: vote_of_document_def vote_document_def)

lemma vote_reply_documents [simp]: "vote_reply_of_document (vote_reply_document r) = Inr r"
  by (simp add: vote_reply_of_document_def vote_reply_document_def)

lemma entry_documents [simp]: "entry_of_document (entry_document e) = Inr e"
  by (simp add: entry_of_document_def entry_document_def)

lemma entries_documents: "map_outcome entry_of_document (map entry_document es) = Inr es"
  by (induction es) simp_all

lemma append_documents [simp]: "append_of_document (append_document r) = Inr r"
  by (simp add: append_of_document_def append_document_def entries_of_document_def dget_or_def entries_documents)

lemma append_reply_documents [simp]: "append_reply_of_document (append_reply_document r) = Inr r"
  by (simp add: append_reply_of_document_def append_reply_document_def)


section \<open>A fleet is a cluster\<close>

fun carried :: "py_obj cluster \<Rightarrow> message \<Rightarrow> bool" where
  "carried c (VoteCall s x d) = (\<exists>r. d = vote_document r \<and> rv_candidate_id r = s \<and> VoteReq x r \<in> net c)"
| "carried c (AppendCall s x d) = (\<exists>r. d = append_document r \<and> ae_leader_id r = s \<and> AppendReq x r \<in> net c)"
| "carried c (VoteReply s x d) = (\<exists>a. d = vote_reply_document a \<and> VoteResp s a \<in> net c)"
| "carried c (AppendReply s x d) = (\<exists>a. d = append_reply_document a \<and> AppendResp s x a \<in> net c)"

definition fleet_sim :: "fleet \<Rightarrow> py_obj cluster \<Rightarrow> bool" where
  "fleet_sim F c \<longleftrightarrow>
     nodes c = (\<lambda>x. map_option sv_node (fl_services F x)) \<and>
     (\<forall>x n. nodes c x = Some n \<longrightarrow> node_id n = x) \<and> (\<forall>m \<in> fl_transit F. carried c m)"

lemma carried_mono: "carried c m \<Longrightarrow> net c \<subseteq> net c' \<Longrightarrow> carried c' m"
  by (cases m) auto

lemma sim_node: "fleet_sim F c \<Longrightarrow> fl_services F x = Some sv \<Longrightarrow> nodes c x = Some (sv_node sv) \<and> node_id (sv_node sv) = x"
  unfolding fleet_sim_def by (metis option.simps(9))

lemma sim_carried: "fleet_sim F c \<Longrightarrow> m \<in> fl_transit F \<Longrightarrow> carried c m"
  unfolding fleet_sim_def by blast

lemma sim_update:
  assumes "fleet_sim F c" "run_events es c = Some c'" "nodes c' = (nodes c)(x \<mapsto> sv_node sv)" "net c \<subseteq> net c'"
    and "node_id (sv_node sv) = x" "\<And>m. m \<in> ms \<Longrightarrow> carried c' m"
  shows "\<exists>es c'. run_events es c = Some c' \<and> fleet_sim (after_op x sv ms F) c'"
proof -
  let ?F = "after_op x sv ms F"
  from assms(1) have nodes: "nodes c = (\<lambda>x. map_option sv_node (fl_services F x))"
    and ids: "\<And>x n. nodes c x = Some n \<Longrightarrow> node_id n = x" and carry: "\<And>m. m \<in> fl_transit F \<Longrightarrow> carried c m"
    unfolding fleet_sim_def by blast+
  have "nodes c' = (\<lambda>x. map_option sv_node (fl_services ?F x))" by (simp add: assms(3) nodes after_op_def fun_eq_iff)
  moreover have "node_id n = y" if "nodes c' y = Some n" for y n
    using that assms(5) ids [of y n] by (cases "y = x") (simp_all add: assms(3))
  moreover have "carried c' m" if "m \<in> fl_transit ?F" for m
    using that carried_mono [OF carry assms(4)] assms(6) by (auto simp: after_op_def)
  ultimately have "fleet_sim ?F c'" unfolding fleet_sim_def by blast
  with assms(2) show ?thesis by blast
qed

text \<open>Requests carry the name of the node that sends them.\<close>

definition signed :: "string \<Rightarrow> 'c outbox \<Rightarrow> bool" where
  "signed s ob \<longleftrightarrow> (\<forall>(p, r) \<in> set (ob_request_votes ob). rv_candidate_id r = s) \<and>
     (\<forall>(p, r) \<in> set (ob_append_entries ob). ae_leader_id r = s)"

lemma signed_empty [simp]: "signed s empty_outbox"
  by (simp add: signed_def empty_outbox_def)

lemma signed_heartbeat: "on_heartbeat_due n = Inr ob \<Longrightarrow> signed (node_id n) ob"
  by (auto simp: on_heartbeat_due_def signed_def empty_outbox_def map_outcome_Inr append_entries_for_def Let_def
      list_all2_conv_all_nth in_set_conv_nth split: if_splits sum.splits option.splits) fastforce?

lemma signed_timeout: "on_election_timeout n = (n', ob) \<Longrightarrow> signed (node_id n) ob"
  by (auto simp: on_election_timeout_def signed_def empty_outbox_def Let_def split: if_splits)

lemma signed_vote_response: "handle_request_vote_response r n = (n', Inr ob) \<Longrightarrow> signed (node_id n) ob"
  by (auto simp: handle_request_vote_response_def become_leader_def Let_def dest!: signed_heartbeat split: if_splits)

lemma signed_append_response: "handle_append_entries_response p r n = (n', Inr ob) \<Longrightarrow> signed (node_id n) ob"
  by (auto simp: handle_append_entries_response_def append_entries_for_def signed_def empty_outbox_def Let_def
      split: if_splits prod.splits option.splits sum.splits)

lemma sent_carried:
  assumes "m \<in> sent_calls s sv ob" "signed s ob" "outbox_envelopes ob \<subseteq> net c"
  shows "carried c m"
proof -
  from assms(1) consider p r where "(p, r) \<in> set (ob_request_votes ob)" "m = VoteCall s p (vote_document r)"
    | p r where "(p, r) \<in> set (ob_append_entries ob)" "m = AppendCall s p (append_document r)"
    by (auto simp: sent_calls_def)
  then show ?thesis using assms(2,3) by cases (force simp: signed_def outbox_envelopes_def)+
qed

lemma same_id:
  "on_election_timeout n = (n', ob) \<Longrightarrow> node_id n' = node_id n"
  "handle_request_vote q n = (n', a) \<Longrightarrow> node_id n' = node_id n"
  "handle_append_entries r n = (n', b) \<Longrightarrow> node_id n' = node_id n"
  "handle_request_vote_response a n = (n', out) \<Longrightarrow> node_id n' = node_id n"
  "handle_append_entries_response p e n = (n', out) \<Longrightarrow> node_id n' = node_id n"
  "propose command n = (n', i) \<Longrightarrow> node_id n' = node_id n"
  "take_newly_committed n = (n', cs) \<Longrightarrow> node_id n' = node_id n"
  using grows_timeout grows_request_vote grows_append_entries grows_vote_response grows_append_response grows_propose grows_take
  unfolding node_grows_def by metis+


lemma sent_if_carried:
  "\<lbrakk>m \<in> sent_if s sv out; \<And>ob. out = Inr ob \<Longrightarrow> signed s ob; outcome_envelopes out \<subseteq> net c\<rbrakk> \<Longrightarrow> carried c m"
  by (auto simp: sent_if_def outcome_envelopes_def intro: sent_carried split: sum.splits)

lemma apply_committed_node: "sv_node (fst (apply_committed sv)) = fst (take_newly_committed (sv_node sv))"
  by (simp add: apply_committed_def split: prod.splits)

lemma vote_call_sim:
  assumes "fleet_sim F c" "VoteCall s x d \<in> fl_transit F" "call_arrives (VoteCall s x d) fresh F = Some F'"
  shows "\<exists>es c'. run_events es c = Some c' \<and> fleet_sim F' c'"
proof -
  obtain r where r: "d = vote_document r" "rv_candidate_id r = s" "VoteReq x r \<in> net c"
    using sim_carried [OF assms(1,2)] by auto
  from assms(3) obtain sv where sv: "fl_services F x = Some sv" by (auto split: option.splits)
  with assms(1) have n: "nodes c x = Some (sv_node sv)" "node_id (sv_node sv) = x" by (auto dest: sim_node)
  obtain n' a where h: "handle_request_vote r (sv_node sv) = (n', a)" by fastforce
  let ?sv = "sv\<lparr>sv_node := n', sv_deadline := (if rvr_vote_granted a then fresh else sv_deadline sv)\<rparr>"
  have F': "F' = after_op x ?sv {VoteReply s x (vote_reply_document a)} F"
    using assms(3) by (simp add: sv r(1) h post_route_def answer_rpc_def handle_vote_rpc_def replied_def)
  show ?thesis unfolding F'
  proof (rule sim_update [OF assms(1)])
    show "run_events [Deliver (VoteReq x r)] c = Some (settle x n' {VoteResp s a} c)" by (simp add: r n h)
  qed (use n(2) same_id(2) [OF h] in auto)
qed

lemma append_call_sim:
  assumes "fleet_sim F c" "AppendCall s x d \<in> fl_transit F" "call_arrives (AppendCall s x d) fresh F = Some F'"
  shows "\<exists>es c'. run_events es c = Some c' \<and> fleet_sim F' c'"
proof -
  obtain r where r: "d = append_document r" "ae_leader_id r = s" "AppendReq x r \<in> net c"
    using sim_carried [OF assms(1,2)] by auto
  from assms(3) obtain sv where sv: "fl_services F x = Some sv" by (auto split: option.splits)
  with assms(1) have n: "nodes c x = Some (sv_node sv)" "node_id (sv_node sv) = x" by (auto dest: sim_node)
  obtain n' out where h: "handle_append_entries r (sv_node sv) = (n', out)" by fastforce
  show ?thesis
  proof (cases out)
    case (Inl e)
    have F': "F' = after_op x (sv\<lparr>sv_node := n'\<rparr>) {} F"
      using assms(3) by (simp add: sv r(1) h Inl post_route_def answer_rpc_def handle_append_rpc_def replied_def)
    show ?thesis unfolding F'
    proof (rule sim_update [OF assms(1)])
      show "run_events [Deliver (AppendReq x r)] c = Some (settle x n' {} c)" by (simp add: r n h Inl)
    qed (use n(2) same_id(3) [OF h] in auto)
  next
    case (Inr b)
    let ?sv = "sv\<lparr>sv_node := n', sv_deadline := (if aer_term b \<ge> current_term n' then fresh else sv_deadline sv)\<rparr>"
    obtain n'' cs where t: "take_newly_committed n' = (n'', cs)" by fastforce
    obtain sv' e where ap: "apply_committed ?sv = (sv', e)" by fastforce
    have n'': "sv_node sv' = n''" using apply_committed_node [of ?sv] by (simp add: ap t)
    let ?ms = "case e of None \<Rightarrow> {AppendReply s x (append_reply_document b)} | Some _ \<Rightarrow> {}"
    have F': "F' = after_op x sv' ?ms F"
      using assms(3) by (simp add: sv r(1) h Inr post_route_def answer_rpc_def handle_append_rpc_def replied_def ap split: option.splits)
    show ?thesis unfolding F'
    proof (rule sim_update [OF assms(1)])
      show "run_events [Deliver (AppendReq x r), Apply x] c =
          Some ((settle x n'' {} (settle x n' {AppendResp s x b} c))\<lparr>applied := (applied c)(x := applied c x @ cs)\<rparr>)"
        by (simp add: r n h Inr t)
    qed (use n(2) same_id(3) [OF h] same_id(7) [OF t] n'' in \<open>auto split: option.splits\<close>)
  qed
qed


lemma vote_reply_sim:
  assumes "fleet_sim F c" "VoteReply s x d \<in> fl_transit F" "reply_arrives (VoteReply s x d) F = Some F'"
  shows "\<exists>es c'. run_events es c = Some c' \<and> fleet_sim F' c'"
proof -
  obtain a where a: "d = vote_reply_document a" "VoteResp s a \<in> net c"
    using sim_carried [OF assms(1,2)] by auto
  from assms(3) obtain sv where sv: "fl_services F s = Some sv" by (auto split: option.splits)
  with assms(1) have n: "nodes c s = Some (sv_node sv)" "node_id (sv_node sv) = s" by (auto dest: sim_node)
  obtain n' out where h: "handle_request_vote_response a (sv_node sv) = (n', out)" by fastforce
  let ?sv = "sv\<lparr>sv_node := n'\<rparr>" and ?c = "settle s n' (outcome_envelopes out) c"
  have F': "F' = after_op s ?sv (sent_if s ?sv out) F"
    using assms(3) by (simp add: sv a(1) h vote_replied_def)
  show ?thesis unfolding F'
  proof (rule sim_update [OF assms(1)])
    show "run_events [Deliver (VoteResp s a)] c = Some ?c" by (simp add: a n h)
    show "carried ?c m" if "m \<in> sent_if s ?sv out" for m
      using that signed_vote_response h n(2) by (intro sent_if_carried [OF that]) auto
  qed (use n(2) same_id(4) [OF h] in auto)
qed

lemma append_reply_sim:
  assumes "fleet_sim F c" "AppendReply s x d \<in> fl_transit F" "reply_arrives (AppendReply s x d) F = Some F'"
  shows "\<exists>es c'. run_events es c = Some c' \<and> fleet_sim F' c'"
proof -
  obtain a where a: "d = append_reply_document a" "AppendResp s x a \<in> net c"
    using sim_carried [OF assms(1,2)] by auto
  from assms(3) obtain sv where sv: "fl_services F s = Some sv" by (auto split: option.splits)
  with assms(1) have n: "nodes c s = Some (sv_node sv)" "node_id (sv_node sv) = s" by (auto dest: sim_node)
  obtain n' out where h: "handle_append_entries_response x a (sv_node sv) = (n', out)" by fastforce
  let ?c = "settle s n' (outcome_envelopes out) c"
  show ?thesis
  proof (cases out)
    case (Inl e)
    have F': "F' = after_op s (sv\<lparr>sv_node := n'\<rparr>) {} F"
      using assms(3) by (simp add: sv a(1) h Inl append_replied_def sent_if_def)
    show ?thesis unfolding F'
    proof (rule sim_update [OF assms(1)])
      show "run_events [Deliver (AppendResp s x a)] c = Some ?c" by (simp add: a n h)
    qed (use n(2) same_id(5) [OF h] in auto)
  next
    case (Inr ob)
    obtain n'' cs where t: "take_newly_committed n' = (n'', cs)" by fastforce
    obtain sv' e where ap: "apply_committed (sv\<lparr>sv_node := n'\<rparr>) = (sv', e)" by fastforce
    have n'': "sv_node sv' = n''" using apply_committed_node [of "sv\<lparr>sv_node := n'\<rparr>"] by (simp add: ap t)
    define out' where "out' = (case e of None \<Rightarrow> out | Some e \<Rightarrow> Inl e)"
    have F': "F' = after_op s sv' (sent_if s sv' out') F"
      using assms(3) by (simp add: sv a(1) h Inr append_replied_def ap out'_def split: option.splits)
    let ?d = "(settle s n'' {} ?c)\<lparr>applied := (applied c)(s := applied c s @ cs)\<rparr>"
    have out': "outcome_envelopes out' \<subseteq> outcome_envelopes out" "\<And>ob'. out' = Inr ob' \<Longrightarrow> out = Inr ob'"
      by (auto simp: out'_def outcome_envelopes_def split: option.splits)
    show ?thesis unfolding F'
    proof (rule sim_update [OF assms(1)])
      show "run_events [Deliver (AppendResp s x a), Apply s] c = Some ?d" by (simp add: a n h t)
      show "carried ?d m" if "m \<in> sent_if s sv' out'" for m
      proof (rule sent_if_carried [OF that])
        show "signed s ob'" if "out' = Inr ob'" for ob'
          using signed_append_response [of x a "sv_node sv" n' ob'] h out'(2) [OF that] n(2) by simp
      qed (use out'(1) in auto)
    qed (use n(2) same_id(5) [OF h] same_id(7) [OF t] n'' in auto)
  qed
qed

lemma timer_sim:
  assumes "fleet_sim F c" "fleet_op_run (ElectionTimer x now fresh) F = Some F'"
  shows "\<exists>es c'. run_events es c = Some c' \<and> fleet_sim F' c'"
proof -
  from assms(2) obtain sv where sv: "fl_services F x = Some sv" by (auto split: option.splits)
  with assms(1) have n: "nodes c x = Some (sv_node sv)" "node_id (sv_node sv) = x" by (auto dest: sim_node)
  obtain sv' ob where t: "election_tick now fresh sv = (sv', ob)" by fastforce
  have F': "F' = after_op x sv' (sent_calls x sv' ob) F" using assms(2) by (simp add: sv t)
  show ?thesis
  proof (cases "on_election_timeout (sv_node sv) = (sv_node sv', ob)")
    case True
    let ?c = "settle x (sv_node sv') (outbox_envelopes ob) c"
    show ?thesis unfolding F'
    proof (rule sim_update [OF assms(1)])
      show "run_events [Timeout x] c = Some ?c" by (simp add: n True)
      show "carried ?c m" if "m \<in> sent_calls x sv' ob" for m
        using signed_timeout [OF True] n(2) by (intro sent_carried [OF that]) auto
    qed (use n(2) same_id(1) [OF True] in auto)
  next
    case False
    with t have same: "sv_node sv' = sv_node sv" "ob = empty_outbox"
      by (auto simp: election_tick_def split: if_splits prod.splits)
    show ?thesis unfolding F'
    proof (rule sim_update [OF assms(1)])
      show "run_events [] c = Some c" by simp
    qed (use n same in \<open>auto simp: sent_calls_def empty_outbox_def fun_eq_iff\<close>)
  qed
qed

lemma heartbeat_sim:
  assumes "fleet_sim F c" "fleet_op_run (HeartbeatTimer x) F = Some F'"
  shows "\<exists>es c'. run_events es c = Some c' \<and> fleet_sim F' c'"
proof -
  from assms(2) obtain sv where sv: "fl_services F x = Some sv" by (auto split: option.splits)
  with assms(1) have n: "nodes c x = Some (sv_node sv)" "node_id (sv_node sv) = x" by (auto dest: sim_node)
  have tick: "heartbeat_tick sv = on_heartbeat_due (sv_node sv)"
    by (simp add: heartbeat_tick_def is_leader_def on_heartbeat_due_def)
  have F': "F' = after_op x sv (sent_if x sv (on_heartbeat_due (sv_node sv))) F" using assms(2) by (simp add: sv tick)
  let ?c = "settle x (sv_node sv) (outcome_envelopes (on_heartbeat_due (sv_node sv))) c"
  show ?thesis unfolding F'
  proof (rule sim_update [OF assms(1)])
    show "run_events [Heartbeat x] c = Some ?c" by (simp add: n)
    show "carried ?c m" if "m \<in> sent_if x sv (on_heartbeat_due (sv_node sv))" for m
      using signed_heartbeat [of "sv_node sv"] n(2) by (intro sent_if_carried [OF that]) auto
  qed (use n in auto)
qed

lemma put_sim:
  assumes "fleet_sim F c" "fleet_op_run (ClientPut x k v) F = Some F'"
  shows "\<exists>es c'. run_events es c = Some c' \<and> fleet_sim F' c'"
proof -
  from assms(2) obtain sv where sv: "fl_services F x = Some sv" by (auto split: option.splits)
  with assms(1) have n: "nodes c x = Some (sv_node sv)" "node_id (sv_node sv) = x" by (auto dest: sim_node)
  obtain n' i where p: "propose (put_command k v) (sv_node sv) = (n', i)" by fastforce
  let ?sv = "sv\<lparr>sv_node := n'\<rparr>"
  show ?thesis
  proof (cases i)
    case None
    have F': "F' = after_op x ?sv {} F"
      using assms(2) by (simp add: sv propose_put_def p None sent_if_def sent_calls_def empty_outbox_def)
    show ?thesis unfolding F'
    proof (rule sim_update [OF assms(1)])
      show "run_events [Propose x (put_command k v)] c = Some (settle x n' {} c)" by (simp add: n p None)
    qed (use n(2) same_id(6) [OF p] in auto)
  next
    case (Some j)
    let ?out = "on_heartbeat_due n'"
    have F': "F' = after_op x ?sv (sent_if x ?sv ?out) F"
      using assms(2) by (cases ?out) (simp_all add: sv propose_put_def p Some sent_if_def)
    let ?c = "(settle x n' {} c)\<lparr>proposals := insert (node_log n') (proposals c)\<rparr>"
    let ?d = "settle x n' (outcome_envelopes ?out) ?c"
    show ?thesis unfolding F'
    proof (rule sim_update [OF assms(1)])
      show "run_events [Propose x (put_command k v), Heartbeat x] c = Some ?d" by (simp add: n p Some)
      show "carried ?d m" if "m \<in> sent_if x ?sv ?out" for m
        using signed_heartbeat [of n'] n(2) same_id(6) [OF p] by (intro sent_if_carried [OF that]) auto
    qed (use n(2) same_id(6) [OF p] in auto)
  qed
qed

lemma fleet_op_sim:
  assumes "fleet_sim F c" "fleet_op_run p F = Some F'"
  shows "\<exists>es c'. run_events es c = Some c' \<and> fleet_sim F' c'"
proof (cases p)
  case (CallArrives m fresh)
  with assms show ?thesis by (cases m) (auto split: if_splits intro: vote_call_sim append_call_sim simp del: call_arrives.simps(1,2))
next
  case (ReplyArrives m)
  with assms show ?thesis by (cases m) (auto split: if_splits intro: vote_reply_sim append_reply_sim simp del: reply_arrives.simps(1,2))
qed (use assms timer_sim heartbeat_sim put_sim in blast)+

lemma fleet_run_sim:
  "fleet_run ps F = Some F' \<Longrightarrow> fleet_sim F c \<Longrightarrow> \<exists>es c'. run_events es c = Some c' \<and> fleet_sim F' c'"
proof (induction ps arbitrary: F c)
  case (Cons p ps)
  then obtain F1 where F1: "fleet_op_run p F = Some F1" "fleet_run ps F1 = Some F'" by (auto split: option.splits)
  from fleet_op_sim [OF Cons.prems(2) F1(1)] obtain es c1 where c1: "run_events es c = Some c1" "fleet_sim F1 c1" by blast
  from Cons.IH [OF F1(2) c1(2)] obtain es' c' where "run_events es' c1 = Some c'" "fleet_sim F' c'" by blast
  moreover have "run_events (es @ es') c = run_events es' c1" using c1(1)
    by (induction es arbitrary: c) (auto split: option.splits)
  ultimately show ?case by metis
qed (auto intro: exI [of _ "[]"])

lemma fleet_start_sim: "fleet_sim (fleet_start ms urls deadlines) (init_cluster ms)"
  by (auto simp: fleet_sim_def fleet_start_def init_cluster_def new_raft_service_def option.map_comp comp_def member_node_def
      new_raft_node_def fun_eq_iff option.map_ident split: sum.splits if_splits)


text \<open>C4: a fleet of node services implements the cluster of replicas: whatever timers fire, documents
  arrive (late, repeated, in any order or never) and clients put, the replicas inside the services are those
  of a reachable cluster; so at most one service leads a term.\<close>

theorem services_refine_cluster:
  assumes "valid_members ms" "fleet_run ps (fleet_start ms urls deadlines) = Some F"
  shows "(\<exists>c. cluster_reachable ms c \<and> nodes c = (\<lambda>x. map_option sv_node (fl_services F x))) \<and>
    (fl_services F x = Some sv \<and> fl_services F y = Some sw \<and> is_leader (sv_node sv) \<and> is_leader (sv_node sw) \<and>
     current_term (sv_node sv) = current_term (sv_node sw) \<longrightarrow> x = y)"
proof -
  from fleet_run_sim [OF assms(2) fleet_start_sim] obtain es c
    where c: "run_events es (init_cluster ms) = Some c" "fleet_sim F c" by blast
  have reach: "cluster_reachable ms c" by (rule run_events_reachable [OF assms(1) c(1)])
  note inv = reachable_invs(1) [OF reach]
  have elected: "(z, current_term (sv_node sz)) \<in> elections c" if "fl_services F z = Some sz" "is_leader (sv_node sz)" for z sz
    using sim_node [OF c(2) that(1)] that(2) inv by (simp add: vote_inv_def roles_sound_def is_leader_def)
  have "x = y" if "fl_services F x = Some sv" "fl_services F y = Some sw" "is_leader (sv_node sv)" "is_leader (sv_node sw)"
    "current_term (sv_node sv) = current_term (sv_node sw)"
    using elected [OF that(1,3)] elected [OF that(2,4)] that(5) vote_inv_one_leader [OF inv] by metis
  with reach c(2) show ?thesis unfolding fleet_sim_def by blast
qed

section \<open>What a client is told\<close>

definition keeps_proposal :: "int \<Rightarrow> 'c log_entry list \<Rightarrow> 'c raft_node \<Rightarrow> bool" where
  "keeps_proposal t L n \<longleftrightarrow> t < current_term n \<or>
     t = current_term n \<and> (node_role n = FOLLOWER \<or> node_role n = LEADER \<and> (\<exists>es. node_log n = L @ es))"

lemma grows_deliver:
  assumes "deliver m c = Some c'" "nodes c x = Some n" "nodes c' x = Some n'"
  shows "node_grows n n' \<and> role_grows n n'"
  using assms by (cases m) (auto split: if_splits option.splits prod.splits dest: inv_rules)

lemma grows_event:
  assumes "run_event e c = Some c'" "nodes c x = Some n" "nodes c' x = Some n'"
  shows "node_grows n n' \<and> role_grows n n'"
  using assms by (cases e) (auto split: if_splits option.splits prod.splits dest: inv_rules grows_deliver)

lemma node_stays: "run_event e c = Some c' \<Longrightarrow> nodes c x = Some n \<Longrightarrow> \<exists>n'. nodes c' x = Some n'"
proof (cases e)
  case (Deliver m)
  then show "run_event e c = Some c' \<Longrightarrow> nodes c x = Some n \<Longrightarrow> \<exists>n'. nodes c' x = Some n'"
    by (cases m) (auto split: if_splits option.splits prod.splits)
qed (auto split: if_splits option.splits prod.splits)

lemma keeps_event:
  assumes "run_event e c = Some c'" "nodes c x = Some n" "nodes c' x = Some n'" "keeps_proposal t L n"
  shows "keeps_proposal t L n'"
proof (cases "current_term n = t \<and> current_term n' = t")
  case True
  with grows_event [OF assms(1-3)] assms(4) have role: "node_role n' \<noteq> CANDIDATE"
    "node_role n' = LEADER \<Longrightarrow> node_role n = LEADER" by (auto simp: keeps_proposal_def role_grows_def)
  show ?thesis
  proof (cases "node_role n'")
    case LEADER
    note lead = role(2) [OF LEADER] LEADER
    obtain es where "node_log n' = node_log n @ es"
    proof (cases "\<exists>y command. e = Propose y command")
      case True
      with assms(1-3) lead that show ?thesis by (auto simp: propose_def Let_def split: if_splits option.splits)
    next
      case False
      with leads_event [OF assms(1-3)] lead that [of "[]"] show ?thesis by (auto simp: leads_from_def)
    qed
    with assms(4) lead True show ?thesis by (auto simp: keeps_proposal_def)
  qed (use True role in \<open>auto simp: keeps_proposal_def\<close>)
next
  case False
  with grows_event [OF assms(1-3)] assms(4) show ?thesis by (auto simp: keeps_proposal_def node_grows_def)
qed

lemma keeps_run:
  "\<lbrakk>run_events es c = Some c'; nodes c x = Some n; keeps_proposal t L n\<rbrakk> \<Longrightarrow>
     \<exists>n'. nodes c' x = Some n' \<and> keeps_proposal t L n'"
proof (induction es arbitrary: c n)
  case (Cons e es)
  then obtain c1 where c1: "run_event e c = Some c1" "run_events es c1 = Some c'" by (auto split: option.splits)
  from node_stays [OF c1(1) Cons.prems(2)] obtain n1 where "nodes c1 x = Some n1" by blast
  with Cons.IH [OF c1(2)] keeps_event [OF c1(1) Cons.prems(2)] Cons.prems(3) show ?case by blast
qed simp

text \<open>C12: what a client is told by a leader that keeps its term is true. If a put is proposed at index i,
  and at a later poll the service still leads the same term and has applied index i, the client is told
  that the put is committed, and the log holds its command at that index.\<close>

theorem put_committed_in_term:
  assumes "fl_services F x = Some sv" "is_leader (sv_node sv)" "fleet_run (ClientPut x k v # qs) F = Some G"
    and "fl_services G x = Some sw" "is_leader (sv_node sw)" "current_term (sv_node sw) = current_term (sv_node sv)"
    and "valid_members ms" "fleet_run ps (fleet_start ms urls deadlines) = Some F" "now < started + dbl 5"
    and "i = py_len (node_log (sv_node sv))" "i \<le> last_applied (sv_node sw)"
  shows "(\<exists>sv'. put_proposed (k, v, l) sv = (sv', Inr (Inr i))) \<and>
    put_answered i started [(now, sv_node sw)] = Some (put_reply i True) \<and>
    py_index (node_log (sv_node sw)) i = Some \<lparr>le_term = current_term (sv_node sv), le_command = put_command k v\<rparr>"
proof -
  let ?n = "sv_node sv" and ?put = "\<lparr>le_term = current_term (sv_node sv), le_command = put_command k v\<rparr>"
  let ?n' = "?n\<lparr>node_log := node_log ?n @ [?put]\<rparr>"
  from fleet_run_sim [OF assms(8) fleet_start_sim] obtain es c
    where c: "run_events es (init_cluster ms) = Some c" "fleet_sim F c" by blast
  note n = sim_node [OF c(2) assms(1), THEN conjunct1]
  have lead: "node_role ?n = LEADER" using assms(2) by (simp add: is_leader_def)
  have p: "propose (put_command k v) ?n = (?n', Some i)"
    using lead by (simp add: propose_def last_log_index_def assms(10))
  have "index_ok ?n"
    using n reachable_invs(3) [OF run_events_reachable [OF assms(7) c(1)]] by (rule index_inv_nodes(1) [rotated])
  then obtain ob where ob: "on_heartbeat_due ?n' = Inr ob"
    using heartbeat_total [of ?n'] by (auto simp: index_ok_def)
  let ?sv = "sv\<lparr>sv_node := ?n'\<rparr>"
  have put: "propose_put k v sv = (?sv, Inr (Some i, ob))" by (simp add: propose_put_def p ob)
  define F1 where "F1 = after_op x ?sv (sent_calls x ?sv ob) F"
  have F1: "fleet_op_run (ClientPut x k v) F = Some F1" by (simp add: assms(1) put F1_def sent_if_def)
  from fleet_op_sim [OF c(2) F1] obtain c1 where c1: "fleet_sim F1 c1" by blast
  have "fleet_run qs F1 = Some G" using assms(3) F1 by simp
  from fleet_run_sim [OF this c1] obtain es' d where d: "run_events es' c1 = Some d" "fleet_sim G d" by blast
  have n1: "nodes c1 x = Some ?n'" using sim_node [OF c1, of x ?sv] by (simp add: F1_def after_op_def)
  have "keeps_proposal (current_term ?n) (node_log ?n @ [?put]) ?n'" using lead by (simp add: keeps_proposal_def)
  from keeps_run [OF d(1) n1 this] sim_node [OF d(2) assms(4)]
  have "keeps_proposal (current_term ?n) (node_log ?n @ [?put]) (sv_node sw)" by auto
  with assms(5,6) obtain rest where "node_log (sv_node sw) = node_log ?n @ [?put] @ rest"
    by (auto simp: keeps_proposal_def is_leader_def)
  then have "py_index (node_log (sv_node sw)) i = Some ?put"
    by (simp add: py_index_def assms(10) nth_append) (simp add: py_len_def)
  moreover have "put_answered i started [(now, sv_node sw)] = Some (put_reply i True)"
    using assms(9,11) by (simp add: put_answered_def)
  ultimately show ?thesis by (simp add: put_proposed_def put)
qed

end
