(* ===== verification/RaftClients.thy ===== *)
theory RaftClients
  imports RaftFleet
begin

text \<open>
  Runs of a fleet of three node services: a write acknowledged and kept, a write acknowledged and
  lost, and an election deadline put off by a deposed leader.
\<close>

section \<open>Runs\<close>

definition abc_fleet :: fleet where
  "abc_fleet = fleet_start abc (\<lambda>x p. Some (''http://'' @ p)) (\<lambda>x. 0)"

definition put_entry :: "int \<Rightarrow> string \<Rightarrow> string \<Rightarrow> py_obj log_entry" where
  "put_entry t k v = \<lparr>le_term = t, le_command = put_command k v\<rparr>"

definition append_req :: "int \<Rightarrow> string \<Rightarrow> py_obj log_entry list \<Rightarrow> int \<Rightarrow> py_obj append_entries_request" where
  "append_req t l es k = \<lparr>ae_term = t, ae_leader_id = l, ae_prev_log_index = -1, ae_prev_log_term = 0, ae_entries = es,
     ae_leader_commit = k\<rparr>"

text \<open>\<open>x\<close> times out and wins term t with the vote of y.\<close>

definition elected :: "string \<Rightarrow> string \<Rightarrow> int \<Rightarrow> int \<Rightarrow> fleet_op list" where
  "elected x y t i =
     [ElectionTimer x (dbl (of_int (10 * t))) (dbl (of_int (10 * t + 5))),
      CallArrives (VoteCall x y (vote_document (vreq t x i 0))) (dbl (of_int (10 * t + 5))),
      ReplyArrives (VoteReply x y (vote_reply_document (vresp t y)))]"

text \<open>\<open>x\<close> in term t sends its log to y, which answers.\<close>

definition replicated_to :: "string \<Rightarrow> string \<Rightarrow> int \<Rightarrow> py_obj log_entry list \<Rightarrow> int \<Rightarrow> fleet_op list" where
  "replicated_to x y t es k =
     [CallArrives (AppendCall x y (append_document (append_req t x es k))) (dbl 99),
      ReplyArrives (AppendReply x y (append_reply_document (aresp t True y (py_len es))))]"

definition put_prefix :: "fleet_op list" where
  "put_prefix = elected ''a'' ''b'' 1 (-1)"

definition kept_suffix :: "fleet_op list" where
  "kept_suffix = replicated_to ''a'' ''b'' 1 [put_entry 1 ''k'' ''v''] (-1)"

text \<open>\<open>b\<close> takes over without the entry of \<open>a\<close>, commits another one, and brings \<open>a\<close> in line.\<close>

definition lost_suffix :: "fleet_op list" where
  "lost_suffix = elected ''b'' ''c'' 2 (-1) @ [ClientPut ''b'' ''q'' ''w''] @
     replicated_to ''b'' ''c'' 2 [put_entry 2 ''q'' ''w''] (-1) @ [HeartbeatTimer ''b'',
     CallArrives (AppendCall ''b'' ''a'' (append_document (append_req 2 ''b'' [put_entry 2 ''q'' ''w''] 0))) (dbl 99)]"

definition service_at :: "fleet \<Rightarrow> string \<Rightarrow> raft_service" where
  "service_at F x = the (fl_services F x)"

definition before_put :: fleet where
  "before_put = the (fleet_run put_prefix abc_fleet)"

definition after_put :: "fleet_op list \<Rightarrow> fleet" where
  "after_put ps = the (fleet_run (ClientPut ''a'' ''k'' ''v'' # ps) before_put)"

text \<open>What is left of a key in a service.\<close>

definition knows_key :: "string \<Rightarrow> raft_service \<Rightarrow> bool" where
  "knows_key k sv \<longleftrightarrow> map_of (sv_state_machine sv) k \<noteq> None \<or>
     (\<exists>e \<in> set (node_log (sv_node sv)). case le_command e of PDict d \<Rightarrow> dget d ''key'' = PStr k | _ \<Rightarrow> False)"

lemma before_put_run: "fleet_run put_prefix abc_fleet = Some before_put"
proof -
  have "fleet_run put_prefix abc_fleet \<noteq> None" by code_simp
  then show ?thesis by (auto simp: before_put_def)
qed

lemma after_put_runs:
  "fleet_run (ClientPut ''a'' ''k'' ''v'' # kept_suffix) before_put = Some (after_put kept_suffix)"
  "fleet_run (ClientPut ''a'' ''k'' ''v'' # lost_suffix) before_put = Some (after_put lost_suffix)"
proof -
  have "fleet_run (ClientPut ''a'' ''k'' ''v'' # kept_suffix) before_put \<noteq> None"
    "fleet_run (ClientPut ''a'' ''k'' ''v'' # lost_suffix) before_put \<noteq> None" by code_simp+
  then show "fleet_run (ClientPut ''a'' ''k'' ''v'' # kept_suffix) before_put = Some (after_put kept_suffix)"
    "fleet_run (ClientPut ''a'' ''k'' ''v'' # lost_suffix) before_put = Some (after_put lost_suffix)"
    by (auto simp: after_put_def simp del: fleet_run.simps)
qed


lemma after_put_fleets:
  "fleet_run (put_prefix @ ClientPut ''a'' ''k'' ''v'' # lost_suffix) abc_fleet = Some (after_put lost_suffix)"
proof -
  have "fleet_run (ps @ qs) F = Some H" if "fleet_run ps F = Some G" "fleet_run qs G = Some H" for ps qs F G H
    using that by (induction ps arbitrary: F) (auto split: option.splits)
  with before_put_run after_put_runs(2) show ?thesis by blast
qed

lemma service_at: "fl_services F x \<noteq> None \<Longrightarrow> fl_services F x = Some (service_at F x)"
  by (auto simp: service_at_def)

theorem services_refine_cluster_witness:
  "\<exists>c. cluster_reachable abc c \<and> nodes c = (\<lambda>x. map_option sv_node (fl_services (after_put lost_suffix) x))"
  using services_refine_cluster [OF valid_abc after_put_fleets [unfolded abc_fleet_def]] by blast

theorem put_committed_in_term_witness:
  "put_answered 0 (dbl 20) [(dbl 21, sv_node (service_at (after_put kept_suffix) ''a''))] = Some (put_reply 0 True) \<and>
   py_index (node_log (sv_node (service_at (after_put kept_suffix) ''a''))) 0 = Some (put_entry 1 ''k'' ''v'')"
proof -
  have "fl_services before_put ''a'' \<noteq> None" "fl_services (after_put kept_suffix) ''a'' \<noteq> None" by code_simp+
  note at = this [THEN service_at]
  have "is_leader (sv_node (service_at before_put ''a''))" "is_leader (sv_node (service_at (after_put kept_suffix) ''a''))"
    "current_term (sv_node (service_at (after_put kept_suffix) ''a'')) = current_term (sv_node (service_at before_put ''a''))"
    "dbl 21 < dbl 20 + dbl 5" "0 = py_len (node_log (sv_node (service_at before_put ''a'')))"
    "0 \<le> last_applied (sv_node (service_at (after_put kept_suffix) ''a''))"
    "current_term (sv_node (service_at before_put ''a'')) = 1" by code_simp+
  note facts = this
  from put_committed_in_term [OF at(1) facts(1) after_put_runs(1) at(2) facts(2,3) valid_abc
      before_put_run [unfolded abc_fleet_def] facts(4-6), of None] facts(7)
  show ?thesis by (simp add: put_entry_def)
qed

section \<open>A write that is acknowledged and lost\<close>

text \<open>C29: a write can be acknowledged and lost. The wait for a commit looks at the applied index before it looks
  at the leadership, and never at the term or the entry: in a run of three services without a lost or repeated
  document, a client puts k at the leader a, another leader replaces the entry, and the client of a is
  answered 200 and committed, while no log and no state machine of the fleet knows the key any more.\<close>

theorem acknowledged_put_lost:
  "fleet_run put_prefix abc_fleet = Some before_put \<and>
   snd (put_proposed (''k'', ''v'', Some ''a'') (service_at before_put ''a'')) = Inr (Inr 0) \<and>
   fleet_run (ClientPut ''a'' ''k'' ''v'' # lost_suffix) before_put = Some (after_put lost_suffix) \<and>
   put_answered 0 (dbl 20) [(dbl 21, sv_node (service_at (after_put lost_suffix) ''a''))] =
     Some (200, [(''status'', PStr ''committed''), (''index'', PInt 0)]) \<and>
   list_all (\<lambda>x. \<not> knows_key ''k'' (service_at (after_put lost_suffix) x)) abc"
proof (intro conjI)
  show "snd (put_proposed (''k'', ''v'', Some ''a'') (service_at before_put ''a'')) = Inr (Inr 0)" by code_simp
  show "put_answered 0 (dbl 20) [(dbl 21, sv_node (service_at (after_put lost_suffix) ''a''))] =
     Some (200, [(''status'', PStr ''committed''), (''index'', PInt 0)])" by code_simp
  show "list_all (\<lambda>x. \<not> knows_key ''k'' (service_at (after_put lost_suffix) x)) abc" by code_simp
qed (rule before_put_run after_put_runs)+

section \<open>The election deadline\<close>

lemma append_response_term: "handle_append_entries r n = (n', Inr resp) \<Longrightarrow> aer_term resp = current_term n'"
  by (auto simp: handle_append_entries_def append_accepted_def append_response_def Let_def
      split: if_splits prod.splits option.splits)

lemma apply_committed_deadline: "sv_deadline (fst (apply_committed sv)) = sv_deadline sv"
  by (simp add: apply_committed_def split: prod.splits)

text \<open>Every AppendEntries document that is answered puts off the election deadline of the service,
  whatever its term: also one that the replica rejects as stale.\<close>

theorem append_resets_deadline:
  assumes "handle_append_rpc fresh d sv = (sv', Inr answer)"
  shows "sv_deadline sv' = fresh"
proof -
  from assms obtain r where r: "append_of_document d = Inr r" by (auto simp: handle_append_rpc_def split: sum.splits)
  from assms r obtain n resp where h: "handle_append_entries r (sv_node sv) = (n, Inr resp)"
    by (auto simp: handle_append_rpc_def split: sum.splits prod.splits)
  have "sv' = fst (apply_committed (sv\<lparr>sv_node := n, sv_deadline := fresh\<rparr>))"
    using assms append_response_term [OF h] by (auto simp: handle_append_rpc_def r h split: prod.splits option.splits)
  then show ?thesis by (simp add: apply_committed_deadline)
qed

definition stale_append :: py_dict where
  "stale_append = append_document (append_req 1 ''a'' [] (-1))"

theorem append_resets_deadline_witness:
  "map_sum id (\<lambda>d. dget d ''success'') (snd (handle_append_rpc (dbl 99) stale_append (service_at (after_put lost_suffix) ''b''))) =
     Inr (PBool False) \<and>
   sv_deadline (fst (handle_append_rpc (dbl 99) stale_append (service_at (after_put lost_suffix) ''b''))) = dbl 99"
proof -
  let ?r = "handle_append_rpc (dbl 99) stale_append (service_at (after_put lost_suffix) ''b'')"
  have "map_sum id (\<lambda>d. dget d ''success'') (snd ?r) = Inr (PBool False)" by code_simp
  moreover from this obtain answer where "snd ?r = Inr answer" by (cases "snd ?r") auto
  with append_resets_deadline [of "dbl 99" stale_append _ "fst ?r" answer] have "sv_deadline (fst ?r) = dbl 99"
    by (metis prod.collapse)
  ultimately show ?thesis by blast
qed

end
