(* ===== verification/RepairScheduler.thy ===== *)
theory RepairScheduler
  imports PyObj
begin

text \<open>
  The repair scheduler of \<open>fleetqox/repair_scheduler.py\<close>: its data classes, the ranking of
  paths, the options of a demand with their utilities, the dynamic program over (bytes used,
  repairs admitted) with its pruning, and the schedule read off its best state.
  \<open>math.log1p\<close> is the C library's and is a parameter \<open>ln1p\<close>. A true division of integers
  or a product of a float and an integer raises OverflowError when it leaves the double range.
\<close>

section \<open>Python ordering and arithmetic\<close>

text \<open>\<open>sorted\<close> with a comparison: stable, by insertion.\<close>

fun py_insert :: "('a \<Rightarrow> 'a \<Rightarrow> bool) \<Rightarrow> 'a \<Rightarrow> 'a list \<Rightarrow> 'a list" where
  "py_insert lt x [] = [x]"
| "py_insert lt x (y # ys) = (if lt y x then y # py_insert lt x ys else x # y # ys)"

definition py_sorted :: "('a \<Rightarrow> 'a \<Rightarrow> bool) \<Rightarrow> 'a list \<Rightarrow> 'a list" where
  "py_sorted lt xs = foldr (py_insert lt) xs []"

text \<open>\<open>max\<close> with a comparison of keys: the first of the greatest.\<close>

fun py_max_by :: "('a \<Rightarrow> 'a \<Rightarrow> bool) \<Rightarrow> 'a list \<Rightarrow> 'a outcome" where
  "py_max_by gt [] = Inl (ValueError ''max() arg is an empty sequence'')"
| "py_max_by gt (x # xs) = Inr (foldl (\<lambda>best y. if gt y best then y else best) x xs)"

definition int_true_div :: "int \<Rightarrow> int \<Rightarrow> pyfloat outcome" where
  "int_true_div a b =
     (case dbl (of_int a / of_int b) of Fin q \<Rightarrow> Inr (Fin q) | _ \<Rightarrow> Inl OverflowError)"

definition sum_bytes :: "('a \<Rightarrow> int) \<Rightarrow> 'a list \<Rightarrow> int" where
  "sum_bytes f xs = sum_list (map f xs)"

section \<open>Data\<close>

record repair_path =
  rp_path_id :: string
  rp_latency_ms :: pyfloat
  rp_loss :: pyfloat
  rp_failure_domain :: string
  rp_bandwidth_utilization :: pyfloat

record repair_demand =
  rd_topic :: string
  rd_robot_id :: string
  rd_publisher_id :: string
  rd_source_sequence_number :: int
  rd_payload_bytes :: int
  rd_remaining_deadline_ms :: pyfloat
  rd_qoe_debt :: pyfloat
  rd_criticality :: pyfloat
  rd_age_ms :: pyfloat
  rd_prior_attempts :: int

definition demand_id :: "repair_demand \<Rightarrow> string" where
  "demand_id d = rd_publisher_id d @ '':'' @ dec_of_int (rd_source_sequence_number d) @ '':'' @
     rd_robot_id d @ '':'' @ rd_topic d"

record scheduler_config =
  capacity_bytes :: int
  max_admitted_repairs :: "int option"
  max_paths_per_repair :: int
  require_failure_domain_diversity :: bool
  min_expected_success :: pyfloat
  criticality_weight :: pyfloat
  qoe_debt_weight :: pyfloat
  urgency_weight :: pyfloat
  success_weight :: pyfloat
  latency_penalty :: pyfloat
  lateness_penalty :: pyfloat
  prior_attempt_penalty :: pyfloat
  byte_cost_weight :: pyfloat

text \<open>The defaults of the data class; only the capacity has none.\<close>

definition default_config :: "int \<Rightarrow> scheduler_config" where
  "default_config capacity =
     \<lparr>capacity_bytes = capacity, max_admitted_repairs = None, max_paths_per_repair = 2,
      require_failure_domain_diversity = True, min_expected_success = dbl (1/4),
      criticality_weight = Fin 4, qoe_debt_weight = Fin 3, urgency_weight = dbl (7/2),
      success_weight = Fin 4, latency_penalty = dbl (3/4), lateness_penalty = Fin 6,
      prior_attempt_penalty = dbl (3/4), byte_cost_weight = dbl (5/100)\<rparr>"

datatype repair_action = Repair | Defer

record repair_decision =
  dc_demand_id :: string
  dc_topic :: string
  dc_robot_id :: string
  dc_publisher_id :: string
  dc_source_sequence_number :: int
  dc_action :: repair_action
  dc_selected_paths :: "string list"
  dc_allocated_bytes :: int
  dc_expected_success :: pyfloat
  dc_expected_latency_ms :: pyfloat
  dc_remaining_deadline_ms :: pyfloat
  dc_utility :: pyfloat
  dc_reason :: string

definition action_name :: "repair_action \<Rightarrow> string" where
  "action_name a = (case a of Repair \<Rightarrow> ''repair'' | Defer \<Rightarrow> ''defer'')"

definition decision_as_dict :: "repair_decision \<Rightarrow> py_dict" where
  "decision_as_dict d =
     [(''demand_id'', PStr (dc_demand_id d)),
      (''topic'', PStr (dc_topic d)),
      (''robot_id'', PStr (dc_robot_id d)),
      (''publisher_id'', PStr (dc_publisher_id d)),
      (''source_sequence_number'', PInt (dc_source_sequence_number d)),
      (''action'', PStr (action_name (dc_action d))),
      (''selected_paths'', PList (map PStr (dc_selected_paths d))),
      (''allocated_bytes'', PInt (dc_allocated_bytes d)),
      (''expected_success'', PFloat (dc_expected_success d)),
      (''expected_latency_ms'',
       if is_fin (dc_expected_latency_ms d) then PFloat (dc_expected_latency_ms d) else PNone),
      (''remaining_deadline_ms'', PFloat (dc_remaining_deadline_ms d)),
      (''utility'', PFloat (dc_utility d)),
      (''reason'', PStr (dc_reason d))]"

record repair_schedule =
  sc_decisions :: "repair_decision list"
  sc_capacity_bytes :: int

definition admitted :: "repair_schedule \<Rightarrow> repair_decision list" where
  "admitted s = filter (\<lambda>d. dc_action d = Repair) (sc_decisions s)"

definition allocated_bytes :: "repair_schedule \<Rightarrow> int" where
  "allocated_bytes s = sum_bytes dc_allocated_bytes (admitted s)"

definition policy_text :: "repair_schedule \<Rightarrow> string" where
  "policy_text s =
     join_with '';''
       (map (\<lambda>d. dc_topic d @ ''='' @ join_with ''+'' (dc_selected_paths d) @ ''|sequences='' @
                 dec_of_int (dc_source_sequence_number d) @ ''|attempts=1'')
            (sort_key (\<lambda>d. (dc_topic d, dc_source_sequence_number d, dc_publisher_id d)) (admitted s)))"

definition schedule_as_dict :: "repair_schedule \<Rightarrow> py_dict" where
  "schedule_as_dict s =
     [(''schema_version'', PStr ''fleetrmw.fleet_repair_schedule.v1''),
      (''capacity_bytes'', PInt (sc_capacity_bytes s)),
      (''allocated_bytes'', PInt (allocated_bytes s)),
      (''admitted_count'', PInt (py_len (admitted s))),
      (''deferred_count'', PInt (py_len (sc_decisions s) - py_len (admitted s))),
      (''policy_text'', PStr (policy_text s)),
      (''decisions'', PList (map (PDict \<circ> decision_as_dict) (sc_decisions s)))]"

record repair_option =
  ro_paths :: "repair_path list"
  ro_cost :: int
  ro_success :: pyfloat
  ro_latency_ms :: pyfloat
  ro_utility :: pyfloat

section \<open>Options of one demand\<close>

definition new_scheduler :: "scheduler_config \<Rightarrow> scheduler_config outcome" where
  "new_scheduler c =
     (if capacity_bytes c < 0 then Inl (ValueError ''capacity_bytes must be non-negative'')
      else if max_paths_per_repair c \<le> 0
      then Inl (ValueError ''max_paths_per_repair must be positive'') else Inr c)"

definition path_risk :: "repair_path \<Rightarrow> repair_demand \<Rightarrow> pyfloat" where
  "path_risk p d =
     (let deadline = py_max 1 (rd_remaining_deadline_ms d)
      in Fin 4 * clip01 (rp_loss p) + Fin 2 * py_max 0 (fdiv (rp_latency_ms p) deadline) +
         clip01 (rp_bandwidth_utilization p))"

definition demand_utility ::
    "(pyfloat \<Rightarrow> pyfloat) \<Rightarrow> scheduler_config \<Rightarrow> repair_demand \<Rightarrow> pyfloat \<Rightarrow> pyfloat \<Rightarrow> int \<Rightarrow> pyfloat outcome" where
  "demand_utility ln1p c d success latency_ms path_count =
     (let deadline = py_max 1 (rd_remaining_deadline_ms d);
          slack_ratio = fdiv (rd_remaining_deadline_ms d - latency_ms) deadline;
          deadline_pressure = fdiv (Fin 100) deadline;
          latency_ratio = py_max 0 (fdiv latency_ms deadline);
          lateness = py_max 0 (- slack_ratio)
      in case int_true_div (rd_payload_bytes d * path_count) (max 1 (capacity_bytes c)) of
           Inl e \<Rightarrow> Inl e
         | Inr normalized_cost \<Rightarrow>
             (case py_float_of_int (max 0 (rd_prior_attempts d)) of
                Inl e \<Rightarrow> Inl e
              | Inr attempts \<Rightarrow>
                  Inr (criticality_weight c * clip01 (rd_criticality d)
                       + qoe_debt_weight c * clip01 (rd_qoe_debt d)
                       + urgency_weight c * ln1p deadline_pressure
                       + success_weight c * success
                       - latency_penalty c * latency_ratio
                       - lateness_penalty c * lateness
                       - prior_attempt_penalty c * attempts
                       - byte_cost_weight c * normalized_cost)))"

text \<open>The first other path that the diversity rule allows beside the best one.\<close>

definition diverse_second :: "scheduler_config \<Rightarrow> repair_path \<Rightarrow> repair_path list \<Rightarrow> repair_path option" where
  "diverse_second c first rest =
     find (\<lambda>second. \<not> (require_failure_domain_diversity c \<and> rp_failure_domain first \<noteq> [] \<and>
                        rp_failure_domain second = rp_failure_domain first)) rest"

definition option_candidates ::
    "scheduler_config \<Rightarrow> repair_path \<Rightarrow> repair_path list \<Rightarrow> repair_path list list" where
  "option_candidates c first rest =
     [first] # (if max_paths_per_repair c > 1
                then (case diverse_second c first rest of None \<Rightarrow> [] | Some second \<Rightarrow> [[first, second]])
                else [])"

definition joint_success :: "repair_path list \<Rightarrow> pyfloat" where
  "joint_success ps = 1 - foldl (\<lambda>acc p. acc * clip01 (rp_loss p)) 1 ps"

fun best_latency :: "repair_path list \<Rightarrow> pyfloat" where
  "best_latency [] = PInf"
| "best_latency (p # ps) =
     foldl (\<lambda>m q. py_min m (py_max 0 (rp_latency_ms q))) (py_max 0 (rp_latency_ms p)) ps"

fun build_options ::
    "(pyfloat \<Rightarrow> pyfloat) \<Rightarrow> scheduler_config \<Rightarrow> repair_demand \<Rightarrow> repair_path list list \<Rightarrow>
     repair_option list outcome" where
  "build_options ln1p c d [] = Inr []"
| "build_options ln1p c d (selected # cs) =
     (let success = joint_success selected; latency_ms = best_latency selected
      in if success < min_expected_success c then build_options ln1p c d cs
         else case demand_utility ln1p c d success latency_ms (py_len selected) of
                Inl e \<Rightarrow> Inl e
              | Inr u \<Rightarrow>
                  (case build_options ln1p c d cs of
                     Inl e \<Rightarrow> Inl e
                   | Inr os \<Rightarrow>
                       Inr (\<lparr>ro_paths = selected, ro_cost = rd_payload_bytes d * py_len selected,
                             ro_success = success, ro_latency_ms = latency_ms, ro_utility = u\<rparr> # os)))"

definition demand_options ::
    "(pyfloat \<Rightarrow> pyfloat) \<Rightarrow> scheduler_config \<Rightarrow> repair_path list \<Rightarrow> repair_demand \<Rightarrow>
     repair_option list outcome" where
  "demand_options ln1p c paths d =
     (if rd_payload_bytes d \<le> 0 then Inl (ValueError ''repair payload_bytes must be positive'')
      else case py_sorted (\<lambda>p q. path_risk p d < path_risk q d) paths of
             [] \<Rightarrow> Inl IndexError
           | first # rest \<Rightarrow> build_options ln1p c d (option_candidates c first rest))"

section \<open>The dynamic program\<close>

text \<open>A state maps (bytes used, repairs admitted) to (utility, option chosen per demand, or -1).\<close>

type_synonym dp_value = "pyfloat \<times> int list"
type_synonym dp_states = "((int \<times> int) \<times> dp_value) list"

definition value_greater :: "dp_value \<Rightarrow> dp_value \<Rightarrow> bool" where
  "value_greater v w = (if feq (fst v) (fst w) then snd w < snd v else fst w < fst v)"

definition keep_state :: "(int \<times> int) \<Rightarrow> pyfloat \<Rightarrow> int list \<Rightarrow> dp_states \<Rightarrow> dp_states" where
  "keep_state key utility selected states =
     (case map_of states key of
        None \<Rightarrow> AList.update key (utility, selected) states
      | Some current \<Rightarrow>
          if value_greater (utility, selected) current
          then AList.update key (utility, selected) states else states)"

fun extend_options ::
    "scheduler_config \<Rightarrow> (int \<times> int) \<Rightarrow> dp_value \<Rightarrow> int \<Rightarrow> repair_option list \<Rightarrow> dp_states \<Rightarrow> dp_states" where
  "extend_options c key v i [] next = next"
| "extend_options c key v i (opt # os) next =
     (let next_used = fst key + ro_cost opt; next_admitted = snd key + 1
      in extend_options c key v (i + 1) os
           (if next_used > capacity_bytes c then next
            else if (case max_admitted_repairs c of None \<Rightarrow> False | Some m \<Rightarrow> next_admitted > m) then next
            else keep_state (next_used, next_admitted) (fst v + ro_utility opt) (snd v @ [i]) next))"

definition extend_state ::
    "scheduler_config \<Rightarrow> repair_option list \<Rightarrow> (int \<times> int) \<times> dp_value \<Rightarrow> dp_states \<Rightarrow> dp_states" where
  "extend_state c os st next =
     extend_options c (fst st) (snd st) 0 os
       (keep_state (fst st) (fst (snd st)) (snd (snd st) @ [-1]) next)"

text \<open>States in order of (admitted, used), dropping one that a cheaper one clearly beats.\<close>

fun prune_from :: "(int \<Rightarrow> pyfloat) \<Rightarrow> dp_states \<Rightarrow> dp_states" where
  "prune_from best [] = []"
| "prune_from best (((used, adm), v) # ss) =
     (if fst v + dbl (1 / 10 ^ 12) < best adm then prune_from best ss
      else ((used, adm), v) # prune_from (best(adm := py_max (best adm) (fst v))) ss)"

definition pareto_prune :: "dp_states \<Rightarrow> dp_states" where
  "pareto_prune states = prune_from (\<lambda>_. NInf) (sort_key (\<lambda>((used, adm), v). (adm, used)) states)"

fun dp_run :: "scheduler_config \<Rightarrow> repair_option list list \<Rightarrow> dp_states \<Rightarrow> dp_states" where
  "dp_run c [] states = states"
| "dp_run c (os # oss) states =
     dp_run c oss (pareto_prune (foldl (\<lambda>next st. extend_state c os st next) [] states))"

text \<open>The key \<open>(utility, admitted, -used, negated choices)\<close> of the final choice.\<close>

definition best_key_greater :: "(int \<times> int) \<times> dp_value \<Rightarrow> (int \<times> int) \<times> dp_value \<Rightarrow> bool" where
  "best_key_greater a b =
     (let ua = fst (snd a); ub = fst (snd b);
          ta = (snd (fst a), - fst (fst a), map uminus (snd (snd a)));
          tb = (snd (fst b), - fst (fst b), map uminus (snd (snd b)))
      in if feq ua ub then tb < ta else ub < ua)"

definition repair_decision_of :: "repair_demand \<Rightarrow> repair_option \<Rightarrow> repair_decision" where
  "repair_decision_of d opt =
     \<lparr>dc_demand_id = demand_id d, dc_topic = rd_topic d, dc_robot_id = rd_robot_id d,
      dc_publisher_id = rd_publisher_id d,
      dc_source_sequence_number = rd_source_sequence_number d, dc_action = Repair,
      dc_selected_paths = map rp_path_id (ro_paths opt), dc_allocated_bytes = ro_cost opt,
      dc_expected_success = ro_success opt, dc_expected_latency_ms = ro_latency_ms opt,
      dc_remaining_deadline_ms = rd_remaining_deadline_ms d, dc_utility = ro_utility opt,
      dc_reason = ''fleet-wide deadline/QoE repair admission''\<rparr>"

definition deferred_decision :: "repair_demand \<Rightarrow> repair_decision" where
  "deferred_decision d =
     \<lparr>dc_demand_id = demand_id d, dc_topic = rd_topic d, dc_robot_id = rd_robot_id d,
      dc_publisher_id = rd_publisher_id d,
      dc_source_sequence_number = rd_source_sequence_number d, dc_action = Defer,
      dc_selected_paths = [], dc_allocated_bytes = 0, dc_expected_success = 0,
      dc_expected_latency_ms = PInf, dc_remaining_deadline_ms = rd_remaining_deadline_ms d,
      dc_utility = 0, dc_reason = ''not admitted by shared fleet repair capacity''\<rparr>"

text \<open>\<open>zip(demands, options, selected)\<close> with the decision of each.\<close>

fun decide :: "repair_demand list \<Rightarrow> repair_option list list \<Rightarrow> int list \<Rightarrow> repair_decision list outcome" where
  "decide (d # ds) (os # oss) (i # is) =
     (case (if i < 0 then Inr (deferred_decision d)
            else case py_index os i of
                   None \<Rightarrow> Inl IndexError | Some opt \<Rightarrow> Inr (repair_decision_of d opt)) of
        Inl e \<Rightarrow> Inl e
      | Inr dec \<Rightarrow> (case decide ds oss is of Inl e \<Rightarrow> Inl e | Inr decs \<Rightarrow> Inr (dec # decs)))"
| "decide _ _ _ = Inr []"

definition schedule ::
    "(pyfloat \<Rightarrow> pyfloat) \<Rightarrow> scheduler_config \<Rightarrow> repair_demand list \<Rightarrow> repair_path list \<Rightarrow>
     repair_schedule outcome" where
  "schedule ln1p c demands paths =
     (let demand_list = sort_key demand_id demands
      in if demand_list \<noteq> [] \<and> paths = [] then Inl (ValueError ''at least one repair path is required'')
         else case map_outcome (demand_options ln1p c paths) demand_list of
                Inl e \<Rightarrow> Inl e
              | Inr options \<Rightarrow>
                  (case py_max_by best_key_greater (dp_run c options [((0, 0), (0, []))]) of
                     Inl e \<Rightarrow> Inl e
                   | Inr (_, (_, selected)) \<Rightarrow>
                       map_sum id (\<lambda>decs. \<lparr>sc_decisions = decs, sc_capacity_bytes = capacity_bytes c\<rparr>)
                         (decide demand_list options selected)))"

end
