(* ===== verification/GatewayPolicy.thy ===== *)
theory GatewayPolicy
  imports RepairScheduler Digest
begin

text \<open>
  The admission policy of \<open>fleetqox/quic_gateway_state.py\<close>, first half: the exceptions and
  metadata of a frame, the rules and observations, the state of \<open>GatewayAdmissionPolicy\<close>,
  its constructor with every check, its fingerprint and its construction from a configuration
  document. The clock is a stream of readings, \<open>gp_clock\<close>, of which \<open>gp_reads\<close> have been
  taken: each call of \<open>self._clock()\<close> takes the next one. \<open>math.log1p\<close>, which the repair
  scheduler calls, is the field \<open>gp_log1p\<close>.
\<close>

section \<open>Exceptions and effects\<close>

datatype gw_exn =
  PyExn py_exn
| FrameValidationError string
| FrameAdmissionError (fae_status: int) (fae_reason_code: string) (fae_reason: string)
    (fae_traffic_class: string)
| FramePersistenceError string
| FramePersistenceUnavailableError string
| SqlError (sql_unavailable: bool) (sql_text: string)

type_synonym 'a gw_result = "gw_exn + 'a"

text \<open>
  \<open>SqlError\<close> is what a database driver raises: \<open>sqlite3.Error\<close>, or a \<open>psycopg\<close> error, of
  which the operational and interface errors say that the server cannot be reached.
  \<open>FrameValidationError\<close> is a subclass of ValueError.
\<close>

fun is_value_exn :: "gw_exn \<Rightarrow> bool" where
  "is_value_exn (PyExn e) = is_value_error e"
| "is_value_exn (FrameValidationError _) = True"
| "is_value_exn _ = False"

fun is_persistence_exn :: "gw_exn \<Rightarrow> bool" where
  "is_persistence_exn (FramePersistenceError _) = True"
| "is_persistence_exn (FramePersistenceUnavailableError _) = True"
| "is_persistence_exn _ = False"

text \<open>\<open>str(exc)\<close>; the texts of the standard library's own exceptions are a parameter.\<close>

fun exn_text :: "(py_exn \<Rightarrow> string) \<Rightarrow> gw_exn \<Rightarrow> string" where
  "exn_text texts (PyExn (ValueError m)) = m"
| "exn_text texts (PyExn e) = texts e"
| "exn_text texts (FrameValidationError m) = m"
| "exn_text texts (FrameAdmissionError _ _ reason _) = reason"
| "exn_text texts (FramePersistenceError m) = m"
| "exn_text texts (FramePersistenceUnavailableError m) = m"
| "exn_text texts (SqlError _ m) = m"

text \<open>Run a step on the state; if it did not raise, continue with its result and state.\<close>

definition try_then :: "'s \<times> ('e + 'a) \<Rightarrow> ('a \<Rightarrow> 's \<Rightarrow> 's \<times> ('e + 'b)) \<Rightarrow> 's \<times> ('e + 'b)" where
  "try_then r f = (case r of (s, Inl e) \<Rightarrow> (s, Inl e) | (s, Inr x) \<Rightarrow> f x s)"

lemma try_then_simps [simp]:
  "try_then (s, Inl e) f = (s, Inl e)" "try_then (s, Inr x) f = f x s"
  by (simp_all add: try_then_def)

lemma try_thenE:
  assumes "try_then r f = (t, Inr y)"
  obtains s x where "r = (s, Inr x)" "f x s = (t, Inr y)"
  using assms by (auto simp: try_then_def split: prod.splits sum.splits)

definition lift_exn :: "'s \<Rightarrow> 'a outcome \<Rightarrow> 's \<times> 'a gw_result" where
  "lift_exn s r = (s, map_sum PyExn id r)"

definition value_error :: "string \<Rightarrow> gw_exn" where
  "value_error m = PyExn (ValueError m)"

section \<open>Frames, rules and observations\<close>

record frame_metadata =
  fm_domain_id :: int
  fm_topic :: string
  fm_publisher_id :: string
  fm_source_sequence_number :: int
  fm_robot_id :: string
  fm_traffic_class :: string
  fm_deadline_ms :: pyfloat
  fm_age_ms :: pyfloat
  fm_qoe_debt :: pyfloat
  fm_criticality :: pyfloat
  fm_repair_requested :: bool
  fm_prior_repair_attempts :: int
  fm_frame_bytes :: int

definition stream_key :: "frame_metadata \<Rightarrow> int \<times> string" where
  "stream_key m = (fm_domain_id m, fm_topic m)"

definition dedup_key :: "frame_metadata \<Rightarrow> string \<times> int" where
  "dedup_key m = (fm_publisher_id m, fm_source_sequence_number m)"

definition remaining_deadline_ms :: "frame_metadata \<Rightarrow> pyfloat" where
  "remaining_deadline_ms m =
     (if fm_deadline_ms m \<le> 0 then Fin 1000 else py_max 1 (fm_deadline_ms m - fm_age_ms m))"

definition urgency_of :: "frame_metadata \<Rightarrow> pyfloat" where
  "urgency_of m =
     (if fm_deadline_ms m > 0 then py_min 1 (fdiv (fm_age_ms m) (fm_deadline_ms m)) else 0)"

text \<open>A decimal literal of the source, in hundredths.\<close>

definition cent :: "int \<Rightarrow> pyfloat" where
  "cent n = dbl (of_int n / 100)"

definition admission_score :: "frame_metadata \<Rightarrow> pyfloat" where
  "admission_score m =
     cent 45 * fm_criticality m + cent 35 * fm_qoe_debt m + cent 20 * urgency_of m"

record admission_rule =
  ar_domain_id :: int
  ar_topic :: string
  ar_traffic_class :: string
  ar_max_accepted_frames :: int
  ar_allowed_publishers :: "string set"
  ar_min_admission_score :: pyfloat

record gateway_observation =
  ob_domain_id :: int
  ob_topic :: string
  ob_publisher_id :: string
  ob_qoe_debt :: pyfloat
  ob_measured_loss :: pyfloat
  ob_measured_rtt_ms :: pyfloat
  ob_measured_jitter_ms :: pyfloat
  ob_source :: string
  ob_qoe_debt_source :: string
  ob_updated_at :: pyfloat

section \<open>Configuration and state\<close>

record policy_config =
  pc_rules :: "admission_rule list"
  pc_default_action :: string
  pc_max_accepted_frames :: "int option"
  pc_epoch_ms :: "int option"
  pc_repair_capacity_bytes :: int
  pc_repair_max_admitted :: "int option"
  pc_repair_paths :: "repair_path list"
  pc_observation_ttl_ms :: int
  pc_native_enabled :: bool
  pc_native_alpha :: pyfloat
  pc_native_loss_saturation :: pyfloat
  pc_native_rtt_saturation :: pyfloat
  pc_native_jitter_saturation :: pyfloat
  pc_outcome_enabled :: bool
  pc_outcome_alpha :: pyfloat

text \<open>The keyword defaults of the constructor.\<close>

definition default_policy_config :: "admission_rule list \<Rightarrow> string \<Rightarrow> int option \<Rightarrow> policy_config" where
  "default_policy_config rules action quota =
     \<lparr>pc_rules = rules, pc_default_action = action, pc_max_accepted_frames = quota,
      pc_epoch_ms = None, pc_repair_capacity_bytes = 0, pc_repair_max_admitted = None,
      pc_repair_paths = [], pc_observation_ttl_ms = 5000, pc_native_enabled = False,
      pc_native_alpha = dbl (1/2), pc_native_loss_saturation = cent 5,
      pc_native_rtt_saturation = 1, pc_native_jitter_saturation = dbl (1/4),
      pc_outcome_enabled = False, pc_outcome_alpha = dbl (1/2)\<rparr>"

type_synonym obs_key = "int \<times> string \<times> string"

record policy =
  gp_config :: policy_config
  gp_clock :: "nat \<Rightarrow> pyfloat"
  gp_reads :: nat
  gp_log1p :: "pyfloat \<Rightarrow> pyfloat"
  gp_epoch_started :: pyfloat
  gp_epoch_reset_count :: int
  gp_rules_by_stream :: "((int \<times> string) \<times> admission_rule) list"
  gp_accepted_total :: int
  gp_accepted_cumulative :: int
  gp_accepted_by_stream :: "((int \<times> string) \<times> int) list"
  gp_accepted_by_class :: "(string \<times> int) list"
  gp_rejected_by_reason :: "(string \<times> int) list"
  gp_repair_allocated_bytes :: int
  gp_repair_admitted_count :: int
  gp_repair_deferred_count :: int
  gp_repair_decisions :: "py_obj list"
  gp_observations :: "(obs_key \<times> gateway_observation) list"
  gp_observation_updates :: int
  gp_observation_updates_by_source :: "(string \<times> int) list"
  gp_observation_expirations :: int
  gp_observation_score_uses :: int
  gp_native_updates :: int
  gp_outcome_updates :: int
  gp_task_updates :: int
  gp_task_failures :: int

definition read_clock :: "policy \<Rightarrow> policy \<times> pyfloat" where
  "read_clock p = (p\<lparr>gp_reads := gp_reads p + 1\<rparr>, gp_clock p (gp_reads p))"

text \<open>\<open>d.get(k, 0)\<close> and \<open>d[k] = d.get(k, 0) + 1\<close>.\<close>

definition count_of :: "('k \<times> int) list \<Rightarrow> 'k \<Rightarrow> int" where
  "count_of d k = (case map_of d k of None \<Rightarrow> 0 | Some n \<Rightarrow> n)"

definition bump :: "'k \<Rightarrow> ('k \<times> int) list \<Rightarrow> ('k \<times> int) list" where
  "bump k d = AList.update k (count_of d k + 1) d"

section \<open>The constructor\<close>

definition starts_with_slash :: "string \<Rightarrow> bool" where
  "starts_with_slash s \<longleftrightarrow> (case s of c # _ \<Rightarrow> c = CHR ''/'' | [] \<Rightarrow> False)"

fun index_rules ::
    "admission_rule list \<Rightarrow> ((int \<times> string) \<times> admission_rule) list \<Rightarrow>
     ((int \<times> string) \<times> admission_rule) list outcome" where
  "index_rules [] acc = Inr acc"
| "index_rules (r # rs) acc =
     (if ar_domain_id r < 0 \<or> \<not> starts_with_slash (ar_topic r)
      then Inl (ValueError ''admission rule requires valid domain_id and topic'')
      else if ar_traffic_class r = [] \<or> ar_max_accepted_frames r \<le> 0
      then Inl (ValueError ''admission rule requires class and positive quota'')
      else if \<not> (0 \<le> ar_min_admission_score r \<and> ar_min_admission_score r \<le> 1)
      then Inl (ValueError ''admission score threshold must be in [0, 1]'')
      else if map_of acc (ar_domain_id r, ar_topic r) \<noteq> None
      then Inl (ValueError ''duplicate admission rule for domain/topic'')
      else index_rules rs (AList.update (ar_domain_id r, ar_topic r) r acc))"

definition check_config :: "policy_config \<Rightarrow> string option" where
  "check_config c =
     (if pc_default_action c \<notin> {''allow'', ''deny''}
      then Some ''admission default_action must be allow or deny''
      else if (case pc_max_accepted_frames c of Some n \<Rightarrow> n \<le> 0 | None \<Rightarrow> False)
      then Some ''admission max_accepted_frames must be positive''
      else if (case pc_epoch_ms c of Some n \<Rightarrow> n \<le> 0 | None \<Rightarrow> False)
      then Some ''admission epoch_ms must be positive''
      else if pc_repair_capacity_bytes c < 0 then Some ''repair capacity must be non-negative''
      else if (case pc_repair_max_admitted c of Some n \<Rightarrow> n \<le> 0 | None \<Rightarrow> False)
      then Some ''repair max_admitted must be positive''
      else if pc_repair_capacity_bytes c > 0 \<and> pc_repair_paths c = []
      then Some ''repair paths are required with repair capacity''
      else if pc_observation_ttl_ms c \<le> 0 then Some ''observation_ttl_ms must be positive''
      else if \<not> (0 < pc_native_alpha c \<and> pc_native_alpha c \<le> 1)
      then Some ''native QoE debt EWMA alpha must be in (0, 1]''
      else if \<not> (0 < pc_native_loss_saturation c \<and> pc_native_loss_saturation c \<le> 1)
      then Some ''native QoE loss saturation must be in (0, 1]''
      else if pc_native_rtt_saturation c \<le> 0 \<or> pc_native_jitter_saturation c \<le> 0
      then Some ''native QoE deadline-ratio saturations must be positive''
      else if \<not> (0 < pc_outcome_alpha c \<and> pc_outcome_alpha c \<le> 1)
      then Some ''application outcome QoE debt EWMA alpha must be in (0, 1]''
      else None)"

definition new_policy ::
    "policy_config \<Rightarrow> (nat \<Rightarrow> pyfloat) \<Rightarrow> (pyfloat \<Rightarrow> pyfloat) \<Rightarrow> policy outcome" where
  "new_policy c clock ln1p =
     (case check_config c of
        Some m \<Rightarrow> Inl (ValueError m)
      | None \<Rightarrow>
          (case index_rules (pc_rules c) [] of
             Inl e \<Rightarrow> Inl e
           | Inr rules \<Rightarrow>
               Inr \<lparr>gp_config = c, gp_clock = clock, gp_reads = 1, gp_log1p = ln1p,
                    gp_epoch_started = clock 0, gp_epoch_reset_count = 0,
                    gp_rules_by_stream = rules, gp_accepted_total = 0, gp_accepted_cumulative = 0,
                    gp_accepted_by_stream = [], gp_accepted_by_class = [],
                    gp_rejected_by_reason = [], gp_repair_allocated_bytes = 0,
                    gp_repair_admitted_count = 0, gp_repair_deferred_count = 0,
                    gp_repair_decisions = [], gp_observations = [], gp_observation_updates = 0,
                    gp_observation_updates_by_source = [], gp_observation_expirations = 0,
                    gp_observation_score_uses = 0, gp_native_updates = 0, gp_outcome_updates = 0,
                    gp_task_updates = 0, gp_task_failures = 0\<rparr>))"

section \<open>The fingerprint\<close>

definition ADMISSION_POLICY_SCHEMA_VERSION :: string where
  "ADMISSION_POLICY_SCHEMA_VERSION = ''fleetrmw.quic_gateway_admission_policy.v1''"

definition rule_document :: "admission_rule \<Rightarrow> py_obj" where
  "rule_document r = PDict
     [(''domain_id'', PInt (ar_domain_id r)), (''topic'', PStr (ar_topic r)),
      (''traffic_class'', PStr (ar_traffic_class r)),
      (''max_accepted_frames'', PInt (ar_max_accepted_frames r)),
      (''allowed_publishers'', PList (map PStr (sorted_list_of_set (ar_allowed_publishers r)))),
      (''min_admission_score'', PFloat (ar_min_admission_score r))]"

definition path_document :: "repair_path \<Rightarrow> py_obj" where
  "path_document r = PDict
     [(''path_id'', PStr (rp_path_id r)), (''latency_ms'', PFloat (rp_latency_ms r)),
      (''loss'', PFloat (rp_loss r)), (''failure_domain'', PStr (rp_failure_domain r)),
      (''bandwidth_utilization'', PFloat (rp_bandwidth_utilization r))]"

definition policy_document :: "policy_config \<Rightarrow> py_obj" where
  "policy_document c = PDict
     [(''schema_version'', PStr ADMISSION_POLICY_SCHEMA_VERSION),
      (''default_action'', PStr (pc_default_action c)),
      (''max_accepted_frames'', of_optional PInt (pc_max_accepted_frames c)),
      (''epoch_ms'', of_optional PInt (pc_epoch_ms c)),
      (''repair_capacity_bytes'', PInt (pc_repair_capacity_bytes c)),
      (''repair_max_admitted'', of_optional PInt (pc_repair_max_admitted c)),
      (''observation_ttl_ms'', PInt (pc_observation_ttl_ms c)),
      (''native_qoe_debt'', PDict
         [(''enabled'', PBool (pc_native_enabled c)), (''ewma_alpha'', PFloat (pc_native_alpha c)),
          (''loss_saturation'', PFloat (pc_native_loss_saturation c)),
          (''rtt_deadline_ratio_saturation'', PFloat (pc_native_rtt_saturation c)),
          (''jitter_deadline_ratio_saturation'', PFloat (pc_native_jitter_saturation c))]),
      (''application_outcome_qoe_debt'', PDict
         [(''enabled'', PBool (pc_outcome_enabled c)), (''ewma_alpha'', PFloat (pc_outcome_alpha c))]),
      (''rules'', PList (map rule_document
         (sort_key (\<lambda>r. (ar_domain_id r, ar_topic r)) (pc_rules c)))),
      (''repair_paths'', PList (map path_document (sort_key rp_path_id (pc_repair_paths c))))]"

definition fingerprint :: "policy \<Rightarrow> string outcome" where
  "fingerprint p = map_sum id sha256_hex (json_dumps False (policy_document (gp_config p)))"

section \<open>From a document\<close>

fun all_outcome :: "('a \<Rightarrow> bool outcome) \<Rightarrow> 'a list \<Rightarrow> bool outcome" where
  "all_outcome f [] = Inr True"
| "all_outcome f (x # xs) =
     (case f x of Inl e \<Rightarrow> Inl e | Inr b \<Rightarrow> if b then all_outcome f xs else Inr False)"

text \<open>A finite number that is not a boolean; \<open>float\<close> of a huge integer raises.\<close>

definition finite_number :: "py_obj \<Rightarrow> bool outcome" where
  "finite_number v =
     (if \<not> plain_number v then Inr False
      else case py_float v of Inl e \<Rightarrow> Inl e | Inr x \<Rightarrow> Inr (is_fin x))"

definition config_number :: "py_dict \<Rightarrow> string \<Rightarrow> pyfloat \<Rightarrow> string \<Rightarrow> pyfloat outcome" where
  "config_number d name dflt msg =
     (let v = dget_or (PFloat dflt) d name
      in case finite_number v of
           Inl e \<Rightarrow> Inl e
         | Inr ok \<Rightarrow> if ok then py_float v else Inl (ValueError msg))"

definition optional_config_int :: "py_obj \<Rightarrow> string \<Rightarrow> int option outcome" where
  "optional_config_int v msg =
     (if v = PNone then Inr None
      else case plain_int v of Some i \<Rightarrow> Inr (Some i) | None \<Rightarrow> Inl (ValueError msg))"

definition nonempty_str :: "py_obj \<Rightarrow> bool" where
  "nonempty_str v \<longleftrightarrow> (case v of PStr s \<Rightarrow> s \<noteq> [] | _ \<Rightarrow> False)"

definition rule_from_document :: "py_obj \<Rightarrow> admission_rule outcome" where
  "rule_from_document raw =
     (case raw of
        PDict d \<Rightarrow>
          (case dget_or (PList []) d ''allowed_publishers'' of
             PList pubs \<Rightarrow>
               if \<not> list_all nonempty_str pubs
               then Inl (ValueError ''allowed_publishers must contain non-empty strings'')
               else
                 (case plain_int (dget d ''domain_id'') of
                    None \<Rightarrow> Inl (ValueError ''admission rule domain_id must be an integer'')
                  | Some domain_id \<Rightarrow>
                      (case plain_int (dget d ''max_accepted_frames'') of
                         None \<Rightarrow> Inl (ValueError ''admission rule quota must be an integer'')
                       | Some quota \<Rightarrow>
                           map_sum id (\<lambda>score.
                             \<lparr>ar_domain_id = domain_id,
                              ar_topic = py_str (dget_or (PStr []) d ''topic''),
                              ar_traffic_class = py_str (dget_or (PStr []) d ''traffic_class''),
                              ar_max_accepted_frames = quota,
                              ar_allowed_publishers = set (map the_str pubs),
                              ar_min_admission_score = score\<rparr>)
                             (py_float (dget_or (PFloat 0) d ''min_admission_score''))))
           | _ \<Rightarrow> Inl (ValueError ''allowed_publishers must contain non-empty strings''))
      | _ \<Rightarrow> Inl (ValueError ''admission rule must be an object''))"

definition path_from_document :: "py_obj \<Rightarrow> repair_path outcome" where
  "path_from_document raw =
     (case raw of
        PDict d \<Rightarrow>
          (case py_float (dget_or (PFloat 0) d ''latency_ms'') of
             Inl e \<Rightarrow> Inl e
           | Inr latency \<Rightarrow>
               (case py_float (dget_or (PFloat 0) d ''loss'') of
                  Inl e \<Rightarrow> Inl e
                | Inr loss \<Rightarrow>
                    map_sum id (\<lambda>util.
                      \<lparr>rp_path_id = py_str (dget_or (PStr []) d ''path_id''),
                       rp_latency_ms = latency, rp_loss = loss,
                       rp_failure_domain = py_str (dget_or (PStr []) d ''failure_domain''),
                       rp_bandwidth_utilization = util\<rparr>)
                      (py_float (dget_or (PFloat 0) d ''bandwidth_utilization''))))
      | _ \<Rightarrow> Inl (ValueError ''repair path must be an object''))"

definition path_invalid :: "repair_path \<Rightarrow> bool" where
  "path_invalid r \<longleftrightarrow> rp_path_id r = [] \<or> rp_latency_ms r < 0 \<or> \<not> (0 \<le> rp_loss r \<and> rp_loss r \<le> 1)"

text \<open>The \<open>repair\<close> object of a document: capacity, admission limit and paths.\<close>

definition repair_from_document :: "py_dict \<Rightarrow> (int \<times> int option \<times> repair_path list) outcome" where
  "repair_from_document d =
     (case dget_or (PDict []) d ''repair'' of
        PDict r \<Rightarrow>
          (case plain_int (dget_or (PInt 0) r ''capacity_bytes'') of
             None \<Rightarrow> Inl (ValueError ''repair capacity_bytes must be an integer'')
           | Some capacity \<Rightarrow>
               (case optional_config_int (dget r ''max_admitted'') ''repair max_admitted must be an integer'' of
                  Inl e \<Rightarrow> Inl e
                | Inr max_admitted \<Rightarrow>
                    (case dget_or (PList []) r ''paths'' of
                       PList raws \<Rightarrow>
                         (case map_outcome path_from_document raws of
                            Inl e \<Rightarrow> Inl e
                          | Inr paths \<Rightarrow>
                              if list_ex path_invalid paths
                              then Inl (ValueError ''repair path values are invalid'')
                              else Inr (capacity, max_admitted, paths))
                     | _ \<Rightarrow> Inl (ValueError ''repair paths must be a list''))))
      | _ \<Rightarrow> Inl (ValueError ''admission repair configuration must be an object''))"

text \<open>The two QoE debt objects: enabled, alpha, and for the native one three saturations.\<close>

definition native_from_document :: "py_dict \<Rightarrow> (bool \<times> pyfloat \<times> pyfloat \<times> pyfloat \<times> pyfloat) outcome" where
  "native_from_document d =
     (case dget_or (PDict []) d ''native_qoe_debt'' of
        PDict q \<Rightarrow>
          (case dget_or (PBool False) q ''enabled'' of
             PBool enabled \<Rightarrow>
               (case config_number q ''ewma_alpha'' (dbl (1/2)) ''native_qoe_debt ewma_alpha must be finite numeric'' of
                  Inl e \<Rightarrow> Inl e
                | Inr alpha \<Rightarrow>
               (case config_number q ''loss_saturation'' (cent 5) ''native_qoe_debt loss_saturation must be finite numeric'' of
                  Inl e \<Rightarrow> Inl e
                | Inr loss \<Rightarrow>
               (case config_number q ''rtt_deadline_ratio_saturation'' 1
                       ''native_qoe_debt rtt_deadline_ratio_saturation must be finite numeric'' of
                  Inl e \<Rightarrow> Inl e
                | Inr rtt \<Rightarrow>
               (case config_number q ''jitter_deadline_ratio_saturation'' (dbl (1/4))
                       ''native_qoe_debt jitter_deadline_ratio_saturation must be finite numeric'' of
                  Inl e \<Rightarrow> Inl e
                | Inr jitter \<Rightarrow> Inr (enabled, alpha, loss, rtt, jitter)))))
           | _ \<Rightarrow> Inl (ValueError ''native_qoe_debt enabled must be boolean''))
      | _ \<Rightarrow> Inl (ValueError ''native_qoe_debt must be an object''))"

definition outcome_from_document :: "py_dict \<Rightarrow> (bool \<times> pyfloat) outcome" where
  "outcome_from_document d =
     (case dget_or (PDict []) d ''application_outcome_qoe_debt'' of
        PDict q \<Rightarrow>
          (case dget_or (PBool False) q ''enabled'' of
             PBool enabled \<Rightarrow>
               map_sum id (Pair enabled)
                 (config_number q ''ewma_alpha'' (dbl (1/2))
                    ''application_outcome_qoe_debt ewma_alpha must be finite numeric'')
           | _ \<Rightarrow> Inl (ValueError ''application_outcome_qoe_debt enabled must be boolean''))
      | _ \<Rightarrow> Inl (ValueError ''application_outcome_qoe_debt must be an object''))"

definition from_document ::
    "py_dict \<Rightarrow> (nat \<Rightarrow> pyfloat) \<Rightarrow> (pyfloat \<Rightarrow> pyfloat) \<Rightarrow> policy outcome" where
  "from_document d clock ln1p =
     (if dget d ''schema_version'' \<noteq> PStr ADMISSION_POLICY_SCHEMA_VERSION
      then Inl (ValueError ''unsupported QUIC gateway admission policy schema'')
      else case dget d ''rules'' of
        PList raws \<Rightarrow>
          (case map_outcome rule_from_document raws of
             Inl e \<Rightarrow> Inl e
           | Inr rules \<Rightarrow>
          (case optional_config_int (dget d ''max_accepted_frames'')
                  ''admission policy max_accepted_frames must be an integer'' of
             Inl e \<Rightarrow> Inl e
           | Inr quota \<Rightarrow>
          (case optional_config_int (dget d ''epoch_ms'') ''admission policy epoch_ms must be an integer'' of
             Inl e \<Rightarrow> Inl e
           | Inr epoch \<Rightarrow>
          (case plain_int (dget_or (PInt 5000) d ''observation_ttl_ms'') of
             None \<Rightarrow> Inl (ValueError ''observation_ttl_ms must be an integer'')
           | Some ttl \<Rightarrow>
          (case native_from_document d of
             Inl e \<Rightarrow> Inl e
           | Inr (native_on, alpha, loss, rtt, jitter) \<Rightarrow>
          (case outcome_from_document d of
             Inl e \<Rightarrow> Inl e
           | Inr (outcome_on, outcome_alpha) \<Rightarrow>
          (case repair_from_document d of
             Inl e \<Rightarrow> Inl e
           | Inr (capacity, max_admitted, paths) \<Rightarrow>
               new_policy
                 \<lparr>pc_rules = rules,
                  pc_default_action = py_str (dget_or (PStr ''deny'') d ''default_action''),
                  pc_max_accepted_frames = quota, pc_epoch_ms = epoch,
                  pc_repair_capacity_bytes = capacity, pc_repair_max_admitted = max_admitted,
                  pc_repair_paths = paths, pc_observation_ttl_ms = ttl,
                  pc_native_enabled = native_on, pc_native_alpha = alpha,
                  pc_native_loss_saturation = loss, pc_native_rtt_saturation = rtt,
                  pc_native_jitter_saturation = jitter, pc_outcome_enabled = outcome_on,
                  pc_outcome_alpha = outcome_alpha\<rparr> clock ln1p)))))))
      | _ \<Rightarrow> Inl (ValueError ''admission policy rules must be a list''))"

end
