(* ===== verification/GatewayFrame.thy ===== *)
theory GatewayFrame
  imports GatewayPolicy Json
begin

text \<open>
  \<open>parse_data_frame\<close> of \<open>fleetqox/quic_gateway_state.py\<close>: the bytes of a POST body to the
  metadata of a frame, with every check in the order the code makes them, and the two decoders
  of the standard library it calls, \<open>bytes.fromhex\<close> and \<open>base64.b64decode(s, validate=True)\<close>
  (the strict mode of Python 3.11).
\<close>

section \<open>Hexadecimal text\<close>

definition is_hex_space :: "char \<Rightarrow> bool" where
  "is_hex_space c \<longleftrightarrow> byte c \<in> {9, 10, 11, 12, 13, 32}"

fun from_hex :: "string \<Rightarrow> string option" where
  "from_hex [] = Some []"
| "from_hex [c] = (if is_hex_space c then Some [] else None)"
| "from_hex (a # b # s) =
     (if is_hex_space a then from_hex (b # s)
      else case (hex_val a, hex_val b) of
             (Some x, Some y) \<Rightarrow> map_option ((#) (chr_of (16 * x + y))) (from_hex s)
           | _ \<Rightarrow> None)"

section \<open>Base64 text\<close>

definition base64_val :: "char \<Rightarrow> int option" where
  "base64_val c =
     (let n = byte c
      in if 65 \<le> n \<and> n \<le> 90 then Some (n - 65)
         else if 97 \<le> n \<and> n \<le> 122 then Some (n - 71)
         else if 48 \<le> n \<and> n \<le> 57 then Some (n + 4)
         else if n = 43 then Some 62 else if n = 47 then Some 63 else None)"

text \<open>The bytes of a run of sextets; the bits of an incomplete last group are dropped.\<close>

fun base64_groups :: "int list \<Rightarrow> string" where
  "base64_groups (a # b # c # d # vs) =
     chr_of (a * 4 + b div 16) # chr_of (b mod 16 * 16 + c div 4) # chr_of (c mod 4 * 64 + d) #
     base64_groups vs"
| "base64_groups [a, b, c] = [chr_of (a * 4 + b div 16), chr_of (b mod 16 * 16 + c div 4)]"
| "base64_groups [a, b] = [chr_of (a * 4 + b div 16)]"
| "base64_groups _ = []"

definition b64decode :: "string \<Rightarrow> string option" where
  "b64decode s =
     (let digits = takeWhile (\<lambda>c. base64_val c \<noteq> None) s;
          pads = dropWhile (\<lambda>c. base64_val c \<noteq> None) s;
          n = length digits mod 4
      in if list_all (\<lambda>c. c = CHR ''='') pads \<and> \<not> (digits = [] \<and> pads \<noteq> []) \<and>
            (n = 0 \<or> n = 2 \<and> length pads = 2 \<or> n = 3 \<and> length pads = 1)
         then Some (base64_groups (map (the \<circ> base64_val) digits)) else None)"

section \<open>The frame\<close>

definition DATA_FRAME_MAGIC :: string where
  "DATA_FRAME_MAGIC = ''FRMW1'' @ [CHR 0x0A]"

definition GATEWAY_FRAME_SCHEMA :: string where
  "GATEWAY_FRAME_SCHEMA = ''fleetrmw.data_frame.v1''"

type_synonym 'a frame_result = "gw_exn + 'a"

definition invalid :: "string \<Rightarrow> 'a frame_result" where
  "invalid m = Inl (FrameValidationError m)"

definition frame_document :: "string \<Rightarrow> int \<Rightarrow> py_dict frame_result" where
  "frame_document payload max_bytes =
     (if payload = [] \<or> py_len payload > max_bytes
      then invalid ''frame body is empty or exceeds max_frame_bytes''
      else case strip_prefix DATA_FRAME_MAGIC payload of
        None \<Rightarrow> invalid ''frame body is missing FRMW1 magic''
      | Some body \<Rightarrow>
          (case (case decode_utf8 body of Inl e \<Rightarrow> Inl e | Inr txt \<Rightarrow> json_loads txt) of
             Inl e \<Rightarrow>
               if e = UnicodeDecodeError \<or> e = JSONDecodeError
               then invalid ''frame body is not valid UTF-8 JSON'' else Inl (PyExn e)
           | Inr (PDict d) \<Rightarrow> Inr d
           | Inr _ \<Rightarrow> invalid ''frame document must be an object''))"

text \<open>The optional payload: its encoding, its data and its declared size.\<close>

definition decode_payload :: "string \<Rightarrow> py_obj \<Rightarrow> string frame_result" where
  "decode_payload encoding encoded =
     (case encoded of
        PStr s \<Rightarrow>
          (case (if encoding = ''base64'' then b64decode s else from_hex s) of
             None \<Rightarrow> invalid ''serialized payload contains invalid encoded data''
           | Some bs \<Rightarrow> Inr bs)
      | _ \<Rightarrow> Inl (PyExn TypeError))"

definition check_serialized :: "py_obj \<Rightarrow> unit frame_result" where
  "check_serialized serialized =
     (case serialized of
        PNone \<Rightarrow> Inr ()
      | PDict d \<Rightarrow>
          (case dget d ''encoding'' of
             PStr encoding \<Rightarrow>
               if encoding = ''hex'' \<or> encoding = ''base64''
               then (case decode_payload encoding (dget d ''data'') of
                       Inl e \<Rightarrow> Inl e
                     | Inr decoded \<Rightarrow>
                         if plain_int (dget d ''size'') = Some (py_len decoded) then Inr ()
                         else invalid ''serialized payload size does not match data'')
               else invalid ''serialized payload must use hex or base64 encoding''
           | _ \<Rightarrow> invalid ''serialized payload must use hex or base64 encoding'')
      | _ \<Rightarrow> invalid ''serialized_payload must be an object'')"

text \<open>A number of the frame: a missing one is 0, and the float must be finite and in range.\<close>

definition frame_number :: "py_dict \<Rightarrow> string \<Rightarrow> pyfloat option \<Rightarrow> pyfloat frame_result" where
  "frame_number source key maximum =
     (let v = dget_or (PFloat 0) source key
      in if \<not> plain_number v then invalid (key @ '' must be numeric'')
         else case py_float v of
           Inl e \<Rightarrow> Inl (PyExn e)
         | Inr x \<Rightarrow>
             if \<not> is_fin x \<or> x < 0 \<or> (case maximum of None \<Rightarrow> False | Some limit \<Rightarrow> limit < x)
             then invalid (key @ '' is outside its valid range'')
             else Inr x)"

definition frame_numbers ::
    "py_dict \<Rightarrow> py_dict \<Rightarrow> py_dict \<Rightarrow> (pyfloat \<times> pyfloat \<times> pyfloat \<times> pyfloat) frame_result" where
  "frame_numbers delivery timing qox =
     (case frame_number delivery ''deadline_ms'' None of Inl e \<Rightarrow> Inl e | Inr deadline \<Rightarrow>
     (case frame_number timing ''age_ms'' None of Inl e \<Rightarrow> Inl e | Inr age \<Rightarrow>
     (case frame_number qox ''qoe_debt'' (Some 1) of Inl e \<Rightarrow> Inl e | Inr debt \<Rightarrow>
     (case frame_number qox ''task_criticality'' (Some 1) of Inl e \<Rightarrow> Inl e | Inr criticality \<Rightarrow>
        Inr (deadline, age, debt, criticality)))))"

definition repair_fields :: "py_dict \<Rightarrow> (bool \<times> int) frame_result" where
  "repair_fields repair =
     (case dget_or (PBool False) repair ''requested'' of
        PBool requested \<Rightarrow>
          (case plain_int (dget_or (PInt 0) repair ''prior_attempts'') of
             Some n \<Rightarrow> if n < 0 then invalid ''repair.prior_attempts must be non-negative''
                       else Inr (requested, n)
           | None \<Rightarrow> invalid ''repair.prior_attempts must be non-negative'')
      | _ \<Rightarrow> invalid ''repair.requested must be boolean'')"

text \<open>The identity of the sample: topic, publisher, sequence number and domain.\<close>

definition frame_identity ::
    "py_dict \<Rightarrow> py_dict \<Rightarrow> py_dict \<Rightarrow> (string \<times> string \<times> int \<times> int) frame_result" where
  "frame_identity document route envelope =
     (case dget route ''topic'' of
        PStr topic \<Rightarrow>
          if \<not> starts_with_slash topic then invalid ''route.topic must be an absolute ROS topic''
          else if dget envelope ''topic'' \<noteq> PStr topic
          then invalid ''route and sample_envelope topics differ''
          else if \<not> nonempty_str (dget envelope ''publisher_id'')
          then invalid ''sample_envelope.publisher_id is required''
          else (case plain_int (dget envelope ''source_sequence_number'') of
            None \<Rightarrow> invalid ''source_sequence_number must be positive''
          | Some sequence \<Rightarrow>
              if sequence \<le> 0 then invalid ''source_sequence_number must be positive''
              else (case plain_int (dget_or (PInt 0) document ''domain_id'') of
                None \<Rightarrow> invalid ''domain_id must be non-negative''
              | Some domain_id \<Rightarrow>
                  if domain_id < 0 then invalid ''domain_id must be non-negative''
                  else Inr (topic, the_str (dget envelope ''publisher_id''), sequence, domain_id)))
      | _ \<Rightarrow> invalid ''route.topic must be an absolute ROS topic'')"

definition frame_tail ::
    "py_dict \<Rightarrow> string \<times> string \<times> int \<times> int \<Rightarrow> string \<Rightarrow> string \<Rightarrow> int \<Rightarrow> frame_metadata frame_result" where
  "frame_tail document ids flow_class robot_id n =
     (case (dget_or (PDict []) document ''delivery'', dget_or (PDict []) document ''timing'',
            dget_or (PDict []) document ''qox'', dget_or (PDict []) document ''repair'') of
        (PDict delivery, PDict timing, PDict qox, PDict repair) \<Rightarrow>
          (case frame_numbers delivery timing qox of
             Inl e \<Rightarrow> Inl e
           | Inr (deadline, age, debt, criticality) \<Rightarrow>
               (case repair_fields repair of
                  Inl e \<Rightarrow> Inl e
                | Inr (requested, prior) \<Rightarrow>
                    (case ids of (topic, publisher_id, sequence, domain_id) \<Rightarrow>
                       Inr \<lparr>fm_domain_id = domain_id, fm_topic = topic, fm_publisher_id = publisher_id,
                            fm_source_sequence_number = sequence, fm_robot_id = robot_id,
                            fm_traffic_class = flow_class, fm_deadline_ms = deadline,
                            fm_age_ms = age, fm_qoe_debt = debt, fm_criticality = criticality,
                            fm_repair_requested = requested, fm_prior_repair_attempts = prior,
                            fm_frame_bytes = n\<rparr>)))
      | _ \<Rightarrow> invalid ''delivery, timing, qox, and repair must be objects'')"

definition parse_data_frame :: "string \<Rightarrow> int \<Rightarrow> frame_metadata frame_result" where
  "parse_data_frame payload max_bytes =
     (case frame_document payload max_bytes of
        Inl e \<Rightarrow> Inl e
      | Inr document \<Rightarrow>
          if dget document ''schema_version'' \<noteq> PStr GATEWAY_FRAME_SCHEMA
          then invalid ''unsupported FleetRMW data-frame schema''
          else case (dget document ''route'', dget document ''sample_envelope'') of
            (PDict route, PDict envelope) \<Rightarrow>
              (case frame_identity document route envelope of
                 Inl e \<Rightarrow> Inl e
               | Inr ids \<Rightarrow>
                   (case check_serialized (dget document ''serialized_payload'') of
                      Inl e \<Rightarrow> Inl e
                    | Inr _ \<Rightarrow>
                        (case (dget_or (PStr []) route ''flow_class'',
                               dget_or (dget_or (PStr []) envelope ''robot_id'') route ''robot_id'') of
                           (PStr flow_class, PStr robot_id) \<Rightarrow>
                             frame_tail document ids flow_class robot_id (py_len payload)
                         | _ \<Rightarrow> invalid ''route flow_class and robot_id must be strings'')))
          | _ \<Rightarrow> invalid ''route and sample_envelope objects are required'')"

end
