(* ===== verification/GatewayAdmission.thy ===== *)
theory GatewayAdmission
  imports GatewayPolicy
begin

text \<open>
  The operations of \<open>GatewayAdmissionPolicy\<close>: the epoch refresh, the expiry of observations,
  the effective score, the repair attempt through the fleet scheduler, the admission decision
  with every branch, and the three ways an observation is published.
\<close>

section \<open>Epochs and expiry\<close>

text \<open>A float is compared with an integer exactly; a float division converts the integer.\<close>

definition refresh_epoch :: "policy \<Rightarrow> policy \<times> unit gw_result" where
  "refresh_epoch p =
     (case pc_epoch_ms (gp_config p) of
        None \<Rightarrow> (p, Inr ())
      | Some epoch \<Rightarrow>
          (case read_clock p of (p1, now) \<Rightarrow>
             let elapsed_ms = (now - gp_epoch_started p1) * Fin 1000
             in if elapsed_ms < Fin (of_int epoch) then (p1, Inr ())
                else
                  try_then (lift_exn p1 (py_float_of_int epoch)) (\<lambda>epoch_f p2.
                  try_then (lift_exn p2 (py_int_of_float (ffloordiv elapsed_ms epoch_f))) (\<lambda>n p3.
                    let elapsed_epochs = max 1 n
                    in try_then (lift_exn p3 (py_float_of_int (elapsed_epochs * epoch))) (\<lambda>shift p4.
                         (p4\<lparr>gp_epoch_started := gp_epoch_started p4 + fdiv shift (Fin 1000),
                             gp_epoch_reset_count := gp_epoch_reset_count p4 + elapsed_epochs,
                             gp_accepted_total := 0, gp_accepted_by_stream := [],
                             gp_repair_allocated_bytes := 0, gp_repair_admitted_count := 0\<rparr>,
                          Inr ()))))))"

definition observation_threshold :: "policy_config \<Rightarrow> pyfloat \<Rightarrow> pyfloat outcome" where
  "observation_threshold c now =
     map_sum id (\<lambda>ttl. now - fdiv ttl (Fin 1000)) (py_float_of_int (pc_observation_ttl_ms c))"

definition expire_observations :: "policy \<Rightarrow> policy \<times> unit gw_result" where
  "expire_observations p =
     (case read_clock p of (p1, now) \<Rightarrow>
        try_then (lift_exn p1 (observation_threshold (gp_config p1) now)) (\<lambda>threshold p2.
          let stale = (\<lambda>(k, ob). ob_updated_at ob < threshold)
          in (p2\<lparr>gp_observations := filter (\<lambda>e. \<not> stale e) (gp_observations p2),
                 gp_observation_expirations :=
                   gp_observation_expirations p2 + py_len (filter stale (gp_observations p2))\<rparr>,
              Inr ())))"

section \<open>Scores\<close>

definition obs_key_of :: "frame_metadata \<Rightarrow> obs_key" where
  "obs_key_of m = (fm_domain_id m, fm_topic m, fm_publisher_id m)"

definition path_pressure :: "frame_metadata \<Rightarrow> gateway_observation \<Rightarrow> pyfloat" where
  "path_pressure m ob =
     (let deadline_rtt_pressure =
            (if fm_deadline_ms m > 0 then py_min 1 (fdiv (ob_measured_rtt_ms ob) (fm_deadline_ms m))
             else py_min 1 (fdiv (ob_measured_rtt_ms ob) (Fin 1000)));
          jitter_pressure = py_min 1 (fdiv (ob_measured_jitter_ms ob) (Fin 100))
      in py_min 1 (dbl (1/2) * ob_measured_loss ob + cent 35 * deadline_rtt_pressure +
                   cent 15 * jitter_pressure))"

definition observed_score :: "frame_metadata \<Rightarrow> gateway_observation \<Rightarrow> pyfloat" where
  "observed_score m ob =
     py_min 1 (cent 40 * fm_criticality m + cent 25 * py_max (fm_qoe_debt m) (ob_qoe_debt ob) +
               cent 20 * urgency_of m + cent 15 * path_pressure m ob)"

definition effective_admission_score :: "frame_metadata \<Rightarrow> policy \<Rightarrow> policy \<times> pyfloat gw_result" where
  "effective_admission_score m p =
     try_then (expire_observations p) (\<lambda>_ p1.
       case map_of (gp_observations p1) (obs_key_of m) of
         None \<Rightarrow> (p1, Inr (admission_score m))
       | Some ob \<Rightarrow>
           (p1\<lparr>gp_observation_score_uses := gp_observation_score_uses p1 + 1\<rparr>,
            Inr (observed_score m ob)))"

section \<open>Admission\<close>

definition reject :: "string \<Rightarrow> policy \<Rightarrow> policy" where
  "reject reason p = p\<lparr>gp_rejected_by_reason := bump reason (gp_rejected_by_reason p)\<rparr>"

definition refuse :: "int \<Rightarrow> string \<Rightarrow> string \<Rightarrow> string \<Rightarrow> policy \<Rightarrow> policy \<times> 'a gw_result" where
  "refuse status code reason cls p =
     (reject code p, Inl (FrameAdmissionError status code reason cls))"

definition repair_demand_of :: "frame_metadata \<Rightarrow> repair_demand" where
  "repair_demand_of m =
     \<lparr>rd_topic = fm_topic m,
      rd_robot_id = (if fm_robot_id m \<noteq> [] then fm_robot_id m else fm_publisher_id m),
      rd_publisher_id = fm_publisher_id m,
      rd_source_sequence_number = fm_source_sequence_number m,
      rd_payload_bytes = max 1 (fm_frame_bytes m),
      rd_remaining_deadline_ms = remaining_deadline_ms m,
      rd_qoe_debt = fm_qoe_debt m, rd_criticality = fm_criticality m, rd_age_ms = fm_age_ms m,
      rd_prior_attempts = fm_prior_repair_attempts m\<rparr>"

definition repair_config :: "int \<Rightarrow> scheduler_config" where
  "repair_config remaining =
     (default_config remaining)\<lparr>max_admitted_repairs := Some 1, max_paths_per_repair := 1\<rparr>"

definition defer_repair :: "policy \<Rightarrow> policy \<times> bool gw_result" where
  "defer_repair p = (p\<lparr>gp_repair_deferred_count := gp_repair_deferred_count p + 1\<rparr>, Inr False)"

definition apply_repair :: "string \<Rightarrow> repair_decision \<Rightarrow> policy \<Rightarrow> policy \<times> bool gw_result" where
  "apply_repair cls decision p0 =
     (let p = p0\<lparr>gp_repair_decisions := gp_repair_decisions p0 @ [PDict (decision_as_dict decision)]\<rparr>
      in if dc_action decision \<noteq> Repair then defer_repair p
         else (p\<lparr>gp_repair_allocated_bytes := gp_repair_allocated_bytes p + dc_allocated_bytes decision,
                 gp_repair_admitted_count := gp_repair_admitted_count p + 1,
                 gp_accepted_cumulative := gp_accepted_cumulative p + 1,
                 gp_accepted_by_class := bump cls (gp_accepted_by_class p)\<rparr>, Inr True))"

definition try_repair :: "frame_metadata \<Rightarrow> string \<Rightarrow> policy \<Rightarrow> policy \<times> bool gw_result" where
  "try_repair m cls p =
     (let c = gp_config p;
          remaining = pc_repair_capacity_bytes c - gp_repair_allocated_bytes p
      in if \<not> fm_repair_requested m \<or> pc_repair_capacity_bytes c \<le> 0 then (p, Inr False)
         else if (case pc_repair_max_admitted c of None \<Rightarrow> False
                  | Some n \<Rightarrow> gp_repair_admitted_count p \<ge> n) then defer_repair p
         else if remaining \<le> 0 then defer_repair p
         else
           try_then (lift_exn p (schedule (gp_log1p p) (repair_config remaining)
                                   [repair_demand_of m] (pc_repair_paths c))) (\<lambda>s p1.
             case sc_decisions s of
               [] \<Rightarrow> (p1, Inl (PyExn IndexError))
             | decision # _ \<Rightarrow> apply_repair cls decision p1))"

text \<open>The three places that offer a repair before refusing.\<close>

definition repair_or_refuse ::
    "frame_metadata \<Rightarrow> string \<Rightarrow> string \<Rightarrow> string \<Rightarrow> policy \<Rightarrow> policy \<times> string gw_result" where
  "repair_or_refuse m cls code reason p =
     try_then (try_repair m cls p) (\<lambda>repaired p1.
       if repaired then (p1, Inr ''repair'') else refuse 429 code reason cls p1)"

definition accept_normal :: "frame_metadata \<Rightarrow> string \<Rightarrow> policy \<Rightarrow> policy \<times> string gw_result" where
  "accept_normal m cls p =
     (p\<lparr>gp_accepted_total := gp_accepted_total p + 1,
        gp_accepted_cumulative := gp_accepted_cumulative p + 1,
        gp_accepted_by_stream := bump (stream_key m) (gp_accepted_by_stream p),
        gp_accepted_by_class := bump cls (gp_accepted_by_class p)\<rparr>, Inr ''normal'')"

definition fleet_quota_check :: "frame_metadata \<Rightarrow> string \<Rightarrow> policy \<Rightarrow> policy \<times> string gw_result" where
  "fleet_quota_check m cls p =
     (if (case pc_max_accepted_frames (gp_config p) of None \<Rightarrow> False
          | Some q \<Rightarrow> gp_accepted_total p \<ge> q)
      then repair_or_refuse m cls ''fleet_quota_exhausted'' ''fleet admission quota is exhausted'' p
      else accept_normal m cls p)"

text \<open>A frame of a stream that has a rule: after its score is known, and before.\<close>

definition admit_scored :: "admission_rule \<Rightarrow> frame_metadata \<Rightarrow> pyfloat \<Rightarrow> policy \<Rightarrow> policy \<times> string gw_result" where
  "admit_scored rule m score p =
     (let cls = ar_traffic_class rule
      in if score < ar_min_admission_score rule
         then repair_or_refuse m cls ''qox_score_below_threshold''
                ''QoS/QoE admission score is below the stream threshold'' p
         else if count_of (gp_accepted_by_stream p) (stream_key m) \<ge> ar_max_accepted_frames rule
         then repair_or_refuse m cls ''stream_quota_exhausted'' ''stream admission quota is exhausted'' p
         else fleet_quota_check m cls p)"

definition admit_under :: "admission_rule \<Rightarrow> frame_metadata \<Rightarrow> policy \<Rightarrow> policy \<times> string gw_result" where
  "admit_under rule m p =
     (let cls = ar_traffic_class rule
      in if fm_traffic_class m \<noteq> [] \<and> fm_traffic_class m \<noteq> cls
         then refuse 403 ''traffic_class_mismatch''
                ''frame traffic class does not match admission policy'' cls p
         else if ar_allowed_publishers rule \<noteq> {} \<and> fm_publisher_id m \<notin> ar_allowed_publishers rule
         then refuse 403 ''publisher_not_allowed''
                ''publisher is not allowed by fleet admission policy'' cls p
         else try_then (effective_admission_score m p) (admit_scored rule m))"

definition admit :: "frame_metadata \<Rightarrow> policy \<Rightarrow> policy \<times> string gw_result" where
  "admit m p0 =
     try_then (refresh_epoch p0) (\<lambda>_ p.
       case map_of (gp_rules_by_stream p) (stream_key m) of
         None \<Rightarrow>
           if pc_default_action (gp_config p) = ''deny''
           then refuse 403 ''no_matching_rule'' ''frame is not covered by fleet admission policy''
                  ''unclassified'' p
           else fleet_quota_check m ''default'' p
       | Some rule \<Rightarrow> admit_under rule m p)"

section \<open>Observations\<close>

definition observation_sources :: "string list" where
  "observation_sources =
     [''external_api'', ''quic_session_native'', ''ngtcp2_public_api'', ''application_outcome'']"

definition debt_sources :: "string list" where
  "debt_sources =
     [''external_api'', ''publisher_metadata'', ''gateway_derived_path'', ''gateway_derived_outcome'']"

definition check_observation ::
    "obs_key \<Rightarrow> pyfloat \<Rightarrow> pyfloat \<Rightarrow> pyfloat \<Rightarrow> pyfloat \<Rightarrow> py_obj \<Rightarrow> py_obj \<Rightarrow> gw_exn option" where
  "check_observation k debt loss rtt jitter source debt_source =
     (case k of (domain_id, topic, publisher_id) \<Rightarrow>
      if domain_id < 0 \<or> \<not> starts_with_slash topic \<or> publisher_id = []
      then Some (value_error ''observation identity is invalid'')
      else if \<not> (is_fin debt \<and> is_fin loss \<and> is_fin rtt \<and> is_fin jitter)
      then Some (value_error ''observation values must be finite'')
      else if \<not> (0 \<le> debt \<and> debt \<le> 1) \<or> \<not> (0 \<le> loss \<and> loss \<le> 1)
      then Some (value_error ''observation debt/loss must be in [0, 1]'')
      else if rtt < 0 \<or> jitter < 0
      then Some (value_error ''observation RTT/jitter must be non-negative'')
      else if is_list source \<or> is_dict source then Some (PyExn TypeError)
      else if source \<notin> PStr ` set observation_sources
      then Some (value_error ''observation source is unsupported'')
      else if is_list debt_source \<or> is_dict debt_source then Some (PyExn TypeError)
      else if debt_source \<noteq> PNone \<and> debt_source \<notin> PStr ` set debt_sources
      then Some (value_error ''observation QoE debt source is unsupported'')
      else None)"

definition default_debt_source :: "py_obj \<Rightarrow> py_obj \<Rightarrow> string" where
  "default_debt_source source debt_source =
     (if debt_source = PNone
      then (if source = PStr ''external_api'' then ''external_api'' else ''publisher_metadata'')
      else the_str debt_source)"

definition update_observation ::
    "obs_key \<Rightarrow> pyfloat \<Rightarrow> pyfloat \<Rightarrow> pyfloat \<Rightarrow> pyfloat \<Rightarrow> py_obj \<Rightarrow> py_obj \<Rightarrow> policy \<Rightarrow>
     policy \<times> unit gw_result" where
  "update_observation k debt loss rtt jitter source debt_source p =
     (case check_observation k debt loss rtt jitter source debt_source of
        Some e \<Rightarrow> (p, Inl e)
      | None \<Rightarrow>
          (case k of (domain_id, topic, publisher_id) \<Rightarrow>
           case read_clock p of (p1, now) \<Rightarrow>
             let obs = \<lparr>ob_domain_id = domain_id, ob_topic = topic, ob_publisher_id = publisher_id,
                       ob_qoe_debt = debt, ob_measured_loss = loss, ob_measured_rtt_ms = rtt,
                       ob_measured_jitter_ms = jitter, ob_source = the_str source,
                       ob_qoe_debt_source = default_debt_source source debt_source,
                       ob_updated_at = now\<rparr>
             in (p1\<lparr>gp_observations := AList.update k obs (gp_observations p1),
                    gp_observation_updates := gp_observation_updates p1 + 1,
                    gp_observation_updates_by_source :=
                      bump (the_str source) (gp_observation_updates_by_source p1)\<rparr>, Inr ())))"

text \<open>The exponentially weighted average, when the last debt has the same origin.\<close>

definition smoothed_debt :: "pyfloat \<Rightarrow> pyfloat \<Rightarrow> string \<Rightarrow> gateway_observation option \<Rightarrow> pyfloat" where
  "smoothed_debt alpha instantaneous origin previous =
     (case previous of
        None \<Rightarrow> instantaneous
      | Some ob \<Rightarrow>
          if ob_qoe_debt_source ob = origin
          then py_min 1 (alpha * instantaneous + (1 - alpha) * ob_qoe_debt ob)
          else instantaneous)"

definition native_pressure :: "policy_config \<Rightarrow> frame_metadata \<Rightarrow> pyfloat \<Rightarrow> pyfloat \<Rightarrow> pyfloat \<Rightarrow> pyfloat" where
  "native_pressure c m loss rtt jitter =
     (let loss_pressure = py_min 1 (fdiv loss (pc_native_loss_saturation c));
          rtt_pressure =
            (if fm_deadline_ms m > 0
             then py_min 1 (fdiv (fdiv rtt (fm_deadline_ms m)) (pc_native_rtt_saturation c))
             else py_min 1 (fdiv rtt (Fin 1000)));
          jitter_pressure =
            (if fm_deadline_ms m > 0
             then py_min 1 (fdiv (fdiv jitter (fm_deadline_ms m)) (pc_native_jitter_saturation c))
             else py_min 1 (fdiv jitter (Fin 100)))
      in py_min 1 (dbl (1/2) * loss_pressure + cent 35 * rtt_pressure + cent 15 * jitter_pressure))"

definition update_native_path_observation ::
    "frame_metadata \<Rightarrow> pyfloat \<Rightarrow> pyfloat \<Rightarrow> pyfloat \<Rightarrow> policy \<Rightarrow> policy \<times> pyfloat gw_result" where
  "update_native_path_observation m loss rtt jitter p =
     (let c = gp_config p;
          derived = smoothed_debt (pc_native_alpha c) (native_pressure c m loss rtt jitter)
                      ''gateway_derived_path'' (map_of (gp_observations p) (obs_key_of m));
          debt = (if pc_native_enabled c then derived else fm_qoe_debt m);
          debt_source = (if pc_native_enabled c then ''gateway_derived_path'' else ''publisher_metadata'');
          p1 = (if pc_native_enabled c then p\<lparr>gp_native_updates := gp_native_updates p + 1\<rparr> else p)
      in try_then (update_observation (obs_key_of m) debt loss rtt jitter
                     (PStr ''quic_session_native'') (PStr debt_source) p1)
           (\<lambda>_ p2. (p2, Inr debt)))"

definition outcome_pressure :: "bool \<Rightarrow> bool \<Rightarrow> pyfloat \<Rightarrow> pyfloat \<Rightarrow> bool option \<Rightarrow> pyfloat" where
  "outcome_pressure delivered deadline_met latency deadline succeeded =
     (let delivery_pressure = (if delivered then 0 else 1);
          deadline_pressure = (if deadline_met then 0 else 1);
          latency_pressure = py_min 1 (fdiv latency deadline)
      in case succeeded of
           None \<Rightarrow>
             py_min 1 (dbl (1/2) * delivery_pressure + cent 30 * deadline_pressure +
                       cent 20 * latency_pressure)
         | Some ok \<Rightarrow>
             py_min 1 (cent 35 * delivery_pressure + dbl (1/4) * deadline_pressure +
                       cent 15 * latency_pressure + dbl (1/4) * (if ok then 0 else 1)))"

definition update_application_outcome ::
    "obs_key \<Rightarrow> bool \<Rightarrow> bool \<Rightarrow> pyfloat \<Rightarrow> pyfloat \<Rightarrow> bool option \<Rightarrow> policy \<Rightarrow>
     policy \<times> pyfloat gw_result" where
  "update_application_outcome k delivered deadline_met latency deadline succeeded p =
     (let c = gp_config p
      in if \<not> pc_outcome_enabled c
         then (p, Inl (value_error ''application outcome QoE debt is disabled''))
         else if \<not> (is_fin latency \<and> is_fin deadline)
         then (p, Inl (value_error ''application outcome latency values must be finite''))
         else if latency < 0 \<or> deadline \<le> 0
         then (p, Inl (value_error ''application outcome latency/deadline is invalid''))
         else
           let instantaneous = outcome_pressure delivered deadline_met latency deadline succeeded;
               debt = smoothed_debt (pc_outcome_alpha c) instantaneous ''gateway_derived_outcome''
                        (map_of (gp_observations p) k)
           in try_then (update_observation k debt (if delivered then 0 else 1) latency 0
                          (PStr ''application_outcome'') (PStr ''gateway_derived_outcome'') p)
                (\<lambda>_ p1.
                  (case succeeded of
                     None \<Rightarrow> p1\<lparr>gp_outcome_updates := gp_outcome_updates p1 + 1\<rparr>
                   | Some ok \<Rightarrow>
                       p1\<lparr>gp_outcome_updates := gp_outcome_updates p1 + 1,
                          gp_task_updates := gp_task_updates p1 + 1,
                          gp_task_failures := gp_task_failures p1 + (if ok then 0 else 1)\<rparr>,
                   Inr debt)))"

end
