(* ===== verification/GatewayDurable.thy ===== *)
theory GatewayDurable
  imports GatewayAdmission
begin

text \<open>
  The documents of \<open>GatewayAdmissionPolicy\<close>: the operator snapshot, the durable state it
  exports and the restoration of that state with every check, in the order the code makes
  them and assigns the fields (a check that fails late leaves the earlier assignments). The
  identity of a restored observation row is an integer and two strings; a row with an identity
  of another type is refused with TypeError, where Python raises TypeError or AttributeError
  for most such rows.
\<close>

section \<open>Snapshot and export\<close>

definition count_dict :: "(string \<times> int) list \<Rightarrow> py_obj" where
  "count_dict d = PDict (map (map_prod id PInt) (sort_key fst d))"

definition count_by :: "('a \<Rightarrow> string) \<Rightarrow> 'a list \<Rightarrow> (string \<times> int) list" where
  "count_by f xs = foldl (\<lambda>d x. bump (f x) d) [] xs"

definition counters_document :: "policy \<Rightarrow> py_dict" where
  "counters_document p =
     [(''observation_updates'', PInt (gp_observation_updates p)),
      (''observation_updates_by_source'', count_dict (gp_observation_updates_by_source p)),
      (''observation_expirations'', PInt (gp_observation_expirations p)),
      (''observation_score_uses'', PInt (gp_observation_score_uses p)),
      (''native_qoe_debt_updates'', PInt (gp_native_updates p)),
      (''application_outcome_qoe_debt_updates'', PInt (gp_outcome_updates p)),
      (''application_task_outcome_updates'', PInt (gp_task_updates p)),
      (''application_task_outcome_failures'', PInt (gp_task_failures p))]"

definition snapshot_document :: "policy \<Rightarrow> py_dict" where
  "snapshot_document p =
     (let c = gp_config p; obs = map snd (gp_observations p)
      in [(''schema_version'', PStr ADMISSION_POLICY_SCHEMA_VERSION),
         (''default_action'', PStr (pc_default_action c)),
         (''max_accepted_frames'', of_optional PInt (pc_max_accepted_frames c)),
         (''epoch_ms'', of_optional PInt (pc_epoch_ms c)),
         (''epoch_reset_count'', PInt (gp_epoch_reset_count p)),
         (''accepted_total'', PInt (gp_accepted_total p)),
         (''accepted_cumulative'', PInt (gp_accepted_cumulative p)),
         (''accepted_by_class'', count_dict (gp_accepted_by_class p)),
         (''rejected_by_reason'', count_dict (gp_rejected_by_reason p)),
         (''rule_count'', PInt (py_len (pc_rules c))),
         (''repair_capacity_bytes'', PInt (pc_repair_capacity_bytes c)),
         (''repair_allocated_bytes'', PInt (gp_repair_allocated_bytes p)),
         (''repair_admitted_count'', PInt (gp_repair_admitted_count p)),
         (''repair_deferred_count'', PInt (gp_repair_deferred_count p)),
         (''repair_decisions'', PList (gp_repair_decisions p)),
         (''observation_ttl_ms'', PInt (pc_observation_ttl_ms c)),
         (''native_qoe_debt_enabled'', PBool (pc_native_enabled c)),
         (''native_qoe_debt_ewma_alpha'', PFloat (pc_native_alpha c)),
         (''application_outcome_qoe_debt_enabled'', PBool (pc_outcome_enabled c)),
         (''application_outcome_qoe_debt_ewma_alpha'', PFloat (pc_outcome_alpha c)),
         (''active_observation_count'', PInt (py_len (gp_observations p))),
         (''active_observations_by_source'', count_dict (count_by ob_source obs)),
         (''active_observations_by_qoe_debt_source'', count_dict (count_by ob_qoe_debt_source obs))] @
         counters_document p)"

definition policy_snapshot :: "policy \<Rightarrow> policy \<times> py_dict gw_result" where
  "policy_snapshot p0 =
     try_then (refresh_epoch p0) (\<lambda>_ p1.
     try_then (expire_observations p1) (\<lambda>_ p. (p, Inr (snapshot_document p))))"

definition stream_document :: "(int \<times> string) \<times> int \<Rightarrow> py_obj" where
  "stream_document e = PDict
     [(''domain_id'', PInt (fst (fst e))), (''topic'', PStr (snd (fst e))), (''count'', PInt (snd e))]"

definition observation_document :: "pyfloat \<Rightarrow> gateway_observation \<Rightarrow> py_obj" where
  "observation_document now ob = PDict
     [(''domain_id'', PInt (ob_domain_id ob)), (''topic'', PStr (ob_topic ob)),
      (''publisher_id'', PStr (ob_publisher_id ob)), (''qoe_debt'', PFloat (ob_qoe_debt ob)),
      (''measured_loss'', PFloat (ob_measured_loss ob)),
      (''measured_rtt_ms'', PFloat (ob_measured_rtt_ms ob)),
      (''measured_jitter_ms'', PFloat (ob_measured_jitter_ms ob)), (''source'', PStr (ob_source ob)),
      (''qoe_debt_source'', PStr (ob_qoe_debt_source ob)),
      (''age_ms'', PFloat (py_max 0 ((now - ob_updated_at ob) * Fin 1000)))]"

definition DURABLE_ADMISSION_SCHEMA :: string where
  "DURABLE_ADMISSION_SCHEMA = ''fleetrmw.quic_gateway_admission_state.v1''"

definition durable_document :: "string \<Rightarrow> pyfloat \<Rightarrow> policy \<Rightarrow> py_dict" where
  "durable_document fp now p =
     [(''schema_version'', PStr DURABLE_ADMISSION_SCHEMA),
      (''policy_fingerprint'', PStr fp),
      (''epoch_elapsed_ms'', PFloat (py_max 0 ((now - gp_epoch_started p) * Fin 1000))),
      (''epoch_reset_count'', PInt (gp_epoch_reset_count p)),
      (''accepted_total'', PInt (gp_accepted_total p)),
      (''accepted_cumulative'', PInt (gp_accepted_cumulative p)),
      (''accepted_by_stream'', PList (map stream_document (sort_key fst (gp_accepted_by_stream p)))),
      (''accepted_by_class'', count_dict (gp_accepted_by_class p)),
      (''rejected_by_reason'', count_dict (gp_rejected_by_reason p)),
      (''repair_allocated_bytes'', PInt (gp_repair_allocated_bytes p)),
      (''repair_admitted_count'', PInt (gp_repair_admitted_count p)),
      (''repair_deferred_count'', PInt (gp_repair_deferred_count p)),
      (''repair_decisions'', PList (gp_repair_decisions p)),
      (''observations'', PList (map (observation_document now)
         (sort_key (\<lambda>ob. (ob_domain_id ob, ob_topic ob, ob_publisher_id ob))
            (map snd (gp_observations p)))))] @
     counters_document p"

definition export_durable_state :: "policy \<Rightarrow> policy \<times> py_dict gw_result" where
  "export_durable_state p0 =
     try_then (refresh_epoch p0) (\<lambda>_ p1.
     try_then (expire_observations p1) (\<lambda>_ p2.
       case read_clock p2 of (p, now) \<Rightarrow>
         try_then (lift_exn p (fingerprint p)) (\<lambda>fp p'. (p', Inr (durable_document fp now p')))))"

section \<open>Reading a durable document\<close>

definition doc_count :: "py_dict \<Rightarrow> string \<Rightarrow> int outcome" where
  "doc_count d name =
     (case plain_int (dget d name) of
        Some n \<Rightarrow> if n < 0 then Inl (ValueError (''durable admission '' @ name @ '' is invalid'')) else Inr n
      | None \<Rightarrow> Inl (ValueError (''durable admission '' @ name @ '' is invalid'')))"

fun count_item :: "string \<times> py_obj \<Rightarrow> (string \<times> int) option" where
  "count_item (k, PInt n) = (if k = [] \<or> n < 0 then None else Some (k, n))"
| "count_item _ = None"

definition doc_count_map :: "py_dict \<Rightarrow> string \<Rightarrow> (string \<times> int) list outcome" where
  "doc_count_map d name =
     (case dget d name of
        PDict items \<Rightarrow>
          if list_all (\<lambda>e. count_item e \<noteq> None) items then Inr (map (the \<circ> count_item) items)
          else Inl (ValueError (''durable admission '' @ name @ '' is invalid''))
      | _ \<Rightarrow> Inl (ValueError (''durable admission '' @ name @ '' is invalid'')))"

definition restore_stream_row ::
    "((int \<times> string) \<times> admission_rule) list \<Rightarrow> py_obj \<Rightarrow> ((int \<times> string) \<times> int) list \<Rightarrow>
     ((int \<times> string) \<times> int) list outcome" where
  "restore_stream_row rules row acc =
     (case row of
        PDict d \<Rightarrow>
          (case (plain_int (dget d ''domain_id''), dget d ''topic'', plain_int (dget d ''count'')) of
             (Some domain_id, PStr topic, Some n) \<Rightarrow>
               if domain_id < 0 \<or> \<not> starts_with_slash topic \<or> n < 0 \<or>
                  map_of acc (domain_id, topic) \<noteq> None
               then Inl (ValueError ''durable admission stream row is invalid'')
               else if (case map_of rules (domain_id, topic) of
                          None \<Rightarrow> False | Some rule \<Rightarrow> n > ar_max_accepted_frames rule)
               then Inl (ValueError ''durable admission stream quota is exceeded'')
               else Inr (AList.update (domain_id, topic) n acc)
           | _ \<Rightarrow> Inl (ValueError ''durable admission stream row is invalid''))
      | _ \<Rightarrow> Inl (ValueError ''durable admission stream row is invalid''))"

fun restore_streams ::
    "((int \<times> string) \<times> admission_rule) list \<Rightarrow> py_obj list \<Rightarrow> ((int \<times> string) \<times> int) list \<Rightarrow>
     ((int \<times> string) \<times> int) list outcome" where
  "restore_streams rules [] acc = Inr acc"
| "restore_streams rules (row # rows) acc =
     (case restore_stream_row rules row acc of
        Inl e \<Rightarrow> Inl e | Inr acc' \<Rightarrow> restore_streams rules rows acc')"

text \<open>One observation row: skipped when its age is outside the window, else published again
  and stored with the age it had.\<close>

definition publish_restored ::
    "pyfloat \<Rightarrow> py_dict \<Rightarrow> pyfloat list \<Rightarrow> policy \<Rightarrow> policy \<times> (obs_key \<times> gateway_observation) option gw_result" where
  "publish_restored now d nums p =
     (case (nums, plain_int (dget d ''domain_id''), dget d ''topic'', dget d ''publisher_id'') of
        ([debt, loss, rtt, jitter, age], Some domain_id, PStr topic, PStr publisher_id) \<Rightarrow>
          let k = (domain_id, topic, publisher_id);
              source = dget d ''source'';
              debt_source = dget_or
                (PStr (if source = PStr ''external_api'' then ''external_api''
                       else ''publisher_metadata'')) d ''qoe_debt_source''
          in try_then (update_observation k debt loss rtt jitter source debt_source p) (\<lambda>_ p1.
               case map_of (gp_observations p1) k of
                 None \<Rightarrow> (p1, Inl (PyExn KeyError))
               | Some ob \<Rightarrow>
                   (p1, Inr (Some (k, ob\<lparr>ob_updated_at := now - fdiv age (Fin 1000)\<rparr>))))
      | _ \<Rightarrow> (p, Inl (PyExn TypeError)))"

definition restore_observation ::
    "pyfloat \<Rightarrow> py_obj \<Rightarrow> policy \<Rightarrow> policy \<times> (obs_key \<times> gateway_observation) option gw_result" where
  "restore_observation now row p =
     (case row of
        PDict d \<Rightarrow>
          let age = exact_number (dget d ''age_ms'');
              numeric = [dget d ''qoe_debt'', dget d ''measured_loss'', dget d ''measured_rtt_ms'',
                         dget d ''measured_jitter_ms'', dget d ''age_ms'']
          in try_then (lift_exn p (all_outcome finite_number numeric)) (\<lambda>ok p1.
               if \<not> ok then (p1, Inl (value_error ''durable observation metrics are invalid''))
               else if age < 0 \<or> Fin (of_int (pc_observation_ttl_ms (gp_config p1))) \<le> age
               then (p1, Inr None)
               else try_then (lift_exn p1 (map_outcome py_float numeric)) (publish_restored now d))
      | _ \<Rightarrow> (p, Inl (value_error ''durable observation row is invalid'')))"

fun restore_observations ::
    "pyfloat \<Rightarrow> py_obj list \<Rightarrow> (obs_key \<times> gateway_observation) list \<Rightarrow> policy \<Rightarrow>
     policy \<times> (obs_key \<times> gateway_observation) list gw_result" where
  "restore_observations now [] acc p = (p, Inr acc)"
| "restore_observations now (row # rows) acc p =
     try_then (restore_observation now row p) (\<lambda>r p1.
       restore_observations now rows
         (case r of None \<Rightarrow> acc | Some (k, ob) \<Rightarrow> AList.update k ob acc) p1)"

text \<open>The assignments at the end, in order; each count is checked when it is assigned.\<close>

definition set_count :: "py_dict \<Rightarrow> string \<Rightarrow> (int \<Rightarrow> policy \<Rightarrow> policy) \<Rightarrow> policy \<Rightarrow> policy \<times> unit gw_result" where
  "set_count d name upd p = try_then (lift_exn p (doc_count d name)) (\<lambda>n p'. (upd n p', Inr ()))"

definition set_optional_count ::
    "py_dict \<Rightarrow> string \<Rightarrow> (int \<Rightarrow> policy \<Rightarrow> policy) \<Rightarrow> policy \<Rightarrow> policy \<times> unit gw_result" where
  "set_optional_count d name upd p =
     (if in_dict name d then set_count d name upd p else (upd 0 p, Inr ()))"

definition set_count_map ::
    "py_dict \<Rightarrow> string \<Rightarrow> ((string \<times> int) list \<Rightarrow> policy \<Rightarrow> policy) \<Rightarrow> policy \<Rightarrow> policy \<times> unit gw_result" where
  "set_count_map d name upd p = try_then (lift_exn p (doc_count_map d name)) (\<lambda>m p'. (upd m p', Inr ()))"

fun run_steps :: "('s \<Rightarrow> 's \<times> ('e + unit)) list \<Rightarrow> 's \<Rightarrow> 's \<times> ('e + unit)" where
  "run_steps [] s = (s, Inr ())"
| "run_steps (f # fs) s = try_then (f s) (\<lambda>_. run_steps fs)"

definition assign :: "('s \<Rightarrow> 's) \<Rightarrow> 's \<Rightarrow> 's \<times> ('e + unit)" where
  "assign f s = (f s, Inr ())"

definition restore_fields ::
    "py_dict \<Rightarrow> pyfloat \<Rightarrow> int \<times> int \<Rightarrow> ((int \<times> string) \<times> int) list \<Rightarrow> int \<times> int \<Rightarrow> py_obj list \<Rightarrow>
     (obs_key \<times> gateway_observation) list \<Rightarrow> policy \<Rightarrow> policy \<times> unit gw_result" where
  "restore_fields d started accepted streams repair decisions observations =
     run_steps
       [assign (\<lambda>p. p\<lparr>gp_epoch_started := started\<rparr>),
        set_count d ''epoch_reset_count'' (\<lambda>n p. p\<lparr>gp_epoch_reset_count := n\<rparr>),
        assign (\<lambda>p. p\<lparr>gp_accepted_total := fst accepted, gp_accepted_cumulative := snd accepted,
                      gp_accepted_by_stream := streams\<rparr>),
        set_count_map d ''accepted_by_class'' (\<lambda>m p. p\<lparr>gp_accepted_by_class := m\<rparr>),
        set_count_map d ''rejected_by_reason'' (\<lambda>m p. p\<lparr>gp_rejected_by_reason := m\<rparr>),
        assign (\<lambda>p. p\<lparr>gp_repair_allocated_bytes := fst repair, gp_repair_admitted_count := snd repair\<rparr>),
        set_count d ''repair_deferred_count'' (\<lambda>n p. p\<lparr>gp_repair_deferred_count := n\<rparr>),
        assign (\<lambda>p. p\<lparr>gp_repair_decisions := decisions, gp_observations := observations\<rparr>),
        set_count d ''observation_updates'' (\<lambda>n p. p\<lparr>gp_observation_updates := n\<rparr>),
        set_count_map d ''observation_updates_by_source''
          (\<lambda>m p. p\<lparr>gp_observation_updates_by_source := m\<rparr>),
        set_count d ''observation_expirations'' (\<lambda>n p. p\<lparr>gp_observation_expirations := n\<rparr>),
        set_count d ''observation_score_uses'' (\<lambda>n p. p\<lparr>gp_observation_score_uses := n\<rparr>),
        set_optional_count d ''native_qoe_debt_updates'' (\<lambda>n p. p\<lparr>gp_native_updates := n\<rparr>),
        set_optional_count d ''application_outcome_qoe_debt_updates'' (\<lambda>n p. p\<lparr>gp_outcome_updates := n\<rparr>),
        set_optional_count d ''application_task_outcome_updates'' (\<lambda>n p. p\<lparr>gp_task_updates := n\<rparr>),
        set_optional_count d ''application_task_outcome_failures'' (\<lambda>n p. p\<lparr>gp_task_failures := n\<rparr>)]"

text \<open>The elapsed time: finite, a number, not negative.\<close>

definition restore_elapsed :: "py_dict \<Rightarrow> pyfloat outcome" where
  "restore_elapsed d =
     (let v = dget d ''epoch_elapsed_ms'';
          bad = Inl (ValueError ''durable admission epoch_elapsed_ms is invalid'')
      in case finite_number v of
           Inl e \<Rightarrow> Inl e
         | Inr ok \<Rightarrow>
             if \<not> ok then bad
             else (case py_float v of Inl e \<Rightarrow> Inl e | Inr x \<Rightarrow> if x < 0 then bad else Inr x))"

definition accepted_counters :: "policy \<Rightarrow> py_dict \<Rightarrow> (int \<times> int) outcome" where
  "accepted_counters p d =
     (case doc_count d ''accepted_total'' of
        Inl e \<Rightarrow> Inl e
      | Inr n_total \<Rightarrow>
          (case doc_count d ''accepted_cumulative'' of
             Inl e \<Rightarrow> Inl e
           | Inr cumulative \<Rightarrow>
               if cumulative < n_total \<or>
                  (case pc_max_accepted_frames (gp_config p) of None \<Rightarrow> False | Some q \<Rightarrow> n_total > q)
               then Inl (ValueError ''durable admission accepted counters are inconsistent'')
               else Inr (n_total, cumulative)))"

definition repair_counters :: "policy \<Rightarrow> py_dict \<Rightarrow> (int \<times> int) outcome" where
  "repair_counters p d =
     (case doc_count d ''repair_allocated_bytes'' of
        Inl e \<Rightarrow> Inl e
      | Inr allocated \<Rightarrow>
          (case doc_count d ''repair_admitted_count'' of
             Inl e \<Rightarrow> Inl e
           | Inr n \<Rightarrow>
               if allocated > pc_repair_capacity_bytes (gp_config p) \<or>
                  (case pc_repair_max_admitted (gp_config p) of None \<Rightarrow> False | Some q \<Rightarrow> n > q)
               then Inl (ValueError ''durable repair allocation exceeds policy'')
               else Inr (allocated, n)))"

text \<open>The observations, then the assignments and the refresh at the end.\<close>

definition restore_observed ::
    "py_dict \<Rightarrow> pyfloat \<Rightarrow> int \<times> int \<Rightarrow> ((int \<times> string) \<times> int) list \<Rightarrow> int \<times> int \<Rightarrow> py_obj list \<Rightarrow>
     policy \<Rightarrow> policy \<times> unit gw_result" where
  "restore_observed d elapsed accepted streams repair decisions p0 =
     (case read_clock p0 of (p, now) \<Rightarrow>
        case dget d ''observations'' of
          PList rows \<Rightarrow>
            try_then (restore_observations now rows [] p) (\<lambda>observations p1.
            try_then (restore_fields d (now - fdiv elapsed (Fin 1000)) accepted streams repair
                        decisions observations p1) (\<lambda>_. refresh_epoch))
        | _ \<Rightarrow> (p, Inl (value_error ''durable observations are invalid'')))"

text \<open>The counters and the repair budget.\<close>

definition restore_counted ::
    "py_dict \<Rightarrow> pyfloat \<Rightarrow> ((int \<times> string) \<times> int) list \<Rightarrow> policy \<Rightarrow> policy \<times> unit gw_result" where
  "restore_counted d elapsed streams p =
     try_then (lift_exn p (accepted_counters p d)) (\<lambda>accepted p1.
     try_then (lift_exn p1 (repair_counters p1 d)) (\<lambda>repair p2.
       case dget d ''repair_decisions'' of
         PList decisions \<Rightarrow>
           if \<not> list_all is_dict decisions
           then (p2, Inl (value_error ''durable repair decisions are invalid''))
           else restore_observed d elapsed accepted streams repair decisions p2
       | _ \<Rightarrow> (p2, Inl (value_error ''durable repair decisions are invalid''))))"

definition restore_durable_state :: "py_dict \<Rightarrow> policy \<Rightarrow> policy \<times> unit gw_result" where
  "restore_durable_state d p0 =
     (if dget d ''schema_version'' \<noteq> PStr DURABLE_ADMISSION_SCHEMA
      then (p0, Inl (value_error ''unsupported durable admission state schema''))
      else
      try_then (lift_exn p0 (fingerprint p0)) (\<lambda>fp p.
      if dget d ''policy_fingerprint'' \<noteq> PStr fp
      then (p, Inl (value_error ''durable admission policy fingerprint mismatch''))
      else
      try_then (lift_exn p (restore_elapsed d)) (\<lambda>elapsed p.
      case dget d ''accepted_by_stream'' of
        PList rows \<Rightarrow>
          try_then (lift_exn p (restore_streams (gp_rules_by_stream p) rows []))
            (restore_counted d elapsed)
      | _ \<Rightarrow> (p, Inl (value_error ''durable admission accepted_by_stream is invalid'')))))"

end
