(* ===== verification/GatewayTables.thy ===== *)
theory GatewayTables
  imports GatewayFrame GatewayDurable
begin

text \<open>
  The database behind the two durable stores of the gateway. The tables of the SQL schema that
  both \<open>GatewayDurableStore.__init__\<close> and \<open>PostgresGatewayDurableStore.__init__\<close> create are
  lists of rows; each SQL statement the stores execute is a function on the tables that
  respects the primary keys, the UNIQUE constraint, the foreign key with its cascade and the
  growing ordinals. A store is a connection: its database, its lease fields, the number of
  statements it has executed and an oracle that says which statement fails with which driver
  error. A transaction that ends with an exception, or whose COMMIT fails, leaves the database
  as it was; the gaps a rolled back PostgreSQL sequence leaves are not modelled (only the order
  of the ordinals is used).
\<close>

section \<open>Tables\<close>

record frame_row =
  fr_domain_id :: int
  fr_topic :: string
  fr_offset :: int
  fr_payload :: string
  fr_publisher_id :: string
  fr_sequence :: int

record key_row =
  kr_ordinal :: int
  kr_domain_id :: int
  kr_topic :: string
  kr_publisher_id :: string
  kr_sequence :: int

type_synonym frame_key = "int \<times> string \<times> string \<times> int"

definition kr_key :: "key_row \<Rightarrow> frame_key" where
  "kr_key r = (kr_domain_id r, kr_topic r, kr_publisher_id r, kr_sequence r)"

definition key_row_of :: "int \<Rightarrow> frame_key \<Rightarrow> key_row" where
  "key_row_of n k = (case k of (d, t, p, s) \<Rightarrow>
     \<lparr>kr_ordinal = n, kr_domain_id = d, kr_topic = t, kr_publisher_id = p, kr_sequence = s\<rparr>)"

record gateway_db =
  db_schema :: "string option"
  db_frames :: "frame_row list"
  db_dedup :: "key_row list"
  db_dedup_seq :: int
  db_outcomes :: "key_row list"
  db_outcome_seq :: int
  db_cursors :: "(obs_key \<times> int) list"
  db_admission :: "(string \<times> string) option"
  db_lease :: "(string \<times> int \<times> int) option"

definition empty_db :: gateway_db where
  "empty_db =
     \<lparr>db_schema = None, db_frames = [], db_dedup = [], db_dedup_seq = 0, db_outcomes = [],
      db_outcome_seq = 0, db_cursors = [], db_admission = None, db_lease = None\<rparr>"

section \<open>Statements\<close>

type_synonym 'a statement = "gateway_db \<Rightarrow> string + gateway_db \<times> 'a"

definition no_op :: "unit statement" where
  "no_op db = Inr (db, ())"

definition frame_pk :: "frame_row \<Rightarrow> int \<times> string \<times> int" where
  "frame_pk r = (fr_domain_id r, fr_topic r, fr_offset r)"

definition insert_frame :: "frame_row \<Rightarrow> unit statement" where
  "insert_frame r db =
     (if frame_pk r \<in> frame_pk ` set (db_frames db) then Inl ''UNIQUE constraint failed: frames''
      else Inr (db\<lparr>db_frames := db_frames db @ [r]\<rparr>, ()))"

definition select_frames :: "frame_row list statement" where
  "select_frames db = Inr (db, sort_key frame_pk (db_frames db))"

definition delete_frame :: "int \<times> string \<times> int \<Rightarrow> unit statement" where
  "delete_frame pk db = Inr (db\<lparr>db_frames := filter (\<lambda>r. frame_pk r \<noteq> pk) (db_frames db)\<rparr>, ())"

definition insert_dedup :: "frame_key \<Rightarrow> unit statement" where
  "insert_dedup k db =
     (if k \<in> kr_key ` set (db_dedup db) then Inl ''UNIQUE constraint failed: dedup_keys''
      else Inr (db\<lparr>db_dedup := db_dedup db @ [key_row_of (db_dedup_seq db + 1) k],
                   db_dedup_seq := db_dedup_seq db + 1\<rparr>, ()))"

definition select_keys :: "(gateway_db \<Rightarrow> key_row list) \<Rightarrow> key_row list statement" where
  "select_keys table db = Inr (db, sort_key kr_ordinal (table db))"

definition known_key :: "frame_key \<Rightarrow> bool statement" where
  "known_key k db = Inr (db, k \<in> kr_key ` set (db_dedup db))"

text \<open>\<open>SELECT ordinal ... ORDER BY ordinal DESC LIMIT -1 OFFSET n\<close>.\<close>

definition stale_ordinals :: "(gateway_db \<Rightarrow> key_row list) \<Rightarrow> int \<times> string \<Rightarrow> int \<Rightarrow> int list statement" where
  "stale_ordinals table stream n db =
     Inr (db, drop (nat n) (rev (sort (map kr_ordinal
        (filter (\<lambda>r. (kr_domain_id r, kr_topic r) = stream) (table db))))))"

text \<open>Deleting a dedup row deletes the outcome row that references it.\<close>

definition delete_dedup :: "(key_row \<Rightarrow> bool) \<Rightarrow> unit statement" where
  "delete_dedup gone db =
     Inr (db\<lparr>db_dedup := filter (\<lambda>r. \<not> gone r) (db_dedup db),
             db_outcomes := filter (\<lambda>r. kr_key r \<notin> kr_key ` set (filter gone (db_dedup db)))
                              (db_outcomes db)\<rparr>, ())"

text \<open>\<open>INSERT OR IGNORE\<close>, \<open>ON CONFLICT DO NOTHING\<close>: whether a row was inserted.\<close>

definition insert_outcome :: "frame_key \<Rightarrow> bool statement" where
  "insert_outcome k db =
     (if k \<in> kr_key ` set (db_outcomes db) then Inr (db, False)
      else if k \<notin> kr_key ` set (db_dedup db) then Inl ''FOREIGN KEY constraint failed''
      else Inr (db\<lparr>db_outcomes := db_outcomes db @ [key_row_of (db_outcome_seq db + 1) k],
                   db_outcome_seq := db_outcome_seq db + 1\<rparr>, True))"

definition delete_outcomes :: "int list \<Rightarrow> unit statement" where
  "delete_outcomes ns db =
     Inr (db\<lparr>db_outcomes := filter (\<lambda>r. kr_ordinal r \<notin> set ns) (db_outcomes db)\<rparr>, ())"

definition upsert_cursor :: "obs_key \<Rightarrow> int \<Rightarrow> unit statement" where
  "upsert_cursor k n db = Inr (db\<lparr>db_cursors := AList.update k n (db_cursors db)\<rparr>, ())"

definition select_cursors :: "(obs_key \<times> int) list statement" where
  "select_cursors db = Inr (db, db_cursors db)"

definition upsert_admission :: "string \<Rightarrow> string \<Rightarrow> unit statement" where
  "upsert_admission fp txt db = Inr (db\<lparr>db_admission := Some (fp, txt)\<rparr>, ())"

definition select_admission :: "(string \<times> string) option statement" where
  "select_admission db = Inr (db, db_admission db)"

definition select_lease :: "(string \<times> int \<times> int) option statement" where
  "select_lease db = Inr (db, db_lease db)"

definition upsert_lease :: "string \<Rightarrow> int \<Rightarrow> int \<Rightarrow> unit statement" where
  "upsert_lease holder token expires db = Inr (db\<lparr>db_lease := Some (holder, token, expires)\<rparr>, ())"

definition update_expiry :: "(string \<Rightarrow> int \<Rightarrow> bool) \<Rightarrow> int \<Rightarrow> unit statement" where
  "update_expiry cond expires db =
     Inr (db\<lparr>db_lease := map_option (\<lambda>(h, f, x). (h, f, if cond h f then expires else x)) (db_lease db)\<rparr>, ())"

definition select_schema :: "string option statement" where
  "select_schema db = Inr (db, db_schema db)"

definition upsert_schema :: "string \<Rightarrow> unit statement" where
  "upsert_schema v db = Inr (db\<lparr>db_schema := Some v\<rparr>, ())"

definition count_rows :: "(gateway_db \<Rightarrow> 'b list) \<Rightarrow> int statement" where
  "count_rows table db = Inr (db, py_len (table db))"

section \<open>Connections\<close>

datatype sql_fault = SqlFault (sf_unavailable: bool) (sf_text: string)

text \<open>What a PostgreSQL server reports about itself.\<close>

record pg_server =
  sv_endpoint :: string
  sv_synchronous_commit :: string
  sv_version :: string
  sv_in_recovery :: bool

datatype backend = Sqlite (journal_mode: string) | Postgres (server: pg_server)

record store =
  st_backend :: backend
  st_path :: string
  st_db :: gateway_db
  st_fault :: "nat \<Rightarrow> sql_fault option"
  st_stmts :: nat
  st_text :: "py_exn \<Rightarrow> string"
  st_lease_id :: "string option"
  st_fence :: "int option"
  st_lease_ms :: "int option"
  st_last_snapshot :: "py_dict option"

datatype sql_arg = IntArg int | TextArg string

definition fits64 :: "int \<Rightarrow> bool" where
  "fits64 i \<longleftrightarrow> - (2 ^ 63) \<le> i \<and> i < 2 ^ 63"

text \<open>What binding a parameter can raise: SQLite takes 64 bit integers, PostgreSQL's text has no
  NUL byte, and both encode text as UTF-8.\<close>

fun bind_error :: "backend \<Rightarrow> sql_arg \<Rightarrow> gw_exn option" where
  "bind_error (Sqlite _) (IntArg i) = (if fits64 i then None else Some (PyExn OverflowError))"
| "bind_error (Postgres _) (IntArg i) = (if fits64 i then None else Some (SqlError False ''bigint out of range''))"
| "bind_error (Sqlite _) (TextArg t) = (if utf8_ok t then None else Some (PyExn UnicodeEncodeError))"
| "bind_error (Postgres _) (TextArg t) =
     (if \<not> utf8_ok t then Some (PyExn UnicodeEncodeError)
      else if CHR 0x00 \<in> set t
      then Some (SqlError False ''PostgreSQL text fields cannot contain NUL (0x00) bytes'') else None)"

fun bind_all :: "backend \<Rightarrow> sql_arg list \<Rightarrow> gw_exn option" where
  "bind_all b [] = None"
| "bind_all b (a # as) = (case bind_error b a of Some e \<Rightarrow> Some e | None \<Rightarrow> bind_all b as)"

definition execute :: "sql_arg list \<Rightarrow> 'a statement \<Rightarrow> store \<Rightarrow> store \<times> 'a gw_result" where
  "execute args stmt s =
     (let s1 = s\<lparr>st_stmts := st_stmts s + 1\<rparr>
      in case bind_all (st_backend s) args of
           Some e \<Rightarrow> (s1, Inl e)
         | None \<Rightarrow>
             (case st_fault s (st_stmts s) of
                Some f \<Rightarrow> (s1, Inl (SqlError (sf_unavailable f) (sf_text f)))
              | None \<Rightarrow>
                  (case stmt (st_db s) of
                     Inl m \<Rightarrow> (s1, Inl (SqlError False m))
                   | Inr (db, x) \<Rightarrow> (s1\<lparr>st_db := db\<rparr>, Inr x))))"

text \<open>A block that commits at its end, or undoes its changes when it raises.\<close>

definition rolled_back :: "gateway_db \<Rightarrow> store \<times> 'a gw_result \<Rightarrow> store \<times> 'a gw_result" where
  "rolled_back db r = (case r of (s, Inl e) \<Rightarrow> (s\<lparr>st_db := db\<rparr>, Inl e) | (s, Inr x) \<Rightarrow> (s, Inr x))"

definition commit_after :: "(store \<Rightarrow> store \<times> 'a gw_result) \<Rightarrow> store \<Rightarrow> store \<times> 'a gw_result" where
  "commit_after body s =
     rolled_back (st_db s)
       (try_then (body s) (\<lambda>x s1. try_then (execute [] no_op s1) (\<lambda>_ s2. (s2, Inr x))))"

definition transaction :: "(store \<Rightarrow> store \<times> 'a gw_result) \<Rightarrow> store \<Rightarrow> store \<times> 'a gw_result" where
  "transaction body s = try_then (execute [] no_op s) (\<lambda>_. commit_after body)"

text \<open>The \<open>except\<close> clauses that turn what they catch into FramePersistenceError.\<close>

definition wrap_errors ::
    "(store \<Rightarrow> gw_exn \<Rightarrow> gw_exn) \<Rightarrow> store \<times> 'a gw_result \<Rightarrow> store \<times> 'a gw_result" where
  "wrap_errors f r =
     (case r of
        (s, Inl e) \<Rightarrow> (s, Inl (if is_persistence_exn e then e else f s e))
      | (s, Inr x) \<Rightarrow> (s, Inr x))"

section \<open>What the gateway keeps per topic\<close>

record stored_frame =
  sf_offset :: int
  sf_payload :: string
  sf_metadata :: frame_metadata

text \<open>The two ordered dictionaries have only keys: they are lists without repetition.\<close>

record topic_history =
  th_records :: "stored_frame list"
  th_recent_keys :: "(string \<times> int) list"
  th_outcome_keys :: "(string \<times> int) list"
  th_next_offset :: int

definition new_history :: topic_history where
  "new_history = \<lparr>th_records = [], th_recent_keys = [], th_outcome_keys = [], th_next_offset = 0\<rparr>"

definition base_offset :: "topic_history \<Rightarrow> int" where
  "base_offset h = (case th_records h of [] \<Rightarrow> th_next_offset h | r # _ \<Rightarrow> sf_offset r)"

definition key_add :: "'k \<Rightarrow> 'k list \<Rightarrow> 'k list" where
  "key_add k ks = (if k \<in> set ks then ks else ks @ [k])"

definition move_to_end :: "'k \<Rightarrow> 'k list \<Rightarrow> 'k list" where
  "move_to_end k ks = remove1 k ks @ [k]"

type_synonym topics = "((int \<times> string) \<times> topic_history) list"

text \<open>\<open>topics.setdefault(k, TopicHistory())\<close> followed by an update of the history.\<close>

definition history_of :: "topics \<Rightarrow> int \<times> string \<Rightarrow> topic_history" where
  "history_of ts k = (case map_of ts k of None \<Rightarrow> new_history | Some h \<Rightarrow> h)"

definition with_history :: "int \<times> string \<Rightarrow> (topic_history \<Rightarrow> topic_history) \<Rightarrow> topics \<Rightarrow> topics" where
  "with_history k f ts = AList.update k (f (history_of ts k)) ts"

end
