(* ===== verification/GatewayStore.thy ===== *)
theory GatewayStore
  imports GatewayTables
begin

text \<open>
  \<open>GatewayDurableStore\<close> of \<open>fleetqox/quic_gateway_state.py\<close>: opening the SQLite file, recovery,
  the writer lease and its fence, the three committing operations, the saved admission state
  and the snapshot, with the steps the PostgreSQL store shares. A statement runs only when its
  parameters can be bound, so an integer that does not fit 64 bits raises OverflowError, which
  no \<open>except\<close> clause of the store names; the changes of the transaction it interrupts are
  never committed. The directory of the file and the calls of \<open>rollback\<close>
  are assumed to succeed.
\<close>

section \<open>Errors\<close>

definition sqlite_wrap :: "(gw_exn \<Rightarrow> bool) \<Rightarrow> string \<Rightarrow> store \<Rightarrow> gw_exn \<Rightarrow> gw_exn" where
  "sqlite_wrap caught context s e =
     (if caught e then FramePersistenceError (context @ '': '' @ exn_text (st_text s) e) else e)"

definition sql_type_value :: "gw_exn \<Rightarrow> bool" where
  "sql_type_value e \<longleftrightarrow> is_SqlError e \<or> is_value_exn e \<or> e = PyExn TypeError"

definition persistence :: "string \<Rightarrow> 'a gw_result" where
  "persistence m = Inl (FramePersistenceError m)"

section \<open>Opening\<close>

definition DURABLE_SCHEMA_VERSION :: string where
  "DURABLE_SCHEMA_VERSION = ''fleetrmw.quic_gateway_durable_state.v1''"

definition fresh_store ::
    "backend \<Rightarrow> string \<Rightarrow> gateway_db \<Rightarrow> (nat \<Rightarrow> sql_fault option) \<Rightarrow> (py_exn \<Rightarrow> string) \<Rightarrow> store" where
  "fresh_store b path db faults texts =
     \<lparr>st_backend = b, st_path = path, st_db = db, st_fault = faults, st_stmts = 0, st_text = texts,
      st_lease_id = None, st_fence = None, st_lease_ms = None, st_last_snapshot = None\<rparr>"

text \<open>The schema check after the connection, the three pragmas and the schema script.\<close>

definition check_schema :: "string \<Rightarrow> string \<Rightarrow> store \<Rightarrow> store \<times> unit gw_result" where
  "check_schema version msg s =
     try_then (execute [] select_schema s) (\<lambda>existing s1.
       case existing of
         Some v \<Rightarrow>
           if v \<noteq> version then (s1, persistence (msg @ str_repr v))
           else execute [] (upsert_schema version) s1
       | None \<Rightarrow> execute [] (upsert_schema version) s1)"

definition open_store ::
    "string \<Rightarrow> string \<Rightarrow> gateway_db \<Rightarrow> (nat \<Rightarrow> sql_fault option) \<Rightarrow> (py_exn \<Rightarrow> string) \<Rightarrow>
     store \<times> unit gw_result" where
  "open_store journal path db faults texts =
     wrap_errors (sqlite_wrap is_SqlError ''could not initialize durable gateway state'')
       (commit_after
          (\<lambda>s. try_then (run_steps (replicate 5 (execute [] no_op)) s)
                 (\<lambda>_. check_schema DURABLE_SCHEMA_VERSION ''unsupported durable state schema ''))
          (fresh_store (Sqlite journal) path db faults texts))"

section \<open>Recovery\<close>

definition row_matches :: "frame_metadata \<Rightarrow> frame_row \<Rightarrow> bool" where
  "row_matches m r \<longleftrightarrow>
     fm_domain_id m = fr_domain_id r \<and> fm_topic m = fr_topic r \<and>
     fm_publisher_id m = fr_publisher_id r \<and> fm_source_sequence_number m = fr_sequence r \<and>
     0 \<le> fr_offset r"

fun recover_frames :: "int \<Rightarrow> string \<Rightarrow> frame_row list \<Rightarrow> topics \<Rightarrow> topics gw_result" where
  "recover_frames max_bytes msg [] ts = Inr ts"
| "recover_frames max_bytes msg (r # rs) ts =
     (case parse_data_frame (fr_payload r) max_bytes of
        Inl e \<Rightarrow> Inl e
      | Inr m \<Rightarrow>
          if \<not> row_matches m r then persistence msg
          else recover_frames max_bytes msg rs
                 (with_history (fr_domain_id r, fr_topic r)
                    (\<lambda>h. h\<lparr>th_records := th_records h @
                              [\<lparr>sf_offset = fr_offset r, sf_payload = fr_payload r, sf_metadata = m\<rparr>],
                            th_next_offset := max (th_next_offset h) (fr_offset r + 1)\<rparr>) ts))"

definition add_recent_key :: "topics \<Rightarrow> key_row \<Rightarrow> topics" where
  "add_recent_key ts r =
     with_history (kr_domain_id r, kr_topic r)
       (\<lambda>h. h\<lparr>th_recent_keys := key_add (kr_publisher_id r, kr_sequence r) (th_recent_keys h)\<rparr>) ts"

text \<open>The two trimming loops of one topic; each round deletes the oldest entry in the database.\<close>

fun trim_records :: "int \<Rightarrow> int \<times> string \<Rightarrow> stored_frame list \<Rightarrow> store \<Rightarrow> store \<times> stored_frame list gw_result" where
  "trim_records limit stream [] s = (s, if 0 > limit then Inl (PyExn IndexError) else Inr [])"
| "trim_records limit stream (r # rs) s =
     (if py_len (r # rs) > limit
      then try_then (execute [IntArg (fst stream), TextArg (snd stream), IntArg (sf_offset r)]
                       (delete_frame (fst stream, snd stream, sf_offset r)) s)
             (\<lambda>_. trim_records limit stream rs)
      else (s, Inr (r # rs)))"

fun trim_keys :: "int \<Rightarrow> int \<times> string \<Rightarrow> (string \<times> int) list \<Rightarrow> store \<Rightarrow> store \<times> (string \<times> int) list gw_result" where
  "trim_keys limit stream [] s = (s, if 0 > limit then Inl (PyExn KeyError) else Inr [])"
| "trim_keys limit stream (k # ks) s =
     (if py_len (k # ks) > limit
      then try_then (execute [IntArg (fst stream), TextArg (snd stream), TextArg (fst k), IntArg (snd k)]
                       (delete_dedup (\<lambda>row. kr_key row = (fst stream, snd stream, k))) s)
             (\<lambda>_. trim_keys limit stream ks)
      else (s, Inr (k # ks)))"

fun trim_topics :: "int \<Rightarrow> int \<Rightarrow> topics \<Rightarrow> store \<Rightarrow> store \<times> topics gw_result" where
  "trim_topics max_frames capacity [] s = (s, Inr [])"
| "trim_topics max_frames capacity ((stream, h) # ts) s =
     try_then (trim_records max_frames stream (th_records h) s) (\<lambda>records s1.
     try_then (trim_keys capacity stream (th_recent_keys h) s1) (\<lambda>ks s2.
     try_then (trim_topics max_frames capacity ts s2) (\<lambda>rest s3.
       (s3, Inr ((stream, h\<lparr>th_records := records, th_recent_keys := ks\<rparr>) # rest)))))"

fun recover_outcomes :: "string \<Rightarrow> key_row list \<Rightarrow> topics \<Rightarrow> topics gw_result" where
  "recover_outcomes msg [] ts = Inr ts"
| "recover_outcomes msg (r # rs) ts =
     (let stream = (kr_domain_id r, kr_topic r); k = (kr_publisher_id r, kr_sequence r)
      in if k \<notin> set (th_recent_keys (history_of ts stream)) then persistence msg
         else recover_outcomes msg rs
                (with_history stream
                   (\<lambda>h. h\<lparr>th_outcome_keys := key_add k (th_outcome_keys h)\<rparr>) ts))"

record recovered =
  rc_topics :: topics
  rc_cursors :: "(obs_key \<times> int) list"
  rc_frames :: int
  rc_dedup_keys :: int
  rc_outcomes :: int

definition total_records :: "topics \<Rightarrow> int" where
  "total_records ts = sum_list (map (\<lambda>(_, h). py_len (th_records h)) ts)"

text \<open>The keys counted are those read less those the trimming deletes.\<close>

definition recover_body :: "string \<Rightarrow> string \<Rightarrow> int \<Rightarrow> int \<Rightarrow> int \<Rightarrow> store \<Rightarrow> store \<times> recovered gw_result" where
  "recover_body frame_msg outcome_msg max_bytes max_frames capacity s =
     try_then (execute [] select_frames s) (\<lambda>rows s1.
     try_then (s1, recover_frames max_bytes frame_msg rows []) (\<lambda>ts1 s2.
     try_then (execute [] (select_keys db_dedup) s2) (\<lambda>dedup_rows s3.
     let ts2 = foldl add_recent_key ts1 dedup_rows
     in try_then (trim_topics max_frames capacity ts2 s3) (\<lambda>ts3 s4.
     try_then (execute [] (select_keys db_outcomes) s4) (\<lambda>outcome_rows s5.
     try_then (s5, recover_outcomes outcome_msg outcome_rows ts3) (\<lambda>ts4 s6.
     try_then (execute [] select_cursors s6) (\<lambda>cursors s7.
       (s7, Inr \<lparr>rc_topics = ts4, rc_cursors = filter (\<lambda>e. 0 \<le> snd e) cursors,
                 rc_frames = total_records ts4,
                 rc_dedup_keys = py_len dedup_rows -
                   sum_list (map (\<lambda>(_, h). max 0 (py_len (th_recent_keys h) - capacity)) ts2),
                 rc_outcomes = py_len outcome_rows\<rparr>))))))))"

definition sqlite_recover :: "int \<Rightarrow> int \<Rightarrow> int \<Rightarrow> store \<Rightarrow> store \<times> recovered gw_result" where
  "sqlite_recover max_bytes max_frames capacity s =
     wrap_errors (sqlite_wrap sql_type_value ''could not recover durable gateway state'')
       (commit_after
          (recover_body ''durable frame index does not match its FleetRMW payload''
             ''durable application outcome lacks its accepted frame key''
             max_bytes max_frames capacity) s)"

section \<open>The writer lease\<close>

text \<open>The lease row after a successful acquisition: the fence token moves on unless the holder
  still holds it.\<close>

definition next_fence :: "(string \<times> int \<times> int) option \<Rightarrow> string \<Rightarrow> int \<Rightarrow> int" where
  "next_fence row holder now =
     (case row of
        None \<Rightarrow> 1
      | Some (h, token, expires) \<Rightarrow> if h = holder \<and> expires > now then token else token + 1)"

definition lease_taken :: "(string \<times> int \<times> int) option \<Rightarrow> string \<Rightarrow> int \<Rightarrow> string option" where
  "lease_taken row holder now =
     (case row of
        None \<Rightarrow> None
      | Some (h, token, expires) \<Rightarrow> if h \<noteq> holder \<and> expires > now then Some h else None)"

definition acquire_body :: "string \<Rightarrow> int \<Rightarrow> int \<Rightarrow> store \<Rightarrow> store \<times> int gw_result" where
  "acquire_body holder lease now s =
     try_then (execute [] select_lease s) (\<lambda>row s1.
       case lease_taken row holder now of
         Some h \<Rightarrow> (s1, persistence (''durable writer lease is held by '' @ str_repr h))
       | None \<Rightarrow>
           let token = next_fence row holder now
           in try_then (execute [TextArg holder, IntArg token, IntArg (now + lease)]
                          (upsert_lease holder token (now + lease)) s1)
                (\<lambda>_ s2. (s2, Inr token)))"

definition acquired :: "string \<Rightarrow> int \<Rightarrow> store \<times> int gw_result \<Rightarrow> store \<times> int gw_result" where
  "acquired holder lease r =
     try_then r (\<lambda>token s.
       (s\<lparr>st_lease_id := Some holder, st_fence := Some token, st_lease_ms := Some lease\<rparr>, Inr token))"

definition sqlite_acquire_lease :: "string \<Rightarrow> int \<Rightarrow> int \<Rightarrow> store \<Rightarrow> store \<times> int gw_result" where
  "sqlite_acquire_lease holder lease now s =
     (if holder = [] \<or> lease \<le> 0 \<or> now < 0
      then (s, Inl (value_error ''durable writer lease configuration is invalid''))
      else acquired holder lease
        (wrap_errors (sqlite_wrap is_SqlError ''could not acquire durable writer lease'')
           (transaction (acquire_body holder lease now) s)))"

text \<open>The row names this writer, carries its token and has not expired.\<close>

definition lease_valid :: "(string \<times> int \<times> int) option \<Rightarrow> string \<Rightarrow> int \<Rightarrow> int \<Rightarrow> bool" where
  "lease_valid row holder token now =
     (case row of None \<Rightarrow> False | Some (h, f, expires) \<Rightarrow> h = holder \<and> f = token \<and> \<not> expires \<le> now)"

definition renew_body :: "string \<Rightarrow> int \<Rightarrow> int \<Rightarrow> int \<Rightarrow> store \<Rightarrow> store \<times> int gw_result" where
  "renew_body holder token lease now s =
     try_then (execute [] select_lease s) (\<lambda>row s1.
       if \<not> lease_valid row holder token now
       then (s1, persistence ''durable writer lease was lost or expired'')
       else try_then (execute [IntArg (now + lease)] (update_expiry (\<lambda>_ _. True) (now + lease)) s1)
              (\<lambda>_ s2. (s2, Inr (now + lease))))"

definition sqlite_renew_lease :: "int \<Rightarrow> store \<Rightarrow> store \<times> int gw_result" where
  "sqlite_renew_lease now s =
     (case (st_lease_id s, st_fence s, st_lease_ms s) of
        (Some holder, Some token, Some lease) \<Rightarrow>
          wrap_errors (sqlite_wrap is_SqlError ''could not renew durable writer lease'')
            (transaction (renew_body holder token lease now) s)
      | _ \<Rightarrow> (s, persistence ''durable writer lease is not configured''))"

definition forget_lease :: "store \<times> 'a gw_result \<Rightarrow> store \<times> 'a gw_result" where
  "forget_lease r = (case r of (s, x) \<Rightarrow>
     (s\<lparr>st_lease_id := None, st_fence := None, st_lease_ms := None\<rparr>, x))"

definition sqlite_release_lease :: "int \<Rightarrow> store \<Rightarrow> store \<times> unit gw_result" where
  "sqlite_release_lease now s =
     (case (st_lease_id s, st_fence s) of
        (Some holder, Some token) \<Rightarrow>
          forget_lease
            (wrap_errors (sqlite_wrap is_SqlError ''could not release durable writer lease'')
               (commit_after
                  (execute [IntArg now, TextArg holder, IntArg token]
                     (update_expiry (\<lambda>h f. h = holder \<and> f = token) now)) s))
      | _ \<Rightarrow> (s, Inr ()))"

definition verify_lease :: "int \<Rightarrow> store \<Rightarrow> store \<times> unit gw_result" where
  "verify_lease now s =
     (case (st_lease_id s, st_fence s) of
        (Some holder, Some token) \<Rightarrow>
          try_then (execute [] select_lease s) (\<lambda>row s1.
            if lease_valid row holder token now then (s1, Inr ())
            else (s1, persistence ''durable writer fence rejected a stale or expired writer''))
      | _ \<Rightarrow> (s, Inr ()))"

text \<open>The guard at the head of every committing operation.\<close>

definition fence_guard :: "int option \<Rightarrow> store \<Rightarrow> store \<times> unit gw_result" where
  "fence_guard now s =
     (case st_lease_id s of
        None \<Rightarrow> (s, Inr ())
      | Some _ \<Rightarrow>
          (case now of
             None \<Rightarrow> (s, persistence ''durable writer fence requires a wall-clock timestamp'')
           | Some t \<Rightarrow> verify_lease t s))"

section \<open>The saved admission state\<close>

definition decode_admission :: "(py_exn \<Rightarrow> string) \<Rightarrow> string \<Rightarrow> (string \<times> string) option \<Rightarrow> py_dict option gw_result" where
  "decode_admission texts fp row =
     (case row of
        None \<Rightarrow> Inr None
      | Some (stored, encoded) \<Rightarrow>
          if stored \<noteq> fp
          then persistence ''durable admission policy fingerprint does not match configuration''
          else (case json_loads encoded of
            Inl e \<Rightarrow>
              if e = TypeError \<or> e = JSONDecodeError
              then persistence (''durable admission state is invalid: '' @ exn_text texts (PyExn e))
              else Inl (PyExn e)
          | Inr (PDict d) \<Rightarrow> Inr (Some d)
          | Inr _ \<Rightarrow> persistence ''durable admission state must be an object''))"

definition sqlite_load_admission :: "string \<Rightarrow> store \<Rightarrow> store \<times> py_dict option gw_result" where
  "sqlite_load_admission fp s =
     try_then (wrap_errors (sqlite_wrap is_SqlError ''could not recover durable admission state'')
                 (execute [] select_admission s))
       (\<lambda>row s1. (s1, decode_admission (st_text s1) fp row))"

text \<open>Writing it inside a transaction.\<close>

definition save_admission :: "py_dict \<Rightarrow> store \<Rightarrow> store \<times> unit gw_result" where
  "save_admission state s =
     (case dget state ''policy_fingerprint'' of
        PStr fp \<Rightarrow>
          if fp = [] then (s, persistence ''durable admission state lacks a policy fingerprint'')
          else (case json_dumps False (PDict state) of
            Inl e \<Rightarrow> (s, Inl (PyExn e))
          | Inr encoded \<Rightarrow> execute [TextArg fp, TextArg encoded] (upsert_admission fp encoded) s)
      | _ \<Rightarrow> (s, persistence ''durable admission state lacks a policy fingerprint''))"

section \<open>Committing operations\<close>

definition key_of_metadata :: "frame_metadata \<Rightarrow> frame_key" where
  "key_of_metadata m = (fm_domain_id m, fm_topic m, fm_publisher_id m, fm_source_sequence_number m)"

definition frame_row_of :: "frame_metadata \<Rightarrow> int \<Rightarrow> string \<Rightarrow> frame_row" where
  "frame_row_of m offset payload =
     \<lparr>fr_domain_id = fm_domain_id m, fr_topic = fm_topic m, fr_offset = offset, fr_payload = payload,
      fr_publisher_id = fm_publisher_id m, fr_sequence = fm_source_sequence_number m\<rparr>"

definition drop_stale_dedup :: "int list \<Rightarrow> store \<Rightarrow> store \<times> unit gw_result" where
  "drop_stale_dedup stale s =
     (if stale = [] then (s, Inr ())
      else execute [] (delete_dedup (\<lambda>r. kr_ordinal r \<in> set stale)) s)"

definition drop_stale_outcomes :: "int list \<Rightarrow> store \<Rightarrow> store \<times> unit gw_result" where
  "drop_stale_outcomes stale s =
     (if stale = [] then (s, Inr ()) else execute [] (delete_outcomes stale) s)"

definition append_body ::
    "frame_metadata \<Rightarrow> int \<Rightarrow> string \<Rightarrow> int option \<Rightarrow> int \<Rightarrow> py_dict option \<Rightarrow> int option \<Rightarrow>
     store \<Rightarrow> store \<times> unit gw_result" where
  "append_body m offset payload evict capacity state now s =
     try_then (fence_guard now s) (\<lambda>_ s1.
     try_then (execute [IntArg (fm_domain_id m), TextArg (fm_topic m), IntArg offset,
                        TextArg (fm_publisher_id m), IntArg (fm_source_sequence_number m)]
                 (insert_frame (frame_row_of m offset payload)) s1) (\<lambda>_ s2.
     try_then (execute [IntArg (fm_domain_id m), TextArg (fm_topic m), TextArg (fm_publisher_id m),
                        IntArg (fm_source_sequence_number m)]
                 (insert_dedup (key_of_metadata m)) s2) (\<lambda>_ s3.
     try_then (case evict of
                 None \<Rightarrow> (s3, Inr ())
               | Some off \<Rightarrow> execute [] (delete_frame (fm_domain_id m, fm_topic m, off)) s3) (\<lambda>_ s4.
     try_then (execute [] (stale_ordinals db_dedup (stream_key m) capacity) s4) (\<lambda>stale s5.
     try_then (drop_stale_dedup stale s5) (\<lambda>_ s6.
       case state of None \<Rightarrow> (s6, Inr ()) | Some d \<Rightarrow> save_admission d s6))))))"

definition sqlite_append_frame ::
    "frame_metadata \<Rightarrow> int \<Rightarrow> string \<Rightarrow> int option \<Rightarrow> int \<Rightarrow> py_dict option \<Rightarrow> int option \<Rightarrow>
     store \<Rightarrow> store \<times> unit gw_result" where
  "sqlite_append_frame m offset payload evict capacity state now s =
     wrap_errors (sqlite_wrap sql_type_value ''could not commit durable gateway frame'')
       (transaction (append_body m offset payload evict capacity state now) s)"

definition cursor_body :: "obs_key \<Rightarrow> int \<Rightarrow> int option \<Rightarrow> store \<Rightarrow> store \<times> unit gw_result" where
  "cursor_body k next_offset now s =
     (case k of (domain_id, topic, consumer_id) \<Rightarrow>
        try_then (fence_guard now s) (\<lambda>_.
          execute [IntArg domain_id, TextArg topic, TextArg consumer_id, IntArg next_offset]
            (upsert_cursor k next_offset)))"

definition sqlite_set_cursor :: "obs_key \<Rightarrow> int \<Rightarrow> int option \<Rightarrow> store \<Rightarrow> store \<times> unit gw_result" where
  "sqlite_set_cursor k next_offset now s =
     wrap_errors (sqlite_wrap is_SqlError ''could not commit durable gateway cursor'')
       (transaction (cursor_body k next_offset now) s)"

definition key_args :: "frame_key \<Rightarrow> sql_arg list" where
  "key_args k = (case k of (d, t, p, q) \<Rightarrow> [IntArg d, TextArg t, TextArg p, IntArg q])"

definition outcome_body ::
    "sql_arg list \<Rightarrow> frame_key \<Rightarrow> int \<Rightarrow> py_dict \<Rightarrow> int option \<Rightarrow> store \<Rightarrow> store \<times> bool gw_result" where
  "outcome_body select_args k capacity state now s =
     try_then (fence_guard now s) (\<lambda>_ s1.
     try_then (execute select_args (known_key k) s1) (\<lambda>known s2.
       if \<not> known
       then (s2, persistence ''durable application outcome references an unknown frame'')
       else
     try_then (execute (key_args k) (insert_outcome k) s2) (\<lambda>inserted s3.
       if \<not> inserted then (s3, Inr False)
       else
     try_then (execute [] (stale_ordinals db_outcomes (fst k, fst (snd k)) capacity) s3) (\<lambda>stale s4.
     try_then (drop_stale_outcomes stale s4) (\<lambda>_ s5.
     try_then (save_admission state s5) (\<lambda>_ s6. (s6, Inr True)))))))"

definition sqlite_commit_outcome ::
    "frame_key \<Rightarrow> int \<Rightarrow> py_dict \<Rightarrow> int option \<Rightarrow> store \<Rightarrow> store \<times> bool gw_result" where
  "sqlite_commit_outcome k capacity state now s =
     wrap_errors (sqlite_wrap sql_type_value ''could not commit durable application outcome'')
       (transaction (outcome_body (key_args k) k capacity state now) s)"

section \<open>Inspection\<close>

definition lease_document :: "(string \<times> int \<times> int) option \<Rightarrow> py_obj" where
  "lease_document row =
     (case row of
        None \<Rightarrow> PNone
      | Some (h, token, expires) \<Rightarrow>
          PDict [(''holder_id'', PStr h), (''fence_token'', PInt token), (''expires_unix_ms'', PInt expires)])"

text \<open>The five counts and the lease, in the order both snapshots read and report them.\<close>

definition store_counts :: "store \<Rightarrow> store \<times> py_dict gw_result" where
  "store_counts s =
     try_then (execute [] (count_rows db_frames) s) (\<lambda>frames s1.
     try_then (execute [] (count_rows db_dedup) s1) (\<lambda>dedup s2.
     try_then (execute [] (count_rows db_cursors) s2) (\<lambda>cursors s3.
     try_then (execute [] (count_rows (\<lambda>db. case db_admission db of None \<Rightarrow> [] | Some a \<Rightarrow> [a])) s3) (\<lambda>admissions s4.
     try_then (execute [] (count_rows db_outcomes) s4) (\<lambda>outcomes s5.
     try_then (execute [] select_lease s5) (\<lambda>lease s6.
       (s6, Inr [(''retained_frame_count'', PInt frames), (''dedup_key_count'', PInt dedup),
                 (''consumer_cursor_count'', PInt cursors), (''admission_state_count'', PInt admissions),
                 (''application_outcome_count'', PInt outcomes),
                 (''writer_lease'', lease_document lease)])))))))"

fun backend_journal :: "backend \<Rightarrow> string" where
  "backend_journal (Sqlite j) = j"
| "backend_journal (Postgres _) = []"

definition sqlite_snapshot :: "store \<Rightarrow> store \<times> py_dict gw_result" where
  "sqlite_snapshot s =
     wrap_errors (sqlite_wrap is_SqlError ''could not inspect durable gateway state'')
       (try_then (store_counts s) (\<lambda>counts s1.
        try_then (execute [] no_op s1) (\<lambda>_ s2.
          (s2, Inr ([(''schema_version'', PStr DURABLE_SCHEMA_VERSION), (''path'', PStr (st_path s2)),
                     (''journal_mode'', PStr (backend_journal (st_backend s2))),
                     (''synchronous'', PStr ''full'')] @ counts)))))"

end
