(* ===== verification/GatewayPostgres.thy ===== *)
theory GatewayPostgres
  imports GatewayStore
begin

text \<open>
  \<open>PostgresGatewayDurableStore\<close> of \<open>fleetqox/quic_gateway_postgres.py\<close>, on the tables, steps and
  transactions it shares with the SQLite store, and the calls of the gateway that go to
  whichever store is open. Every exception of a block is wrapped, as an unavailable backend
  when the driver says so; the lease operations take an advisory lock first; the snapshot
  answers the last one when the server cannot be reached.
\<close>

section \<open>Errors\<close>

definition pg_unavailable :: "gw_exn \<Rightarrow> bool" where
  "pg_unavailable e \<longleftrightarrow> (case e of SqlError u _ \<Rightarrow> u | _ \<Rightarrow> False)"

definition pg_wrapped_error :: "string \<Rightarrow> store \<Rightarrow> gw_exn \<Rightarrow> gw_exn" where
  "pg_wrapped_error context s e =
     (if pg_unavailable e
      then FramePersistenceUnavailableError (context @ '': durable backend unavailable'')
      else FramePersistenceError (context @ '': '' @ exn_text (st_text s) e))"

section \<open>Opening and recovery\<close>

definition PG_SCHEMA_VERSION :: string where
  "PG_SCHEMA_VERSION = ''fleetrmw.quic_gateway_postgresql_durable_state.v1''"

definition postgres_url :: "string \<Rightarrow> bool" where
  "postgres_url dsn \<longleftrightarrow>
     strip_prefix ''postgresql://'' dsn \<noteq> None \<or> strip_prefix ''postgres://'' dsn \<noteq> None"

text \<open>The driver may not be installed. After the connection, a transaction creates the seven
  tables and checks the schema.\<close>

definition pg_open_store ::
    "bool \<Rightarrow> pg_server \<Rightarrow> string \<Rightarrow> gateway_db \<Rightarrow> (nat \<Rightarrow> sql_fault option) \<Rightarrow> (py_exn \<Rightarrow> string) \<Rightarrow>
     store \<times> unit gw_result" where
  "pg_open_store installed sv dsn db faults texts =
     (let s = fresh_store (Postgres sv) dsn db faults texts
      in if \<not> postgres_url dsn
         then (s, Inl (value_error ''PostgreSQL durable state requires a PostgreSQL URL''))
         else if \<not> installed
         then (s, persistence ''PostgreSQL durable state requires python3-psycopg'')
         else
           wrap_errors (pg_wrapped_error ''could not initialize PostgreSQL gateway state'')
             (try_then (execute [] no_op s) (\<lambda>_. transaction
                (\<lambda>s1. try_then (run_steps (replicate 7 (execute [] no_op)) s1)
                   (\<lambda>_. check_schema PG_SCHEMA_VERSION ''unsupported PostgreSQL durable state schema '')))))"

definition pg_recover :: "int \<Rightarrow> int \<Rightarrow> int \<Rightarrow> store \<Rightarrow> store \<times> recovered gw_result" where
  "pg_recover max_bytes max_frames capacity s =
     wrap_errors (pg_wrapped_error ''could not recover PostgreSQL gateway state'')
       (transaction
          (recover_body ''PostgreSQL frame index does not match FleetRMW payload''
             ''PostgreSQL application outcome lacks its accepted frame key''
             max_bytes max_frames capacity) s)"

section \<open>The writer lease\<close>

definition lock_lease :: "store \<Rightarrow> store \<times> unit gw_result" where
  "lock_lease s = execute [] no_op s"

definition pg_acquire_lease :: "string \<Rightarrow> int \<Rightarrow> int \<Rightarrow> store \<Rightarrow> store \<times> int gw_result" where
  "pg_acquire_lease holder lease now s =
     (if holder = [] \<or> lease \<le> 0 \<or> now < 0
      then (s, Inl (value_error ''durable writer lease configuration is invalid''))
      else acquired holder lease
        (wrap_errors (pg_wrapped_error ''could not acquire PostgreSQL writer lease'')
           (transaction (\<lambda>s1. try_then (lock_lease s1) (\<lambda>_. acquire_body holder lease now)) s)))"

definition pg_renew_lease :: "int \<Rightarrow> store \<Rightarrow> store \<times> int gw_result" where
  "pg_renew_lease now s =
     (case (st_lease_id s, st_fence s, st_lease_ms s) of
        (Some holder, Some token, Some lease) \<Rightarrow>
          wrap_errors (pg_wrapped_error ''could not renew PostgreSQL writer lease'')
            (transaction (\<lambda>s1. try_then (lock_lease s1) (\<lambda>_. renew_body holder token lease now)) s)
      | _ \<Rightarrow> (s, persistence ''durable writer lease is not configured''))"

definition pg_release_lease :: "int \<Rightarrow> store \<Rightarrow> store \<times> unit gw_result" where
  "pg_release_lease now s =
     (case (st_lease_id s, st_fence s) of
        (Some holder, Some token) \<Rightarrow>
          forget_lease
            (wrap_errors (pg_wrapped_error ''could not release PostgreSQL writer lease'')
               (transaction (\<lambda>s1. try_then (lock_lease s1) (\<lambda>_.
                  execute [IntArg now, TextArg holder, IntArg token]
                    (update_expiry (\<lambda>h f. h = holder \<and> f = token) now))) s))
      | _ \<Rightarrow> (s, Inr ()))"

section \<open>Admission state and commits\<close>

definition pg_load_admission :: "string \<Rightarrow> store \<Rightarrow> store \<times> py_dict option gw_result" where
  "pg_load_admission fp s =
     try_then (wrap_errors (pg_wrapped_error ''could not recover PostgreSQL admission state'')
                 (transaction (execute [] select_admission) s))
       (\<lambda>row s1. (s1, decode_admission (st_text s1) fp row))"

definition pg_append_frame ::
    "frame_metadata \<Rightarrow> int \<Rightarrow> string \<Rightarrow> int option \<Rightarrow> int \<Rightarrow> py_dict option \<Rightarrow> int option \<Rightarrow>
     store \<Rightarrow> store \<times> unit gw_result" where
  "pg_append_frame m offset payload evict capacity state now s =
     wrap_errors (pg_wrapped_error ''could not commit PostgreSQL gateway frame'')
       (transaction (append_body m offset payload evict capacity state now) s)"

definition pg_set_cursor :: "obs_key \<Rightarrow> int \<Rightarrow> int option \<Rightarrow> store \<Rightarrow> store \<times> unit gw_result" where
  "pg_set_cursor k next_offset now s =
     wrap_errors (pg_wrapped_error ''could not commit PostgreSQL gateway cursor'')
       (transaction (cursor_body k next_offset now) s)"

text \<open>A SELECT compares a big integer without raising: only its text parameters can fail.\<close>

definition pg_commit_outcome ::
    "frame_key \<Rightarrow> int \<Rightarrow> py_dict \<Rightarrow> int option \<Rightarrow> store \<Rightarrow> store \<times> bool gw_result" where
  "pg_commit_outcome k capacity state now s =
     wrap_errors (pg_wrapped_error ''could not commit PostgreSQL application outcome'')
       (transaction
          (outcome_body [TextArg (fst (snd k)), TextArg (fst (snd (snd k)))] k capacity state now) s)"

section \<open>Inspection\<close>

definition pg_document :: "pg_server \<Rightarrow> py_dict \<Rightarrow> py_dict" where
  "pg_document sv counts =
     [(''schema_version'', PStr PG_SCHEMA_VERSION), (''backend'', PStr ''postgresql''),
      (''endpoint'', PStr (sv_endpoint sv)), (''available'', PBool True),
      (''snapshot_stale'', PBool False), (''synchronous_commit'', PStr (sv_synchronous_commit sv)),
      (''server_version'', PStr (sv_version sv)), (''in_recovery'', PBool (sv_in_recovery sv))] @ counts"

definition pg_stale_document :: "py_dict \<Rightarrow> py_dict" where
  "pg_stale_document d =
     AList.update ''last_error'' (PStr ''durable backend unavailable'')
       (AList.update ''snapshot_stale'' (PBool True) (AList.update ''available'' (PBool False) d))"

definition pg_snapshot :: "pg_server \<Rightarrow> store \<Rightarrow> store \<times> py_dict gw_result" where
  "pg_snapshot sv s =
     (case transaction (\<lambda>s1. try_then (store_counts s1) (\<lambda>counts s2.
             try_then (run_steps (replicate 3 (execute [] no_op)) s2) (\<lambda>_ s3. (s3, Inr counts)))) s of
        (s1, Inr counts) \<Rightarrow>
          (s1\<lparr>st_last_snapshot := Some (pg_document sv counts)\<rparr>, Inr (pg_document sv counts))
      | (s1, Inl e) \<Rightarrow>
          (case st_last_snapshot s1 of
             Some d \<Rightarrow>
               if pg_unavailable e then (s1, Inr (pg_stale_document d))
               else (s1, Inl (pg_wrapped_error ''could not inspect PostgreSQL gateway state'' s1 e))
           | None \<Rightarrow> (s1, Inl (pg_wrapped_error ''could not inspect PostgreSQL gateway state'' s1 e))))"

section \<open>The calls of the gateway\<close>

definition store_recover :: "int \<Rightarrow> int \<Rightarrow> int \<Rightarrow> store \<Rightarrow> store \<times> recovered gw_result" where
  "store_recover max_bytes max_frames capacity s =
     (case st_backend s of
        Sqlite _ \<Rightarrow> sqlite_recover max_bytes max_frames capacity s
      | Postgres _ \<Rightarrow> pg_recover max_bytes max_frames capacity s)"

definition store_acquire_lease :: "string \<Rightarrow> int \<Rightarrow> int \<Rightarrow> store \<Rightarrow> store \<times> int gw_result" where
  "store_acquire_lease holder lease now s =
     (case st_backend s of
        Sqlite _ \<Rightarrow> sqlite_acquire_lease holder lease now s
      | Postgres _ \<Rightarrow> pg_acquire_lease holder lease now s)"

definition store_renew_lease :: "int \<Rightarrow> store \<Rightarrow> store \<times> int gw_result" where
  "store_renew_lease now s =
     (case st_backend s of Sqlite _ \<Rightarrow> sqlite_renew_lease now s | Postgres _ \<Rightarrow> pg_renew_lease now s)"

definition store_release_lease :: "int \<Rightarrow> store \<Rightarrow> store \<times> unit gw_result" where
  "store_release_lease now s =
     (case st_backend s of Sqlite _ \<Rightarrow> sqlite_release_lease now s | Postgres _ \<Rightarrow> pg_release_lease now s)"

definition store_load_admission :: "string \<Rightarrow> store \<Rightarrow> store \<times> py_dict option gw_result" where
  "store_load_admission fp s =
     (case st_backend s of Sqlite _ \<Rightarrow> sqlite_load_admission fp s | Postgres _ \<Rightarrow> pg_load_admission fp s)"

definition store_append_frame ::
    "frame_metadata \<Rightarrow> int \<Rightarrow> string \<Rightarrow> int option \<Rightarrow> int \<Rightarrow> py_dict option \<Rightarrow> int option \<Rightarrow>
     store \<Rightarrow> store \<times> unit gw_result" where
  "store_append_frame m offset payload evict capacity state now s =
     (case st_backend s of
        Sqlite _ \<Rightarrow> sqlite_append_frame m offset payload evict capacity state now s
      | Postgres _ \<Rightarrow> pg_append_frame m offset payload evict capacity state now s)"

definition store_set_cursor :: "obs_key \<Rightarrow> int \<Rightarrow> int option \<Rightarrow> store \<Rightarrow> store \<times> unit gw_result" where
  "store_set_cursor k next_offset now s =
     (case st_backend s of
        Sqlite _ \<Rightarrow> sqlite_set_cursor k next_offset now s
      | Postgres _ \<Rightarrow> pg_set_cursor k next_offset now s)"

definition store_commit_outcome ::
    "frame_key \<Rightarrow> int \<Rightarrow> py_dict \<Rightarrow> int option \<Rightarrow> store \<Rightarrow> store \<times> bool gw_result" where
  "store_commit_outcome k capacity state now s =
     (case st_backend s of
        Sqlite _ \<Rightarrow> sqlite_commit_outcome k capacity state now s
      | Postgres _ \<Rightarrow> pg_commit_outcome k capacity state now s)"

definition store_snapshot :: "store \<Rightarrow> store \<times> py_dict gw_result" where
  "store_snapshot s =
     (case st_backend s of Sqlite _ \<Rightarrow> sqlite_snapshot s | Postgres sv \<Rightarrow> pg_snapshot sv s)"

end
