(* ===== verification/GatewayState.thy ===== *)
theory GatewayState
  imports GatewayPostgres Url
begin

text \<open>
  \<open>FleetQoxGatewayState\<close> of \<open>fleetqox/quic_gateway_state.py\<close>: its fields, the construction
  with the recovery of durable state, publishing, taking, the cursor, the lease and closing.
  The wall clock is a stream of readings; \<open>gs_closed_store\<close> is no field of the class: it keeps
  the database of a store the gateway has closed, for those who open it next.
\<close>

section \<open>State\<close>

record environment =
  en_db :: gateway_db
  en_faults :: "nat \<Rightarrow> sql_fault option"
  en_journal :: string
  en_psycopg :: bool
  en_server :: pg_server
  en_text :: "py_exn \<Rightarrow> string"
  en_wall :: "nat \<Rightarrow> pyfloat"
  en_bad_netloc :: "string \<Rightarrow> bool"

record gateway_config =
  gc_max_frames_per_topic :: int
  gc_max_frame_bytes :: int
  gc_dedup_capacity :: "int option"
  gc_policy :: "policy option"
  gc_max_batch_frames :: int
  gc_durable_path :: "string option"
  gc_writer_id :: "string option"
  gc_lease_ms :: int

definition default_gateway_config :: gateway_config where
  "default_gateway_config =
     \<lparr>gc_max_frames_per_topic = 1024, gc_max_frame_bytes = 1048576, gc_dedup_capacity = None,
      gc_policy = None, gc_max_batch_frames = 64, gc_durable_path = None, gc_writer_id = None,
      gc_lease_ms = 5000\<rparr>"

record gateway =
  gs_max_frames :: int
  gs_max_bytes :: int
  gs_capacity :: int
  gs_max_batch :: int
  gs_topics :: topics
  gs_consumers :: "(obs_key \<times> int) list"
  gs_policy :: "policy option"
  gs_store :: "store option"
  gs_closed_store :: "store option"
  gs_writer_id :: "string option"
  gs_lease_ms :: int
  gs_metrics :: "(string \<times> int) list"
  gs_wall :: "nat \<Rightarrow> pyfloat"
  gs_wall_reads :: nat
  gs_text :: "py_exn \<Rightarrow> string"
  gs_bad_netloc :: "string \<Rightarrow> bool"

type_synonym 'a gateway_step = "gateway \<Rightarrow> gateway \<times> 'a gw_result"

definition metric_names :: "string list" where
  "metric_names =
     [''requests_total'', ''post_requests'', ''get_requests'', ''accepted_frames'',
      ''duplicate_frames'', ''invalid_frames'', ''dequeued_frames'', ''empty_takes'',
      ''evicted_frames'', ''dedup_key_evictions'', ''consumer_overruns'', ''observation_requests'',
      ''application_outcome_requests'', ''application_outcome_updates'',
      ''application_outcome_duplicates'', ''application_outcome_unknown_frames'',
      ''invalid_application_outcomes'', ''application_task_outcome_updates'',
      ''application_task_outcome_failures'', ''batch_requests'', ''batch_frames'',
      ''batch_accepted_frames'', ''batch_rejected_frames'', ''durable_frame_commits'',
      ''durable_cursor_commits'', ''durable_admission_commits'',
      ''durable_application_outcome_commits'', ''durable_persistence_failures'',
      ''recovered_frames'', ''recovered_dedup_keys'', ''recovered_application_outcomes'',
      ''recovered_consumers'', ''recovered_admission_state'', ''durable_writer_lease_acquires'',
      ''durable_writer_lease_renewals'', ''durable_writer_lease_failures'']"

definition metric_add :: "string \<Rightarrow> int \<Rightarrow> gateway \<Rightarrow> gateway" where
  "metric_add name n g =
     g\<lparr>gs_metrics := AList.update name (count_of (gs_metrics g) name + n) (gs_metrics g)\<rparr>"

definition metric_set :: "string \<Rightarrow> int \<Rightarrow> gateway \<Rightarrow> gateway" where
  "metric_set name n g = g\<lparr>gs_metrics := AList.update name n (gs_metrics g)\<rparr>"

section \<open>Calls to the policy, the store and the clock\<close>

definition in_policy :: "(policy \<Rightarrow> policy \<times> 'a gw_result) \<Rightarrow> 'a gateway_step" where
  "in_policy f g =
     (case gs_policy g of
        None \<Rightarrow> (g, Inl (PyExn TypeError))
      | Some p \<Rightarrow> (case f p of (p', r) \<Rightarrow> (g\<lparr>gs_policy := Some p'\<rparr>, r)))"

definition in_store :: "(store \<Rightarrow> store \<times> 'a gw_result) \<Rightarrow> 'a gateway_step" where
  "in_store f g =
     (case gs_store g of
        None \<Rightarrow> (g, Inl (PyExn TypeError))
      | Some s \<Rightarrow> (case f s of (s', r) \<Rightarrow> (g\<lparr>gs_store := Some s'\<rparr>, r)))"

text \<open>\<open>max(0, int(clock() * 1000.0))\<close>.\<close>

definition now_unix_ms :: "int gateway_step" where
  "now_unix_ms g =
     lift_exn (g\<lparr>gs_wall_reads := gs_wall_reads g + 1\<rparr>)
       (map_sum id (max 0) (py_int_of_float (gs_wall g (gs_wall_reads g) * Fin 1000)))"

section \<open>Construction\<close>

definition check_gateway_config :: "gateway_config \<Rightarrow> string option" where
  "check_gateway_config c =
     (if gc_max_frames_per_topic c \<le> 0 \<or> gc_max_frame_bytes c \<le> 0 \<or> gc_max_batch_frames c \<le> 0
      then Some ''gateway frame limits must be positive''
      else if (case gc_dedup_capacity c of None \<Rightarrow> gc_max_frames_per_topic c * 4 | Some n \<Rightarrow> n)
              < gc_max_frames_per_topic c
      then Some ''dedup capacity must cover the retained history''
      else if (case gc_writer_id c of None \<Rightarrow> False | Some w \<Rightarrow> w = [] \<or> gc_durable_path c = None)
      then Some ''durable writer id requires durable state''
      else if gc_lease_ms c \<le> 0 then Some ''durable writer lease must be positive''
      else None)"

definition blank_gateway :: "gateway_config \<Rightarrow> environment \<Rightarrow> gateway" where
  "blank_gateway c env =
     \<lparr>gs_max_frames = gc_max_frames_per_topic c, gs_max_bytes = gc_max_frame_bytes c,
      gs_capacity = (case gc_dedup_capacity c of None \<Rightarrow> gc_max_frames_per_topic c * 4 | Some n \<Rightarrow> n),
      gs_max_batch = gc_max_batch_frames c, gs_topics = [], gs_consumers = [],
      gs_policy = gc_policy c, gs_store = None, gs_closed_store = None,
      gs_writer_id = gc_writer_id c, gs_lease_ms = gc_lease_ms c,
      gs_metrics = map (\<lambda>n. (n, 0)) metric_names, gs_wall = en_wall env, gs_wall_reads = 0,
      gs_text = en_text env, gs_bad_netloc = en_bad_netloc env\<rparr>"

definition open_location :: "environment \<Rightarrow> string \<Rightarrow> store \<times> unit gw_result" where
  "open_location env location =
     (if postgres_url location
      then pg_open_store (en_psycopg env) (en_server env) location (en_db env) (en_faults env) (en_text env)
      else open_store (en_journal env) location (en_db env) (en_faults env) (en_text env))"

definition take_lease :: "bool gateway_step" where
  "take_lease g =
     (case gs_writer_id g of
        None \<Rightarrow> (g, Inr False)
      | Some w \<Rightarrow>
          try_then (now_unix_ms g) (\<lambda>now g1.
          try_then (in_store (store_acquire_lease w (gs_lease_ms g1) now) g1) (\<lambda>_ g2.
            (metric_set ''durable_writer_lease_acquires'' 1 g2, Inr True))))"

definition install_recovered :: "recovered \<Rightarrow> gateway \<Rightarrow> gateway" where
  "install_recovered r g =
     metric_set ''recovered_consumers'' (py_len (rc_cursors r))
       (metric_set ''recovered_application_outcomes'' (rc_outcomes r)
          (metric_set ''recovered_dedup_keys'' (rc_dedup_keys r)
             (metric_set ''recovered_frames'' (rc_frames r)
                (g\<lparr>gs_topics := rc_topics r, gs_consumers := rc_cursors r\<rparr>))))"

definition restore_policy :: "py_dict \<Rightarrow> int \<Rightarrow> unit gateway_step" where
  "restore_policy durable frames g =
     (case gs_policy g of
        None \<Rightarrow>
          (case dget durable ''admission_state_count'' of
             PInt n \<Rightarrow>
               if n > 0 then (g, Inl (value_error
                 ''durable admission state exists but no admission policy was configured''))
               else (g, Inr ())
           | _ \<Rightarrow> (g, Inl (PyExn TypeError)))
      | Some p \<Rightarrow>
          try_then (lift_exn g (fingerprint p)) (\<lambda>fp g1.
          try_then (in_store (store_load_admission fp) g1) (\<lambda>loaded g2.
            case loaded of
              None \<Rightarrow>
                if frames > 0 then (g2, Inl (value_error
                  ''retained frames lack durable admission state; refusing to reset fleet quota/repair state''))
                else (g2, Inr ())
            | Some d \<Rightarrow>
                try_then (in_policy (restore_durable_state d) g2) (\<lambda>_ g3.
                  (metric_set ''recovered_admission_state'' 1 g3, Inr ())))))"

definition recover_state :: "unit gateway_step" where
  "recover_state g =
     try_then (in_store (store_recover (gs_max_bytes g) (gs_max_frames g) (gs_capacity g)) g) (\<lambda>r g1.
     try_then (in_store store_snapshot (install_recovered r g1)) (\<lambda>durable.
       restore_policy durable (rc_frames r)))"

definition close_store :: "gateway \<Rightarrow> gateway" where
  "close_store g = g\<lparr>gs_store := None, gs_closed_store := gs_store g\<rparr>"

text \<open>The \<open>except\<close> clause of the constructor: release the lease if it was acquired, ignoring a
  persistence error, and close the store.\<close>

definition abandon :: "bool \<Rightarrow> gw_exn \<Rightarrow> unit gateway_step" where
  "abandon leased e g =
     (if \<not> is_persistence_exn e \<and> \<not> is_value_exn e then (g, Inl e)
      else if \<not> leased then (close_store g, Inl e)
      else (case try_then (now_unix_ms g) (\<lambda>now. in_store (store_release_lease now)) of
              (g1, Inl e1) \<Rightarrow>
                if is_persistence_exn e1 then (close_store g1, Inl e) else (g1, Inl e1)
            | (g1, Inr _) \<Rightarrow> (close_store g1, Inl e)))"

definition new_gateway :: "gateway_config \<Rightarrow> environment \<Rightarrow> gateway \<times> unit gw_result" where
  "new_gateway c env =
     (let g = blank_gateway c env
      in case check_gateway_config c of
           Some m \<Rightarrow> (g, Inl (value_error m))
         | None \<Rightarrow>
             (case gc_durable_path c of
                None \<Rightarrow> (g, Inr ())
              | Some location \<Rightarrow>
                  (case open_location env location of
                     (s, Inl e) \<Rightarrow> (g\<lparr>gs_closed_store := Some s\<rparr>, Inl e)
                   | (s, Inr _) \<Rightarrow>
                       (case take_lease (g\<lparr>gs_store := Some s\<rparr>) of
                          (g1, Inl e) \<Rightarrow> abandon False e g1
                        | (g1, Inr leased) \<Rightarrow>
                            (case recover_state g1 of
                               (g2, Inl e) \<Rightarrow> abandon leased e g2
                             | (g2, Inr _) \<Rightarrow> (g2, Inr ()))))))"

section \<open>Publishing\<close>

record publish_result =
  pr_accepted :: bool
  pr_duplicate :: bool
  pr_offset :: int
  pr_metadata :: frame_metadata
  pr_admission_action :: string

text \<open>\<open>while len(xs) > limit: popleft()\<close> for a positive limit, with the number removed.\<close>

fun pop_front :: "int \<Rightarrow> 'b list \<Rightarrow> 'b list \<times> int" where
  "pop_front limit [] = ([], 0)"
| "pop_front limit (x # xs) =
     (if py_len (x # xs) > limit
      then (case pop_front limit xs of (ys, n) \<Rightarrow> (ys, n + 1)) else (x # xs, 0))"

definition check_expected :: "frame_metadata \<Rightarrow> int option \<Rightarrow> string option \<Rightarrow> unit gw_result" where
  "check_expected m domain topic =
     (if (case domain of None \<Rightarrow> False | Some d \<Rightarrow> fm_domain_id m \<noteq> d)
      then invalid ''frame domain_id does not match request path''
      else if (case topic of None \<Rightarrow> False | Some t \<Rightarrow> fm_topic m \<noteq> t)
      then invalid ''frame topic does not match request path'' else Inr ())"

definition is_duplicate :: "frame_metadata \<Rightarrow> gateway \<Rightarrow> bool" where
  "is_duplicate m g \<longleftrightarrow>
     (case map_of (gs_topics g) (stream_key m) of
        None \<Rightarrow> False | Some h \<Rightarrow> dedup_key m \<in> set (th_recent_keys h))"

definition answer_duplicate :: "frame_metadata \<Rightarrow> publish_result gateway_step" where
  "answer_duplicate m g =
     (metric_add ''duplicate_frames'' 1
        (g\<lparr>gs_topics := with_history (stream_key m)
             (\<lambda>h. h\<lparr>th_recent_keys := move_to_end (dedup_key m) (th_recent_keys h)\<rparr>) (gs_topics g)\<rparr>),
      Inr \<lparr>pr_accepted = False, pr_duplicate = True,
           pr_offset = th_next_offset (history_of (gs_topics g) (stream_key m)),
           pr_metadata = m, pr_admission_action = ''duplicate''\<rparr>)"

text \<open>The durable document of the policy, when there are a policy and a store.\<close>

definition export_if_durable :: "py_dict option gateway_step" where
  "export_if_durable g =
     (if Option.is_none (gs_policy g) \<or> Option.is_none (gs_store g) then (g, Inr None)
      else try_then (in_policy export_durable_state g) (\<lambda>d g1. (g1, Inr (Some d))))"

definition admit_frame :: "frame_metadata \<Rightarrow> (string \<times> py_dict option \<times> py_dict option) gateway_step" where
  "admit_frame m g =
     try_then (export_if_durable g) (\<lambda>state_before g1.
     try_then (if Option.is_none (gs_policy g1) then (g1, Inr ''normal'') else in_policy (admit m) g1) (\<lambda>action g2.
     try_then (export_if_durable g2) (\<lambda>state_after g3.
       (g3, Inr (action, state_before, state_after)))))"

text \<open>A persistence error takes the policy back to its state before the admission.\<close>

definition undo_admission :: "py_dict option \<Rightarrow> gw_exn \<Rightarrow> 'a gateway_step" where
  "undo_admission state_before e g =
     (if \<not> is_persistence_exn e then (g, Inl e)
      else try_then (case (gs_policy g, state_before) of
                       (Some _, Some d) \<Rightarrow> in_policy (restore_durable_state d) g
                     | _ \<Rightarrow> (g, Inr ()))
             (\<lambda>_ g1. (metric_add ''durable_persistence_failures'' 1 g1, Inl e)))"

definition commit_frame ::
    "frame_metadata \<Rightarrow> string \<Rightarrow> topic_history \<Rightarrow> py_dict option \<Rightarrow> py_dict option \<Rightarrow> unit gateway_step" where
  "commit_frame m payload h state_before state_after g =
     (if Option.is_none (gs_store g) then (g, Inr ())
      else
        let evict = (if py_len (th_records h) \<ge> gs_max_frames g
                     then map_option sf_offset (py_index (th_records h) 0) else None)
        in (case try_then (now_unix_ms g) (\<lambda>now g1.
                   in_store (store_append_frame m (th_next_offset h) payload evict (gs_capacity g1)
                               state_after (Some now)) g1) of
              (g1, Inl e) \<Rightarrow> undo_admission state_before e g1
            | (g1, Inr _) \<Rightarrow>
                let g2 = metric_add ''durable_frame_commits'' 1 g1
                in (if state_after = None then g2
                    else metric_add ''durable_admission_commits'' 1 g2, Inr ())))"

definition store_record :: "frame_metadata \<Rightarrow> string \<Rightarrow> gateway \<Rightarrow> gateway" where
  "store_record m payload g =
     (let h = history_of (gs_topics g) (stream_key m);
          record = \<lparr>sf_offset = th_next_offset h, sf_payload = payload, sf_metadata = m\<rparr>;
          (records, evicted) = pop_front (gs_max_frames g) (th_records h @ [record]);
          (ks, evicted_keys) = pop_front (gs_capacity g) (key_add (dedup_key m) (th_recent_keys h))
      in metric_add ''dedup_key_evictions'' evicted_keys
           (metric_add ''evicted_frames'' evicted
              (metric_add ''accepted_frames'' 1
                 (g\<lparr>gs_topics := with_history (stream_key m)
                      (\<lambda>h. h\<lparr>th_next_offset := th_next_offset h + 1, th_records := records,
                             th_recent_keys := ks\<rparr>) (gs_topics g)\<rparr>))))"

definition publish :: "string \<Rightarrow> int option \<Rightarrow> string option \<Rightarrow> publish_result gateway_step" where
  "publish payload expected_domain expected_topic g =
     try_then (g, parse_data_frame payload (gs_max_bytes g)) (\<lambda>m g0.
     try_then (g0, check_expected m expected_domain expected_topic) (\<lambda>_ g0.
       if is_duplicate m g0 then answer_duplicate m g0
       else
     try_then (admit_frame m g0) (\<lambda>(action, state_before, state_after) g1.
       let g2 = g1\<lparr>gs_topics := with_history (stream_key m) id (gs_topics g1)\<rparr>;
           h = history_of (gs_topics g2) (stream_key m)
       in try_then (commit_frame m payload h state_before state_after g2) (\<lambda>_ g3.
            (store_record m payload g3,
             Inr \<lparr>pr_accepted = True, pr_duplicate = False, pr_offset = th_next_offset h,
                  pr_metadata = m, pr_admission_action = action\<rparr>)))))"

section \<open>Batches\<close>

text \<open>The scores of a batch, one observation lookup after the other.\<close>

fun batch_scores :: "frame_metadata list \<Rightarrow> pyfloat list gateway_step" where
  "batch_scores [] g = (g, Inr [])"
| "batch_scores (m # ms) g =
     try_then (if Option.is_none (gs_policy g) then (g, Inr (admission_score m))
               else in_policy (effective_admission_score m) g) (\<lambda>score g1.
     try_then (batch_scores ms g1) (\<lambda>scores g2. (g2, Inr (score # scores))))"

definition batch_before :: "frame_metadata list \<Rightarrow> pyfloat list \<Rightarrow> nat \<Rightarrow> nat \<Rightarrow> bool" where
  "batch_before ms scores i j \<longleftrightarrow>
     (let a = - (scores ! i); b = - (scores ! j)
      in if feq a b
         then (fm_publisher_id (ms ! i), fm_source_sequence_number (ms ! i)) <
              (fm_publisher_id (ms ! j), fm_source_sequence_number (ms ! j))
         else a < b)"

definition batch_order :: "frame_metadata list \<Rightarrow> pyfloat list \<Rightarrow> nat list" where
  "batch_order ms scores = py_sorted (batch_before ms scores) [0..<length ms]"

definition rejected_row :: "int \<Rightarrow> string \<Rightarrow> string \<Rightarrow> string \<Rightarrow> pyfloat \<Rightarrow> py_obj" where
  "rejected_row status code reason cls score = PDict
     [(''accepted'', PBool False), (''status'', PInt status), (''reason'', PStr code),
      (''message'', PStr reason), (''traffic_class'', PStr cls), (''score'', PFloat score)]"

definition published_row :: "publish_result \<Rightarrow> pyfloat \<Rightarrow> py_obj" where
  "published_row r score = PDict
     [(''accepted'', PBool (pr_accepted r)), (''duplicate'', PBool (pr_duplicate r)),
      (''status'', PInt 200), (''offset'', PInt (pr_offset r)),
      (''admission_action'', PStr (pr_admission_action r)), (''score'', PFloat score)]"

text \<open>A rejected frame becomes a row; any other exception ends the loop.\<close>

definition batch_one :: "string \<Rightarrow> pyfloat \<Rightarrow> py_obj gateway_step" where
  "batch_one payload score g =
     (case publish payload None None g of
        (g1, Inl (FrameAdmissionError status code reason cls)) \<Rightarrow>
          (metric_add ''batch_rejected_frames'' 1 g1, Inr (rejected_row status code reason cls score))
      | (g1, Inl e) \<Rightarrow> (g1, Inl e)
      | (g1, Inr r) \<Rightarrow>
          (if pr_accepted r then metric_add ''batch_accepted_frames'' 1 g1 else g1,
           Inr (published_row r score)))"

fun batch_loop ::
    "string list \<Rightarrow> pyfloat list \<Rightarrow> nat list \<Rightarrow> py_obj option list \<Rightarrow> py_obj option list gateway_step" where
  "batch_loop payloads scores [] results g = (g, Inr results)"
| "batch_loop payloads scores (i # order) results g =
     try_then (batch_one (payloads ! i) (scores ! i) g) (\<lambda>row.
       batch_loop payloads scores order (results[i := Some row]))"

definition publish_batch :: "string list \<Rightarrow> py_obj list gateway_step" where
  "publish_batch payloads g =
     (if payloads = [] \<or> py_len payloads > gs_max_batch g
      then (g, invalid ''frame batch size is outside configured limits'')
      else
     try_then (g, map_outcome (\<lambda>p. parse_data_frame p (gs_max_bytes g)) payloads) (\<lambda>ms g1.
     try_then (batch_scores ms g1) (\<lambda>scores g2.
     try_then (batch_loop payloads scores (batch_order ms scores) (replicate (length payloads) None) g2)
       (\<lambda>results g3. (g3, Inr (map the (filter (\<lambda>r. r \<noteq> None) results)))))))"

section \<open>Taking\<close>

definition commit_cursor :: "obs_key \<Rightarrow> int \<Rightarrow> unit gateway_step" where
  "commit_cursor k next_offset g =
     (if Option.is_none (gs_store g) then (g, Inr ())
      else (case try_then (now_unix_ms g) (\<lambda>now. in_store (store_set_cursor k next_offset (Some now))) of
              (g1, Inl e) \<Rightarrow>
                (if is_persistence_exn e then metric_add ''durable_persistence_failures'' 1 g1 else g1, Inl e)
            | (g1, Inr _) \<Rightarrow> (metric_add ''durable_cursor_commits'' 1 g1, Inr ())))"

definition set_consumer :: "obs_key \<Rightarrow> int \<Rightarrow> gateway \<Rightarrow> gateway" where
  "set_consumer k n g = g\<lparr>gs_consumers := AList.update k n (gs_consumers g)\<rparr>"

text \<open>The first retained record at or after the cursor.\<close>

definition next_record :: "topic_history \<Rightarrow> int \<Rightarrow> stored_frame option" where
  "next_record h cursor = find (\<lambda>r. \<not> sf_offset r < cursor) (th_records h)"

definition take_from :: "obs_key \<Rightarrow> topic_history \<Rightarrow> string option gateway_step" where
  "take_from k h g0 =
     (let stored = (case map_of (gs_consumers g0) k of None \<Rightarrow> base_offset h | Some n \<Rightarrow> n);
          overrun = stored < base_offset h;
          cursor = (if overrun then base_offset h else stored);
          g = (if overrun then metric_add ''consumer_overruns'' 1 g0 else g0)
      in case next_record h cursor of
           Some r \<Rightarrow>
             try_then (commit_cursor k (sf_offset r + 1) g) (\<lambda>_ g1.
               (metric_add ''dequeued_frames'' 1 (set_consumer k (sf_offset r + 1) g1),
                Inr (Some (sf_payload r))))
         | None \<Rightarrow>
             let n = max cursor (th_next_offset h)
             in try_then (commit_cursor k n g) (\<lambda>_ g1.
                  (metric_add ''empty_takes'' 1 (set_consumer k n g1), Inr None)))"

definition take_frame :: "int \<Rightarrow> string \<Rightarrow> string \<Rightarrow> string option gateway_step" where
  "take_frame domain_id topic consumer_id g =
     (case map_of (gs_topics g) (domain_id, topic) of
        None \<Rightarrow> (metric_add ''empty_takes'' 1 g, Inr None)
      | Some h \<Rightarrow> take_from (domain_id, topic, consumer_id) h g)"

section \<open>Lease and closing\<close>

definition is_unavailable_exn :: "gw_exn \<Rightarrow> bool" where
  "is_unavailable_exn e \<longleftrightarrow> (case e of FramePersistenceUnavailableError _ \<Rightarrow> True | _ \<Rightarrow> False)"

definition close_gateway :: "unit gateway_step" where
  "close_gateway g =
     (if Option.is_none (gs_store g) then (g, Inr ())
      else if gs_writer_id g = None then (close_store g, Inr ())
      else (case try_then (now_unix_ms g) (\<lambda>now. in_store (store_release_lease now)) of
              (g1, Inl e) \<Rightarrow>
                if is_unavailable_exn e
                then (close_store (metric_add ''durable_persistence_failures'' 1 g1), Inr ())
                else (close_store g1, Inl e)
            | (g1, Inr _) \<Rightarrow> (close_store g1, Inr ())))"

definition renew_gateway_lease :: "int gateway_step" where
  "renew_gateway_lease g =
     (if Option.is_none (gs_store g) \<or> gs_writer_id g = None
      then (g, persistence ''durable writer lease is not configured'')
      else (case try_then (now_unix_ms g) (\<lambda>now. in_store (store_renew_lease now)) of
              (g1, Inl e) \<Rightarrow>
                (if is_persistence_exn e then metric_add ''durable_writer_lease_failures'' 1 g1 else g1, Inl e)
            | (g1, Inr expires) \<Rightarrow>
                (metric_add ''durable_writer_lease_renewals'' 1 g1, Inr expires)))"

end
