(* ===== verification/WriterLease.thy ===== *)
theory WriterLease
  imports GatewayState
begin

text \<open>
  \<open>fleetqox/quic_gateway_lease.py\<close> and \<open>fleetqox/raft_writer_lease.py\<close>: how a standby gateway waits
  until it may write, by trying to construct a writer state or by polling the replica beside it. What an
  attempt or a poll finds and what the clock says at each reading are parameters; the readings are numbered
  in the order of the code. A wait that never ends is None.
\<close>

section \<open>Polling\<close>

text \<open>A loop without a bound: the step gives the state of the next round, or a result.\<close>

partial_function (option) poll :: "(nat \<Rightarrow> 's \<Rightarrow> 's + 'r) \<Rightarrow> nat \<Rightarrow> 's \<Rightarrow> 'r option" where
  "poll step k s = (case step k s of Inr r \<Rightarrow> Some r | Inl s' \<Rightarrow> poll step (Suc k) s')"

text \<open>What the callers can see of a wait: the calls of \<open>on_wait\<close> and the sleeps in seconds.\<close>

record waiting =
  wt_reported :: bool
  wt_on_wait_calls :: nat
  wt_sleeps :: "pyfloat list"

definition not_waited :: waiting where
  "not_waited = \<lparr>wt_reported = False, wt_on_wait_calls = 0, wt_sleeps = []\<rparr>"

text \<open>\<open>n / 1000.0\<close> for an integer.\<close>

definition milliseconds :: "int \<Rightarrow> pyfloat outcome" where
  "milliseconds n = map_sum id (\<lambda>x. fdiv x (dbl 1000)) (py_float_of_int n)"

text \<open>Report the first wait, then sleep for the retry interval but no longer than the deadline is away.\<close>

definition report_wait :: "waiting \<Rightarrow> waiting" where
  "report_wait w =
     w\<lparr>wt_reported := True, wt_on_wait_calls := wt_on_wait_calls w + (if wt_reported w then 0 else 1)\<rparr>"

definition sleep :: "pyfloat \<Rightarrow> waiting \<Rightarrow> waiting" where
  "sleep seconds w = w\<lparr>wt_sleeps := wt_sleeps w @ [seconds]\<rparr>"

section \<open>The writer state\<close>

fun contains_text :: "string \<Rightarrow> string \<Rightarrow> bool" where
  "contains_text pat [] = (pat = [])"
| "contains_text pat (c # s) = (take (length pat) (c # s) = pat \<or> contains_text pat s)"

text \<open>Another holder's lease, or a store that cannot be reached.\<close>

definition retryable :: "gw_exn \<Rightarrow> bool" where
  "retryable e \<longleftrightarrow>
     (case e of
        FramePersistenceError m \<Rightarrow> contains_text ''durable writer lease is held by'' m
      | FramePersistenceUnavailableError m \<Rightarrow> True
      | _ \<Rightarrow> False)"

record lease_acquisition =
  la_wait_configured :: bool
  la_attempts :: int
  la_wait_ms :: int
  la_unavailable_retries :: int

record lease_wait =
  lw_waiting :: waiting
  lw_unavailable_retries :: int

definition timed_out :: gw_exn where
  "timed_out = FramePersistenceError ''timed out waiting for durable writer lease or state availability''"

text \<open>\<open>max(0, round(x))\<close>\<close>

definition rounded_ms :: "pyfloat \<Rightarrow> int outcome" where
  "rounded_ms x =
     (case x of
        Fin q \<Rightarrow> Inr (max 0 (round_even q))
      | NaN \<Rightarrow> Inl (ValueError ''cannot convert float NaN to integer'')
      | _ \<Rightarrow> Inl OverflowError)"

text \<open>Attempt k reads the clock once after the factory returned or raised; reading 0 is the start.\<close>

definition lease_attempt ::
    "(nat \<Rightarrow> 's gw_result) \<Rightarrow> (nat \<Rightarrow> pyfloat) \<Rightarrow> pyfloat \<Rightarrow> int \<Rightarrow> nat \<Rightarrow> lease_wait \<Rightarrow>
     lease_wait + (('s \<times> lease_acquisition) gw_result \<times> waiting)" where
  "lease_attempt factory clock timeout retry_ms k w =
     (case factory k of
        Inr state \<Rightarrow>
          (case rounded_ms ((clock (Suc k) - clock 0) * dbl 1000) of
             Inl e \<Rightarrow> Inr (Inl (PyExn e), lw_waiting w)
           | Inr ms \<Rightarrow>
               Inr (Inr (state, \<lparr>la_wait_configured = 0 < timeout, la_attempts = int (Suc k), la_wait_ms = ms,
                   la_unavailable_retries = lw_unavailable_retries w\<rparr>), lw_waiting w))
      | Inl e \<Rightarrow>
          if \<not> is_persistence_exn e then Inr (Inl e, lw_waiting w)
          else
            let remaining = clock 0 + timeout - clock (Suc k)
            in if \<not> retryable e \<or> timeout \<le> 0 \<or> remaining \<le> 0
               then Inr (Inl (if retryable e \<and> 0 < timeout \<and> remaining \<le> 0 then timed_out else e), lw_waiting w)
               else
                 let w' = report_wait (lw_waiting w)
                 in case milliseconds retry_ms of
                      Inl e' \<Rightarrow> Inr (Inl (PyExn e'), w')
                    | Inr retry \<Rightarrow>
                        Inl \<lparr>lw_waiting = sleep (py_min retry remaining) w',
                             lw_unavailable_retries = lw_unavailable_retries w + (if is_unavailable_exn e then 1 else 0)\<rparr>)"

definition acquire_gateway_state ::
    "(nat \<Rightarrow> 's gw_result) \<Rightarrow> (nat \<Rightarrow> pyfloat) \<Rightarrow> int \<Rightarrow> int \<Rightarrow> (('s \<times> lease_acquisition) gw_result \<times> waiting) option" where
  "acquire_gateway_state factory clock wait_timeout_ms retry_ms =
     (if wait_timeout_ms < 0 \<or> retry_ms \<le> 0
      then Some (Inl (PyExn (ValueError ''writer lease wait configuration is invalid'')), not_waited)
      else case milliseconds wait_timeout_ms of
        Inl e \<Rightarrow> Some (Inl (PyExn e), not_waited)
      | Inr timeout \<Rightarrow>
          poll (lease_attempt factory clock timeout retry_ms) 0 \<lparr>lw_waiting = not_waited, lw_unavailable_retries = 0\<rparr>)"

section \<open>The replica beside the gateway\<close>

record raft_leader_lease =
  rl_status_url :: string
  rl_timeout_s :: pyfloat

definition new_raft_leader_lease :: "string \<Rightarrow> pyfloat \<Rightarrow> raft_leader_lease outcome" where
  "new_raft_leader_lease url timeout =
     (if url = [] then Inl (ValueError ''Raft status URL must be configured'')
      else if timeout \<le> 0 then Inl (ValueError ''Raft status poll timeout must be positive'')
      else Inr \<lparr>rl_status_url = rev (dropWhile (\<lambda>c. c = CHR ''/'') (rev url)) @ ''/status'', rl_timeout_s = timeout\<rparr>)"

text \<open>From the body of the reply, if there was one.\<close>

definition current_status :: "string option \<Rightarrow> py_dict option" where
  "current_status body =
     (case body of
        None \<Rightarrow> None
      | Some bytes \<Rightarrow>
          (case decode_utf8 bytes of
             Inl _ \<Rightarrow> None
           | Inr text \<Rightarrow> (case json_loads text of Inr (PDict d) \<Rightarrow> Some d | _ \<Rightarrow> None)))"

fun equals_int :: "py_obj \<Rightarrow> int \<Rightarrow> bool" where
  "equals_int (PInt j) i = (j = i)"
| "equals_int (PBool b) i = ((if b then 1 else 0) = i)"
| "equals_int (PFloat x) i = (x = Fin (of_int i))"
| "equals_int _ i = False"

definition is_still_leader :: "int \<Rightarrow> string option \<Rightarrow> bool" where
  "is_still_leader expected_term body \<longleftrightarrow>
     (case current_status body of
        None \<Rightarrow> False
      | Some d \<Rightarrow> dget d ''role'' = PStr ''leader'' \<and> equals_int (dget d ''term'') expected_term)"

text \<open>\<open>isinstance(term, int)\<close> holds of a bool, which counts as 0 or 1.\<close>

definition leader_term :: "string option \<Rightarrow> int option" where
  "leader_term body =
     (case current_status body of
        None \<Rightarrow> None
      | Some d \<Rightarrow>
          if dget d ''role'' \<noteq> PStr ''leader'' then None
          else (case dget d ''term'' of
                  PInt t \<Rightarrow> Some t | PBool b \<Rightarrow> Some (if b then 1 else 0) | _ \<Rightarrow> None))"

datatype raft_lease_error = RaftLeaseError string | RaftLeasePython py_exn

definition leader_poll ::
    "(nat \<Rightarrow> string option) \<Rightarrow> (nat \<Rightarrow> pyfloat) \<Rightarrow> int \<Rightarrow> int \<Rightarrow> pyfloat \<Rightarrow> nat \<Rightarrow> waiting \<Rightarrow>
     waiting + ((raft_lease_error + int) \<times> waiting)" where
  "leader_poll bodies clock wait_timeout_ms retry_ms timeout k w =
     (case leader_term (bodies k) of
        Some t \<Rightarrow> Inr (Inr t, w)
      | None \<Rightarrow>
          let remaining = clock 0 + timeout - clock (Suc k)
          in if wait_timeout_ms \<le> 0 \<or> remaining \<le> 0
             then Inr (Inl (RaftLeaseError ''timed out waiting to become the Raft-elected leader''), w)
             else
               let w' = report_wait w
               in case milliseconds retry_ms of
                    Inl e \<Rightarrow> Inr (Inl (RaftLeasePython e), w')
                  | Inr retry \<Rightarrow> Inl (sleep (py_min retry remaining) w'))"

definition require_leadership ::
    "(nat \<Rightarrow> string option) \<Rightarrow> (nat \<Rightarrow> pyfloat) \<Rightarrow> int \<Rightarrow> int \<Rightarrow> ((raft_lease_error + int) \<times> waiting) option" where
  "require_leadership bodies clock wait_timeout_ms retry_ms =
     (if retry_ms \<le> 0 then Some (Inl (RaftLeasePython (ValueError ''Raft lease retry interval must be positive'')), not_waited)
      else case milliseconds wait_timeout_ms of
        Inl e \<Rightarrow> Some (Inl (RaftLeasePython e), not_waited)
      | Inr timeout \<Rightarrow> poll (leader_poll bodies clock wait_timeout_ms retry_ms timeout) 0 not_waited)"

section \<open>How a wait ends\<close>

text \<open>The state before round n, while no round before it gave a result.\<close>

primrec poll_state :: "(nat \<Rightarrow> 's \<Rightarrow> 's + 'r) \<Rightarrow> 's \<Rightarrow> nat \<Rightarrow> 's option" where
  "poll_state step s 0 = Some s"
| "poll_state step s (Suc n) =
     (case poll_state step s n of
        None \<Rightarrow> None | Some s' \<Rightarrow> (case step n s' of Inl s'' \<Rightarrow> Some s'' | Inr _ \<Rightarrow> None))"

lemma poll_from: "poll_state step s n = Some s' \<Longrightarrow> poll step 0 s = poll step n s'"
proof (induction n arbitrary: s')
  case (Suc n)
  then obtain s1 where s1: "poll_state step s n = Some s1" "step n s1 = Inl s'" by (auto split: option.splits sum.splits)
  then have "poll step n s1 = poll step (Suc n) s'" by (subst poll.simps) simp
  with Suc.IH [OF s1(1)] show ?case by simp
qed simp

lemma poll_ends: "poll_state step s n = Some s' \<Longrightarrow> step n s' = Inr r \<Longrightarrow> poll step 0 s = Some r"
  by (simp add: poll_from) (simp add: poll.simps)

lemma poll_returns:
  assumes "poll step 0 s = Some r"
  shows "\<exists>n s'. poll_state step s n = Some s' \<and> step n s' = Inr r"
proof -
  have "\<forall>s0. poll_state step s0 k = Some s' \<longrightarrow> (\<exists>n s'. poll_state step s0 n = Some s' \<and> step n s' = Inr r)"
    if "poll step k s' = Some r" for k s'
    using that
  proof (rule poll.raw_induct [where P = "\<lambda>step k s' r. \<forall>s0. poll_state step s0 k = Some s' \<longrightarrow>
        (\<exists>n s'. poll_state step s0 n = Some s' \<and> step n s' = Inr r)", rotated])
    fix rec :: "(nat \<Rightarrow> 'b \<Rightarrow> 'b + 'a) \<Rightarrow> nat \<Rightarrow> 'b \<Rightarrow> 'a option" and step k s' r
    assume IH: "\<And>step k s' r. rec step k s' = Some r \<Longrightarrow>
        \<forall>s0. poll_state step s0 k = Some s' \<longrightarrow> (\<exists>n s'. poll_state step s0 n = Some s' \<and> step n s' = Inr r)"
      and run: "(case step k s' of Inl s'' \<Rightarrow> rec step (Suc k) s'' | Inr r \<Rightarrow> Some r) = Some r"
    show "\<forall>s0. poll_state step s0 k = Some s' \<longrightarrow> (\<exists>n s'. poll_state step s0 n = Some s' \<and> step n s' = Inr r)"
    proof (cases "step k s'")
      case (Inl s'')
      then have "poll_state step s0 (Suc k) = Some s''" if "poll_state step s0 k = Some s'" for s0 using that by simp
      with IH [of step "Suc k" s'' r] run Inl show ?thesis by auto
    qed (use run in auto)
  qed
  with assms show ?thesis by simp
qed

lemma poll_forever: "(\<And>n s' r. poll_state step s n = Some s' \<Longrightarrow> step n s' \<noteq> Inr r) \<Longrightarrow> poll step 0 s = None"
  using poll_returns by (metis option.exhaust)

section \<open>Waiting for the writer lease\<close>

text \<open>Attempt k fails, but the wait goes on.\<close>

definition goes_on :: "(nat \<Rightarrow> 's gw_result) \<Rightarrow> (nat \<Rightarrow> pyfloat) \<Rightarrow> pyfloat \<Rightarrow> nat \<Rightarrow> bool" where
  "goes_on factory clock timeout k \<longleftrightarrow>
     (case factory k of
        Inr _ \<Rightarrow> False
      | Inl e \<Rightarrow> retryable e \<and> \<not> timeout \<le> 0 \<and> \<not> clock 0 + timeout - clock (Suc k) \<le> 0)"

definition sleep_at :: "(nat \<Rightarrow> pyfloat) \<Rightarrow> pyfloat \<Rightarrow> pyfloat \<Rightarrow> nat \<Rightarrow> pyfloat" where
  "sleep_at clock timeout retry k = py_min retry (clock 0 + timeout - clock (Suc k))"

text \<open>The waits before attempt n, and the failures among them for want of the store.\<close>

definition waits_before :: "(nat \<Rightarrow> pyfloat) \<Rightarrow> pyfloat \<Rightarrow> pyfloat \<Rightarrow> nat \<Rightarrow> waiting" where
  "waits_before clock timeout retry n =
     \<lparr>wt_reported = (0 < n), wt_on_wait_calls = min 1 n, wt_sleeps = map (sleep_at clock timeout retry) [0..<n]\<rparr>"

definition unavailable_before :: "(nat \<Rightarrow> 's gw_result) \<Rightarrow> nat \<Rightarrow> nat" where
  "unavailable_before factory n =
     length (filter (\<lambda>k. case factory k of Inl e \<Rightarrow> is_unavailable_exn e | Inr _ \<Rightarrow> False) [0..<n])"

definition final_attempt ::
    "(nat \<Rightarrow> 's gw_result) \<Rightarrow> (nat \<Rightarrow> pyfloat) \<Rightarrow> pyfloat \<Rightarrow> nat \<Rightarrow> ('s \<times> lease_acquisition) gw_result" where
  "final_attempt factory clock timeout n =
     (case factory n of
        Inl e \<Rightarrow> Inl (if retryable e \<and> 0 < timeout then timed_out else e)
      | Inr state \<Rightarrow>
          (case rounded_ms ((clock (Suc n) - clock 0) * dbl 1000) of
             Inl e \<Rightarrow> Inl (PyExn e)
           | Inr ms \<Rightarrow> Inr (state, \<lparr>la_wait_configured = 0 < timeout, la_attempts = int (Suc n), la_wait_ms = ms,
               la_unavailable_retries = int (unavailable_before factory n)\<rparr>)))"

lemma waits_before_simps:
  "waits_before clock timeout retry 0 = not_waited"
  "sleep (sleep_at clock timeout retry n) (report_wait (waits_before clock timeout retry n)) =
     waits_before clock timeout retry (Suc n)"
  by (simp_all add: waits_before_def not_waited_def sleep_def report_wait_def)

lemma retryable_persistence: "retryable e \<Longrightarrow> is_persistence_exn e"
  by (cases e) (simp_all add: retryable_def)

lemma lease_state_before:
  assumes "milliseconds retry_ms = Inr retry" "\<And>k. k < n \<Longrightarrow> goes_on factory clock timeout k"
  shows "poll_state (lease_attempt factory clock timeout retry_ms) \<lparr>lw_waiting = not_waited, lw_unavailable_retries = 0\<rparr> n =
    Some \<lparr>lw_waiting = waits_before clock timeout retry n, lw_unavailable_retries = int (unavailable_before factory n)\<rparr>"
  using assms(2)
proof (induction n)
  case (Suc n)
  then have go: "goes_on factory clock timeout n" by simp
  then obtain e where e: "factory n = Inl e" "retryable e" "\<not> timeout \<le> 0" "\<not> clock 0 + timeout - clock (Suc n) \<le> 0"
    by (auto simp: goes_on_def split: sum.splits)
  show ?case using Suc e retryable_persistence [OF e(2)]
    by (simp add: lease_attempt_def Let_def assms(1) unavailable_before_def flip: waits_before_simps(2) sleep_at_def)
qed (simp add: unavailable_before_def waits_before_simps)

lemma lease_stops:
  assumes "\<not> goes_on factory clock timeout n"
  shows "lease_attempt factory clock timeout retry_ms n \<lparr>lw_waiting = w, lw_unavailable_retries = int (unavailable_before factory n)\<rparr> =
    Inr (final_attempt factory clock timeout n, w)"
proof (cases "factory n")
  case (Inl e)
  have "\<not> timeout \<le> 0" if "0 < timeout" using that by (cases timeout) (simp_all add: zero_pyfloat_def)
  with assms Inl retryable_persistence [of e] show ?thesis
    by (auto simp: lease_attempt_def final_attempt_def goes_on_def Let_def)
qed (simp add: lease_attempt_def final_attempt_def split: sum.splits)

text \<open>C20: what the wait for the writer lease does, in closed form. If the attempts before attempt n are the
  ones that fail retryably with time left, and attempt n is not, the wait ends with attempt n: with its
  state and the exact statistics, with its error, or timed out; \<open>on_wait\<close> was called once if there was a wait at
  all, and each sleep was the retry interval, or what was left of the time.\<close>

theorem lease_wait_exact:
  assumes "0 \<le> wait_timeout_ms" "0 < retry_ms" "milliseconds wait_timeout_ms = Inr timeout" "milliseconds retry_ms = Inr retry"
    and "\<forall>k < n. goes_on factory clock timeout k" "\<not> goes_on factory clock timeout n"
  shows "acquire_gateway_state factory clock wait_timeout_ms retry_ms =
    Some (final_attempt factory clock timeout n, waits_before clock timeout retry n)"
proof -
  note before = lease_state_before [OF assms(4), of n factory clock timeout]
  have "poll (lease_attempt factory clock timeout retry_ms) 0 \<lparr>lw_waiting = not_waited, lw_unavailable_retries = 0\<rparr> =
      Some (final_attempt factory clock timeout n, waits_before clock timeout retry n)"
    by (rule poll_ends [OF before lease_stops [OF assms(6)]]) (use assms(5) in blast)
  with assms(1-3) show ?thesis by (simp add: acquire_gateway_state_def)
qed

text \<open>C32: the wait ends exactly if some attempt is not a retryable failure with time left; so it ends once
  the clock has passed the deadline, whatever the store does.\<close>

theorem lease_wait_ends:
  assumes "0 \<le> wait_timeout_ms" "0 < retry_ms" "milliseconds wait_timeout_ms = Inr timeout" "milliseconds retry_ms = Inr retry"
  shows "(acquire_gateway_state factory clock wait_timeout_ms retry_ms \<noteq> None \<longleftrightarrow> (\<exists>n. \<not> goes_on factory clock timeout n)) \<and>
    (clock 0 + timeout - clock (Suc n) \<le> 0 \<longrightarrow> acquire_gateway_state factory clock wait_timeout_ms retry_ms \<noteq> None)"
proof -
  have "acquire_gateway_state factory clock wait_timeout_ms retry_ms \<noteq> None" if "\<not> goes_on factory clock timeout n" for n
  proof -
    from that obtain m where "\<not> goes_on factory clock timeout m" "\<forall>k < m. goes_on factory clock timeout k"
      using exists_least_iff [of "\<lambda>n. \<not> goes_on factory clock timeout n"] \<open>\<not> goes_on factory clock timeout n\<close> by auto
    with lease_wait_exact [OF assms, of m factory clock] show ?thesis by simp
  qed
  moreover have "acquire_gateway_state factory clock wait_timeout_ms retry_ms = None" if "\<forall>n. goes_on factory clock timeout n"
  proof -
    have "poll (lease_attempt factory clock timeout retry_ms) 0 \<lparr>lw_waiting = not_waited, lw_unavailable_retries = 0\<rparr> = None"
    proof (rule poll_forever)
      fix n s' r
      let ?step = "lease_attempt factory clock timeout retry_ms" and ?s = "\<lparr>lw_waiting = not_waited, lw_unavailable_retries = 0\<rparr>"
      assume "poll_state ?step ?s n = Some s'"
      with lease_state_before [OF assms(4), of "Suc n" factory clock timeout] that show "?step n s' \<noteq> Inr r"
        by (auto split: sum.splits)
    qed
    with assms(1-3) show ?thesis by (simp add: acquire_gateway_state_def)
  qed
  moreover have "\<not> goes_on factory clock timeout n" if "clock 0 + timeout - clock (Suc n) \<le> 0" for n
    using that by (simp add: goes_on_def split: sum.splits)
  ultimately show ?thesis by (intro conjI iffI impI; metis)
qed

definition demo_factory :: "nat \<Rightarrow> string gw_result" where
  "demo_factory k =
     (if k = 0 then Inl (FramePersistenceError ''durable writer lease is held by other'')
      else if k = 1 then Inl (FramePersistenceUnavailableError ''backend unavailable'')
      else Inr ''writer'')"

definition demo_clock :: "nat \<Rightarrow> pyfloat" where
  "demo_clock k = dbl (10 + of_nat k / 4)"

lemma demo_times: "milliseconds 2000 = Inr (dbl 2)" "milliseconds 500 = Inr (dbl (1/2))"
  by code_simp+

lemma demo_goes_on: "\<forall>k < 2. goes_on demo_factory demo_clock (dbl 2) k" "\<not> goes_on demo_factory demo_clock (dbl 2) 2"
proof -
  have "goes_on demo_factory demo_clock (dbl 2) 0" "goes_on demo_factory demo_clock (dbl 2) 1"
    "\<not> goes_on demo_factory demo_clock (dbl 2) 2" by code_simp+
  then show "\<forall>k < 2. goes_on demo_factory demo_clock (dbl 2) k" "\<not> goes_on demo_factory demo_clock (dbl 2) 2"
    by (auto simp: less_2_cases_iff)
qed

theorem lease_wait_exact_witness:
  "acquire_gateway_state demo_factory demo_clock 2000 500 =
     Some (Inr (''writer'', \<lparr>la_wait_configured = True, la_attempts = 3, la_wait_ms = 750, la_unavailable_retries = 1\<rparr>),
       \<lparr>wt_reported = True, wt_on_wait_calls = 1, wt_sleeps = [dbl (1/2), dbl (1/2)]\<rparr>)"
proof -
  have "final_attempt demo_factory demo_clock (dbl 2) 2 =
      Inr (''writer'', \<lparr>la_wait_configured = True, la_attempts = 3, la_wait_ms = 750, la_unavailable_retries = 1\<rparr>)"
    "waits_before demo_clock (dbl 2) (dbl (1/2)) 2 =
      \<lparr>wt_reported = True, wt_on_wait_calls = 1, wt_sleeps = [dbl (1/2), dbl (1/2)]\<rparr>" by code_simp+
  with lease_wait_exact [OF _ _ demo_times demo_goes_on] show ?thesis by simp
qed

theorem lease_wait_ends_witness:
  "acquire_gateway_state (\<lambda>k. Inl (FramePersistenceUnavailableError ''down'') :: string gw_result) demo_clock 2000 500 \<noteq> None \<and>
   acquire_gateway_state demo_factory demo_clock 2000 500 \<noteq> None"
proof -
  have late: "demo_clock 0 + dbl 2 - demo_clock (Suc 7) \<le> 0" by code_simp
  have "\<exists>n. \<not> goes_on demo_factory demo_clock (dbl 2) n" using demo_goes_on(2) by blast
  with lease_wait_ends [OF _ _ demo_times, of demo_factory demo_clock]
    lease_wait_ends [OF _ _ demo_times, of "\<lambda>k. Inl (FramePersistenceUnavailableError ''down'')" demo_clock 7] late
  show ?thesis by auto
qed

section \<open>Waiting for leadership\<close>

lemma leader_state_before:
  assumes "milliseconds retry_ms = Inr retry" "0 < wait_timeout_ms"
    "\<And>k. k < n \<Longrightarrow> leader_term (bodies k) = None \<and> \<not> clock 0 + timeout - clock (Suc k) \<le> 0"
  shows "poll_state (leader_poll bodies clock wait_timeout_ms retry_ms timeout) not_waited n =
    Some (waits_before clock timeout retry n)"
  using assms(3)
  by (induction n) (simp_all add: waits_before_simps(1) leader_poll_def Let_def assms(1,2) not_le
      flip: waits_before_simps(2) sleep_at_def)

text \<open>Waiting for leadership returns a term only if the replica reported itself as the leader of that
  term at the last poll, after polls that did not, each with time left; it gives up only at a poll without
  leadership and without time left, or at the first one if no wait is configured.\<close>

theorem leadership_exact:
  assumes "0 < retry_ms" "0 < wait_timeout_ms" "milliseconds wait_timeout_ms = Inr timeout" "milliseconds retry_ms = Inr retry"
    and "\<forall>k < n. leader_term (bodies k) = None \<and> \<not> clock 0 + timeout - clock (Suc k) \<le> 0"
    and "leader_term (bodies n) \<noteq> None \<or> clock 0 + timeout - clock (Suc n) \<le> 0"
  shows "require_leadership bodies clock wait_timeout_ms retry_ms =
    Some (case leader_term (bodies n) of
            Some t \<Rightarrow> Inr t
          | None \<Rightarrow> Inl (RaftLeaseError ''timed out waiting to become the Raft-elected leader''),
          waits_before clock timeout retry n)"
proof -
  note before = leader_state_before [OF assms(4,2), of n bodies clock timeout]
  have "poll (leader_poll bodies clock wait_timeout_ms retry_ms timeout) 0 not_waited =
    Some (case leader_term (bodies n) of
            Some t \<Rightarrow> Inr t
          | None \<Rightarrow> Inl (RaftLeaseError ''timed out waiting to become the Raft-elected leader''),
          waits_before clock timeout retry n)"
    by (rule poll_ends [OF before]) (use assms(5,6) in \<open>auto simp: leader_poll_def Let_def split: option.splits\<close>)
  with assms(1,3) show ?thesis by (simp add: require_leadership_def)
qed

definition demo_bodies :: "nat \<Rightarrow> string option" where
  "demo_bodies k =
     (if k = 0 then None
      else if k = 1 then Some (''{'' @ dump_string ''role'' @ '':'' @ dump_string ''follower'' @ ''}'')
      else Some (''{'' @ dump_string ''role'' @ '':'' @ dump_string ''leader'' @ '','' @ dump_string ''term'' @ '': 7}''))"

theorem leadership_exact_witness:
  "require_leadership demo_bodies demo_clock 2000 500 =
     Some (Inr 7, \<lparr>wt_reported = True, wt_on_wait_calls = 1, wt_sleeps = [dbl (1/2), dbl (1/2)]\<rparr>)"
proof -
  have "leader_term (demo_bodies 0) = None" "leader_term (demo_bodies 1) = None" "leader_term (demo_bodies 2) = Some 7"
    "\<not> demo_clock 0 + dbl 2 - demo_clock (Suc 0) \<le> 0" "\<not> demo_clock 0 + dbl 2 - demo_clock (Suc 1) \<le> 0"
    "waits_before demo_clock (dbl 2) (dbl (1/2)) 2 =
      \<lparr>wt_reported = True, wt_on_wait_calls = 1, wt_sleeps = [dbl (1/2), dbl (1/2)]\<rparr>" by code_simp+
  note facts = this
  have "\<forall>k < 2. leader_term (demo_bodies k) = None \<and> \<not> demo_clock 0 + dbl 2 - demo_clock (Suc k) \<le> 0"
    using facts(1,2,4,5) by (auto simp: less_2_cases_iff)
  from leadership_exact [OF _ _ demo_times this] facts(3,6) show ?thesis by simp
qed

end
