(* ===== verification/RmwFrame.thy ===== *)
theory RmwFrame
  imports Digest
begin

text \<open>
  The data-plane frame codec of \<open>fleetqox/rmw_frame.py\<close>: the value helpers it shares with
  \<open>rmw_ack.py\<close>, the frame built from a sidecar event and the event rebuilt from a frame, the
  frame identifier, and the byte encoding with its magic prefix and space padding.
\<close>

section \<open>Helpers\<close>

definition optional_str :: "py_obj \<Rightarrow> string option" where
  "optional_str v = (if v = PNone \<or> v = PStr [] then None else Some (py_str v))"

text \<open>\<open>except (TypeError, ValueError)\<close>; an OverflowError is not caught.\<close>

definition catch_conversion :: "'a outcome \<Rightarrow> 'a option outcome" where
  "catch_conversion r =
     (case r of
        Inr x \<Rightarrow> Inr (Some x)
      | Inl e \<Rightarrow> if e = TypeError \<or> is_value_error e then Inr None else Inl e)"

definition optional_int :: "py_obj \<Rightarrow> int option outcome" where
  "optional_int v =
     (if v = PNone \<or> v = PStr [] then Inr None else catch_conversion (int_of_float_of v))"

definition optional_float :: "py_obj \<Rightarrow> pyfloat option outcome" where
  "optional_float v =
     (if v = PNone \<or> v = PStr [] then Inr None else catch_conversion (py_float v))"

definition mapping_of :: "py_obj \<Rightarrow> py_dict" where
  "mapping_of v = (case v of PDict d \<Rightarrow> d | _ \<Rightarrow> [])"

primrec strip_none :: "py_obj \<Rightarrow> py_obj" where
  "strip_none PNone = PNone"
| "strip_none (PBool b) = PBool b"
| "strip_none (PInt i) = PInt i"
| "strip_none (PFloat x) = PFloat x"
| "strip_none (PStr s) = PStr s"
| "strip_none (PList xs) = PList (filter (\<lambda>v. \<not> is_none v) (map strip_none xs))"
| "strip_none (PDict d) =
     PDict (filter (\<lambda>(k, v). \<not> is_none v) (map (map_prod id strip_none) d))"

text \<open>A dictionary literal whose values may raise, evaluated in order.\<close>

definition dict_literal :: "(string \<times> py_obj outcome) list \<Rightarrow> py_dict outcome" where
  "dict_literal = map_outcome (\<lambda>(k, r). map_sum id (\<lambda>v. (k, v)) r)"

definition str_field :: "py_dict \<Rightarrow> string \<Rightarrow> string \<times> py_obj outcome" where
  "str_field d k = (k, Inr (of_optional PStr (optional_str (dget d k))))"

definition int_field :: "py_dict \<Rightarrow> string \<Rightarrow> string \<times> py_obj outcome" where
  "int_field d k = (k, map_sum id (of_optional PInt) (optional_int (dget d k)))"

definition float_field :: "py_dict \<Rightarrow> string \<Rightarrow> string \<times> py_obj outcome" where
  "float_field d k = (k, map_sum id (of_optional PFloat) (optional_float (dget d k)))"

definition sub_dict :: "string \<Rightarrow> (string \<times> py_obj outcome) list \<Rightarrow> string \<times> py_obj outcome" where
  "sub_dict k fs = (k, map_sum id PDict (dict_literal fs))"

section \<open>Identifier and bytes\<close>

definition DATA_FRAME_SCHEMA_VERSION :: string where
  "DATA_FRAME_SCHEMA_VERSION = ''fleetrmw.data_frame.v1''"

definition DATA_FRAME_MAGIC :: string where
  "DATA_FRAME_MAGIC = ''FRMW1'' @ [CHR 0x0A]"

definition frame_id_for_payload :: "py_dict \<Rightarrow> string outcome" where
  "frame_id_for_payload frame =
     map_sum id (\<lambda>encoded. ''ffrm1-'' @ take 32 (sha256_hex encoded))
       (json_dumps False (PDict
          [(''schema_version'', PStr ''fleetrmw.data_frame_id.v1''),
           (''contract'', dget frame ''contract''),
           (''route'', dget frame ''route''),
           (''timing'', dget frame ''timing''),
           (''sample_envelope'', dget frame ''sample_envelope'')]))"

definition encode_data_frame :: "py_dict \<Rightarrow> int option \<Rightarrow> string outcome" where
  "encode_data_frame frame target =
     (case json_dumps False (PDict frame) of
        Inl e \<Rightarrow> Inl e
      | Inr text \<Rightarrow>
          let body = DATA_FRAME_MAGIC @ text
          in case target of
               None \<Rightarrow> Inr body
             | Some n \<Rightarrow>
                 if py_len body \<ge> n then Inr body
                 else Inr (body @ replicate (nat (n - py_len body)) (CHR '' '')))"

text \<open>\<open>data.rstrip(b" ")\<close>.\<close>

definition rstrip_spaces :: "string \<Rightarrow> string" where
  "rstrip_spaces s = rev (dropWhile (\<lambda>c. c = CHR '' '') (rev s))"

definition decode_data_frame :: "bool \<Rightarrow> string \<Rightarrow> py_dict option outcome" where
  "decode_data_frame validate_schema bytes =
     (case strip_prefix DATA_FRAME_MAGIC (rstrip_spaces bytes) of
        None \<Rightarrow> Inr None
      | Some body \<Rightarrow>
          (case (case decode_utf8 body of Inl e \<Rightarrow> Inl e | Inr text \<Rightarrow> json_loads text) of
             Inl e \<Rightarrow> if e = UnicodeDecodeError \<or> e = JSONDecodeError then Inr None else Inl e
           | Inr payload \<Rightarrow>
               (case payload of
                  PDict d \<Rightarrow>
                    if validate_schema \<and> dget d ''schema_version'' \<noteq> PStr DATA_FRAME_SCHEMA_VERSION
                    then Inr None else Inr (Some d)
                | _ \<Rightarrow> Inr None)))"

section \<open>Events to frames\<close>

definition add_mapping :: "py_dict \<Rightarrow> string \<Rightarrow> py_dict \<Rightarrow> py_dict" where
  "add_mapping event k frame =
     (let m = mapping_of (dget event k)
      in if m = [] then frame else AList.update k (PDict m) frame)"

definition frame_literal :: "py_dict \<Rightarrow> (string \<times> py_obj outcome) list" where
  "frame_literal event =
     [(''schema_version'', Inr (PStr DATA_FRAME_SCHEMA_VERSION)),
      (''kind'', Inr (PStr ''sidecar_packet_frame'')),
      (''frame_id'', Inr (PStr [])),
      int_field event ''event_id'',
      sub_dict ''contract'' (map (str_field event)
        [''contract_id'', ''source_sample_id'', ''policy'', ''scenario'']),
      sub_dict ''route'' (map (str_field event)
        [''src'', ''dst'', ''robot_id'', ''flow_id'', ''flow_class'', ''topic'', ''source_msg_type'']),
      sub_dict ''delivery''
        (map (str_field event) [''action'', ''wire_mode'', ''reliability'', ''qos_reliability''] @
         map (float_field event) [''deadline_ms'', ''source_deadline_ms'', ''lifespan_ms'',
           ''source_lifespan_ms'', ''liveliness_lease_ms'', ''ack_recovery_horizon_ms''] @
         map (int_field event) [''bytes'', ''original_bytes'']),
      sub_dict ''qox'' (map (float_field event) [''semantic_utility'', ''task_criticality'',
        ''collision_risk'', ''operator_attention'', ''coordination_pressure'']),
      sub_dict ''timing''
        [float_field event ''timestamp_ms'', int_field event ''tick'', float_field event ''age_ms'',
         float_field event ''predicted_slack_ms'', int_field event ''send_monotonic_ns'']]"

definition data_frame_from_sidecar_event :: "py_dict \<Rightarrow> py_dict outcome" where
  "data_frame_from_sidecar_event event =
     (case dict_literal (frame_literal event) of
        Inl e \<Rightarrow> Inl e
      | Inr frame0 \<Rightarrow>
          let frame = add_mapping event ''fleet_optimizer''
                (add_mapping event ''semantic_payload''
                  (add_mapping event ''source_metadata''
                    (add_mapping event ''sample_envelope'' frame0)))
          in case frame_id_for_payload frame of
               Inl e \<Rightarrow> Inl e
             | Inr fid \<Rightarrow> Inr (the_dict (strip_none (PDict (AList.update ''frame_id'' (PStr fid) frame)))))"

section \<open>Frames to events\<close>

text \<open>\<open>_optional_str(d.get(k)) or dflt\<close>, and the same for numbers.\<close>

definition str_or :: "string \<Rightarrow> py_dict \<Rightarrow> string \<Rightarrow> string \<times> py_obj outcome" where
  "str_or dflt d k = (k, Inr (py_or (of_optional PStr (optional_str (dget d k))) (PStr dflt)))"

definition int_or :: "int \<Rightarrow> py_dict \<Rightarrow> string \<Rightarrow> string \<times> py_obj outcome" where
  "int_or dflt d k =
     (k, map_sum id (\<lambda>r. py_or (of_optional PInt r) (PInt dflt)) (optional_int (dget d k)))"

definition float_or :: "pyfloat \<Rightarrow> py_dict \<Rightarrow> string \<Rightarrow> string \<times> py_obj outcome" where
  "float_or dflt d k =
     (k, map_sum id (\<lambda>r. py_or (of_optional PFloat r) (PFloat dflt)) (optional_float (dget d k)))"

text \<open>\<open>**({k: d[k]} if d.get(k) is not None else {})\<close>, and the variant that tests truth.\<close>

definition keep_present :: "py_dict \<Rightarrow> string \<Rightarrow> (string \<times> py_obj outcome) list" where
  "keep_present d k = (if is_none (dget d k) then [] else [(k, Inr (dget d k))])"

definition keep_true :: "py_dict \<Rightarrow> string \<Rightarrow> (string \<times> py_obj outcome) list" where
  "keep_true d k = (if py_truth (dget d k) then [(k, Inr (dget d k))] else [])"

definition keep_mapping :: "py_dict \<Rightarrow> string \<Rightarrow> (string \<times> py_obj outcome) list" where
  "keep_mapping d k =
     (let m = mapping_of (dget d k) in if m = [] then [] else [(k, Inr (PDict m))])"

definition event_literal :: "py_dict \<Rightarrow> (string \<times> py_obj outcome) list" where
  "event_literal frame =
     (let contract = mapping_of (dget frame ''contract'');
          route = mapping_of (dget frame ''route'');
          delivery = mapping_of (dget frame ''delivery'');
          timing = mapping_of (dget frame ''timing'');
          qox = mapping_of (dget frame ''qox'');
          reliability = py_or (of_optional PStr (optional_str (dget delivery ''reliability'')))
                              (PStr ''best_effort'')
      in
       [(''schema_version'', Inr (PStr ''fleetrmw.sidecar.trace.v1'')),
            (''event_type'', Inr (PStr ''packet'')),
            str_or [] contract ''scenario'',
            str_or [] contract ''policy''] @
           keep_true contract ''contract_id'' @
           keep_true contract ''source_sample_id'' @
           [int_field frame ''event_id'',
            float_or 0 timing ''timestamp_ms'',
            int_or 0 timing ''tick''] @
           map (str_or [] route)
             [''flow_id'', ''flow_class'', ''topic'', ''source_msg_type'', ''robot_id'', ''src'', ''dst''] @
           [str_or ''send'' delivery ''action'',
            int_or 0 delivery ''bytes'',
            int_or 0 delivery ''original_bytes'',
            (''degraded'', Inr (PBool (optional_str (dget delivery ''wire_mode'')
                                        \<notin> {Some [], Some ''native'', None}))),
            float_or 1 delivery ''deadline_ms''] @
           keep_present delivery ''source_deadline_ms'' @
           [float_or 1 delivery ''lifespan_ms''] @
           keep_present delivery ''source_lifespan_ms'' @
           keep_present delivery ''liveliness_lease_ms'' @
           keep_present delivery ''ack_recovery_horizon_ms'' @
           [(''qos_reliability'',
             Inr (py_or (of_optional PStr (optional_str (dget delivery ''qos_reliability''))) reliability)),
            (''reliability'', Inr reliability),
            str_or ''native'' delivery ''wire_mode'',
            float_or 0 timing ''predicted_slack_ms'',
            float_or 0 qox ''semantic_utility''] @
           keep_present timing ''send_monotonic_ns'' @
           keep_present timing ''age_ms'' @
           concat (map (keep_present qox) [''task_criticality'', ''collision_risk'',
             ''operator_attention'', ''coordination_pressure'']) @
           concat (map (keep_mapping frame) [''source_metadata'', ''sample_envelope'',
             ''semantic_payload'', ''fleet_optimizer'']) @
           [(''data_frame_id'',
             Inr (py_or (of_optional PStr (optional_str (dget frame ''frame_id''))) (PStr [])))])"

definition sidecar_event_from_data_frame :: "py_dict \<Rightarrow> py_dict outcome" where
  "sidecar_event_from_data_frame frame = dict_literal (event_literal frame)"

section \<open>Lemmas\<close>

lemma dict_literal_get:
  "dict_literal fs = Inr d \<Longrightarrow>
   dget d k = (case map_of fs k of Some (Inr v) \<Rightarrow> v | _ \<Rightarrow> PNone)"
proof (induction fs arbitrary: d)
  case Nil then show ?case by (simp add: dict_literal_def dget_def dget_or_def)
next
  case (Cons f fs)
  obtain i r where f: "f = (i, r)" by (cases f)
  with Cons(2) obtain v d' where "r = Inr v" "dict_literal fs = Inr d'" "d = (i, v) # d'"
    by (cases r) (auto simp: dict_literal_def split: sum.splits)
  then show ?case using Cons(1) f by (simp add: dget_def dget_or_def)
qed

lemma dict_literal_keys: "dict_literal fs = Inr d \<Longrightarrow> map fst d = map fst fs"
proof (induction fs arbitrary: d)
  case (Cons f fs)
  obtain i r where f: "f = (i, r)" by (cases f)
  with Cons(2) obtain v d' where "r = Inr v" "dict_literal fs = Inr d'" "d = (i, v) # d'"
    by (cases r) (auto simp: dict_literal_def split: sum.splits)
  then show ?case using Cons(1) f by simp
qed (simp add: dict_literal_def)

lemma dict_literal_defined:
  "dict_literal fs = Inr d \<Longrightarrow> (k, r) \<in> set fs \<Longrightarrow> \<exists>v. r = Inr v"
  by (induction fs arbitrary: d; cases r) (auto simp: dict_literal_def split: sum.splits)

text \<open>Stripping a dictionary with distinct keys strips each value.\<close>

lemma strip_none_get:
  assumes "distinct (map fst d)"
  shows "dget (the_dict (strip_none (PDict d))) k = strip_none (dget d k)"
  using assms
proof (induction d)
  case Nil then show ?case by (simp add: dget_def dget_or_def)
next
  case (Cons a d)
  obtain i v where a: "a = (i, v)" by (cases a)
  show ?case
  proof (cases "i = k")
    case True
    have "map_of (filter (\<lambda>(k, v). \<not> is_none v) (map (map_prod id strip_none) d)) k = None"
      if "k \<notin> fst ` set d"
      using that by (force simp: map_of_eq_None_iff)
    then show ?thesis using Cons(2) a True
      by (cases "strip_none v") (auto simp: dget_def dget_or_def)
  next
    case False
    then show ?thesis using Cons a by (simp add: dget_def dget_or_def)
  qed
qed

lemma dget_update: "dget (AList.update i v d) k = (if i = k then v else dget d k)"
  by (simp add: dget_def dget_or_def update_conv)

lemma distinct_update: "distinct (map fst d) \<Longrightarrow> distinct (map fst (AList.update i v d))"
  by (rule AList.distinct_update)

lemma strip_none_scalar [simp]:
  "strip_none (of_optional PStr a) = of_optional PStr a"
  "strip_none (of_optional PInt b) = of_optional PInt b"
  "strip_none (of_optional PFloat c) = of_optional PFloat c"
proof -
  show "strip_none (of_optional PStr a) = of_optional PStr a" by (cases a) simp_all
  show "strip_none (of_optional PInt b) = of_optional PInt b" by (cases b) simp_all
  show "strip_none (of_optional PFloat c) = of_optional PFloat c" by (cases c) simp_all
qed

lemma optional_int_small: "\<bar>i\<bar> < 2 ^ 53 \<Longrightarrow> optional_int (PInt i) = Inr (Some i)"
  using int_float_exact [of i]
  by (simp add: optional_int_def int_of_float_of_def catch_conversion_def)

lemma optional_float_float: "optional_float (PFloat x) = Inr (Some x)"
  by (simp add: optional_float_def catch_conversion_def)

lemma optional_str_str: "s \<noteq> [] \<Longrightarrow> optional_str (PStr s) = Some s"
  by (simp add: optional_str_def)

lemma map_of_keep [simp]:
  "map_of (keep_true d i) k = (if k = i \<and> py_truth (dget d i) then Some (Inr (dget d i)) else None)"
  "map_of (keep_present d i) k = (if k = i \<and> \<not> is_none (dget d i) then Some (Inr (dget d i)) else None)"
  "map_of (keep_mapping d i) k =
     (if k = i \<and> mapping_of (dget d i) \<noteq> [] then Some (Inr (PDict (mapping_of (dget d i)))) else None)"
  by (simp_all add: keep_true_def keep_present_def keep_mapping_def Let_def)

lemma literal_section:
  assumes "dict_literal fs = Inr d" "map_of fs k = Some (map_sum id PDict (dict_literal gs))"
  shows "\<exists>g. dict_literal gs = Inr g \<and> dget d k = PDict g"
proof -
  have "(k, map_sum id PDict (dict_literal gs)) \<in> set fs" using assms(2) by (rule map_of_SomeD)
  then obtain v where v: "map_sum id PDict (dict_literal gs) = Inr v"
    using dict_literal_defined [OF assms(1)] by blast
  then obtain g where "dict_literal gs = Inr g" "v = PDict g" by (cases "dict_literal gs") auto
  then show ?thesis using dict_literal_get [OF assms(1), of k] assms(2) v by simp
qed

lemma frame_literal_keys: "distinct (map fst (frame_literal e))"
  by (simp add: frame_literal_def int_field_def sub_dict_def)

lemma add_mapping_get: "k \<noteq> i \<Longrightarrow> dget (add_mapping e i d) k = dget d k"
  by (simp add: add_mapping_def dget_update Let_def)

lemma add_mapping_distinct: "distinct (map fst d) \<Longrightarrow> distinct (map fst (add_mapping e i d))"
  by (simp add: add_mapping_def distinct_update Let_def)

text \<open>What a frame holds under the keys of the literal.\<close>

lemma frame_get:
  assumes "data_frame_from_sidecar_event e = Inr f"
    and "k \<notin> {''frame_id'', ''fleet_optimizer'', ''semantic_payload'', ''source_metadata'', ''sample_envelope''}"
  shows "\<exists>d. dict_literal (frame_literal e) = Inr d \<and> dget f k = strip_none (dget d k)"
proof -
  from assms(1) obtain d fid where d: "dict_literal (frame_literal e) = Inr d"
    and f: "f = the_dict (strip_none (PDict (AList.update ''frame_id'' (PStr fid)
        (add_mapping e ''fleet_optimizer'' (add_mapping e ''semantic_payload''
           (add_mapping e ''source_metadata'' (add_mapping e ''sample_envelope'' d)))))))"
    unfolding data_frame_from_sidecar_event_def Let_def by (auto split: sum.splits)
  have "distinct (map fst d)" using dict_literal_keys [OF d] frame_literal_keys by simp
  then have "dget f k = strip_none (dget d k)"
    unfolding f using assms(2)
    by (subst strip_none_get)
      (auto simp: distinct_update add_mapping_distinct dget_update add_mapping_get)
  with d show ?thesis by blast
qed

lemma frame_section:
  assumes "data_frame_from_sidecar_event e = Inr f"
    and "k \<notin> {''frame_id'', ''fleet_optimizer'', ''semantic_payload'', ''source_metadata'', ''sample_envelope''}"
    and "map_of (frame_literal e) k = Some (map_sum id PDict (dict_literal gs))"
    and "distinct (map fst gs)" "map_of gs i = Some (Inr v)"
  shows "dget (mapping_of (dget f k)) i = strip_none v"
proof -
  obtain d where d: "dict_literal (frame_literal e) = Inr d" "dget f k = strip_none (dget d k)"
    using frame_get [OF assms(1,2)] by blast
  obtain g where g: "dict_literal gs = Inr g" "dget d k = PDict g"
    using literal_section [OF d(1) assms(3)] by blast
  have "distinct (map fst g)" using dict_literal_keys [OF g(1)] assms(4) by simp
  then have "dget (the_dict (strip_none (PDict g))) i = strip_none (dget g i)" by (rule strip_none_get)
  moreover have "mapping_of (dget f k) = the_dict (strip_none (PDict g))" by (simp add: d g mapping_of_def)
  moreover have "dget g i = v" using dict_literal_get [OF g(1), of i] assms(5) by simp
  ultimately show ?thesis by simp
qed

text \<open>One field of one section of a frame.\<close>

definition delivery_fields :: "py_dict \<Rightarrow> (string \<times> py_obj outcome) list" where
  "delivery_fields e =
     map (str_field e) [''action'', ''wire_mode'', ''reliability'', ''qos_reliability''] @
     map (float_field e) [''deadline_ms'', ''source_deadline_ms'', ''lifespan_ms'',
       ''source_lifespan_ms'', ''liveliness_lease_ms'', ''ack_recovery_horizon_ms''] @
     map (int_field e) [''bytes'', ''original_bytes'']"

definition timing_fields :: "py_dict \<Rightarrow> (string \<times> py_obj outcome) list" where
  "timing_fields e =
     [float_field e ''timestamp_ms'', int_field e ''tick'', float_field e ''age_ms'',
      float_field e ''predicted_slack_ms'', int_field e ''send_monotonic_ns'']"

lemmas fields = str_field_def int_field_def float_field_def

lemma fields_distinct:
  "distinct (map fst (delivery_fields e))" "distinct (map fst (timing_fields e))"
  by (simp_all add: delivery_fields_def timing_fields_def fields)

lemma route_field:
  assumes "data_frame_from_sidecar_event e = Inr f"
    and "k \<in> {''src'', ''dst'', ''robot_id'', ''flow_id'', ''flow_class'', ''topic'', ''source_msg_type''}"
  shows "dget (mapping_of (dget f ''route'')) k = of_optional PStr (optional_str (dget e k))"
proof -
  have "dget (mapping_of (dget f ''route'')) k = strip_none (of_optional PStr (optional_str (dget e k)))"
    by (rule frame_section [OF assms(1), where gs = "map (str_field e)
        [''src'', ''dst'', ''robot_id'', ''flow_id'', ''flow_class'', ''topic'', ''source_msg_type'']"])
      (use assms(2) in \<open>auto simp: frame_literal_def int_field_def sub_dict_def str_field_def\<close>)
  then show ?thesis by simp
qed

lemma delivery_field:
  assumes "data_frame_from_sidecar_event e = Inr f"
    and "map_of (delivery_fields e) k = Some (Inr v)"
  shows "dget (mapping_of (dget f ''delivery'')) k = strip_none v"
  by (rule frame_section [OF assms(1), where gs = "delivery_fields e"])
    (use assms(2) fields_distinct in \<open>auto simp: frame_literal_def delivery_fields_def int_field_def sub_dict_def\<close>)

lemma timing_field:
  assumes "data_frame_from_sidecar_event e = Inr f"
    and "map_of (timing_fields e) k = Some (Inr v)"
  shows "dget (mapping_of (dget f ''timing'')) k = strip_none v"
  by (rule frame_section [OF assms(1), where gs = "timing_fields e"])
    (use assms(2) fields_distinct in \<open>auto simp: frame_literal_def timing_fields_def int_field_def sub_dict_def\<close>)

lemma fst_field [simp]:
  "fst (str_or a d i) = i" "fst (int_or b d i) = i" "fst (float_or c d i) = i"
  "fst (int_field d i) = i" "fst (str_field d i) = i" "fst (float_field d i) = i"
  by (simp_all add: str_or_def int_or_def float_or_def fields)

lemma event_literal_route:
  "k \<in> {''src'', ''dst'', ''robot_id'', ''flow_id'', ''flow_class'', ''topic'', ''source_msg_type''} \<Longrightarrow>
   map_of (event_literal f) k = Some (snd (str_or [] (mapping_of (dget f ''route'')) k))"
  by (elim insertE emptyE) (simp_all add: event_literal_def Let_def map_add_def)

lemma event_literal_delivery:
  "k \<in> {''bytes'', ''original_bytes''} \<Longrightarrow>
   map_of (event_literal f) k = Some (snd (int_or 0 (mapping_of (dget f ''delivery'')) k))"
  "j \<in> {''deadline_ms'', ''lifespan_ms''} \<Longrightarrow>
   map_of (event_literal f) j = Some (snd (float_or 1 (mapping_of (dget f ''delivery'')) j))"
  by (elim insertE emptyE; simp add: event_literal_def Let_def map_add_def)+

lemma event_literal_timing:
  "map_of (event_literal f) ''tick'' = Some (snd (int_or 0 (mapping_of (dget f ''timing'')) ''tick''))"
  "k \<in> {''timestamp_ms'', ''predicted_slack_ms''} \<Longrightarrow>
   map_of (event_literal f) k = Some (snd (float_or 0 (mapping_of (dget f ''timing'')) k))"
  by (simp add: event_literal_def Let_def map_add_def)
    (elim insertE emptyE; simp add: event_literal_def Let_def map_add_def)

lemma event_get:
  assumes "sidecar_event_from_data_frame f = Inr e" "map_of (event_literal f) k = Some (Inr v)"
  shows "dget e k = v"
  using dict_literal_get [of "event_literal f" e k] assms
  by (simp add: sidecar_event_from_data_frame_def)

section \<open>Properties\<close>


definition sample_event :: py_dict where
  "sample_event = [(''topic'', PStr ''/odom'')]"

definition sample_frame :: "string \<Rightarrow> py_dict" where
  "sample_frame fid =
     [(''schema_version'', PStr DATA_FRAME_SCHEMA_VERSION), (''kind'', PStr ''sidecar_packet_frame''),
      (''frame_id'', PStr fid), (''contract'', PDict []), (''route'', PDict [(''topic'', PStr ''/odom'')]),
      (''delivery'', PDict []), (''qox'', PDict []), (''timing'', PDict [])]"

lemma sample_event_frame: "\<exists>fid. data_frame_from_sidecar_event sample_event = Inr (sample_frame fid)"
proof -
  obtain d where d: "dict_literal (frame_literal sample_event) = Inr d"
      "d = projr (dict_literal (frame_literal sample_event))"
    using dict_literal_get by (cases "dict_literal (frame_literal sample_event)") (code_simp, auto)
  have m: "map_of sample_event ''fleet_optimizer'' = None" "map_of sample_event ''semantic_payload'' = None"
    "map_of sample_event ''source_metadata'' = None" "map_of sample_event ''sample_envelope'' = None"
    by (simp_all add: sample_event_def)
  have "isl (frame_id_for_payload d) = False" unfolding d(2) frame_id_for_payload_def isl_map_sum by code_simp
  then obtain fid where fid: "frame_id_for_payload d = Inr fid" by (cases "frame_id_for_payload d") auto
  have "the_dict (strip_none (PDict (AList.update ''frame_id'' (PStr fid) d))) = sample_frame fid"
    unfolding d(2) sample_frame_def by code_simp
  then show ?thesis
    using d(1) fid m by (auto simp: data_frame_from_sidecar_event_def add_mapping_def dget_def
        dget_or_def mapping_of_def)
qed

lemma dict_literal_ok: "list_all (\<lambda>(k, r). \<not> isl r) fs \<Longrightarrow> \<exists>d. dict_literal fs = Inr d"
proof (induction fs)
  case (Cons f fs)
  then obtain d where "dict_literal fs = Inr d" by auto
  with Cons(2) show ?case by (cases f; cases "snd f") (auto simp: dict_literal_def)
qed (simp add: dict_literal_def)

lemma sample_frame_event: "\<exists>e. sidecar_event_from_data_frame (sample_frame fid) = Inr e"
  unfolding sidecar_event_from_data_frame_def
  by (rule dict_literal_ok) (simp add: event_literal_def Let_def sample_frame_def dget_def dget_or_def
      mapping_of_def str_or_def int_or_def float_or_def int_field_def keep_true_def keep_present_def
      keep_mapping_def optional_int_def optional_float_def)


end
