(* ===== verification/AckNack.thy ===== *)
theory AckNack
  imports RmwFrame "HOL-Library.FSet"
begin

text \<open>
  The source-sequence tracker of \<open>fleetqox/rmw_ack.py\<close>: per stream, the sequences observed
  inside a window, the highest contiguous and the highest observed one, and the ACK/NACK record
  each observation emits. An observation changes the tracker before it builds the record, so an
  exception while building it leaves the change in place.
\<close>

section \<open>State\<close>

record seq_state =
  highest_contiguous_sequence :: "int option"
  highest_observed_sequence :: "int option"
  observed_sequences :: "int fset"

definition new_seq_state :: seq_state where
  "new_seq_state = \<lparr>highest_contiguous_sequence = None, highest_observed_sequence = None,
     observed_sequences = {||}\<rparr>"

record tracker =
  window_size :: int
  streams :: "string list \<rightharpoonup> seq_state"

definition new_tracker :: "int \<Rightarrow> tracker" where
  "new_tracker w = \<lparr>window_size = max 1 w, streams = Map.empty\<rparr>"

section \<open>Reading a record\<close>

definition mapping_value :: "py_obj \<Rightarrow> string \<Rightarrow> py_obj" where
  "mapping_value v k = (case v of PDict d \<Rightarrow> dget d k | _ \<Rightarrow> PNone)"

fun first_optional_int :: "py_obj list \<Rightarrow> int option outcome" where
  "first_optional_int [] = Inr None"
| "first_optional_int (v # vs) =
     (case optional_int v of
        Inl e \<Rightarrow> Inl e
      | Inr (Some i) \<Rightarrow> Inr (Some i)
      | Inr None \<Rightarrow> first_optional_int vs)"

definition source_stream_key :: "py_dict \<Rightarrow> string list option" where
  "source_stream_key record =
     (let robot_id = optional_str (dget record ''robot_id'');
          topic = optional_str
            (py_or (py_or (py_or (py_or (dget record ''source_topic'') (dget record ''topic''))
                                 (mapping_value (dget record ''sample_envelope'') ''topic''))
                          (mapping_value (dget record ''semantic_payload'') ''source_topic''))
                   (dget record ''flow_id''));
          publisher_id = optional_str
            (py_or (py_or (dget record ''publisher_id'')
                          (mapping_value (dget record ''source_metadata'') ''publisher_id''))
                   (mapping_value (dget record ''sample_envelope'') ''publisher_id''))
      in case (robot_id, topic) of
           (Some (r # rs), Some (t # ts)) \<Rightarrow>
             (case publisher_id of
                Some (p # ps) \<Rightarrow> Some [''source_stream'', r # rs, t # ts, p # ps]
              | _ \<Rightarrow> Some [''source_stream'', r # rs, t # ts])
         | _ \<Rightarrow> None)"

definition source_sequence_number :: "py_dict \<Rightarrow> int option outcome" where
  "source_sequence_number record = first_optional_int
     [dget record ''source_sequence_number'',
      mapping_value (dget record ''source_metadata'') ''source_sequence_number'',
      mapping_value (dget record ''source_metadata'') ''sequence_number'',
      mapping_value (dget record ''sample_envelope'') ''source_sequence_number'',
      mapping_value (dget record ''semantic_payload'') ''source_sequence_number'',
      mapping_value (mapping_value (dget record ''semantic_payload'') ''source_metadata'')
        ''sequence_number'']"

section \<open>Gaps\<close>

text \<open>\<open>while c + 1 in observed: c += 1\<close>.\<close>

function advance_while :: "int fset \<Rightarrow> int \<Rightarrow> int" where
  "advance_while S c = (if c + 1 |\<in>| S then advance_while S (c + 1) else c)"
  by pat_completeness auto
termination
proof (relation "measure (\<lambda>(S, c). fcard (ffilter (\<lambda>s. c < s) S))")
  fix S :: "int fset" and c :: int
  assume "c + 1 |\<in>| S"
  then have "ffilter (\<lambda>s. c + 1 < s) S |\<subset>| ffilter (\<lambda>s. c < s) S"
    by (auto intro: exI [of _ "c + 1"])
  then show "((S, c + 1), S, c) \<in> measure (\<lambda>(S, c). fcard (ffilter (\<lambda>s. c < s) S))"
    by (simp add: pfsubset_fcard_mono)
qed simp

declare advance_while.simps [simp del]

definition advance_contiguous :: "seq_state \<Rightarrow> seq_state" where
  "advance_contiguous st =
     (if observed_sequences st = {||} then st
      else st\<lparr>highest_contiguous_sequence := Some (advance_while (observed_sequences st)
               (case highest_contiguous_sequence st of None \<Rightarrow> 0 | Some c \<Rightarrow> c))\<rparr>)"

definition trim_observed :: "int \<Rightarrow> seq_state \<Rightarrow> seq_state" where
  "trim_observed w st =
     (case highest_observed_sequence st of
        None \<Rightarrow> st
      | Some h \<Rightarrow> st\<lparr>observed_sequences := ffilter (\<lambda>s. s \<ge> h - w) (observed_sequences st)\<rparr>)"

text \<open>The loop over \<open>range(contiguous + 1, highest + 1)\<close>: the open gap is (start, previous).\<close>

fun gap_loop :: "int fset \<Rightarrow> (int \<times> int) option \<Rightarrow> int list \<Rightarrow> (int \<times> int) list" where
  "gap_loop S None [] = []"
| "gap_loop S (Some g) [] = [g]"
| "gap_loop S g (s # ss) =
     (if s |\<in>| S then (case g of None \<Rightarrow> [] | Some r \<Rightarrow> [r]) @ gap_loop S None ss
      else gap_loop S (Some (case g of None \<Rightarrow> s | Some (a, _) \<Rightarrow> a, s)) ss)"

definition missing_sequence_ranges :: "seq_state \<Rightarrow> (int \<times> int) list" where
  "missing_sequence_ranges st =
     (case (highest_contiguous_sequence st, highest_observed_sequence st) of
        (Some c, Some h) \<Rightarrow>
          if h \<le> c then [] else gap_loop (observed_sequences st) None [c + 1..h]
      | _ \<Rightarrow> [])"

section \<open>The feedback record\<close>

definition ack_nack_id_for_payload :: "py_dict \<Rightarrow> string outcome" where
  "ack_nack_id_for_payload payload =
     map_sum id (\<lambda>encoded. ''fack1-'' @ take 32 (sha256_hex encoded))
       (json_dumps False (PDict
          [(''schema_version'', PStr ''fleetrmw.ack_nack_id.v1''),
           (''stream_key'', dget payload ''stream_key''),
           (''ack'', dget payload ''ack''),
           (''nack'', dget payload ''nack''),
           (''state'', dget payload ''state'')]))"

definition opt_int :: "int option outcome \<Rightarrow> py_obj outcome" where
  "opt_int = map_sum id (of_optional PInt)"

definition ack_nack_feedback_record ::
    "py_dict \<Rightarrow> string list \<Rightarrow> (int \<times> int) list \<Rightarrow> int option \<Rightarrow> int option \<Rightarrow> bool \<Rightarrow> bool \<Rightarrow> py_dict outcome" where
  "ack_nack_feedback_record record stream0 missing contiguous observed duplicate out_of_order =
     (let stream = (if stream0 \<noteq> [] then stream0
                    else case source_stream_key record of Some k \<Rightarrow> k | None \<Rightarrow> [''unknown'']);
          field_or_empty = (\<lambda>v. py_or (of_optional PStr (optional_str v)) (PStr []));
          metadata = dget record ''source_metadata'';
          envelope = dget record ''sample_envelope''
      in case source_sequence_number record of
           Inl e \<Rightarrow> Inl e
         | Inr sequence \<Rightarrow>
             (case dict_literal
                [(''schema_version'', Inr (PStr ''fleetrmw.ack_nack.v1'')),
                 (''kind'', Inr (PStr ''source_sequence_ack_nack'')),
                 (''ack_nack_id'', Inr (PStr [])),
                 (''source'', Inr (PStr (py_str (dget_or (PStr ''rmw_boundary'') record ''source'')))),
                 (''robot_id'', Inr (field_or_empty (dget record ''robot_id''))),
                 (''flow_id'', Inr (field_or_empty (dget record ''flow_id''))),
                 (''source_topic'',
                  Inr (field_or_empty (py_or (dget record ''source_topic'') (dget record ''topic'')))),
                 (''stream_key'', Inr (PList (map PStr stream))),
                 sub_dict ''ack''
                   [int_field record ''event_id'',
                    str_field record ''source_sample_id'',
                    (''source_sequence_number'', Inr (of_optional PInt sequence)),
                    (''source_timestamp_ns'', opt_int (first_optional_int
                      [dget record ''source_timestamp_ns'',
                       mapping_value metadata ''source_timestamp_ns'',
                       mapping_value envelope ''source_timestamp_ns''])),
                    (''source_received_timestamp_ns'', opt_int (first_optional_int
                      [dget record ''source_received_timestamp_ns'',
                       dget record ''received_timestamp_ns'',
                       mapping_value metadata ''received_timestamp_ns'',
                       mapping_value envelope ''received_timestamp_ns'']))],
                 sub_dict ''nack''
                   [(''missing_sequence_ranges'',
                     Inr (PList (map (\<lambda>(a, b). PList [PInt a, PInt b]) missing)))],
                 sub_dict ''state''
                   [(''highest_contiguous_sequence'', Inr (of_optional PInt contiguous)),
                    (''highest_observed_sequence'', Inr (of_optional PInt observed)),
                    (''duplicate'', Inr (PBool duplicate)),
                    (''out_of_order'', Inr (PBool out_of_order))]] of
                Inl e \<Rightarrow> Inl e
              | Inr d \<Rightarrow>
                  let payload = the_dict (strip_none (PDict d))
                  in map_sum id (\<lambda>i. AList.update ''ack_nack_id'' (PStr i) payload)
                       (ack_nack_id_for_payload payload)))"

section \<open>Observation\<close>

definition record_sequence :: "int \<Rightarrow> int \<Rightarrow> seq_state \<Rightarrow> seq_state" where
  "record_sequence w sequence st =
     trim_observed w (advance_contiguous
       (st\<lparr>observed_sequences := finsert sequence (observed_sequences st),
            highest_observed_sequence := Some (case highest_observed_sequence st of
              None \<Rightarrow> sequence | Some previous \<Rightarrow> max previous sequence)\<rparr>))"

definition observe :: "py_dict \<Rightarrow> tracker \<Rightarrow> tracker \<times> py_dict option outcome" where
  "observe record t =
     (case source_sequence_number record of
        Inl e \<Rightarrow> (t, Inl e)
      | Inr number \<Rightarrow>
          (case (source_stream_key record, number) of
             (Some stream, Some sequence) \<Rightarrow>
               let st = (case streams t stream of None \<Rightarrow> new_seq_state | Some st \<Rightarrow> st);
                   duplicate = sequence |\<in>| observed_sequences st;
                   out_of_order = (case highest_observed_sequence st of
                                     None \<Rightarrow> False | Some previous \<Rightarrow> sequence < previous);
                   st' = record_sequence (window_size t) sequence st
               in (t\<lparr>streams := (streams t)(stream \<mapsto> st')\<rparr>,
                   map_sum id Some (ack_nack_feedback_record record stream
                     (missing_sequence_ranges st') (highest_contiguous_sequence st')
                     (highest_observed_sequence st') duplicate out_of_order))
           | _ \<Rightarrow> (t, Inr None)))"

section \<open>Lemmas\<close>

definition covers :: "(int \<times> int) list \<Rightarrow> int set" where
  "covers rs = (\<Union>(a, b)\<in>set rs. {a..b})"

text \<open>Ranges in ascending order, none empty and no two adjacent.\<close>

fun separated :: "int \<Rightarrow> (int \<times> int) list \<Rightarrow> bool" where
  "separated lo [] = True"
| "separated lo ((a, b) # rs) = (lo \<le> a \<and> a \<le> b \<and> separated (b + 2) rs)"

lemma covers_simps [simp]:
  "covers [] = {}" "covers ((a, b) # rs) = {a..b} \<union> covers rs"
  by (auto simp: covers_def)

lemma separated_mono: "separated lo rs \<Longrightarrow> k \<le> lo \<Longrightarrow> separated k rs"
  by (cases rs) auto

definition gap_start :: "int \<Rightarrow> (int \<times> int) option \<Rightarrow> int" where
  "gap_start l g = (case g of None \<Rightarrow> l | Some (a, _) \<Rightarrow> a)"

lemma gap_loop_correct:
  assumes "\<And>a p. g = Some (a, p) \<Longrightarrow> a \<le> p \<and> p = l - 1 \<and> (\<forall>x\<in>{a..p}. x |\<notin>| S)"
  shows "covers (gap_loop S g [l..h]) = {x. gap_start l g \<le> x \<and> x \<le> max h (l - 1) \<and> x |\<notin>| S}"
    and "separated (gap_start l g) (gap_loop S g [l..h])"
  using assms
proof (induction "nat (h - l + 1)" arbitrary: l g)
  case 0
  { case 1 with 0 show ?case by (cases g) (auto simp: gap_start_def) }
  { case 2 with 0 show ?case by (cases g) (auto simp: gap_start_def) }
next
  case (Suc n)
  then have le: "l \<le> h" and n: "n = nat (h - (l + 1) + 1)" by auto
  have u: "[l..h] = l # [l + 1..h]" using le by (simp add: upto_rec1)
  have m: "max h l = h" "max h (l - 1) = h" "max h (l + 1 - 1) = h" using le by auto
  { case 1
    show ?case
    proof (cases "l |\<in>| S")
      case True
      have c: "covers (gap_loop S None [l + 1..h]) = {x. l + 1 \<le> x \<and> x \<le> h \<and> x |\<notin>| S}"
        using Suc(1) [OF n, of None] by (simp add: gap_start_def m)
      have key: "x |\<notin>| S \<Longrightarrow> l \<le> x \<longleftrightarrow> l + 1 \<le> x" for x using True by (cases "x = l") auto
      show ?thesis
      proof (cases g)
        case None
        then show ?thesis using True c key by (auto simp: u m gap_start_def)
      next
        case (Some r)
        obtain a p where g: "g = Some (a, p)" using Some by (cases r) auto
        have a: "a \<le> p" "p = l - 1" "\<forall>x\<in>{a..p}. x |\<notin>| S" using 1 [OF g] by auto
        have "covers (gap_loop S g [l..h]) = {a..p} \<union> {x. l + 1 \<le> x \<and> x \<le> h \<and> x |\<notin>| S}"
          using True c by (simp add: u g)
        also have "\<dots> = {x. a \<le> x \<and> x \<le> h \<and> x |\<notin>| S}"
        proof (rule set_eqI)
          fix x
          show "x \<in> {a..p} \<union> {x. l + 1 \<le> x \<and> x \<le> h \<and> x |\<notin>| S} \<longleftrightarrow>
              x \<in> {x. a \<le> x \<and> x \<le> h \<and> x |\<notin>| S}"
            using a key [of x] le by (cases "x \<le> p") auto
        qed
        finally show ?thesis by (simp add: g gap_start_def m)
      qed
    next
      case False
      define g' where "g' = Some (gap_start l g, l)"
      have ok: "a \<le> p \<and> p = l + 1 - 1 \<and> (\<forall>x\<in>{a..p}. x |\<notin>| S)" if "g' = Some (a, p)" for a p
      proof -
        have ap: "a = gap_start l g" "p = l" using that by (auto simp: g'_def)
        have "x |\<notin>| S" if "x \<in> {a..l}" for x
          using that False 1 by (cases "x = l"; cases g) (auto simp: ap gap_start_def)
        moreover have "a \<le> l" using 1 by (cases g) (auto simp: ap gap_start_def)
        ultimately show ?thesis by (simp add: ap)
      qed
      have "covers (gap_loop S g' [l + 1..h]) =
          {x. gap_start (l + 1) g' \<le> x \<and> x \<le> max h (l + 1 - 1) \<and> x |\<notin>| S}"
        by (rule Suc(1) [OF n]) (rule ok)
      then have "covers (gap_loop S g' [l + 1..h]) = {x. gap_start l g \<le> x \<and> x \<le> h \<and> x |\<notin>| S}"
        unfolding m by (simp add: g'_def gap_start_def)
      then show ?thesis using False by (cases g) (auto simp: u m gap_start_def g'_def)
    qed }
  { case 2
    show ?case
    proof (cases "l |\<in>| S")
      case True
      have "separated (l + 1) (gap_loop S None [l + 1..h])"
        using Suc(2) [OF n, of None] by (simp add: gap_start_def)
      then show ?thesis using True 2 separated_mono by (cases g) (auto simp: u gap_start_def)
    next
      case False
      define g' where "g' = Some (gap_start l g, l)"
      have ok: "a \<le> p \<and> p = l + 1 - 1 \<and> (\<forall>x\<in>{a..p}. x |\<notin>| S)" if "g' = Some (a, p)" for a p
      proof -
        have ap: "a = gap_start l g" "p = l" using that by (auto simp: g'_def)
        have "x |\<notin>| S" if "x \<in> {a..l}" for x
          using that False 2 by (cases "x = l"; cases g) (auto simp: ap gap_start_def)
        moreover have "a \<le> l" using 2 by (cases g) (auto simp: ap gap_start_def)
        ultimately show ?thesis by (simp add: ap)
      qed
      have "separated (gap_start (l + 1) g') (gap_loop S g' [l + 1..h])"
        by (rule Suc(2) [OF n]) (rule ok)
      then have "separated (gap_start l g) (gap_loop S g' [l + 1..h])"
        by (simp add: g'_def gap_start_def)
      then show ?thesis using False by (cases g) (auto simp: u gap_start_def g'_def)
    qed }
qed

lemma advance_while_correct:
  "c \<le> advance_while S c \<and> advance_while S c + 1 |\<notin>| S \<and> (\<forall>x\<in>{c + 1..advance_while S c}. x |\<in>| S)"
proof (induction S c rule: advance_while.induct)
  case (1 S c)
  show ?case
  proof (cases "c + 1 |\<in>| S")
    case True
    with 1 have "c + 1 \<le> advance_while S (c + 1) \<and> advance_while S (c + 1) + 1 |\<notin>| S \<and>
      (\<forall>x\<in>{c + 1 + 1..advance_while S (c + 1)}. x |\<in>| S)" by blast
    moreover have "advance_while S c = advance_while S (c + 1)"
      using True by (subst advance_while.simps) simp
    ultimately show ?thesis using True by (auto simp: order_le_less) 
  next
    case False
    then have "advance_while S c = c" by (subst advance_while.simps) simp
    with False show ?thesis by simp
  qed
qed

text \<open>What the tracker knows of a stream whose observed sequences are \<open>seen\<close>.\<close>

definition tracks :: "int \<Rightarrow> int set \<Rightarrow> seq_state \<Rightarrow> bool" where
  "tracks w seen st \<longleftrightarrow>
     (if seen = {} then st = new_seq_state
      else \<exists>c h. highest_contiguous_sequence st = Some c \<and> highest_observed_sequence st = Some h \<and>
             0 \<le> c \<and> {1..c} \<subseteq> seen \<and> h \<in> seen \<and> (\<forall>s\<in>seen. s \<le> h) \<and>
             fset (observed_sequences st) = {s \<in> seen. h - w \<le> s})"

lemma tracks_record:
  assumes "tracks w seen st" "0 \<le> w"
  shows "tracks w (insert s seen) (record_sequence w s st)"
proof (cases "seen = {}")
  case True
  define r where "r = advance_while {|s|} 0"
  have r: "0 \<le> r" "\<forall>x\<in>{1..r}. x = s"
    using advance_while_correct [of 0 "{|s|}"] by (auto simp: r_def)
  have st: "record_sequence w s st = \<lparr>highest_contiguous_sequence = Some r,
      highest_observed_sequence = Some s, observed_sequences = {|s|}\<rparr>"
    using assms True
    by (auto simp: tracks_def record_sequence_def new_seq_state_def advance_contiguous_def
        trim_observed_def r_def)
  show ?thesis using r True assms(2) by (auto simp: tracks_def st)
next
  case False
  with assms obtain c h where o: "highest_contiguous_sequence st = Some c"
      "highest_observed_sequence st = Some h" "0 \<le> c" "{1..c} \<subseteq> seen" "h \<in> seen"
      "\<forall>s\<in>seen. s \<le> h" "fset (observed_sequences st) = {s \<in> seen. h - w \<le> s}"
    unfolding tracks_def by auto
  define S where "S = finsert s (observed_sequences st)"
  define r where "r = advance_while S c"
  have r: "c \<le> r" "\<forall>x\<in>{c + 1..r}. x |\<in>| S"
    using advance_while_correct [of c S] by (auto simp: r_def)
  have S: "fset S = insert s {s \<in> seen. h - w \<le> s}" by (simp add: S_def o)
  have st: "record_sequence w s st = \<lparr>highest_contiguous_sequence = Some r,
      highest_observed_sequence = Some (max h s), observed_sequences = ffilter (\<lambda>x. max h s - w \<le> x) S\<rparr>"
    using o by (simp add: record_sequence_def advance_contiguous_def trim_observed_def r_def S_def)
  have "{1..r} \<subseteq> insert s seen"
  proof
    fix x assume "x \<in> {1..r}"
    then have "x \<in> {1..c} \<or> x \<in> {c + 1..r}" by auto
    then show "x \<in> insert s seen" using o r S by auto
  qed
  moreover have "fset (ffilter (\<lambda>x. max h s - w \<le> x) S) = {x \<in> insert s seen. max h s - w \<le> x}"
  proof -
    have "h - w \<le> x" if "max h s - w \<le> x" for x
      using max.cobounded1 [of h s] that by linarith
    then show ?thesis unfolding ffilter.rep_eq S by (simp add: set_eq_iff) blast
  qed
  moreover have "max h s \<in> insert s seen" using o(5) by (simp add: max_def)
  moreover have "\<forall>x\<in>insert s seen. x \<le> max h s"
    using o(6) by (simp add: le_max_iff_disj)
  moreover have "0 \<le> r" using o r(1) by simp
  ultimately show ?thesis unfolding tracks_def st by simp
qed

text \<open>The records of a session, in order, and the sequences they carry for one stream.\<close>

definition observe_records :: "py_dict list \<Rightarrow> tracker \<Rightarrow> tracker" where
  "observe_records rs t = foldl (\<lambda>t r. fst (observe r t)) t rs"

definition seen_in :: "string list \<Rightarrow> py_dict list \<Rightarrow> int set" where
  "seen_in k rs = {s. \<exists>r\<in>set rs. source_stream_key r = Some k \<and>
                        source_sequence_number r = Inr (Some s)}"

lemma observe_window [simp]: "window_size (fst (observe r t)) = window_size t"
  by (auto simp: observe_def Let_def split: sum.split option.split)

lemma observe_other:
  "\<not> (source_stream_key r = Some k \<and> (\<exists>s. source_sequence_number r = Inr (Some s))) \<Longrightarrow>
   streams (fst (observe r t)) k = streams t k"
  by (auto simp: observe_def Let_def split: sum.split option.split)

lemma observe_stream:
  "source_stream_key r = Some k \<Longrightarrow> source_sequence_number r = Inr (Some s) \<Longrightarrow>
   streams (fst (observe r t)) k =
     Some (record_sequence (window_size t) s
       (case streams t k of None \<Rightarrow> new_seq_state | Some st \<Rightarrow> st))"
  by (simp add: observe_def Let_def)

lemma observe_records_snoc: "observe_records (rs @ [r]) t = fst (observe r (observe_records rs t))"
  by (simp add: observe_records_def)

lemma observe_records_window [simp]: "window_size (observe_records rs t) = window_size t"
  by (induction rs rule: rev_induct) (simp_all add: observe_records_snoc, simp add: observe_records_def)

lemma seen_in_snoc:
  "seen_in k (rs @ [r]) =
     (if source_stream_key r = Some k \<and> (\<exists>s. source_sequence_number r = Inr (Some s))
      then insert (THE s. source_sequence_number r = Inr (Some s)) (seen_in k rs)
      else seen_in k rs)"
  by (auto simp: seen_in_def)

lemma tracks_records:
  "(seen_in k rs = {} \<longrightarrow> streams (observe_records rs (new_tracker w)) k = None) \<and>
   (seen_in k rs \<noteq> {} \<longrightarrow> (\<exists>st. streams (observe_records rs (new_tracker w)) k = Some st \<and>
      tracks (max 1 w) (seen_in k rs) st))"
proof (induction rs rule: rev_induct)
  case Nil
  then show ?case by (simp add: seen_in_def observe_records_def new_tracker_def)
next
  case (snoc r rs)
  define t where "t = observe_records rs (new_tracker w)"
  have w: "window_size t = max 1 w" by (simp add: t_def) (simp add: new_tracker_def)
  show ?case
  proof (cases "source_stream_key r = Some k \<and> (\<exists>s. source_sequence_number r = Inr (Some s))")
    case True
    then obtain s where s: "source_stream_key r = Some k" "source_sequence_number r = Inr (Some s)"
      by auto
    define st where "st = (case streams t k of None \<Rightarrow> new_seq_state | Some st \<Rightarrow> st)"
    have "tracks (max 1 w) (seen_in k rs) st"
      using snoc unfolding st_def t_def
      by (cases "seen_in k rs = {}") (auto simp: tracks_def [of _ "{}"])
    then have "tracks (max 1 w) (insert s (seen_in k rs)) (record_sequence (max 1 w) s st)"
      by (rule tracks_record) simp
    then show ?thesis
      using observe_stream [OF s, of t] s
      by (simp add: observe_records_snoc seen_in_snoc t_def [symmetric] st_def w)
  next
    case False
    then show ?thesis
      using observe_other [OF False, of t] snoc
      unfolding observe_records_snoc seen_in_snoc if_not_P [OF False] t_def [symmetric] by simp
  qed
qed

lemma missing_of_tracked:
  assumes "tracks w seen st" "seen \<noteq> {}"
    and "highest_contiguous_sequence st = Some c" "highest_observed_sequence st = Some h"
  shows "covers (missing_sequence_ranges st) = {s. c < s \<and> s \<le> h \<and> (s \<notin> seen \<or> s < h - w)} \<and>
         separated (c + 1) (missing_sequence_ranges st)"
proof (cases "h \<le> c")
  case True
  then show ?thesis using assms by (simp add: missing_sequence_ranges_def)
next
  case False
  have f: "x |\<notin>| observed_sequences st \<longleftrightarrow> x \<notin> seen \<or> x < h - w" for x
    using assms by (auto simp: tracks_def)
  have "max h (c + 1 - 1) = h" using False by simp
  then have "covers (gap_loop (observed_sequences st) None [c + 1..h]) =
      {x. c + 1 \<le> x \<and> x \<le> h \<and> x |\<notin>| observed_sequences st}"
    using gap_loop_correct(1) [of None "c + 1" "observed_sequences st" h] by (simp add: gap_start_def)
  moreover have "separated (c + 1) (gap_loop (observed_sequences st) None [c + 1..h])"
    using gap_loop_correct(2) [of None "c + 1" "observed_sequences st" h] by (simp add: gap_start_def)
  ultimately show ?thesis
    unfolding f using False assms by (simp add: missing_sequence_ranges_def add1_zle_eq)
qed

section \<open>Properties\<close>

text \<open>C21: whatever records the tracker has observed, in whatever order, for a stream it has seen
  the highest observed sequence is the greatest one seen, every sequence from 1 to the
  acknowledged one has been seen, and the NACK ranges are ascending, non-empty, not adjacent, and
  cover exactly the sequences between the two that were never seen or that have fallen below
  the window.\<close>

theorem ack_nack_exact:
  assumes "seen_in k rs \<noteq> {}"
  shows "\<exists>st c h. streams (observe_records rs (new_tracker w)) k = Some st \<and>
           highest_contiguous_sequence st = Some c \<and> highest_observed_sequence st = Some h \<and>
           h \<in> seen_in k rs \<and> (\<forall>s\<in>seen_in k rs. s \<le> h) \<and> {1..c} \<subseteq> seen_in k rs \<and>
           separated (c + 1) (missing_sequence_ranges st) \<and>
           covers (missing_sequence_ranges st) =
             {s. c < s \<and> s \<le> h \<and> (s \<notin> seen_in k rs \<or> s < h - max 1 w)}"
proof -
  from assms tracks_records [of k rs w] obtain st where
    st: "streams (observe_records rs (new_tracker w)) k = Some st" "tracks (max 1 w) (seen_in k rs) st"
    by blast
  with assms obtain c h where o: "highest_contiguous_sequence st = Some c"
      "highest_observed_sequence st = Some h" "{1..c} \<subseteq> seen_in k rs" "h \<in> seen_in k rs"
      "\<forall>s\<in>seen_in k rs. s \<le> h"
    unfolding tracks_def by auto
  show ?thesis using missing_of_tracked [OF st(2) assms o(1,2)] st o by blast
qed

definition sample_record :: "int \<Rightarrow> py_dict" where
  "sample_record s = [(''robot_id'', PStr ''r1''), (''topic'', PStr ''/odom''),
     (''source_sequence_number'', PInt s)]"

definition sample_key :: "string list" where
  "sample_key = [''source_stream'', ''r1'', ''/odom'']"

lemma sample_record_reads:
  "source_stream_key (sample_record s) = Some sample_key"
  "\<bar>s\<bar> < 2 ^ 53 \<Longrightarrow> source_sequence_number (sample_record s) = Inr (Some s)"
  by (simp_all add: source_stream_key_def source_sequence_number_def sample_record_def
      sample_key_def dget_def dget_or_def optional_str_def py_or_def mapping_value_def optional_int_small)

theorem ack_nack_exact_witness:
  "\<exists>st c h. streams (observe_records [sample_record 1, sample_record 3] (new_tracker 256)) sample_key = Some st \<and>
     highest_contiguous_sequence st = Some c \<and> highest_observed_sequence st = Some h \<and>
     h \<in> seen_in sample_key [sample_record 1, sample_record 3] \<and>
     (\<forall>s\<in>seen_in sample_key [sample_record 1, sample_record 3]. s \<le> h) \<and>
     {1..c} \<subseteq> seen_in sample_key [sample_record 1, sample_record 3] \<and>
     separated (c + 1) (missing_sequence_ranges st) \<and>
     covers (missing_sequence_ranges st) =
       {s. c < s \<and> s \<le> h \<and> (s \<notin> seen_in sample_key [sample_record 1, sample_record 3] \<or> s < h - max 1 256)}"
proof (rule ack_nack_exact)
  show "seen_in sample_key [sample_record 1, sample_record 3] \<noteq> {}"
    by (auto simp: seen_in_def sample_record_reads)
qed

text \<open>A sequence that was received is reported as missing once the window has moved past it:
  with the default window of 256, receiving 2 and then 300 makes the tracker ask for 2.\<close>

theorem received_sequence_nacked:
  "\<exists>st. streams (observe_records [sample_record 2, sample_record 300] (new_tracker 256)) sample_key =
          Some st \<and> 2 \<in> covers (missing_sequence_ranges st)"
proof -
  define rs where "rs = [sample_record 2, sample_record 300]"
  have seen: "seen_in sample_key rs = {2, 300}" by (auto simp: seen_in_def rs_def sample_record_reads)
  obtain st where st: "streams (observe_records rs (new_tracker 256)) sample_key = Some st"
      "tracks 256 {2, 300} st"
    using tracks_records [of sample_key rs 256] by (auto simp: seen)
  then obtain c h where o: "highest_contiguous_sequence st = Some c" "highest_observed_sequence st = Some h"
      "{1..c} \<subseteq> {2, 300}" "h \<in> {2, 300}" "\<forall>s\<in>{2, 300}. s \<le> h"
    unfolding tracks_def by auto
  then have "h = 300" by auto
  moreover have "\<not> 1 \<le> c" using o(3) by force
  ultimately have "h = 300" "\<not> 2 \<le> c" by auto
  then have "2 \<in> covers (missing_sequence_ranges st)"
    using missing_of_tracked [OF st(2) _ o(1,2)] by auto
  with st show ?thesis by (auto simp: rs_def)
qed

text \<open>The integers of a record pass through \<open>float\<close>, so those of magnitude below
  $2^{53}$ are read exactly while a current nanosecond timestamp is altered.\<close>

theorem integers_read_through_float:
  "(\<forall>i. \<bar>i\<bar> < 2 ^ 53 \<longrightarrow> optional_int (PInt i) = Inr (Some i)) \<and>
   optional_int (PInt 1700000000000000001) = Inr (Some 1700000000000000000)"
  using optional_int_small by (simp, code_simp)

theorem integers_read_through_float_witness:
  "optional_int (PInt 42) = Inr (Some 42)"
  using integers_read_through_float by (elim conjE allE [of _ 42]) simp

text \<open>An infinite \<open>event_id\<close> makes the observation raise OverflowError after the
  tracker has recorded the sequence, so a retry of the same record counts as a duplicate.\<close>

theorem observe_raises_after_update:
  assumes "source_stream_key r = Some k" "source_sequence_number r = Inr (Some s)"
    and "dget r ''event_id'' = PFloat PInf"
  shows "snd (observe r t) = Inl OverflowError \<and>
         streams (fst (observe r t)) k = Some (record_sequence (window_size t) s
           (case streams t k of None \<Rightarrow> new_seq_state | Some st \<Rightarrow> st))"
proof -
  have "optional_int (dget r ''event_id'') = Inl OverflowError"
    by (simp add: assms(3) optional_int_def int_of_float_of_def catch_conversion_def)
  then show ?thesis
    using assms observe_stream [OF assms(1,2), of t]
    by (simp add: observe_def Let_def ack_nack_feedback_record_def dict_literal_def sub_dict_def
        int_field_def)
qed

theorem observe_raises_after_update_witness:
  "snd (observe ((''event_id'', PFloat PInf) # sample_record 5) (new_tracker 4)) = Inl OverflowError"
proof -
  have "source_stream_key ((''event_id'', PFloat PInf) # sample_record 5) = Some sample_key"
    "source_sequence_number ((''event_id'', PFloat PInf) # sample_record 5) = Inr (Some 5)"
    "dget ((''event_id'', PFloat PInf) # sample_record 5) ''event_id'' = PFloat PInf"
    by code_simp+
  then show ?thesis by (rule observe_raises_after_update [THEN conjunct1])
qed

end
