(* ===== verification/Doubles.thy ===== *)
theory Doubles
  imports PyFloat
begin

text \<open>
  The values a double can take: rounding is idempotent, so every result of an operation is one,
  and rounding does not pass a double.
\<close>

text \<open>The values a double can take; NaN excluded.\<close>

fun is_double :: "pyfloat \<Rightarrow> bool" where
  "is_double (Fin a) = (dbl a = Fin a)"
| "is_double NaN = False"
| "is_double _ = True"

lemma round_even_abs_le:
  assumes "\<bar>x\<bar> \<le> of_int n" shows "\<bar>round_even x\<bar> \<le> n"
proof -
  have "round_even x \<le> n" using round_even_mono [of x "of_int n"] assms by simp
  moreover have "- n \<le> round_even x"
    using round_even_mono [of "- of_int n" x] assms by (simp add: round_even_minus)
  ultimately show ?thesis by simp
qed

lemma nearest_idem: "nearest (nearest x) = nearest x"
proof (cases "x = 0")
  case False
  define e where "e = ulp_exp x"
  define m where "m = round_even (x / 2 powi e)"
  have n: "nearest x = of_int m * 2 powi e" using False by (simp add: nearest_def grid_def m_def e_def)
  have "\<bar>x\<bar> < 2 powi (rat_exp \<bar>x\<bar> + 1)" using False by (intro rat_exp_bounds) auto
  also have "(2 :: rat) powi (rat_exp \<bar>x\<bar> + 1) \<le> 2 powi (53 + e)"
    by (intro power_int_increasing) (auto simp: e_def ulp_exp_def)
  finally have "\<bar>x / 2 powi e\<bar> < 2 powi 53" by (simp add: power_int_add divide_less_eq)
  then have "\<bar>x / 2 powi e\<bar> \<le> of_int (2 ^ 53)" by simp
  then have m: "\<bar>m\<bar> \<le> 2 ^ 53" unfolding m_def by (rule round_even_abs_le)
  have "representable (nearest x)"
  proof (cases "\<bar>m\<bar> < 2 ^ 53")
    case True
    then show ?thesis unfolding n representable_def
      by (intro exI [of _ m] exI [of _ e]) (auto simp: e_def ulp_exp_def)
  next
    case False
    with m have "m = 2 ^ 53 \<or> m = - (2 ^ 53)" by linarith
    then have "m = 2 * (m div 2)" "\<bar>m div 2\<bar> < 2 ^ 53" by auto
    from this(1) have "(of_int m :: rat) = of_int (m div 2) * 2"
      by (metis mult.commute of_int_mult of_int_numeral)
    then have "of_int m * 2 powi e = (of_int (m div 2) :: rat) * 2 powi (e + 1)"
      by (simp add: power_int_add_1)
    then show ?thesis unfolding n representable_def
      by (intro exI [of _ "m div 2"] exI [of _ "e + 1"])
        (use \<open>\<bar>m div 2\<bar> < 2 ^ 53\<close> in \<open>auto simp: e_def ulp_exp_def\<close>)
  qed
  then show ?thesis by (rule nearest_representable)
qed (simp add: nearest_def)

lemma is_double_dbl [simp]: "is_double (dbl x)"
proof -
  have "dbl (nearest x) = dbl x" by (simp add: dbl_def Let_def nearest_idem)
  then show ?thesis by (auto simp: dbl_def Let_def split: if_splits)
qed

lemma is_double_0 [simp]: "is_double 0"
  by (simp add: zero_pyfloat_def)

text \<open>Rounding does not pass a double.\<close>

lemma dbl_below: "dbl b = Fin b \<Longrightarrow> x \<le> b \<Longrightarrow> dbl x \<le> Fin b"
  using dbl_mono [of x b] by simp

lemma dbl_above: "dbl b = Fin b \<Longrightarrow> b \<le> x \<Longrightarrow> Fin b \<le> dbl x"
  using dbl_mono [of b x] by simp

lemma dbl_less: "dbl b = Fin b \<Longrightarrow> Fin b < dbl x \<Longrightarrow> b < x"
  using dbl_below [of b x] fle_less_trans [of "dbl x" "Fin b" "dbl x"] by fastforce

end
