(* ===== verification/RepairSafety.thy ===== *)
theory RepairSafety
  imports RepairScheduler Doubles "HOL-Library.Multiset"
begin

text \<open>
  What the repair scheduler guarantees: the schedule it returns respects the fleet capacity and
  the admission limit, decides every demand once, and no feasible choice of options has a greater
  utility. A choice is a list with one option index per demand, or -1 to defer.
\<close>

section \<open>Sums of doubles\<close>

lemma is_double_add: "is_double x \<Longrightarrow> is_fin y \<Longrightarrow> is_double (x + y)"
  by (cases x; cases y) auto

lemma fle_ends: "x \<noteq> NaN \<Longrightarrow> x \<le> PInf" "x \<noteq> NaN \<Longrightarrow> NInf \<le> x"
  by (cases x; simp)+

lemma add_mono_fin:
  "x \<le> y \<Longrightarrow> is_fin z \<Longrightarrow> x + z \<le> y + (z :: pyfloat)"
  by (cases x; cases y; cases z) (auto intro: dbl_mono simp: fle_ends)

lemma le_add_small: "is_double x \<Longrightarrow> 0 \<le> e \<Longrightarrow> x \<le> x + Fin e"
proof (cases x)
  case (Fin a)
  assume "is_double x" "0 \<le> e"
  then have "dbl a = Fin a" using Fin by simp
  moreover have "dbl a \<le> dbl (a + e)" using \<open>0 \<le> e\<close> by (intro dbl_mono) simp
  ultimately show ?thesis by (simp only: Fin plus_pyfloat.simps)
qed auto

lemma tiny: "\<exists>e \<ge> 0. dbl (1 / 10 ^ 12) = Fin e"
proof -
  have "dbl (1 / 10 ^ 12) \<le> dbl 1" by (intro dbl_mono) simp
  moreover have "dbl 0 \<le> dbl (1 / 10 ^ 12)" by (intro dbl_mono) simp
  ultimately show ?thesis by (cases "dbl (1 / 10 ^ 12)") auto
qed

lemma not_below_tiny: "is_double x \<Longrightarrow> x + dbl (1 / 10 ^ 12) < y \<Longrightarrow> x \<le> y"
  using tiny le_add_small fle_less_trans fless_imp_le by metis

lemma not_nan: "is_double x \<Longrightarrow> x \<noteq> NaN"
  by auto

lemma double_refl: "is_double x \<Longrightarrow> x \<le> x"
  by (cases x) auto

section \<open>Choices\<close>

text \<open>Bytes, count and utility of a choice, on top of those of a start.\<close>

fun walk ::
    "repair_option list list \<Rightarrow> int list \<Rightarrow> (int \<times> int) \<times> pyfloat \<Rightarrow> ((int \<times> int) \<times> pyfloat) option" where
  "walk [] [] st = Some st"
| "walk (os # oss) (i # js) ((used, adm), u) =
     (if i = -1 then walk oss js ((used, adm), u)
      else if 0 \<le> i \<and> i < py_len os
      then walk oss js ((used + ro_cost (os ! nat i), adm + 1), u + ro_utility (os ! nat i))
      else None)"
| "walk _ _ _ = None"

definition fits :: "scheduler_config \<Rightarrow> int \<times> int \<Rightarrow> bool" where
  "fits c k \<longleftrightarrow> fst k \<le> capacity_bytes c \<and>
     (case max_admitted_repairs c of None \<Rightarrow> True | Some m \<Rightarrow> snd k \<le> m)"

abbreviation start :: "(int \<times> int) \<times> pyfloat" where
  "start \<equiv> ((0, 0), 0)"

lemma walk_length: "walk oss js st = Some r \<Longrightarrow> length js = length oss"
  by (induction oss js st rule: walk.induct) (auto split: if_splits)

lemma walk_snoc:
  "length js = length oss \<Longrightarrow>
   walk (oss @ [os]) (js @ [i]) st =
     (case walk oss js st of None \<Rightarrow> None | Some st' \<Rightarrow> walk [os] [i] st')"
  by (induction oss js st rule: walk.induct) (auto split: option.splits)

lemma walk_snocE:
  assumes "walk (oss @ [os]) sel st = Some r"
  obtains js i st' where "sel = js @ [i]" "walk oss js st = Some st'" "walk [os] [i] st' = Some r"
proof -
  have "length sel = length oss + 1" using walk_length [OF assms] by simp
  then obtain js i where s: "sel = js @ [i]" "length js = length oss"
    by (cases sel rule: rev_cases) auto
  with assms that show thesis by (auto simp: walk_snoc split: option.splits)
qed

definition good_options :: "repair_option list \<Rightarrow> bool" where
  "good_options os \<longleftrightarrow> (\<forall>opt\<in>set os. 0 \<le> ro_cost opt \<and> is_fin (ro_utility opt))"

lemma walk_mono:
  assumes "walk [os] [i] (k, u) = Some (k', u')" "good_options os"
  shows "fst k \<le> fst k' \<and> snd k \<le> snd k'"
  using assms by (cases k) (auto simp: good_options_def py_len_def split: if_splits)

lemma walk_double:
  "walk oss js (k, u) = Some (k', u') \<Longrightarrow> \<forall>os\<in>set oss. good_options os \<Longrightarrow> is_double u \<Longrightarrow> is_double u'"
proof (induction oss js "(k, u)" arbitrary: k u rule: walk.induct)
  case (2 os oss i js used adm u)
  show ?case
  proof (cases "i = -1")
    case True with 2 show ?thesis by simp
  next
    case False
    with 2(3) have i: "0 \<le> i" "i < py_len os" by (auto split: if_splits)
    then have "is_fin (ro_utility (os ! nat i))"
      using 2(4) by (simp add: good_options_def py_len_def)
    then show ?thesis using 2 False i by (simp add: is_double_add)
  qed
qed auto

section \<open>Keeping states\<close>

text \<open>\<open>improves S T\<close>: every state of \<open>S\<close> has one in \<open>T\<close> under its key that is no worse.\<close>

definition improves :: "dp_states \<Rightarrow> dp_states \<Rightarrow> bool" where
  "improves S T \<longleftrightarrow> (\<forall>k u s. (k, u, s) \<in> set S \<longrightarrow> (\<exists>u' s'. (k, u', s') \<in> set T \<and> u \<le> u'))"

definition proper :: "dp_states \<Rightarrow> bool" where
  "proper S \<longleftrightarrow> distinct (map fst S) \<and> (\<forall>k u s. (k, u, s) \<in> set S \<longrightarrow> is_double u)"

lemma improves_refl: "proper S \<Longrightarrow> improves S S"
  unfolding improves_def proper_def by (meson double_refl)

lemma improves_trans: "improves S T \<Longrightarrow> improves T U \<Longrightarrow> improves S U"
  unfolding improves_def by (meson fle_trans)

lemma proper_double: "proper S \<Longrightarrow> (k, u, s) \<in> set S \<Longrightarrow> is_double u"
  unfolding proper_def by blast

lemma set_update_new: "(k, v) \<in> set (AList.update k v S)"
  by (induction S) auto

lemma set_update_old: "(i, w) \<in> set S \<Longrightarrow> i \<noteq> k \<Longrightarrow> (i, w) \<in> set (AList.update k v S)"
  by (induction S) auto

lemma set_keep_state: "set (keep_state k u s S) \<subseteq> insert (k, u, s) (set S)"
  using set_update_sub [of k "(u, s)" S] by (auto simp: keep_state_def split: option.splits)

lemma proper_keep: "proper S \<Longrightarrow> is_double u \<Longrightarrow> proper (keep_state k u s S)"
proof -
  assume "proper S" "is_double u"
  moreover have "distinct (map fst (keep_state k u s S))"
    using \<open>proper S\<close> by (auto simp: keep_state_def proper_def distinct_update split: option.splits)
  ultimately show ?thesis using set_keep_state [of k u s S] unfolding proper_def by blast
qed

lemma not_value_greater:
  "is_double (fst v) \<Longrightarrow> is_double (fst w) \<Longrightarrow> \<not> value_greater v w \<Longrightarrow> fst v \<le> fst w"
  using fnot_less [of "fst w" "fst v"] not_nan fle_refl
  by (auto simp: value_greater_def feq_def split: if_splits)

lemma value_greater_le:
  "is_double (fst v) \<Longrightarrow> value_greater v w \<Longrightarrow> fst w \<le> fst v"
  using fless_imp_le fle_refl not_nan by (auto simp: value_greater_def feq_def split: if_splits)

lemma keep_state_at:
  assumes "proper S" "is_double u"
  shows "\<exists>u' s'. (k, u', s') \<in> set (keep_state k u s S) \<and> u \<le> u'"
proof (cases "map_of S k")
  case None
  then have "keep_state k u s S = AList.update k (u, s) S" by (simp add: keep_state_def)
  then have "(k, u, s) \<in> set (keep_state k u s S)" using set_update_new by metis
  then show ?thesis using double_refl [OF assms(2)] by blast
next
  case (Some v)
  then have v: "(k, v) \<in> set S" by (rule map_of_SomeD)
  show ?thesis
  proof (cases "value_greater (u, s) v")
    case True
    then have "keep_state k u s S = AList.update k (u, s) S" using Some by (simp add: keep_state_def)
    then have "(k, u, s) \<in> set (keep_state k u s S)" using set_update_new by metis
    then show ?thesis using double_refl [OF assms(2)] by blast
  next
    case False
    have "is_double (fst v)" using proper_double [OF assms(1), of k "fst v" "snd v"] v by simp
    then have "u \<le> fst v" using not_value_greater [of "(u, s)" v] False assms(2) by simp
    with v False Some show ?thesis by (cases v) (auto simp: keep_state_def)
  qed
qed

lemma keep_state_improves:
  assumes "proper S" "is_double u"
  shows "improves S (keep_state k u s S)"
  unfolding improves_def
proof (intro allI impI)
  fix i w t
  assume m: "(i, w, t) \<in> set S"
  show "\<exists>u' s'. (i, u', s') \<in> set (keep_state k u s S) \<and> w \<le> u'"
  proof (cases "i = k \<and> value_greater (u, s) (w, t)")
    case True
    have "w \<le> u" using value_greater_le [of "(u, s)" "(w, t)"] True assms(2) by simp
    then show ?thesis using keep_state_at [OF assms, of k s] True fle_trans by blast
  next
    case False
    have "w \<le> w" by (rule double_refl [OF proper_double [OF assms(1) m]])
    moreover have "(i, w, t) \<in> set (keep_state k u s S)"
    proof (cases "i = k")
      case True
      then have "map_of S k = Some (w, t)" using m assms(1) by (auto simp: proper_def)
      then show ?thesis using m True False by (simp add: keep_state_def)
    next
      case False
      then show ?thesis using m set_update_old by (auto simp: keep_state_def split: option.splits)
    qed
    ultimately show ?thesis by blast
  qed
qed

section \<open>Extending states\<close>

text \<open>The states one demand can lead to from a state: defer it, or take an option that fits.\<close>

definition reach1 ::
    "scheduler_config \<Rightarrow> repair_option list \<Rightarrow> (int \<times> int) \<times> dp_value \<Rightarrow> (int \<times> int) \<times> dp_value \<Rightarrow> bool" where
  "reach1 c os st x \<longleftrightarrow>
     (\<exists>i k' u'. walk [os] [i] (fst st, fst (snd st)) = Some (k', u') \<and>
        x = (k', u', snd (snd st) @ [i]) \<and> (i = -1 \<or> fits c k'))"

text \<open>\<open>covered X T\<close>: each element of \<open>X\<close> has a state in \<open>T\<close> under its key that is no worse.\<close>

definition no_worse :: "dp_states \<Rightarrow> (int \<times> int) \<times> dp_value \<Rightarrow> bool" where
  "no_worse T x \<longleftrightarrow> (\<exists>u' s'. (fst x, u', s') \<in> set T \<and> fst (snd x) \<le> u')"

definition covered :: "((int \<times> int) \<times> dp_value) set \<Rightarrow> dp_states \<Rightarrow> bool" where
  "covered X T \<longleftrightarrow> (\<forall>x\<in>X. no_worse T x)"

lemma improves_covered: "improves S T \<longleftrightarrow> covered (set S) T"
  by (fastforce simp: improves_def covered_def no_worse_def)

lemma no_worse_improves: "no_worse S x \<Longrightarrow> improves S T \<Longrightarrow> no_worse T x"
  unfolding no_worse_def improves_def by (meson fle_trans)

lemma covered_improves: "covered X S \<Longrightarrow> improves S T \<Longrightarrow> covered X T"
  unfolding covered_def by (blast intro: no_worse_improves)

lemma covered_un: "covered (X \<union> Y) T \<longleftrightarrow> covered X T \<and> covered Y T"
  by (auto simp: covered_def)

lemma covered_insert: "covered (insert x X) T \<longleftrightarrow> no_worse T x \<and> covered X T"
  by (simp add: covered_def)

text \<open>The states the option loop offers.\<close>

definition offered ::
    "scheduler_config \<Rightarrow> (int \<times> int) \<Rightarrow> dp_value \<Rightarrow> int \<Rightarrow> repair_option list \<Rightarrow> ((int \<times> int) \<times> dp_value) set" where
  "offered c k v i os =
     {((fst k + ro_cost (os ! j), snd k + 1), fst v + ro_utility (os ! j), snd v @ [i + int j]) | j.
        j < length os \<and> fits c (fst k + ro_cost (os ! j), snd k + 1)}"

lemma offered_Cons:
  "offered c k v i (opt # os) =
     (if fits c (fst k + ro_cost opt, snd k + 1)
      then {((fst k + ro_cost opt, snd k + 1), fst v + ro_utility opt, snd v @ [i])} else {}) \<union>
     offered c k v (i + 1) os"
proof -
  have "{f j | j. j < length (opt # os) \<and> P j} =
      (if P 0 then {f 0} else {}) \<union> {f (Suc j) | j. j < length os \<and> P (Suc j)}"
    for f :: "nat \<Rightarrow> (int \<times> int) \<times> dp_value" and P
    by (auto simp: less_Suc_eq_0_disj)
  from this [of "\<lambda>j. ((fst k + ro_cost ((opt # os) ! j), snd k + 1),
      fst v + ro_utility ((opt # os) ! j), snd v @ [i + int j])"
      "\<lambda>j. fits c (fst k + ro_cost ((opt # os) ! j), snd k + 1)"]
  show ?thesis by (simp add: offered_def add.assoc add.commute add.left_commute)
qed

lemma extend_options_correct:
  assumes "proper S" "is_double (fst v)" "good_options os"
  shows "proper (extend_options c k v i os S) \<and>
         set (extend_options c k v i os S) \<subseteq> set S \<union> offered c k v i os \<and>
         covered (set S \<union> offered c k v i os) (extend_options c k v i os S)"
  using assms
proof (induction os arbitrary: i S)
  case Nil
  then show ?case using improves_refl by (simp add: offered_def improves_covered)
next
  case (Cons opt os)
  define k' where "k' = (fst k + ro_cost opt, snd k + 1)"
  define T where "T = (if fits c k' then keep_state k' (fst v + ro_utility opt) (snd v @ [i]) S else S)"
  have e: "extend_options c k v i (opt # os) S = extend_options c k v (i + 1) os T"
    by (auto simp: T_def k'_def fits_def Let_def not_less split: option.splits)
  have d: "is_double (fst v + ro_utility opt)"
    using Cons(3,4) by (simp add: is_double_add good_options_def)
  have T: "proper T" using Cons(2) d by (simp add: T_def proper_keep)
  have sub: "set T \<subseteq> set S \<union> (if fits c k' then {(k', fst v + ro_utility opt, snd v @ [i])} else {})"
    using set_keep_state [of k' "fst v + ro_utility opt" "snd v @ [i]" S] by (auto simp: T_def)
  have imp: "improves S T" using keep_state_improves [OF Cons(2) d] improves_refl [OF Cons(2)]
    by (simp add: T_def)
  have new: "covered (if fits c k' then {(k', fst v + ro_utility opt, snd v @ [i])} else {}) T"
    using keep_state_at [OF Cons(2) d] by (simp add: T_def covered_def no_worse_def)
  have IH: "proper (extend_options c k v (i + 1) os T)"
      "set (extend_options c k v (i + 1) os T) \<subseteq> set T \<union> offered c k v (i + 1) os"
      "covered (set T \<union> offered c k v (i + 1) os) (extend_options c k v (i + 1) os T)"
    using Cons.IH [OF T, of "i + 1"] Cons(3,4) by (auto simp: good_options_def)
  have "improves T (extend_options c k v (i + 1) os T)" using IH(3) by (simp add: improves_covered covered_un)
  then have "covered (set S) (extend_options c k v (i + 1) os T)"
      "covered (if fits c k' then {(k', fst v + ro_utility opt, snd v @ [i])} else {})
         (extend_options c k v (i + 1) os T)"
    using imp new covered_improves improves_covered by blast+
  then show ?case
    using IH sub unfolding e offered_Cons k'_def [symmetric] covered_un by blast
qed

lemma reach1_iff:
  "{x. reach1 c os (k, v) x} = insert (k, fst v, snd v @ [-1]) (offered c k v 0 os)"
proof -
  have "reach1 c os (k, v) x \<longleftrightarrow> x = (k, fst v, snd v @ [-1]) \<or> x \<in> offered c k v 0 os" for x
  proof
    assume "reach1 c os (k, v) x"
    then obtain i k' u' where i: "walk [os] [i] (k, fst v) = Some (k', u')"
        "x = (k', u', snd v @ [i])" "i = -1 \<or> fits c k'"
      by (auto simp: reach1_def)
    show "x = (k, fst v, snd v @ [-1]) \<or> x \<in> offered c k v 0 os"
    proof (cases "i = -1")
      case True then show ?thesis using i by (cases k) simp
    next
      case False
      then have r: "0 \<le> i" "i < py_len os" using i(1) by (cases k; auto split: if_splits)+
      then have "nat i < length os" "int (nat i) = i" by (auto simp: py_len_def)
      then show ?thesis using i False r
        by (cases k) (auto simp: offered_def intro!: exI [of _ "nat i"])
    qed
  next
    assume "x = (k, fst v, snd v @ [-1]) \<or> x \<in> offered c k v 0 os"
    then show "reach1 c os (k, v) x"
    proof
      assume "x = (k, fst v, snd v @ [-1])"
      then show ?thesis by (cases k) (auto simp: reach1_def)
    next
      assume "x \<in> offered c k v 0 os"
      then obtain j where "j < length os" "fits c (fst k + ro_cost (os ! j), snd k + 1)"
          "x = ((fst k + ro_cost (os ! j), snd k + 1), fst v + ro_utility (os ! j), snd v @ [int j])"
        by (auto simp: offered_def)
      then show ?thesis
        unfolding reach1_def by (intro exI [of _ "int j"]) (cases k; simp add: py_len_def)
    qed
  qed
  then show ?thesis by blast
qed

lemma extend_state_correct:
  assumes "proper S" "is_double (fst (snd st))" "good_options os"
  shows "proper (extend_state c os st S) \<and>
         set (extend_state c os st S) \<subseteq> set S \<union> {x. reach1 c os st x} \<and>
         covered (set S \<union> {x. reach1 c os st x}) (extend_state c os st S)"
proof -
  obtain k v where st: "st = (k, v)" by (cases st)
  define T where "T = keep_state k (fst v) (snd v @ [-1]) S"
  have d: "is_double (fst v)" using assms(2) st by simp
  have T: "proper T" using assms(1) d by (simp add: T_def proper_keep)
  note E = extend_options_correct [OF T d assms(3), of c k 0]
  have "improves T (extend_options c k v 0 os T)" using E by (simp add: improves_covered covered_un)
  moreover have "improves S T" using keep_state_improves [OF assms(1) d] by (simp add: T_def)
  moreover have "covered {(k, fst v, snd v @ [-1])} T"
    using keep_state_at [OF assms(1) d] by (simp add: T_def covered_def no_worse_def)
  ultimately have "covered (set S) (extend_options c k v 0 os T)"
      "covered {(k, fst v, snd v @ [-1])} (extend_options c k v 0 os T)"
    using covered_improves improves_covered by blast+
  then show ?thesis
    using E set_keep_state [of k "fst v" "snd v @ [-1]" S]
    unfolding st reach1_iff extend_state_def
    by (auto simp: T_def [symmetric] covered_un covered_insert)
qed

lemma extend_all_correct:
  assumes "proper S" "\<forall>st\<in>set sts. is_double (fst (snd st))" "good_options os"
  shows "proper (foldl (\<lambda>next st. extend_state c os st next) S sts) \<and>
         set (foldl (\<lambda>next st. extend_state c os st next) S sts) \<subseteq>
           set S \<union> {x. \<exists>st\<in>set sts. reach1 c os st x} \<and>
         covered (set S \<union> {x. \<exists>st\<in>set sts. reach1 c os st x})
           (foldl (\<lambda>next st. extend_state c os st next) S sts)"
  using assms
proof (induction sts arbitrary: S)
  case Nil
  then show ?case using improves_refl by (simp add: improves_covered)
next
  case (Cons st sts)
  define T where "T = extend_state c os st S"
  have T: "proper T" "set T \<subseteq> set S \<union> {x. reach1 c os st x}"
      "covered (set S \<union> {x. reach1 c os st x}) T"
    using extend_state_correct [of S st os c] Cons(2,3,4) by (auto simp: T_def)
  have IH: "proper (foldl (\<lambda>next st. extend_state c os st next) T sts)"
      "set (foldl (\<lambda>next st. extend_state c os st next) T sts) \<subseteq>
         set T \<union> {x. \<exists>st\<in>set sts. reach1 c os st x}"
      "covered (set T \<union> {x. \<exists>st\<in>set sts. reach1 c os st x})
         (foldl (\<lambda>next st. extend_state c os st next) T sts)"
    using Cons.IH [OF T(1)] Cons(3,4) by auto
  have "improves T (foldl (\<lambda>next st. extend_state c os st next) T sts)"
    using IH(3) by (simp add: improves_covered covered_un)
  then have "covered (set S \<union> {x. reach1 c os st x}) (foldl (\<lambda>next st. extend_state c os st next) T sts)"
    using T(3) covered_improves by blast
  moreover have "set S \<union> {x. \<exists>y\<in>set (st # sts). reach1 c os y x} =
      (set S \<union> {x. reach1 c os st x}) \<union> {x. \<exists>st\<in>set sts. reach1 c os st x}" by auto
  ultimately show ?case
    using IH T(2) by (simp add: T_def [symmetric] covered_un) blast
qed

section \<open>Pruning\<close>

text \<open>A state with as many repairs, no more bytes and no less utility.\<close>

definition dominated :: "dp_states \<Rightarrow> (int \<times> int) \<times> pyfloat \<Rightarrow> bool" where
  "dominated T x \<longleftrightarrow> (\<exists>y\<in>set T. snd (fst y) = snd (fst x) \<and> fst (fst y) \<le> fst (fst x) \<and>
                                   snd x \<le> fst (snd y))"

abbreviation seen :: "(int \<times> int) \<times> dp_value \<Rightarrow> (int \<times> int) \<times> pyfloat" where
  "seen x \<equiv> (fst x, fst (snd x))"

definition cheap_first :: "dp_states \<Rightarrow> bool" where
  "cheap_first = sorted_wrt (\<lambda>x y. snd (fst x) = snd (fst y) \<longrightarrow> fst (fst x) \<le> fst (fst y))"

definition best_from :: "dp_states \<Rightarrow> (int \<Rightarrow> pyfloat) \<Rightarrow> dp_states \<Rightarrow> bool" where
  "best_from E best ss \<longleftrightarrow>
     (\<forall>adm. best adm = NInf \<or>
        (\<exists>x\<in>set E. snd (fst x) = adm \<and> fst (snd x) = best adm \<and>
           (\<forall>y\<in>set ss. snd (fst y) = adm \<longrightarrow> fst (fst x) \<le> fst (fst y))))"

lemma prune_sub: "set (prune_from best ss) \<subseteq> set ss"
proof (induction ss arbitrary: best)
  case (Cons x ss)
  obtain used adm v where "x = ((used, adm), v)" by (metis surj_pair)
  then show ?case using Cons.IH by (auto simp del: fun_upd_apply dest: subsetD [OF Cons.IH])
qed simp

lemma prune_distinct: "distinct (map fst ss) \<Longrightarrow> distinct (map fst (prune_from best ss))"
proof (induction best ss rule: prune_from.induct)
  case (2 best used adm v ss)
  have "fst ` set (prune_from b ss) \<subseteq> fst ` set ss" for b using prune_sub by (rule image_mono)
  then have "(used, adm) \<notin> fst ` set (prune_from b ss)" for b using 2(3) by auto
  then show ?case using 2 by (simp del: fun_upd_apply)
qed simp

lemma dominated_mono: "dominated T x \<Longrightarrow> set T \<subseteq> set U \<Longrightarrow> dominated U x"
  unfolding dominated_def by blast

lemma prune_dominates:
  assumes "cheap_first ss" "\<forall>x\<in>set ss. is_double (fst (snd x))" "best_from E best ss"
  shows "\<forall>x\<in>set ss. dominated (E @ prune_from best ss) (seen x)"
  using assms
proof (induction best ss arbitrary: E rule: prune_from.induct)
  case (2 best used adm v ss)
  let ?x = "((used, adm), v)"
  have d: "is_double (fst v)" using 2(4) by simp
  show ?case
  proof (cases "fst v + dbl (1 / 10 ^ 12) < best adm")
    case True
    then have le: "fst v \<le> best adm" using not_below_tiny [OF d] by blast
    have "best adm \<noteq> NInf" using True by (cases "fst v + dbl (1 / 10 ^ 12)") auto
    then obtain e where e: "e \<in> set E" "snd (fst e) = adm" "fst (snd e) = best adm" "fst (fst e) \<le> used"
      using 2(5) unfolding best_from_def by fastforce
    then have "dominated E (seen ?x)" using le unfolding dominated_def by (intro bexI [of _ e]) auto
    then have "dominated (E @ prune_from best (?x # ss)) (seen ?x)" by (rule dominated_mono) simp
    moreover have "best_from E best ss" using 2(5) unfolding best_from_def by (meson list.set_intros(2))
    then have "\<forall>x\<in>set ss. dominated (E @ prune_from best ss) (seen x)"
      using 2(1) [OF True, of E] 2(3,4) by (simp add: cheap_first_def)
    ultimately show ?thesis using True by simp
  next
    case False
    let ?b = "best(adm := py_max (best adm) (fst v))"
    have "best_from (E @ [?x]) ?b ss"
      unfolding best_from_def
    proof (intro allI)
      fix a
      consider (other) "a \<noteq> adm" | (new) "a = adm" "best adm < fst v" | (old) "a = adm" "\<not> best adm < fst v"
        by blast
      then show "?b a = NInf \<or> (\<exists>x\<in>set (E @ [?x]). snd (fst x) = a \<and> fst (snd x) = ?b a \<and>
          (\<forall>y\<in>set ss. snd (fst y) = a \<longrightarrow> fst (fst x) \<le> fst (fst y)))"
      proof cases
        case new
        then show ?thesis using 2(3) by (fastforce simp: py_max_def cheap_first_def)
      next
        case old
        then have "?b a = best a" by (simp add: py_max_def)
        then show ?thesis using 2(5) old unfolding best_from_def by fastforce
      next
        case other
        then have "?b a = best a" by simp
        then show ?thesis using 2(5) unfolding best_from_def by fastforce
      qed
    qed
    then have "\<forall>x\<in>set ss. dominated ((E @ [?x]) @ prune_from ?b ss) (seen x)"
      using 2(2) [OF False, of "E @ [?x]"] 2(3,4) by (simp add: cheap_first_def del: fun_upd_apply)
    moreover have "dominated (E @ prune_from best (?x # ss)) (seen ?x)"
      using False double_refl [OF d] by (auto simp: dominated_def)
    ultimately show ?thesis using False by (simp del: fun_upd_apply)
  qed
qed simp

lemma pareto_prune_correct:
  assumes "proper S"
  shows "proper (pareto_prune S) \<and> set (pareto_prune S) \<subseteq> set S \<and>
         (\<forall>x\<in>set S. dominated (pareto_prune S) (seen x))"
proof -
  define ss where "ss = sort_key (\<lambda>((used, adm), v). (adm, used)) S"
  have set: "set ss = set S" by (simp add: ss_def)
  have "mset ss = mset S" unfolding ss_def by (rule mset_sort)
  then have "mset (map fst ss) = mset (map fst S)" by (metis mset_map)
  then have dist: "distinct (map fst ss)" using assms unfolding proper_def
    by (metis mset_eq_imp_distinct_iff)
  have "sorted_wrt (\<lambda>x y. (\<lambda>((used, adm), v). (adm, used)) x \<le> (\<lambda>((used, adm), v). (adm, used)) y) ss"
    using sorted_sort_key [of "\<lambda>((used, adm), v). (adm, used)" S] by (simp add: ss_def sorted_map)
  then have cheap: "cheap_first ss"
    unfolding cheap_first_def by (rule sorted_wrt_mono_rel [rotated]) (auto simp: less_eq_prod_def)
  have doub: "\<forall>x\<in>set ss. is_double (fst (snd x))"
    unfolding set by (metis proper_double [OF assms] surjective_pairing)
  have "\<forall>x\<in>set ss. dominated ([] @ prune_from (\<lambda>_. NInf) ss) (seen x)"
    by (rule prune_dominates [OF cheap doub]) (simp add: best_from_def)
  moreover have "set (prune_from (\<lambda>_. NInf) ss) \<subseteq> set S" using prune_sub set by blast
  moreover have "proper (prune_from (\<lambda>_. NInf) ss)"
    using prune_distinct [OF dist] prune_sub [of _ ss] doub unfolding proper_def by fastforce
  ultimately show ?thesis by (simp add: pareto_prune_def ss_def [symmetric] set)
qed

section \<open>The whole program\<close>

text \<open>What the states stand for once the options \<open>oss\<close> have been processed.\<close>

definition dp_inv :: "scheduler_config \<Rightarrow> repair_option list list \<Rightarrow> dp_states \<Rightarrow> bool" where
  "dp_inv c oss S \<longleftrightarrow> proper S \<and>
     (\<forall>k u s. (k, u, s) \<in> set S \<longrightarrow> walk oss s start = Some (k, u) \<and> fits c k) \<and>
     (\<forall>sel k u. walk oss sel start = Some (k, u) \<and> fits c k \<longrightarrow> dominated S (k, u))"

lemma fits_mono: "fits c k' \<Longrightarrow> fst k \<le> fst k' \<Longrightarrow> snd k \<le> snd k' \<Longrightarrow> fits c k"
  by (auto simp: fits_def split: option.splits)

lemma walk_one_shift:
  assumes "walk [os] [i] ((a, n), u) = Some (k, v)" "a' \<le> a" "u \<le> u'" "good_options os"
  shows "\<exists>v'. walk [os] [i] ((a', n), u') = Some ((fst k - a + a', snd k), v') \<and> v \<le> v'"
proof (cases "i = -1")
  case True then show ?thesis using assms by auto
next
  case False
  then have i: "0 \<le> i" "i < py_len os" using assms(1) by (auto split: if_splits)
  then have "is_fin (ro_utility (os ! nat i))" using assms(4) by (simp add: good_options_def py_len_def)
  then show ?thesis using assms(1,3) i False by (auto intro: add_mono_fin)
qed

lemma dp_inv_step:
  assumes inv: "dp_inv c oss S" and g: "good_options os" "\<forall>os\<in>set oss. good_options os"
  shows "dp_inv c (oss @ [os]) (pareto_prune (foldl (\<lambda>next st. extend_state c os st next) [] S))"
proof -
  define T where "T = foldl (\<lambda>next st. extend_state c os st next) [] S"
  have S: "proper S" and sound: "\<And>k u s. (k, u, s) \<in> set S \<Longrightarrow> walk oss s start = Some (k, u) \<and> fits c k"
    and compl: "\<And>sel k u. walk oss sel start = Some (k, u) \<Longrightarrow> fits c k \<Longrightarrow> dominated S (k, u)"
    using inv unfolding dp_inv_def by blast+
  have "proper []" by (simp add: proper_def)
  moreover have "\<forall>st\<in>set S. is_double (fst (snd st))" by (metis proper_double [OF S] surjective_pairing)
  ultimately have T: "proper T" "set T \<subseteq> {x. \<exists>st\<in>set S. reach1 c os st x}"
      "covered {x. \<exists>st\<in>set S. reach1 c os st x} T"
    using extend_all_correct [of "[]" S os c] g(1) by (auto simp: T_def)
  note P = pareto_prune_correct [OF T(1)]
  have "walk (oss @ [os]) s start = Some (k, u) \<and> fits c k" if m: "(k, u, s) \<in> set (pareto_prune T)" for k u s
  proof -
    have "(k, u, s) \<in> set T" using P m by blast
    with T(2) obtain st where st: "st \<in> set S" "reach1 c os st (k, u, s)" by blast
    obtain k0 u0 s0 where e: "st = (k0, u0, s0)" by (metis surj_pair)
    obtain i where i: "walk [os] [i] (k0, u0) = Some (k, u)" "s = s0 @ [i]" "i = -1 \<or> fits c k"
      using st(2) by (auto simp: reach1_def e)
    have w: "walk oss s0 start = Some (k0, u0)" "fits c k0" using sound st(1) e by auto
    then have "walk (oss @ [os]) s start = Some (k, u)"
      using i walk_snoc [OF walk_length [OF w(1)], of os i start] by simp
    moreover have "fits c k" using i w(2) by (cases k0) auto
    ultimately show ?thesis by blast
  qed
  moreover have "dominated (pareto_prune T) (k, u)"
    if w: "walk (oss @ [os]) sel start = Some (k, u)" "fits c k" for sel k u
  proof -
    obtain js i st' where st: "walk oss js start = Some st'" "walk [os] [i] st' = Some (k, u)"
      by (rule walk_snocE [OF w(1)])
    obtain a n u0 where st': "st' = ((a, n), u0)" by (cases st'; cases "fst st'") auto
    have "fits c (a, n)"
      using fits_mono [OF w(2)] walk_mono [OF st(2) [unfolded st'] g(1)] by simp
    then have "dominated S ((a, n), u0)" using compl st(1) st' by blast
    then obtain y where y: "y \<in> set S" "snd (fst y) = n" "fst (fst y) \<le> a" "u0 \<le> fst (snd y)"
      unfolding dominated_def by auto
    obtain a' u' s' where d: "((a', n), u', s') \<in> set S" "a' \<le> a" "u0 \<le> u'"
    proof (rule that)
      show "((fst (fst y), n), fst (snd y), snd (snd y)) \<in> set S" using y(1,2) by (metis surjective_pairing)
    qed (use y in auto)
    obtain v' where v': "walk [os] [i] ((a', n), u') = Some ((fst k - a + a', snd k), v')" "u \<le> v'"
      using walk_one_shift [OF st(2) [unfolded st'] d(2,3) g(1)] by blast
    define k2 where "k2 = (fst k - a + a', snd k)"
    have "fits c k2" using w(2) d(2) by (auto intro: fits_mono simp: k2_def)
    then have "reach1 c os ((a', n), u', s') (k2, v', s' @ [i])"
      using v' by (auto simp: reach1_def k2_def)
    then have "no_worse T (k2, v', s' @ [i])" using T(3) d(1) unfolding covered_def by blast
    then obtain w' t where t: "(k2, w', t) \<in> set T" "v' \<le> w'" by (auto simp: no_worse_def)
    then have "dominated (pareto_prune T) (k2, w')" using P by fastforce
    then obtain y where y: "y \<in> set (pareto_prune T)" "snd (fst y) = snd k2" "fst (fst y) \<le> fst k2"
        "w' \<le> fst (snd y)"
      by (auto simp: dominated_def)
    have "u \<le> fst (snd y)" by (rule fle_trans [OF v'(2) fle_trans [OF t(2) y(4)]])
    moreover have "fst (fst y) \<le> fst k" using y(3) d(2) by (simp add: k2_def)
    ultimately show ?thesis using y by (auto simp: dominated_def k2_def intro!: bexI [of _ y])
  qed
  ultimately show ?thesis using P unfolding dp_inv_def T_def [symmetric] by blast
qed

lemma dp_run_inv:
  assumes "dp_inv c done S" "\<forall>os\<in>set (done @ oss). good_options os"
  shows "dp_inv c (done @ oss) (dp_run c oss S)"
  using assms
proof (induction oss arbitrary: "done" S)
  case (Cons os oss)
  have "dp_inv c (done @ [os]) (pareto_prune (foldl (\<lambda>next st. extend_state c os st next) [] S))"
    using Cons(2,3) by (intro dp_inv_step) auto
  then show ?case using Cons.IH [of "done @ [os]"] Cons(3) by simp
qed simp

lemma dp_inv_start:
  assumes "fits c (0, 0)" shows "dp_inv c [] [((0, 0), (0, []))]"
proof -
  have "walk [] sel start = Some (k, u) \<Longrightarrow> k = (0, 0) \<and> u = 0" for sel k u by (cases sel) auto
  then show ?thesis using assms double_refl [OF is_double_0]
    by (auto simp: dp_inv_def proper_def dominated_def)
qed

lemma walk_defer: "walk oss (map (\<lambda>_. -1) oss) st = Some st"
proof (induction oss)
  case (Cons os oss) then show ?case by (cases st; cases "fst st") auto
qed simp

text \<open>The first greatest state is no worse than any other.\<close>

lemma best_key_le:
  "is_double (fst (snd a)) \<Longrightarrow> is_double (fst (snd b)) \<Longrightarrow>
   (best_key_greater a b \<longrightarrow> fst (snd b) \<le> fst (snd a)) \<and>
   (\<not> best_key_greater a b \<longrightarrow> fst (snd a) \<le> fst (snd b))"
  using fnot_less [of "fst (snd b)" "fst (snd a)"] not_nan double_refl fless_imp_le
  by (auto simp: best_key_greater_def Let_def feq_def split: if_splits)

lemma max_fold:
  assumes "\<forall>x\<in>set (b # xs). is_double (fst (snd x))"
  shows "foldl (\<lambda>best y. if best_key_greater y best then y else best) b xs \<in> set (b # xs) \<and>
         (\<forall>x\<in>set (b # xs). fst (snd x) \<le>
            fst (snd (foldl (\<lambda>best y. if best_key_greater y best then y else best) b xs)))"
  using assms
proof (induction xs arbitrary: b)
  case Nil then show ?case using double_refl by simp
next
  case (Cons y xs)
  define b' where "b' = (if best_key_greater y b then y else b)"
  have d: "is_double (fst (snd y))" "is_double (fst (snd b))" using Cons(2) by auto
  have le: "fst (snd b) \<le> fst (snd b')" "fst (snd y) \<le> fst (snd b')"
    using best_key_le [OF d] double_refl d by (auto simp: b'_def)
  have IH: "foldl (\<lambda>best y. if best_key_greater y best then y else best) b' xs \<in> set (b' # xs)"
      "\<forall>x\<in>set (b' # xs). fst (snd x) \<le>
         fst (snd (foldl (\<lambda>best y. if best_key_greater y best then y else best) b' xs))"
    using Cons.IH [of b'] Cons(2) by (auto simp: b'_def)
  have "fst (snd x) \<le> fst (snd (foldl (\<lambda>best y. if best_key_greater y best then y else best) b' xs))"
    if "x \<in> set (b # y # xs)" for x
    using that IH(2) le fle_trans by (auto simp del: foldl.simps)
  moreover have "b' \<in> {b, y}" by (simp add: b'_def)
  ultimately show ?case using IH(1) by (auto simp: b'_def [symmetric])
qed

section \<open>Soundness without conditions on the utilities\<close>

definition dp_sound :: "scheduler_config \<Rightarrow> repair_option list list \<Rightarrow> dp_states \<Rightarrow> bool" where
  "dp_sound c oss S \<longleftrightarrow> S \<noteq> [] \<and>
     (\<forall>x\<in>set S. walk oss (snd (snd x)) start = Some (seen x) \<and> fits c (fst x))"

lemma extend_options_sub:
  "set (extend_options c k v i os S) \<subseteq> set S \<union> offered c k v i os"
proof (induction os arbitrary: i S)
  case (Cons opt os)
  define k' where "k' = (fst k + ro_cost opt, snd k + 1)"
  define T where "T = (if fits c k' then keep_state k' (fst v + ro_utility opt) (snd v @ [i]) S else S)"
  have e: "extend_options c k v i (opt # os) S = extend_options c k v (i + 1) os T"
    by (auto simp: T_def k'_def fits_def Let_def not_less split: option.splits)
  have "set T \<subseteq> set S \<union> (if fits c k' then {(k', fst v + ro_utility opt, snd v @ [i])} else {})"
    using set_keep_state [of k' "fst v + ro_utility opt" "snd v @ [i]" S] by (auto simp: T_def)
  then show ?case using Cons [of "i + 1" T] unfolding e offered_Cons k'_def [symmetric] by blast
qed simp

lemma keep_state_nonempty: "keep_state k u s S \<noteq> []"
proof -
  have "AList.update k v S \<noteq> []" for v using set_update_new [of k v S] by auto
  then show ?thesis by (auto simp: keep_state_def split: option.splits)
qed

lemma extend_options_nonempty: "S \<noteq> [] \<Longrightarrow> extend_options c k v i os S \<noteq> []"
  by (induction os arbitrary: i S) (simp_all add: keep_state_nonempty Let_def split: option.split)

lemma extend_state_sub: "set (extend_state c os st S) \<subseteq> set S \<union> {x. reach1 c os st x}"
  using extend_options_sub [of c "fst st" "snd st" 0 os "keep_state (fst st) (fst (snd st)) (snd (snd st) @ [-1]) S"]
    set_keep_state [of "fst st" "fst (snd st)" "snd (snd st) @ [-1]" S] reach1_iff [of c os "fst st" "snd st"]
  by (auto simp: extend_state_def)

lemma extend_all_sub:
  "set (foldl (\<lambda>next st. extend_state c os st next) S sts) \<subseteq> set S \<union> {x. \<exists>st\<in>set sts. reach1 c os st x}"
proof (induction sts arbitrary: S)
  case (Cons st sts)
  show ?case using Cons [of "extend_state c os st S"] extend_state_sub [of c os st S] by auto
qed simp

lemma extend_state_nonempty: "extend_state c os st S \<noteq> []"
  by (simp add: extend_state_def extend_options_nonempty keep_state_nonempty)

lemma extend_all_nonempty: "sts \<noteq> [] \<Longrightarrow> foldl (\<lambda>next st. extend_state c os st next) S sts \<noteq> []"
  by (cases sts rule: rev_cases) (simp_all add: extend_state_nonempty)

lemma pareto_prune_sub: "set (pareto_prune S) \<subseteq> set S"
  using prune_sub by (fastforce simp: pareto_prune_def)

lemma pareto_prune_nonempty: "S \<noteq> [] \<Longrightarrow> pareto_prune S \<noteq> []"
proof -
  assume "S \<noteq> []"
  then obtain x ss where "sort_key (\<lambda>((used, adm), v). (adm, used)) S = x # ss"
    by (metis list.exhaust set_empty set_sort)
  moreover obtain used adm v where "x = ((used, adm), v)" by (cases x; cases "fst x") auto
  moreover have "\<not> y < NInf" for y by (cases y) auto
  ultimately show ?thesis by (simp add: pareto_prune_def)
qed

lemma dp_sound_step:
  assumes "dp_sound c oss S"
  shows "dp_sound c (oss @ [os]) (pareto_prune (foldl (\<lambda>next st. extend_state c os st next) [] S))"
proof -
  define T where "T = foldl (\<lambda>next st. extend_state c os st next) [] S"
  have ne: "pareto_prune T \<noteq> []"
    using assms by (simp add: T_def dp_sound_def pareto_prune_nonempty extend_all_nonempty)
  have "walk (oss @ [os]) (snd (snd x)) start = Some (seen x) \<and> fits c (fst x)"
    if "x \<in> set (pareto_prune T)" for x
  proof -
    have "x \<in> {x. \<exists>st\<in>set S. reach1 c os st x}"
      using that pareto_prune_sub [of T] extend_all_sub [of c os "[]" S] by (auto simp: T_def)
    then obtain st where st: "st \<in> set S" "reach1 c os st x" by blast
    then obtain i k' u' where i: "walk [os] [i] (seen st) = Some (k', u')"
        "x = (k', u', snd (snd st) @ [i])" "i = -1 \<or> fits c k'"
      by (auto simp: reach1_def)
    have w: "walk oss (snd (snd st)) start = Some (seen st)" "fits c (fst st)"
      using assms st(1) by (auto simp: dp_sound_def)
    have "walk (oss @ [os]) (snd (snd x)) start = Some (seen x)"
      using i w(1) walk_snoc [OF walk_length [OF w(1)], of os i start] by simp
    moreover have "fits c k'" using i w(2) by (cases "fst st") auto
    ultimately show ?thesis using i(2) by simp
  qed
  with ne show ?thesis unfolding T_def dp_sound_def by blast
qed

lemma dp_run_sound: "dp_sound c done S \<Longrightarrow> dp_sound c (done @ oss) (dp_run c oss S)"
proof (induction oss arbitrary: "done" S)
  case (Cons os oss)
  then show ?case using Cons.IH [OF dp_sound_step [OF Cons(2)]] by simp
qed simp

lemma max_fold_in:
  "foldl (\<lambda>best y. if g y best then y else best) b xs \<in> set (b # xs)"
  by (induction xs arbitrary: b) (auto split: if_splits)

lemma py_max_in: "py_max_by g S = Inr x \<Longrightarrow> x \<in> set S"
  using max_fold_in [of g] by (cases S) (auto simp del: set_simps)

lemma py_max_some: "S \<noteq> [] \<Longrightarrow> \<exists>x. py_max_by g S = Inr x"
  by (cases S) auto

section \<open>Reading the schedule off a choice\<close>

definition total_utility :: "repair_decision list \<Rightarrow> pyfloat \<Rightarrow> pyfloat" where
  "total_utility decs u = foldl (\<lambda>acc d. if dc_action d = Repair then acc + dc_utility d else acc) u decs"

definition repairs :: "repair_decision list \<Rightarrow> repair_decision list" where
  "repairs = filter (\<lambda>d. dc_action d = Repair)"

text \<open>What each decision is: a deferral, or one of the demand's options.\<close>

definition decided_from :: "repair_demand \<Rightarrow> repair_option list \<Rightarrow> repair_decision \<Rightarrow> bool" where
  "decided_from d os dec \<longleftrightarrow>
     dec = deferred_decision d \<or> (\<exists>opt\<in>set os. dec = repair_decision_of d opt)"

lemma decide_walk:
  assumes "walk oss js ((a, n), u) = Some ((a', n'), u')" "length ds = length oss"
  shows "\<exists>decs. decide ds oss js = Inr decs \<and> length decs = length ds \<and>
           (\<forall>i<length ds. decided_from (ds ! i) (oss ! i) (decs ! i)) \<and>
           a + sum_bytes dc_allocated_bytes (repairs decs) = a' \<and> n + py_len (repairs decs) = n' \<and>
           total_utility decs u = u'"
  using assms
proof (induction ds arbitrary: oss js a n u)
  case Nil
  then show ?case by (cases js) (auto simp: repairs_def sum_bytes_def total_utility_def)
next
  case (Cons d ds)
  then obtain os oss' where o: "oss = os # oss'" "length ds = length oss'" by (cases oss) auto
  obtain j js' where j: "js = j # js'" using Cons(2) o by (cases js) auto
  show ?case
  proof (cases "j = -1")
    case True
    then obtain decs where decs: "decide ds oss' js' = Inr decs" "length decs = length ds"
        "\<forall>i<length ds. decided_from (ds ! i) (oss' ! i) (decs ! i)"
        "a + sum_bytes dc_allocated_bytes (repairs decs) = a'" "n + py_len (repairs decs) = n'"
        "total_utility decs u = u'"
      using Cons.IH [of oss' js' a n u] Cons(2) o j by auto
    let ?decs = "deferred_decision d # decs"
    have "decide (d # ds) oss js = Inr ?decs" using True o j decs(1) by simp
    moreover have "\<forall>i<length (d # ds). decided_from ((d # ds) ! i) (oss ! i) (?decs ! i)"
      using decs(3) o by (auto simp: nth_Cons' decided_from_def)
    ultimately show ?thesis using decs
      by (intro exI [of _ ?decs]) (simp add: repairs_def total_utility_def deferred_decision_def)
  next
    case False
    then have r: "0 \<le> j" "j < py_len os" using Cons(2) o j by (auto split: if_splits)
    define opt where "opt = os ! nat j"
    have m: "opt \<in> set os" using r by (simp add: opt_def py_len_def)
    from False r Cons(2) o j have "walk oss' js' ((a + ro_cost opt, n + 1), u + ro_utility opt) = Some ((a', n'), u')"
      by (simp add: opt_def)
    then obtain decs where decs: "decide ds oss' js' = Inr decs" "length decs = length ds"
        "\<forall>i<length ds. decided_from (ds ! i) (oss' ! i) (decs ! i)"
        "a + ro_cost opt + sum_bytes dc_allocated_bytes (repairs decs) = a'"
        "n + 1 + py_len (repairs decs) = n'" "total_utility decs (u + ro_utility opt) = u'"
      using Cons.IH [of oss' js' "a + ro_cost opt" "n + 1" "u + ro_utility opt"] o by auto
    let ?decs = "repair_decision_of d opt # decs"
    have "decide (d # ds) oss js = Inr ?decs" using r o j decs(1) by (simp add: py_index_in opt_def)
    moreover have "\<forall>i<length (d # ds). decided_from ((d # ds) ! i) (oss ! i) (?decs ! i)"
      using decs(3) o m by (auto simp: nth_Cons' decided_from_def)
    ultimately show ?thesis using decs
      by (intro exI [of _ ?decs])
        (simp add: repairs_def total_utility_def repair_decision_of_def sum_bytes_def)
  qed
qed

lemma build_options_each:
  "build_options ln1p c d cands = Inr os \<Longrightarrow> opt \<in> set os \<Longrightarrow>
   ro_paths opt \<in> set cands \<and> ro_cost opt = rd_payload_bytes d * py_len (ro_paths opt) \<and>
   \<not> ro_success opt < min_expected_success c \<and> ro_success opt = joint_success (ro_paths opt)"
proof (induction cands arbitrary: os)
  case (Cons sel cands)
  then show ?case by (auto simp: Let_def split: if_splits sum.splits)
qed simp

lemma demand_options_each:
  assumes "demand_options ln1p c paths d = Inr os" "opt \<in> set os"
  shows "0 < rd_payload_bytes d \<and> ro_cost opt = rd_payload_bytes d * py_len (ro_paths opt) \<and>
         \<not> ro_success opt < min_expected_success c \<and> length (ro_paths opt) \<in> {1, 2}"
proof -
  from assms obtain first rest where p: "0 < rd_payload_bytes d"
      and b: "build_options ln1p c d (option_candidates c first rest) = Inr os"
    unfolding demand_options_def
    by (cases "py_sorted (\<lambda>p q. path_risk p d < path_risk q d) paths") (auto split: if_splits)
  moreover have "length q \<in> {1, 2}" if q: "q \<in> set (option_candidates c first rest)" for q
  proof -
    have "q = [first] \<or> (\<exists>y. q = [first, y])"
      using q unfolding option_candidates_def
      by (cases "1 < max_paths_per_repair c"; cases "diverse_second c first rest") auto
    then show ?thesis by auto
  qed
  ultimately show ?thesis using build_options_each [OF b assms(2)] by auto
qed

lemma schedule_shape:
  assumes "schedule ln1p c demands paths = Inr s"
  obtains oss x where "map_outcome (demand_options ln1p c paths) (sort_key demand_id demands) = Inr oss"
    and "py_max_by best_key_greater (dp_run c oss [((0, 0), (0, []))]) = Inr x"
    and "decide (sort_key demand_id demands) oss (snd (snd x)) = Inr (sc_decisions s)"
    and "sc_capacity_bytes s = capacity_bytes c"
  using assms by (auto simp: schedule_def Let_def split: if_splits sum.splits prod.splits)

lemma options_length:
  assumes "map_outcome (demand_options ln1p c paths) ds = Inr oss"
  shows "length oss = length ds"
    and "i < length ds \<Longrightarrow> demand_options ln1p c paths (ds ! i) = Inr (oss ! i)"
  using assms by (auto simp: map_outcome_Inr list_all2_conv_all_nth)

text \<open>The decisions of a schedule, with the totals its dynamic program reached.\<close>

lemma schedule_decided:
  assumes "schedule ln1p c demands paths = Inr s"
    and "0 \<le> capacity_bytes c" "\<forall>m. max_admitted_repairs c = Some m \<longrightarrow> 0 \<le> m"
  obtains oss where "length (sc_decisions s) = length demands"
    and "\<forall>i<length demands. decided_from (sort_key demand_id demands ! i) (oss ! i) (sc_decisions s ! i) \<and>
          demand_options ln1p c paths (sort_key demand_id demands ! i) = Inr (oss ! i)"
    and "fits c (sum_bytes dc_allocated_bytes (repairs (sc_decisions s)), py_len (repairs (sc_decisions s)))"
proof -
  define ds where "ds = sort_key demand_id demands"
  from assms(1) obtain oss x where o: "map_outcome (demand_options ln1p c paths) ds = Inr oss"
      and x: "py_max_by best_key_greater (dp_run c oss [((0, 0), (0, []))]) = Inr x"
      and dec: "decide ds oss (snd (snd x)) = Inr (sc_decisions s)"
    unfolding ds_def by (rule schedule_shape)
  have f: "fits c (0, 0)" using assms(2,3) by (auto simp: fits_def split: option.splits)
  have "dp_sound c ([] @ oss) (dp_run c oss [((0, 0), (0, []))])"
    by (rule dp_run_sound) (use f in \<open>simp add: dp_sound_def\<close>)
  moreover have "x \<in> set (dp_run c oss [((0, 0), (0, []))])" by (rule py_max_in [OF x])
  ultimately have w: "walk oss (snd (snd x)) start = Some (seen x)" "fits c (fst x)"
    by (auto simp: dp_sound_def)
  obtain a' n' u' where sx: "seen x = ((a', n'), u')" by (metis surj_pair)
  from decide_walk [OF w(1) [unfolded sx], of ds] options_length(1) [OF o] dec
  have d: "length (sc_decisions s) = length ds"
      "\<forall>i<length ds. decided_from (ds ! i) (oss ! i) (sc_decisions s ! i)"
      "sum_bytes dc_allocated_bytes (repairs (sc_decisions s)) = a'"
      "py_len (repairs (sc_decisions s)) = n'"
    by auto
  have each: "decided_from (ds ! i) (oss ! i) (sc_decisions s ! i) \<and>
      demand_options ln1p c paths (ds ! i) = Inr (oss ! i)" if "i < length ds" for i
    using d(2) options_length(2) [OF o] that by blast
  have "fits c (a', n')" using w(2) sx by simp
  with d(1,3,4) each show ?thesis by (intro that [of oss]) (simp_all add: ds_def)
qed

text \<open>What a caller with one demand learns of its decision.\<close>

lemma single_repair_within:
  assumes "schedule ln1p c [d] paths = Inr s" "sc_decisions s = dec # decs" "dc_action dec = Repair"
    and "0 \<le> capacity_bytes c" "\<forall>m. max_admitted_repairs c = Some m \<longrightarrow> 0 \<le> m"
  shows "0 < dc_allocated_bytes dec \<and> dc_allocated_bytes dec \<le> capacity_bytes c"
proof -
  obtain oss where d: "length (sc_decisions s) = length [d]"
      "\<forall>i<length [d]. decided_from (sort_key demand_id [d] ! i) (oss ! i) (sc_decisions s ! i) \<and>
        demand_options ln1p c paths (sort_key demand_id [d] ! i) = Inr (oss ! i)"
      "fits c (sum_bytes dc_allocated_bytes (repairs (sc_decisions s)), py_len (repairs (sc_decisions s)))"
    by (rule schedule_decided [OF assms(1,4,5)])
  from d(1) assms(2) have "decs = []" by simp
  with d(2) assms(2,3) obtain opt where opt: "opt \<in> set (oss ! 0)" "dec = repair_decision_of d opt"
      "demand_options ln1p c paths d = Inr (oss ! 0)"
    by (auto simp: decided_from_def deferred_decision_def)
  from demand_options_each [OF opt(3,1)] have "0 < dc_allocated_bytes dec"
    by (auto simp: opt(2) repair_decision_of_def py_len_def)
  moreover have "dc_allocated_bytes dec \<le> capacity_bytes c"
    using d(3) assms(2,3) \<open>decs = []\<close> by (simp add: repairs_def sum_bytes_def fits_def)
  ultimately show ?thesis by simp
qed

section \<open>Properties\<close>

text \<open>C31: the schedule decides every demand once, in order of its id, allocates no more than the
  capacity, admits no more repairs than allowed, and repairs a demand only over one or two paths,
  at the cost of its payload on each, with an expected success not below the minimum.\<close>

theorem schedule_within_limits:
  assumes "schedule ln1p c demands paths = Inr s"
    and "0 \<le> capacity_bytes c" "\<forall>m. max_admitted_repairs c = Some m \<longrightarrow> 0 \<le> m"
  shows "map dc_demand_id (sc_decisions s) = map demand_id (sort_key demand_id demands) \<and>
         allocated_bytes s \<le> capacity_bytes c \<and>
         (\<forall>m. max_admitted_repairs c = Some m \<longrightarrow> py_len (admitted s) \<le> m) \<and>
         (\<forall>dec\<in>set (admitted s). \<not> dc_expected_success dec < min_expected_success c \<and>
            length (dc_selected_paths dec) \<in> {1, 2} \<and> 0 < dc_allocated_bytes dec)"
proof -
  define ds where "ds = sort_key demand_id demands"
  obtain oss where d: "length (sc_decisions s) = length demands"
      "\<forall>i<length demands. decided_from (ds ! i) (oss ! i) (sc_decisions s ! i) \<and>
        demand_options ln1p c paths (ds ! i) = Inr (oss ! i)"
      "fits c (sum_bytes dc_allocated_bytes (repairs (sc_decisions s)), py_len (repairs (sc_decisions s)))"
    unfolding ds_def by (rule schedule_decided [OF assms])
  have l: "length (sc_decisions s) = length ds" using d(1) by (simp add: ds_def)
  have each: "decided_from (ds ! i) (oss ! i) (sc_decisions s ! i) \<and>
      demand_options ln1p c paths (ds ! i) = Inr (oss ! i)" if "i < length ds" for i
    using d(2) that by (simp add: ds_def)
  have "dc_demand_id (sc_decisions s ! i) = demand_id (ds ! i)" if "i < length ds" for i
    using each [OF that] by (auto simp: decided_from_def deferred_decision_def repair_decision_of_def)
  then have "map dc_demand_id (sc_decisions s) = map demand_id ds"
    by (intro nth_equalityI) (simp_all only: length_map nth_map l)
  moreover have "\<not> dc_expected_success y < min_expected_success c \<and>
      length (dc_selected_paths y) \<in> {1, 2} \<and> 0 < dc_allocated_bytes y" if y: "y \<in> set (admitted s)" for y
  proof -
    from y obtain i where i: "i < length ds" "y = sc_decisions s ! i" "dc_action y = Repair"
      using l by (auto simp: admitted_def in_set_conv_nth)
    then obtain opt where opt: "opt \<in> set (oss ! i)" "y = repair_decision_of (ds ! i) opt"
      using each [OF i(1)] by (auto simp: decided_from_def deferred_decision_def)
    have "demand_options ln1p c paths (ds ! i) = Inr (oss ! i)" using each [OF i(1)] by blast
    from demand_options_each [OF this opt(1)] show ?thesis
      by (auto simp: opt(2) repair_decision_of_def py_len_def)
  qed
  ultimately show ?thesis
    using d(3) unfolding ds_def allocated_bytes_def admitted_def repairs_def fits_def
    by (auto split: option.splits)
qed

text \<open>C13: when every option has a finite utility, the schedule is optimal: no choice of options
  for the demands, in order of their id, that respects the limits has a greater total utility
  (utilities added in that order in double arithmetic) than the schedule's own.\<close>

theorem schedule_optimal:
  assumes "schedule ln1p c demands paths = Inr s"
    and "map_outcome (demand_options ln1p c paths) (sort_key demand_id demands) = Inr oss"
    and "\<forall>os\<in>set oss. \<forall>opt\<in>set os. is_fin (ro_utility opt)"
    and "0 \<le> capacity_bytes c" "\<forall>m. max_admitted_repairs c = Some m \<longrightarrow> 0 \<le> m"
    and "walk oss sel ((0, 0), 0) = Some ((used, n), u)"
    and "used \<le> capacity_bytes c" "\<forall>m. max_admitted_repairs c = Some m \<longrightarrow> n \<le> m"
  shows "u \<le> total_utility (sc_decisions s) 0"
proof -
  define ds where "ds = sort_key demand_id demands"
  define S where "S = dp_run c oss [((0, 0), (0, []))]"
  from assms(1) obtain oss' x where o': "map_outcome (demand_options ln1p c paths) ds = Inr oss'"
      and x': "py_max_by best_key_greater (dp_run c oss' [((0, 0), (0, []))]) = Inr x"
      and dec': "decide ds oss' (snd (snd x)) = Inr (sc_decisions s)"
    unfolding ds_def by (rule schedule_shape)
  have "oss' = oss" using o' assms(2) by (simp add: ds_def)
  with o' x' dec' have o: "map_outcome (demand_options ln1p c paths) ds = Inr oss"
    and x: "py_max_by best_key_greater S = Inr x" and dec: "decide ds oss (snd (snd x)) = Inr (sc_decisions s)"
    by (simp_all add: S_def)
  have f: "fits c (0, 0)" using assms(4,5) by (auto simp: fits_def split: option.splits)
  have "good_options os" if "os \<in> set oss" for os
  proof -
    from that obtain i where "i < length ds" "os = oss ! i"
      using options_length(1) [OF o] by (metis in_set_conv_nth)
    then have "demand_options ln1p c paths (ds ! i) = Inr os" using options_length(2) [OF o] by simp
    then show ?thesis using assms(3) that demand_options_each unfolding good_options_def
      by (fastforce simp: py_len_def)
  qed
  then have inv: "dp_inv c oss S"
    using dp_run_inv [OF dp_inv_start [OF f], of oss] by (simp add: S_def)
  have "fits c (used, n)" using assms(7,8) by (auto simp: fits_def split: option.splits)
  then have "dominated S ((used, n), u)" using inv assms(6) unfolding dp_inv_def by blast
  then obtain y where y: "y \<in> set S" "u \<le> fst (snd y)" by (auto simp: dominated_def)
  obtain b xs where S: "S = b # xs" using y(1) by (cases S) auto
  have doub: "\<forall>z\<in>set (b # xs). is_double (fst (snd z))"
    using inv S unfolding dp_inv_def by (metis proper_double surjective_pairing)
  have "x = foldl (\<lambda>best y. if best_key_greater y best then y else best) b xs" using x S by simp
  then have xS: "x \<in> set S" "fst (snd y) \<le> fst (snd x)" using max_fold [OF doub] y(1) S by auto
  obtain a' n' u' where sx: "seen x = ((a', n'), u')" by (metis surj_pair)
  have "(fst x, fst (snd x), snd (snd x)) \<in> set S" using xS(1) by simp
  then have "walk oss (snd (snd x)) start = Some (seen x)" using inv unfolding dp_inv_def by blast
  from decide_walk [OF this [unfolded sx], of ds] options_length(1) [OF o] dec
  have "total_utility (sc_decisions s) 0 = u'" by auto
  also have "u' = fst (snd x)" using sx by simp
  finally show ?thesis using y(2) xS(2) fle_trans by auto
qed

text \<open>Once the options of every demand can be computed the schedule never raises: a
  best state exists and each chosen index is in range.\<close>

theorem schedule_total:
  assumes "paths \<noteq> [] \<or> demands = []"
    and "map_outcome (demand_options ln1p c paths) (sort_key demand_id demands) = Inr oss"
    and "0 \<le> capacity_bytes c" "\<forall>m. max_admitted_repairs c = Some m \<longrightarrow> 0 \<le> m"
  shows "\<exists>s. schedule ln1p c demands paths = Inr s"
proof -
  define ds where "ds = sort_key demand_id demands"
  define S where "S = dp_run c oss [((0, 0), (0, []))]"
  have f: "fits c (0, 0)" using assms(3,4) by (auto simp: fits_def split: option.splits)
  have "dp_sound c ([] @ oss) S" unfolding S_def
    by (rule dp_run_sound) (use f in \<open>simp add: dp_sound_def\<close>)
  then obtain x where x: "py_max_by best_key_greater S = Inr x" "x \<in> set S"
    using py_max_some py_max_in unfolding dp_sound_def by metis
  obtain a' n' u' where sx: "seen x = ((a', n'), u')" by (metis surj_pair)
  have "walk oss (snd (snd x)) start = Some (seen x)"
    using \<open>dp_sound c ([] @ oss) S\<close> x(2) by (simp add: dp_sound_def)
  from decide_walk [OF this [unfolded sx], of ds] options_length(1) [OF assms(2)]
  obtain decs where "decide ds oss (snd (snd x)) = Inr decs" by (auto simp: ds_def)
  moreover have "ds = [] \<longleftrightarrow> demands = []" by (metis ds_def set_empty set_sort)
  ultimately show ?thesis using assms(1,2) x(1)
    by (cases x; cases "snd x") (auto simp: schedule_def Let_def ds_def [symmetric] S_def [symmetric])
qed

section \<open>A concrete schedule\<close>

definition sample_path :: repair_path where
  "sample_path = \<lparr>rp_path_id = ''wifi'', rp_latency_ms = Fin 20, rp_loss = dbl (1/10),
     rp_failure_domain = ''ap1'', rp_bandwidth_utilization = 0\<rparr>"

definition sample_demand :: "int \<Rightarrow> int \<Rightarrow> repair_demand" where
  "sample_demand n b = \<lparr>rd_topic = ''/odom'', rd_robot_id = ''r1'', rd_publisher_id = ''p1'',
     rd_source_sequence_number = n, rd_payload_bytes = b, rd_remaining_deadline_ms = Fin 100,
     rd_qoe_debt = 0, rd_criticality = 1, rd_age_ms = 0, rd_prior_attempts = 0\<rparr>"

definition sample_options :: "repair_option list list" where
  "sample_options = projr (map_outcome (demand_options (\<lambda>x. x) (default_config 100) [sample_path])
     (sort_key demand_id [sample_demand 1 60, sample_demand 2 50]))"

definition sample_schedule :: repair_schedule where
  "sample_schedule = projr (schedule (\<lambda>x. x) (default_config 100)
     [sample_demand 1 60, sample_demand 2 50] [sample_path])"

lemma sample_schedule_run:
  "schedule (\<lambda>x. x) (default_config 100) [sample_demand 1 60, sample_demand 2 50] [sample_path] =
     Inr sample_schedule"
proof -
  have "\<not> isl (schedule (\<lambda>x. x) (default_config 100) [sample_demand 1 60, sample_demand 2 50] [sample_path])"
    by code_simp
  then show ?thesis by (simp add: sample_schedule_def)
qed

lemma sample_options_run:
  "map_outcome (demand_options (\<lambda>x. x) (default_config 100) [sample_path])
     (sort_key demand_id [sample_demand 1 60, sample_demand 2 50]) = Inr sample_options"
proof -
  have "\<not> isl (map_outcome (demand_options (\<lambda>x. x) (default_config 100) [sample_path])
     (sort_key demand_id [sample_demand 1 60, sample_demand 2 50]))" by code_simp
  then show ?thesis by (simp add: sample_options_def)
qed

lemmas sample_runs = sample_schedule_run sample_options_run

theorem schedule_within_limits_witness:
  "allocated_bytes sample_schedule \<le> 100 \<and> map dc_allocated_bytes (sc_decisions sample_schedule) = [0, 50]"
proof -
  have "allocated_bytes sample_schedule \<le> capacity_bytes (default_config 100)"
    using schedule_within_limits [OF sample_runs(1)] by (simp add: default_config_def)
  moreover have "map dc_allocated_bytes (sc_decisions sample_schedule) = [0, 50]"
    unfolding sample_schedule_def by code_simp
  ultimately show ?thesis by (simp add: default_config_def)
qed

theorem schedule_optimal_witness:
  "\<exists>u. walk sample_options [0, -1] ((0, 0), 0) = Some ((60, 1), u) \<and>
       u \<le> total_utility (sc_decisions sample_schedule) 0"
proof -
  have w: "map_option fst (walk sample_options [0, -1] ((0, 0), 0)) = Some (60, 1)"
    unfolding sample_options_def by code_simp
  then obtain u where u: "walk sample_options [0, -1] ((0, 0), 0) = Some ((60, 1), u)" by auto
  have "list_all (list_all (\<lambda>opt. is_fin (ro_utility opt))) sample_options"
    unfolding sample_options_def by code_simp
  then have "\<forall>os\<in>set sample_options. \<forall>opt\<in>set os. is_fin (ro_utility opt)"
    by (auto simp: list_all_iff)
  from schedule_optimal [OF sample_runs this _ _ u] show ?thesis
    using u by (simp add: default_config_def)
qed

theorem schedule_total_witness:
  "\<exists>s. schedule (\<lambda>x. x) (default_config 100) [sample_demand 1 60, sample_demand 2 50] [sample_path] = Inr s"
  by (rule schedule_total [OF _ sample_runs(2)]) (simp_all add: default_config_def)

end
