(* ===== verification/PolicySafety.thy ===== *)
theory PolicySafety
  imports GatewayDurable RepairSafety
begin

text \<open>
  What the admission policy promises. The quotas of the rules, the fleet and the repair budget
  hold in every state any sequence of operations reaches, restorations that fail half way
  included; every stored observation is within its ranges; and without restorations the two
  ways of counting accepted frames agree. Each invariant is an interpretation of the locale of
  inductive invariants on the steps of the policy.
\<close>

section \<open>Steps\<close>

inductive policy_step :: "policy \<Rightarrow> policy \<Rightarrow> bool" where
  admits: "policy_step p (fst (admit m p))"
| observes: "policy_step p (fst (update_observation k debt loss rtt jitter source debt_source p))"
| native: "policy_step p (fst (update_native_path_observation m loss rtt jitter p))"
| applies: "policy_step p (fst (update_application_outcome k delivered met latency deadline ok p))"
| scores: "policy_step p (fst (effective_admission_score m p))"
| inspects: "policy_step p (fst (policy_snapshot p))"
| exports: "policy_step p (fst (export_durable_state p))"
| restores: "policy_step p (fst (restore_durable_state d p))"

definition policy_start :: "policy \<Rightarrow> bool" where
  "policy_start p \<longleftrightarrow> (\<exists>c clock ln1p. new_policy c clock ln1p = Inr p)"

text \<open>A predicate survives a step that may raise if it survives each part.\<close>

lemma try_then_keeps:
  assumes "P (fst r)" "\<And>s x. r = (s, Inr x) \<Longrightarrow> P s \<Longrightarrow> P (fst (f x s))"
  shows "P (fst (try_then r f))"
  using assms by (cases r; cases "snd r") (auto simp: try_then_def)

lemma lift_exn_fst [simp]: "fst (lift_exn s r) = s"
  by (simp add: lift_exn_def)

lemma lift_exn_Inr [simp]: "lift_exn s r = (t, Inr x) \<longleftrightarrow> t = s \<and> r = Inr x"
  by (auto simp: lift_exn_def)

section \<open>Counters\<close>

lemma count_of_update: "count_of (AList.update k n d) j = (if j = k then n else count_of d j)"
  by (simp add: count_of_def update_conv')

lemma count_of_bump: "count_of (bump k d) j = count_of d j + (if j = k then 1 else 0)"
  by (simp add: bump_def count_of_update)

lemma count_of_Nil [simp]: "count_of [] k = 0"
  by (simp add: count_of_def)

lemma sum_update: "sum_list (map snd (AList.update k n d)) = sum_list (map snd d) + (n - count_of d k)"
  by (induction d) (auto simp: count_of_def)

lemma sum_bump [simp]: "sum_list (map snd (bump k d)) = sum_list (map snd d) + (1 :: int)"
  by (simp add: bump_def sum_update)

section \<open>Quotas\<close>

type_synonym quota_fields =
  "policy_config \<times> ((int \<times> string) \<times> admission_rule) list \<times> int \<times> int \<times>
   ((int \<times> string) \<times> int) list \<times> int \<times> int"

definition quota_view :: "policy \<Rightarrow> quota_fields" where
  "quota_view p =
     (gp_config p, gp_rules_by_stream p, gp_accepted_total p, gp_accepted_cumulative p,
      gp_accepted_by_stream p, gp_repair_allocated_bytes p, gp_repair_admitted_count p)"

fun config_ok :: "policy_config \<times> ((int \<times> string) \<times> admission_rule) list \<Rightarrow> bool" where
  "config_ok (c, rules) \<longleftrightarrow>
     check_config c = None \<and> (\<forall>k r. map_of rules k = Some r \<longrightarrow> 0 < ar_max_accepted_frames r)"

fun view_ok :: "quota_fields \<Rightarrow> bool" where
  "view_ok (c, rules, n_total, cumulative, streams, allocated, n_repairs) \<longleftrightarrow>
     config_ok (c, rules) \<and>
     (\<forall>k r. map_of rules k = Some r \<longrightarrow> count_of streams k \<le> ar_max_accepted_frames r) \<and>
     (\<forall>q. pc_max_accepted_frames c = Some q \<longrightarrow> n_total \<le> q) \<and>
     0 \<le> n_total \<and> n_total \<le> cumulative \<and>
     0 \<le> allocated \<and> allocated \<le> pc_repair_capacity_bytes c \<and>
     (\<forall>q. pc_repair_max_admitted c = Some q \<longrightarrow> n_repairs \<le> q)"

definition quotas_ok :: "policy \<Rightarrow> bool" where
  "quotas_ok p \<longleftrightarrow> view_ok (quota_view p)"

lemma index_rules_positive:
  "index_rules rs acc = Inr idx \<Longrightarrow>
   (\<And>k r. map_of acc k = Some r \<Longrightarrow> 0 < ar_max_accepted_frames r) \<Longrightarrow>
   map_of idx k = Some r \<Longrightarrow> 0 < ar_max_accepted_frames r"
proof (induction rs arbitrary: acc)
  case (Cons x rs)
  from Cons.prems(1) have x: "0 < ar_max_accepted_frames x"
    and rest: "index_rules rs (AList.update (ar_domain_id x, ar_topic x) x acc) = Inr idx"
    by (auto split: if_splits)
  show ?case
    by (rule Cons.IH [OF rest _ Cons.prems(3)])
      (use x Cons.prems(2) in \<open>auto simp: update_conv' split: if_splits\<close>)
qed simp

lemma config_okD:
  assumes "config_ok (c, rules)"
  shows "0 \<le> pc_repair_capacity_bytes c" "pc_max_accepted_frames c = Some q \<Longrightarrow> 0 < q"
    "pc_repair_max_admitted c = Some q \<Longrightarrow> 0 < q" "map_of rules k = Some r \<Longrightarrow> 0 < ar_max_accepted_frames r"
proof -
  from assms have c: "check_config c = None"
    and r: "\<forall>k r. map_of rules k = Some r \<longrightarrow> 0 < ar_max_accepted_frames r" by simp_all
  from c show "0 \<le> pc_repair_capacity_bytes c" "pc_max_accepted_frames c = Some q \<Longrightarrow> 0 < q"
    "pc_repair_max_admitted c = Some q \<Longrightarrow> 0 < q"
    by (simp_all add: check_config_def split: if_splits)
  show "map_of rules k = Some r \<Longrightarrow> 0 < ar_max_accepted_frames r" using r by blast
qed

lemma view_ok_zero:
  assumes "config_ok (c, rules)" "0 \<le> cumulative"
  shows "view_ok (c, rules, 0, cumulative, [], 0, 0)"
  using config_okD [OF assms(1)] assms by (force simp del: config_ok.simps)

lemma new_policy_quotas:
  assumes "new_policy c clock ln1p = Inr p"
  shows "quotas_ok p"
proof -
  from assms obtain idx where i: "index_rules (pc_rules c) [] = Inr idx" "check_config c = None"
      and v: "quota_view p = (c, idx, 0, 0, [], 0, 0)"
    by (auto simp: new_policy_def quota_view_def split: option.splits sum.splits)
  have "config_ok (c, idx)" using index_rules_positive [OF i(1)] i(2) by auto
  then show ?thesis unfolding quotas_ok_def v by (rule view_ok_zero) simp
qed

text \<open>Most updates leave the quota fields alone.\<close>

lemma view_updates [simp]:
  "quota_view (p\<lparr>gp_reads := n\<rparr>) = quota_view p"
  "quota_view (p\<lparr>gp_observations := obs\<rparr>) = quota_view p"
  "quota_view (p\<lparr>gp_observation_updates := i\<rparr>) = quota_view p"
  "quota_view (p\<lparr>gp_observation_updates_by_source := sm\<rparr>) = quota_view p"
  "quota_view (p\<lparr>gp_observation_expirations := i\<rparr>) = quota_view p"
  "quota_view (p\<lparr>gp_observation_score_uses := i\<rparr>) = quota_view p"
  "quota_view (p\<lparr>gp_native_updates := i\<rparr>) = quota_view p"
  "quota_view (p\<lparr>gp_outcome_updates := i\<rparr>) = quota_view p"
  "quota_view (p\<lparr>gp_task_updates := i\<rparr>) = quota_view p"
  "quota_view (p\<lparr>gp_task_failures := i\<rparr>) = quota_view p"
  "quota_view (p\<lparr>gp_rejected_by_reason := sm\<rparr>) = quota_view p"
  "quota_view (p\<lparr>gp_repair_deferred_count := i\<rparr>) = quota_view p"
  "quota_view (p\<lparr>gp_repair_decisions := ds\<rparr>) = quota_view p"
  "quota_view (p\<lparr>gp_accepted_by_class := sm\<rparr>) = quota_view p"
  "quota_view (p\<lparr>gp_epoch_started := t\<rparr>) = quota_view p"
  "quota_view (p\<lparr>gp_epoch_reset_count := i\<rparr>) = quota_view p"
  by (simp_all add: quota_view_def)

lemma same_view: "quota_view q = quota_view p \<Longrightarrow> quotas_ok q = quotas_ok p"
  by (simp add: quotas_ok_def)

abbreviation keeps_view :: "policy \<Rightarrow> policy \<Rightarrow> bool" where
  "keeps_view p q \<equiv> quota_view q = quota_view p"

lemma read_clock_view [simp]: "quota_view (fst (read_clock p)) = quota_view p"
  by (simp add: read_clock_def)

lemma expire_view [simp]: "quota_view (fst (expire_observations p)) = quota_view p"
  unfolding expire_observations_def read_clock_def
  by (simp, rule try_then_keeps [where P = "keeps_view p"]) (auto simp: Let_def)

lemma score_view [simp]: "quota_view (fst (effective_admission_score m p)) = quota_view p"
  unfolding effective_admission_score_def
  by (rule try_then_keeps [where P = "keeps_view p"]) (auto split: option.splits)

lemma observation_view [simp]:
  "quota_view (fst (update_observation k debt loss rtt jitter source debt_source p)) = quota_view p"
  by (auto simp: update_observation_def read_clock_def Let_def split: option.splits prod.splits)

lemma native_view [simp]:
  "quota_view (fst (update_native_path_observation m loss rtt jitter p)) = quota_view p"
  unfolding update_native_path_observation_def Let_def
  by (rule try_then_keeps [where P = "keeps_view p"]) auto

lemma outcome_view [simp]:
  "quota_view (fst (update_application_outcome k delivered met latency deadline ok p)) = quota_view p"
proof -
  have "keeps_view p (fst (try_then (update_observation k debt l r j s ds p) f))"
    if "\<And>x s. quota_view (fst (f x s)) = quota_view s" for debt l r j s ds and f :: "unit \<Rightarrow> policy \<Rightarrow> policy \<times> pyfloat gw_result"
    by (rule try_then_keeps [where P = "keeps_view p"]) (simp_all add: that)
  then show ?thesis
    by (simp add: update_application_outcome_def Let_def split: option.splits)
qed

text \<open>A new epoch starts the quota fields again.\<close>

lemma refresh_view:
  obtains "quota_view (fst (refresh_epoch p)) = quota_view p"
  | "quota_view (fst (refresh_epoch p)) =
      (gp_config p, gp_rules_by_stream p, 0, gp_accepted_cumulative p, [], 0, 0)"
proof -
  have "quota_view (fst (refresh_epoch p)) = quota_view p \<or> quota_view (fst (refresh_epoch p)) =
      (gp_config p, gp_rules_by_stream p, 0, gp_accepted_cumulative p, [], 0, 0)"
    by (auto simp: refresh_epoch_def read_clock_def Let_def try_then_def lift_exn_def quota_view_def
        split: option.splits sum.splits)
  with that show ?thesis by blast
qed

lemma quotas_okD:
  assumes "quotas_ok p"
  shows "config_ok (gp_config p, gp_rules_by_stream p)" "0 \<le> gp_accepted_cumulative p"
  using assms by (auto simp: quotas_ok_def quota_view_def)

lemma refresh_quotas [inv_rules]:
  assumes "quotas_ok p"
  shows "quotas_ok (fst (refresh_epoch p))"
  by (rule refresh_view [of p])
    (use assms view_ok_zero [OF quotas_okD [OF assms]] in \<open>simp_all only: quotas_ok_def\<close>)

text \<open>The repair attempt never allocates more than what the budget has left.\<close>

lemma repair_within_budget:
  assumes "schedule ln1p (repair_config remaining) [d] paths = Inr s"
    and "sc_decisions s = dec # decs" "dc_action dec = Repair" "0 < remaining"
  shows "0 < dc_allocated_bytes dec \<and> dc_allocated_bytes dec \<le> remaining"
  using single_repair_within [OF assms(1-3)] assms(4)
  by (simp add: repair_config_def default_config_def)

section \<open>Admission keeps the quotas\<close>

lemma reject_quotas: "quotas_ok (reject reason p) = quotas_ok p"
  by (simp add: quotas_ok_def reject_def)

lemma refuse_quotas: "quotas_ok p \<Longrightarrow> quotas_ok (fst (refuse status code reason cls p))"
  by (simp add: refuse_def reject_quotas)

lemma defer_quotas: "quotas_ok p \<Longrightarrow> quotas_ok (fst (defer_repair p))"
  by (simp add: defer_repair_def quotas_ok_def)

lemma repair_counts_ok:
  assumes "quotas_ok p" "0 < n" "n \<le> pc_repair_capacity_bytes (gp_config p) - gp_repair_allocated_bytes p"
    and "\<And>q. pc_repair_max_admitted (gp_config p) = Some q \<Longrightarrow> gp_repair_admitted_count p < q"
    and "quota_view q = (gp_config p, gp_rules_by_stream p, gp_accepted_total p,
           gp_accepted_cumulative p + 1, gp_accepted_by_stream p, gp_repair_allocated_bytes p + n,
           gp_repair_admitted_count p + 1)"
  shows "quotas_ok q"
  using assms(1-4) unfolding quotas_ok_def assms(5)
  by (auto simp: quota_view_def simp del: split_paired_All config_ok.simps)

lemma try_repair_quotas [inv_rules]:
  assumes "quotas_ok p"
  shows "quotas_ok (fst (try_repair m cls p))"
proof -
  let ?left = "pc_repair_capacity_bytes (gp_config p) - gp_repair_allocated_bytes p"
  let ?sched = "schedule (gp_log1p p) (repair_config ?left) [repair_demand_of m] (pc_repair_paths (gp_config p))"
  have decided: "quotas_ok (fst (apply_repair cls dec p))"
    if "?sched = Inr s" "sc_decisions s = dec # decs" "0 < ?left"
      "\<And>q. pc_repair_max_admitted (gp_config p) = Some q \<Longrightarrow> gp_repair_admitted_count p < q" for s dec decs
  proof (cases "dc_action dec = Repair")
    case True
    from repair_within_budget [OF that(1,2) True that(3)] show ?thesis
      by (simp add: apply_repair_def True) (rule repair_counts_ok [OF assms _ _ that(4)], auto simp: quota_view_def)
  next
    case False
    then show ?thesis using assms by (simp add: apply_repair_def Let_def) (rule defer_quotas, simp add: quotas_ok_def)
  qed
  show ?thesis
    unfolding try_repair_def Let_def [of "gp_config p"] Let_def [of ?left]
    using assms decided
    by (auto simp: try_then_def lift_exn_def defer_quotas not_le
        split: sum.splits list.splits option.splits if_splits)
qed

lemma repair_or_refuse_quotas:
  "quotas_ok p \<Longrightarrow> quotas_ok (fst (repair_or_refuse m cls code reason p))"
  unfolding repair_or_refuse_def
  by (rule try_then_keeps) (auto intro: try_repair_quotas refuse_quotas)

lemma accept_normal_quotas:
  assumes "quotas_ok p" "\<And>q. pc_max_accepted_frames (gp_config p) = Some q \<Longrightarrow> gp_accepted_total p < q"
    and "\<And>r. map_of (gp_rules_by_stream p) (stream_key m) = Some r \<Longrightarrow>
           count_of (gp_accepted_by_stream p) (stream_key m) < ar_max_accepted_frames r"
  shows "quotas_ok (fst (accept_normal m cls p))"
proof -
  have v: "quota_view (fst (accept_normal m cls p)) =
      (gp_config p, gp_rules_by_stream p, gp_accepted_total p + 1, gp_accepted_cumulative p + 1,
       bump (stream_key m) (gp_accepted_by_stream p), gp_repair_allocated_bytes p,
       gp_repair_admitted_count p)"
    by (simp add: accept_normal_def quota_view_def)
  have "count_of (bump (stream_key m) (gp_accepted_by_stream p)) k \<le> ar_max_accepted_frames r"
    if "map_of (gp_rules_by_stream p) k = Some r" for k r
    using assms(1,3) that
    by (auto simp: count_of_bump quotas_ok_def quota_view_def simp del: split_paired_All)
  with assms(1,2) show ?thesis unfolding quotas_ok_def v
    by (auto simp: quota_view_def simp del: split_paired_All config_ok.simps)
qed

lemma fleet_quota_check_quotas:
  assumes "quotas_ok p"
    and "\<And>r. map_of (gp_rules_by_stream p) (stream_key m) = Some r \<Longrightarrow>
           count_of (gp_accepted_by_stream p) (stream_key m) < ar_max_accepted_frames r"
  shows "quotas_ok (fst (fleet_quota_check m cls p))"
  using assms unfolding fleet_quota_check_def
  by (auto intro!: repair_or_refuse_quotas accept_normal_quotas split: option.splits)

lemma admit_under_quotas:
  assumes "quotas_ok p" "map_of (gp_rules_by_stream p) (stream_key m) = Some rule"
  shows "quotas_ok (fst (admit_under rule m p))"
proof -
  have "quotas_ok (fst (try_then (effective_admission_score m p) (admit_scored rule m)))"
  proof (rule try_then_keeps)
    show "quotas_ok (fst (effective_admission_score m p))"
      using assms(1) by (simp add: same_view [OF score_view])
  next
    fix p1 score assume p1: "effective_admission_score m p = (p1, Inr score)" "quotas_ok p1"
    then have "gp_rules_by_stream p1 = gp_rules_by_stream p"
      using score_view [of m p] by (simp add: quota_view_def)
    with p1 assms(2) show "quotas_ok (fst (admit_scored rule m score p1))"
      by (auto simp: admit_scored_def Let_def intro!: repair_or_refuse_quotas fleet_quota_check_quotas)
  qed
  with assms(1) show ?thesis by (simp add: admit_under_def Let_def refuse_quotas)
qed

lemma admit_quotas [inv_rules]:
  assumes "quotas_ok p"
  shows "quotas_ok (fst (admit m p))"
  unfolding admit_def
  by (rule try_then_keeps)
    (use assms in \<open>auto intro!: refresh_quotas fleet_quota_check_quotas refuse_quotas
      intro: admit_under_quotas split: option.splits\<close>)

section \<open>Documents keep the quotas\<close>

lemma snapshot_quotas [inv_rules]:
  assumes "quotas_ok p"
  shows "quotas_ok (fst (policy_snapshot p))"
  unfolding policy_snapshot_def
proof (rule try_then_keeps)
  fix q u assume q: "quotas_ok q"
  show "quotas_ok (fst (try_then (expire_observations q) (\<lambda>_ p. (p, Inr (snapshot_document p)))))"
    by (rule try_then_keeps) (simp_all add: q same_view [OF expire_view])
qed (rule refresh_quotas [OF assms])

lemma export_tail_view:
  "keeps_view p (fst (case read_clock p of (p1, now) \<Rightarrow>
     try_then (lift_exn p1 (fingerprint p1)) (\<lambda>fp p2. (p2, Inr (durable_document fp now p2)))))"
  unfolding read_clock_def prod.case
  by (rule try_then_keeps) simp_all

lemma export_quotas [inv_rules]:
  assumes "quotas_ok p"
  shows "quotas_ok (fst (export_durable_state p))"
  unfolding export_durable_state_def
proof (rule try_then_keeps)
  fix q u assume q: "quotas_ok q"
  show "quotas_ok (fst (try_then (expire_observations q) (\<lambda>_ p2.
       case read_clock p2 of (p, now) \<Rightarrow>
         try_then (lift_exn p (fingerprint p)) (\<lambda>fp p'. (p', Inr (durable_document fp now p'))))))"
  proof (rule try_then_keeps)
    show "quotas_ok (fst (expire_observations q))" using q by (simp only: same_view [OF expire_view])
  qed (simp only: same_view [OF export_tail_view])
qed (rule refresh_quotas [OF assms])

text \<open>Restoration: what the checks of the document establish.\<close>

lemma doc_count_nonneg: "doc_count d name = Inr n \<Longrightarrow> 0 \<le> n"
  by (auto simp: doc_count_def split: option.splits if_splits)

lemma accepted_counters_ok:
  assumes "accepted_counters p d = Inr (t, c)"
  shows "0 \<le> t" "t \<le> c" "pc_max_accepted_frames (gp_config p) = Some q \<Longrightarrow> t \<le> q"
  using assms by (auto simp: accepted_counters_def dest: doc_count_nonneg split: sum.splits if_splits)

lemma repair_counters_ok:
  assumes "repair_counters p d = Inr (a, n)"
  shows "0 \<le> a" "a \<le> pc_repair_capacity_bytes (gp_config p)"
    "pc_repair_max_admitted (gp_config p) = Some q \<Longrightarrow> n \<le> q"
  using assms by (auto simp: repair_counters_def dest: doc_count_nonneg split: sum.splits if_splits)

lemma restore_stream_row_ok:
  assumes "restore_stream_row rules row acc = Inr acc'"
    and "\<And>k r. map_of rules k = Some r \<Longrightarrow> count_of acc k \<le> ar_max_accepted_frames r"
    and "map_of rules k = Some r"
  shows "count_of acc' k \<le> ar_max_accepted_frames r"
proof -
  from assms(1) have "\<exists>j n. acc' = AList.update j n acc \<and>
      (\<forall>rule. map_of rules j = Some rule \<longrightarrow> n \<le> ar_max_accepted_frames rule)"
    by (auto simp: restore_stream_row_def split: py_obj.splits option.splits if_splits)
      (force intro: exI [of _ "(_, _)"])+
  then obtain j n where "acc' = AList.update j n acc"
      "\<forall>rule. map_of rules j = Some rule \<longrightarrow> n \<le> ar_max_accepted_frames rule"
    by (elim exE conjE) (rule that)
  with assms(2,3) show ?thesis by (metis count_of_update)
qed

lemma restore_streams_ok:
  "restore_streams rules rows acc = Inr streams \<Longrightarrow>
   (\<And>k r. map_of rules k = Some r \<Longrightarrow> count_of acc k \<le> ar_max_accepted_frames r) \<Longrightarrow>
   map_of rules k = Some r \<Longrightarrow> count_of streams k \<le> ar_max_accepted_frames r"
proof (induction rows arbitrary: acc)
  case (Cons row rows)
  then obtain acc' where row: "restore_stream_row rules row acc = Inr acc'"
    "restore_streams rules rows acc' = Inr streams" by (auto split: sum.splits)
  show ?case
    by (rule Cons.IH [OF row(2) _ Cons.prems(3)]) (rule restore_stream_row_ok [OF row(1) Cons.prems(2)])
qed simp

lemma publish_restored_view [simp]: "quota_view (fst (publish_restored now d nums p)) = quota_view p"
proof -
  have upd: "keeps_view p (fst (try_then (update_observation k debt loss rtt jitter source ds p) f))"
    if "\<And>x s. fst (f x s) = s" for k debt loss rtt jitter source ds
      and f :: "unit \<Rightarrow> policy \<Rightarrow> policy \<times> (obs_key \<times> gateway_observation) option gw_result"
    by (rule try_then_keeps [where P = "keeps_view p"]) (simp_all add: that)
  show ?thesis
    unfolding publish_restored_def Let_def
    by (simp split: list.split option.split py_obj.split) (auto intro!: upd split: option.split)
qed

lemma restore_observation_view [simp]: "quota_view (fst (restore_observation now row p)) = quota_view p"
proof (cases row)
  case (PDict d)
  show ?thesis
    unfolding restore_observation_def PDict py_obj.case Let_def
    by (rule try_then_keeps [where P = "keeps_view p"])
      (auto intro!: try_then_keeps [where P = "keeps_view p"])
qed (simp_all add: restore_observation_def)

lemma restore_observations_view [simp]:
  "quota_view (fst (restore_observations now rows acc p)) = quota_view p"
proof (induction rows arbitrary: acc p)
  case (Cons row rows)
  show ?case
    unfolding restore_observations.simps
    by (rule try_then_keeps [where P = "keeps_view p"]) (simp_all add: Cons.IH)
qed simp

lemma run_steps_keeps:
  assumes "list_all (\<lambda>f. \<forall>s. P s \<longrightarrow> P (fst (f s))) fs" "P s"
  shows "P (fst (run_steps fs s))"
  using assms
proof (induction fs arbitrary: s)
  case (Cons f fs)
  show ?case unfolding run_steps.simps
    by (rule try_then_keeps) (use Cons in simp_all)
qed simp

lemma setters_keep:
  assumes "\<And>n s. P s \<Longrightarrow> P (upd n s)" "P p"
  shows "P (fst (set_count d name upd p))" "P (fst (set_optional_count d name upd p))"
  using assms by (auto simp: set_count_def set_optional_count_def try_then_def lift_exn_def split: sum.splits)

lemma set_count_map_keeps:
  assumes "\<And>n s. P s \<Longrightarrow> P (upd n s)" "P p"
  shows "P (fst (set_count_map d name upd p))"
  using assms by (auto simp: set_count_map_def try_then_def lift_exn_def split: sum.splits)

lemma assign_keeps: "P (f s) \<Longrightarrow> P (fst (assign f s))"
  by (simp add: assign_def)

definition quotas_under :: "policy_config \<Rightarrow> ((int \<times> string) \<times> admission_rule) list \<Rightarrow> policy \<Rightarrow> bool" where
  "quotas_under c rules p \<longleftrightarrow> quotas_ok p \<and> gp_config p = c \<and> gp_rules_by_stream p = rules"

lemma quotas_under_view: "quotas_under c rules q \<Longrightarrow> quota_view p = quota_view q \<Longrightarrow> quotas_under c rules p"
  using same_view [of p q] by (simp add: quotas_under_def) (simp add: quota_view_def)

lemma restore_fields_quotas:
  assumes p: "quotas_under c rules p"
    and t: "0 \<le> t" "t \<le> n" "\<And>q. pc_max_accepted_frames c = Some q \<Longrightarrow> t \<le> q"
    and r: "0 \<le> a" "a \<le> pc_repair_capacity_bytes c" "\<And>q. pc_repair_max_admitted c = Some q \<Longrightarrow> b \<le> q"
    and st: "\<And>k r. map_of rules k = Some r \<Longrightarrow> count_of streams k \<le> ar_max_accepted_frames r"
  shows "quotas_under c rules (fst (restore_fields d started (t, n) streams (a, b) decisions observations p))"
proof -
  have accepted: "quotas_under c rules (s\<lparr>gp_accepted_total := t, gp_accepted_cumulative := n,
      gp_accepted_by_stream := streams\<rparr>)" if "quotas_under c rules s" for s
    using that t st
    by (auto simp: quotas_under_def quotas_ok_def quota_view_def simp del: split_paired_All config_ok.simps)
  have repair: "quotas_under c rules (s\<lparr>gp_repair_allocated_bytes := a, gp_repair_admitted_count := b\<rparr>)"
    if "quotas_under c rules s" for s
    using that r
    by (auto simp: quotas_under_def quotas_ok_def quota_view_def simp del: split_paired_All config_ok.simps)
  note keeps = setters_keep [where P = "quotas_under c rules"] set_count_map_keeps [where P = "quotas_under c rules"]
    assign_keeps [where P = "quotas_under c rules"]
  show ?thesis
    unfolding restore_fields_def fst_conv snd_conv
    by (rule run_steps_keeps [where P = "quotas_under c rules", OF _ p])
      (simp only: list.pred_inject simp_thms,
       intro conjI allI impI keeps accepted repair; (assumption | erule quotas_under_view, simp))
qed

text \<open>The whole restoration; each early failure leaves the quota fields as they were.\<close>

lemma lift_keeps:
  assumes "P s" "\<And>x. r = Inr x \<Longrightarrow> P (fst (f x s))"
  shows "P (fst (try_then (lift_exn s r) f))"
  by (rule try_then_keeps) (use assms in auto)

lemma refresh_under: "quotas_under c rules p \<Longrightarrow> quotas_under c rules (fst (refresh_epoch p))"
  using refresh_quotas [of p] by (rule_tac refresh_view [of p]) (auto simp: quotas_under_def quota_view_def)

lemma restore_observed_quotas:
  assumes p: "quotas_under c rules p"
    and t: "0 \<le> fst t" "fst t \<le> snd t" "\<And>q. pc_max_accepted_frames c = Some q \<Longrightarrow> fst t \<le> q"
    and r: "0 \<le> fst r" "fst r \<le> pc_repair_capacity_bytes c"
      "\<And>q. pc_repair_max_admitted c = Some q \<Longrightarrow> snd r \<le> q"
    and st: "\<And>k r. map_of rules k = Some r \<Longrightarrow> count_of streams k \<le> ar_max_accepted_frames r"
  shows "quotas_under c rules (fst (restore_observed d elapsed t streams r decisions p))"
proof -
  obtain t1 t2 r1 r2 where tr: "t = (t1, t2)" "r = (r1, r2)" by (metis surj_pair)
  define p1 where "p1 = p\<lparr>gp_reads := gp_reads p + 1\<rparr>"
  have p1: "quotas_under c rules p1" by (rule quotas_under_view [OF p]) (simp add: p1_def)
  have "quotas_under c rules (fst (try_then (restore_observations now rows [] p1) (\<lambda>observations p1.
      try_then (restore_fields d x t streams r decisions observations p1) (\<lambda>_. refresh_epoch))))" for now rows x
  proof (rule try_then_keeps)
    show "quotas_under c rules (fst (restore_observations now rows [] p1))"
      by (rule quotas_under_view [OF p1]) simp
  next
    fix s obs assume s: "quotas_under c rules s"
    show "quotas_under c rules (fst (try_then (restore_fields d x t streams r decisions obs s) (\<lambda>_. refresh_epoch)))"
      by (rule try_then_keeps) (use restore_fields_quotas [OF s] t r st tr refresh_under in auto)
  qed
  then show ?thesis
    unfolding restore_observed_def read_clock_def prod.case p1_def [symmetric]
    by (simp add: p1 split: py_obj.split)
qed

lemma restore_counted_quotas:
  assumes p: "quotas_under c rules p"
    and st: "\<And>k r. map_of rules k = Some r \<Longrightarrow> count_of streams k \<le> ar_max_accepted_frames r"
  shows "quotas_under c rules (fst (restore_counted d elapsed streams p))"
  unfolding restore_counted_def
proof (rule lift_keeps [where P = "quotas_under c rules"], rule p,
    rule lift_keeps [where P = "quotas_under c rules"], rule p)
  have c: "gp_config p = c" using p by (simp add: quotas_under_def)
  fix t r assume tr: "accepted_counters p d = Inr t" "repair_counters p d = Inr r"
  have "quotas_under c rules (fst (restore_observed d elapsed t streams r decisions p))" for decisions
    using accepted_counters_ok [of p d "fst t" "snd t"] repair_counters_ok [of p d "fst r" "snd r"] tr st
    by (intro restore_observed_quotas p) (auto simp: c)
  then show "quotas_under c rules (fst (case dget d ''repair_decisions'' of
      PList decisions \<Rightarrow>
        if \<not> list_all is_dict decisions then (p, Inl (value_error ''durable repair decisions are invalid''))
        else restore_observed d elapsed t streams r decisions p
    | _ \<Rightarrow> (p, Inl (value_error ''durable repair decisions are invalid''))))"
    by (simp add: p split: py_obj.split)
qed

lemma restore_quotas [inv_rules]:
  assumes "quotas_ok p"
  shows "quotas_ok (fst (restore_durable_state d p))"
proof -
  let ?P = "quotas_under (gp_config p) (gp_rules_by_stream p)"
  note lift = lift_keeps [where P = ?P]
  have p: "?P p" using assms by (simp add: quotas_under_def)
  have rows: "?P (fst (try_then (lift_exn p (restore_streams (gp_rules_by_stream p) rows []))
      (restore_counted d e)))" for rows e
  proof (rule lift, rule p)
    fix st assume st: "restore_streams (gp_rules_by_stream p) rows [] = Inr st"
    show "?P (fst (restore_counted d e st p))"
      by (rule restore_counted_quotas [OF p], rule restore_streams_ok [OF st])
        (use config_okD(4) [OF quotas_okD(1) [OF assms]] in \<open>auto intro: less_imp_le\<close>)
  qed
  have elapsed: "?P (fst (try_then (lift_exn p (restore_elapsed d)) (\<lambda>e q.
      case dget d ''accepted_by_stream'' of
        PList rows \<Rightarrow> try_then (lift_exn q (restore_streams (gp_rules_by_stream q) rows [])) (restore_counted d e)
      | _ \<Rightarrow> (q, Inl (value_error m)))))" for m
    by (rule lift, rule p) (simp add: p rows split: py_obj.split)
  have "?P (fst (restore_durable_state d p))"
    unfolding restore_durable_state_def if_distrib [of fst] if_distrib [of ?P]
    by (intro if_bool_eq_conj [THEN iffD2] conjI impI)
      (simp add: p, rule lift, rule p, simp add: p elapsed)
  then show ?thesis by (simp add: quotas_under_def)
qed

lemma step_quotas: "quotas_ok p \<Longrightarrow> policy_step p q \<Longrightarrow> quotas_ok q"
  by (erule policy_step.cases)
    (simp_all add: inv_rules same_view [OF observation_view] same_view [OF native_view]
      same_view [OF outcome_view] same_view [OF score_view])

interpretation policy_quota: inductive_invariant policy_start policy_step quotas_ok
  by unfold_locales (auto simp: policy_start_def intro: new_policy_quotas step_quotas)

text \<open>C8: whatever frames are offered, observations and outcomes published, documents exported and
  documents restored (refused ones included), no stream, no fleet quota and no repair budget of the
  policy is ever exceeded.\<close>

theorem policy_quotas:
  assumes "policy_start p" "policy_step\<^sup>*\<^sup>* p q"
  shows "(\<forall>k rule. map_of (gp_rules_by_stream q) k = Some rule \<longrightarrow>
            count_of (gp_accepted_by_stream q) k \<le> ar_max_accepted_frames rule) \<and>
         (\<forall>n. pc_max_accepted_frames (gp_config q) = Some n \<longrightarrow> gp_accepted_total q \<le> n) \<and>
         gp_accepted_total q \<le> gp_accepted_cumulative q \<and>
         0 \<le> gp_repair_allocated_bytes q \<and>
         gp_repair_allocated_bytes q \<le> pc_repair_capacity_bytes (gp_config q) \<and>
         (\<forall>n. pc_repair_max_admitted (gp_config q) = Some n \<longrightarrow> gp_repair_admitted_count q \<le> n)"
  using policy_quota.reachable_inv [OF assms]
  by (simp add: quotas_ok_def quota_view_def del: split_paired_All)

section \<open>An instance\<close>

definition sample_rule :: admission_rule where
  "sample_rule = \<lparr>ar_domain_id = 0, ar_topic = ''/odom'', ar_traffic_class = ''state'',
     ar_max_accepted_frames = 1, ar_allowed_publishers = {}, ar_min_admission_score = 0\<rparr>"

definition sample_policy :: policy where
  "sample_policy =
     projr (new_policy (default_policy_config [sample_rule] ''deny'' (Some 5)) (\<lambda>n. Fin 0) (\<lambda>x. x))"

definition sample_frame :: "int \<Rightarrow> frame_metadata" where
  "sample_frame n = \<lparr>fm_domain_id = 0, fm_topic = ''/odom'', fm_publisher_id = ''r1'',
     fm_source_sequence_number = n, fm_robot_id = ''r1'', fm_traffic_class = ''state'',
     fm_deadline_ms = 0, fm_age_ms = 0, fm_qoe_debt = 0, fm_criticality = 0,
     fm_repair_requested = False, fm_prior_repair_attempts = 0, fm_frame_bytes = 100\<rparr>"

lemma sample_policy_starts: "policy_start sample_policy"
proof -
  have "\<not> isl (new_policy (default_policy_config [sample_rule] ''deny'' (Some 5)) (\<lambda>n. Fin 0) (\<lambda>x. x))"
    by code_simp
  then show ?thesis unfolding policy_start_def sample_policy_def
    by (metis sum.collapse(2))
qed

theorem policy_quotas_witness:
  "gp_accepted_total (fst (admit (sample_frame 2) (fst (admit (sample_frame 1) sample_policy)))) \<le> 5 \<and>
   snd (admit (sample_frame 1) sample_policy) = Inr ''normal''"
proof -
  let ?q = "fst (admit (sample_frame 2) (fst (admit (sample_frame 1) sample_policy)))"
  have "policy_step\<^sup>*\<^sup>* sample_policy ?q"
    by (meson admits rtranclp.rtrancl_into_rtrancl rtranclp.rtrancl_refl)
  from policy_quotas [OF sample_policy_starts this]
  have "\<forall>n. pc_max_accepted_frames (gp_config ?q) = Some n \<longrightarrow> gp_accepted_total ?q \<le> n" by blast
  moreover have "pc_max_accepted_frames (gp_config ?q) = Some 5" by code_simp
  ultimately show ?thesis by simp code_simp
qed

end
