(* ===== verification/PolicyRecords.thy ===== *)
theory PolicyRecords
  imports PolicySafety
begin

text \<open>
  More about the admission policy: every observation it holds is well typed and in range, and
  the counters of accepted frames agree with each other in every run without restorations.
\<close>

section \<open>Observations\<close>

fun obs_entry_ok :: "obs_key \<times> gateway_observation \<Rightarrow> bool" where
  "obs_entry_ok ((d, t, p), ob) \<longleftrightarrow>
     ob_domain_id ob = d \<and> ob_topic ob = t \<and> ob_publisher_id ob = p \<and>
     0 \<le> d \<and> starts_with_slash t \<and> p \<noteq> [] \<and>
     is_fin (ob_qoe_debt ob) \<and> 0 \<le> ob_qoe_debt ob \<and> ob_qoe_debt ob \<le> 1 \<and>
     is_fin (ob_measured_loss ob) \<and> 0 \<le> ob_measured_loss ob \<and> ob_measured_loss ob \<le> 1 \<and>
     is_fin (ob_measured_rtt_ms ob) \<and> \<not> ob_measured_rtt_ms ob < 0 \<and>
     is_fin (ob_measured_jitter_ms ob) \<and> \<not> ob_measured_jitter_ms ob < 0 \<and>
     ob_source ob \<in> set observation_sources \<and> ob_qoe_debt_source ob \<in> set debt_sources"

definition observations_typed :: "policy \<Rightarrow> bool" where
  "observations_typed p \<longleftrightarrow>
     distinct (map fst (gp_observations p)) \<and> (\<forall>e\<in>set (gp_observations p). obs_entry_ok e)"

lemma typed_cong: "gp_observations q = gp_observations p \<Longrightarrow> observations_typed q = observations_typed p"
  by (simp add: observations_typed_def)

lemma typed_updates [simp]:
  "observations_typed (p\<lparr>gp_outcome_updates := i\<rparr>) = observations_typed p"
  "observations_typed (p\<lparr>gp_task_updates := i\<rparr>) = observations_typed p"
  "observations_typed (p\<lparr>gp_task_failures := i\<rparr>) = observations_typed p"
  by (simp_all add: observations_typed_def)

lemma typed_filter:
  "observations_typed p \<Longrightarrow> gp_observations q = filter f (gp_observations p) \<Longrightarrow> observations_typed q"
  by (auto simp: observations_typed_def distinct_map_filter)

lemma entry_after_update:
  assumes "e \<in> set (AList.update k v d)" "distinct (map fst d)"
  shows "e = (k, v) \<or> (e \<in> set d \<and> fst e \<noteq> k)"
  using assms by (induction d) (auto split: if_splits)

text \<open>What passes the checks of \<open>update_observation\<close> makes a well typed entry.\<close>

lemma checked_entry:
  assumes "check_observation k debt loss rtt jitter source debt_source = None"
    and "k = (d, t, p)"
  shows "obs_entry_ok (k, \<lparr>ob_domain_id = d, ob_topic = t, ob_publisher_id = p, ob_qoe_debt = debt,
      ob_measured_loss = loss, ob_measured_rtt_ms = rtt, ob_measured_jitter_ms = jitter,
      ob_source = the_str source, ob_qoe_debt_source = default_debt_source source debt_source,
      ob_updated_at = now\<rparr>)"
proof -
  from assms have src: "source \<in> PStr ` set observation_sources"
    and ds: "debt_source = PNone \<or> debt_source \<in> PStr ` set debt_sources"
    by (auto simp: check_observation_def split: if_splits)
  have "the_str source \<in> set observation_sources" using src by auto
  moreover have "default_debt_source source debt_source \<in> set debt_sources"
  proof (cases "debt_source = PNone")
    case True
    then show ?thesis by (simp add: default_debt_source_def debt_sources_def)
  next
    case False
    with ds show ?thesis by (auto simp: default_debt_source_def)
  qed
  ultimately show ?thesis
    using assms by (simp add: check_observation_def split: if_splits)
qed

lemma update_observation_typed:
  assumes "observations_typed p"
  shows "observations_typed (fst (update_observation k debt loss rtt jitter source debt_source p))"
proof (cases "check_observation k debt loss rtt jitter source debt_source")
  case None
  obtain d t i where k: "k = (d, t, i)" by (metis surj_pair)
  define ob where "ob = \<lparr>ob_domain_id = d, ob_topic = t, ob_publisher_id = i, ob_qoe_debt = debt,
      ob_measured_loss = loss, ob_measured_rtt_ms = rtt, ob_measured_jitter_ms = jitter,
      ob_source = the_str source, ob_qoe_debt_source = default_debt_source source debt_source,
      ob_updated_at = gp_clock p (gp_reads p)\<rparr>"
  have "gp_observations (fst (update_observation k debt loss rtt jitter source debt_source p)) =
      AList.update k ob (gp_observations p)"
    using None by (simp add: update_observation_def k read_clock_def Let_def ob_def)
  moreover have "obs_entry_ok (k, ob)" using checked_entry [OF None k] by (simp add: ob_def)
  moreover have "\<forall>e\<in>set (AList.update k ob (gp_observations p)). obs_entry_ok e"
    using assms \<open>obs_entry_ok (k, ob)\<close>
    by (auto simp: observations_typed_def simp del: obs_entry_ok.simps dest!: entry_after_update)
  ultimately show ?thesis using assms by (simp add: observations_typed_def distinct_update)
qed (simp add: update_observation_def assms)

section \<open>Steps that keep the observations\<close>

abbreviation same_obs :: "policy \<Rightarrow> policy \<Rightarrow> bool" where
  "same_obs p q \<equiv> gp_observations q = gp_observations p"

lemma refresh_obs [simp]: "gp_observations (fst (refresh_epoch p)) = gp_observations p"
  by (auto simp: refresh_epoch_def read_clock_def Let_def try_then_def lift_exn_def
      split: option.splits sum.splits)

lemma refuse_obs [simp]: "gp_observations (fst (refuse status code reason cls p)) = gp_observations p"
  by (simp add: refuse_def reject_def)

lemma try_repair_obs [simp]: "gp_observations (fst (try_repair m cls p)) = gp_observations p"
  by (auto simp: try_repair_def apply_repair_def defer_repair_def Let_def try_then_def lift_exn_def
      split: sum.splits list.splits option.splits)

lemma repair_or_refuse_obs [simp]:
  "gp_observations (fst (repair_or_refuse m cls code reason p)) = gp_observations p"
  unfolding repair_or_refuse_def by (rule try_then_keeps [where P = "same_obs p"]) auto

lemma fleet_quota_check_obs [simp]: "gp_observations (fst (fleet_quota_check m cls p)) = gp_observations p"
  by (simp add: fleet_quota_check_def accept_normal_def split: option.splits)

lemma expire_obs:
  obtains f where "gp_observations (fst (expire_observations p)) = filter f (gp_observations p)"
proof -
  have "\<exists>f. gp_observations (fst (expire_observations p)) = filter f (gp_observations p)"
  proof (cases "observation_threshold (gp_config p) (gp_clock p (gp_reads p))")
    case (Inl e)
    then show ?thesis
      by (intro exI [of _ "\<lambda>_. True"]) (simp add: expire_observations_def read_clock_def lift_exn_def)
  next
    case (Inr th)
    then show ?thesis
      by (auto simp: expire_observations_def read_clock_def lift_exn_def Let_def)
  qed
  with that show ?thesis by blast
qed

lemma expire_typed: "observations_typed p \<Longrightarrow> observations_typed (fst (expire_observations p))"
  by (rule expire_obs [of p]) (rule typed_filter)

lemma score_typed: "observations_typed p \<Longrightarrow> observations_typed (fst (effective_admission_score m p))"
  unfolding effective_admission_score_def
  by (rule try_then_keeps, erule expire_typed) (auto simp: observations_typed_def split: option.splits)

lemma admit_typed:
  assumes "observations_typed p"
  shows "observations_typed (fst (admit m p))"
proof -
  have under: "observations_typed (fst (admit_under rule m q))" if "observations_typed q" for rule q
  proof -
    have "observations_typed (fst (try_then (effective_admission_score m q) (admit_scored rule m)))"
      by (rule try_then_keeps, rule score_typed [OF that])
        (simp add: admit_scored_def Let_def observations_typed_def)
    with that show ?thesis by (simp add: admit_under_def Let_def observations_typed_def)
  qed
  show ?thesis unfolding admit_def
    by (rule try_then_keeps)
      (use assms under in \<open>auto simp: typed_cong [OF refresh_obs] typed_cong [OF refuse_obs]
        typed_cong [OF fleet_quota_check_obs] split: option.splits\<close>)
qed

lemma native_typed:
  "observations_typed p \<Longrightarrow> observations_typed (fst (update_native_path_observation m loss rtt jitter p))"
  unfolding update_native_path_observation_def Let_def
  by (rule try_then_keeps, rule update_observation_typed) (auto simp: observations_typed_def)

lemma outcome_typed:
  assumes "observations_typed p"
  shows "observations_typed (fst (update_application_outcome k delivered met latency deadline ok p))"
proof -
  have "observations_typed (fst (try_then (update_observation k debt l r j s ds p) f))"
    if "\<And>x s. observations_typed s \<Longrightarrow> observations_typed (fst (f x s))" for debt l r j s ds
      and f :: "unit \<Rightarrow> policy \<Rightarrow> policy \<times> pyfloat gw_result"
    by (rule try_then_keeps, rule update_observation_typed [OF assms]) (rule that)
  then show ?thesis
    by (simp add: update_application_outcome_def Let_def assms split: option.splits)
qed

lemma documents_typed:
  assumes "observations_typed p"
  shows "observations_typed (fst (policy_snapshot p))" "observations_typed (fst (export_durable_state p))"
proof -
  have r: "observations_typed (fst (refresh_epoch p))" using assms by (simp add: typed_cong [OF refresh_obs])
  show "observations_typed (fst (policy_snapshot p))"
    unfolding policy_snapshot_def
    by (rule try_then_keeps, rule r, rule try_then_keeps, erule expire_typed) simp
  have tail: "observations_typed (fst (case read_clock s of (p1, now) \<Rightarrow>
     try_then (lift_exn p1 (fingerprint p1)) (\<lambda>fp p2. (p2, Inr (durable_document fp now p2)))))"
    if "observations_typed s" for s
    unfolding read_clock_def prod.case
    by (rule try_then_keeps) (use that in \<open>simp_all add: observations_typed_def\<close>)
  show "observations_typed (fst (export_durable_state p))"
    unfolding export_durable_state_def
    by (rule try_then_keeps, rule r, rule try_then_keeps, erule expire_typed, erule tail)
qed

section \<open>Restoration\<close>

text \<open>A restored row is stored under its own identity, with another time only.\<close>

lemma map_of_entry: "map_of d k = Some v \<Longrightarrow> (k, v) \<in> set d"
  by (rule map_of_SomeD)

lemma entry_time: "obs_entry_ok (k, ob) \<Longrightarrow> obs_entry_ok (k, ob\<lparr>ob_updated_at := t\<rparr>)"
  by (cases k rule: prod_cases3) simp

definition restored_typed :: "policy \<times> (obs_key \<times> gateway_observation) option gw_result \<Rightarrow> bool" where
  "restored_typed r \<longleftrightarrow> observations_typed (fst r) \<and>
     (case snd r of Inr (Some e) \<Rightarrow> obs_entry_ok e | _ \<Rightarrow> True)"

lemma publish_restored_typed:
  assumes "observations_typed p"
  shows "restored_typed (publish_restored now d nums p)"
proof -
  have "restored_typed (try_then (update_observation k debt loss rtt jitter source ds p) (\<lambda>_ p1.
      case map_of (gp_observations p1) k of
        None \<Rightarrow> (p1, Inl e) | Some ob \<Rightarrow> (p1, Inr (Some (k, ob\<lparr>ob_updated_at := t\<rparr>)))))"
    for k debt loss rtt jitter source ds e t
  proof (cases "update_observation k debt loss rtt jitter source ds p")
    case (Pair q r)
    then have q: "observations_typed q" using update_observation_typed [OF assms] by (metis fst_conv)
    then show ?thesis
      by (cases r) (auto simp: Pair restored_typed_def observations_typed_def
          intro!: entry_time dest: map_of_SomeD split: option.splits)
  qed
  then show ?thesis
    unfolding publish_restored_def Let_def
    by (simp add: restored_typed_def assms split: list.split option.split py_obj.split)
qed

lemma restored_lift:
  assumes "observations_typed p" "\<And>x. r = Inr x \<Longrightarrow> restored_typed (f x p)"
  shows "restored_typed (try_then (lift_exn p r) f)"
  using assms by (cases r) (simp_all add: lift_exn_def restored_typed_def)

lemma restore_observation_typed:
  assumes "observations_typed p"
  shows "restored_typed (restore_observation now row p)"
proof (cases row)
  case (PDict d)
  show ?thesis
    unfolding restore_observation_def PDict py_obj.case Let_def
  proof (rule restored_lift [OF assms])
    fix ok
    have nums: "restored_typed (try_then (lift_exn p r) (publish_restored now d))" for r
      by (rule restored_lift [OF assms]) (rule publish_restored_typed [OF assms])
    show "restored_typed (if \<not> ok then (p, Inl (value_error ''durable observation metrics are invalid''))
        else if exact_number (dget d ''age_ms'') < 0 \<or>
          Fin (of_int (pc_observation_ttl_ms (gp_config p))) \<le> exact_number (dget d ''age_ms'')
        then (p, Inr None)
        else try_then (lift_exn p (map_outcome py_float [dget d ''qoe_debt'', dget d ''measured_loss'',
               dget d ''measured_rtt_ms'', dget d ''measured_jitter_ms'', dget d ''age_ms'']))
               (publish_restored now d))"
      using nums by (simp add: restored_typed_def assms del: map_outcome.simps)
  qed
qed (simp_all add: restore_observation_def restored_typed_def assms)

lemma restore_observations_typed:
  assumes "observations_typed p" "distinct (map fst acc)" "\<forall>e\<in>set acc. obs_entry_ok e"
  shows "observations_typed (fst (restore_observations now rows acc p)) \<and>
    (\<forall>obs. snd (restore_observations now rows acc p) = Inr obs \<longrightarrow>
       distinct (map fst obs) \<and> (\<forall>e\<in>set obs. obs_entry_ok e))"
  using assms
proof (induction rows arbitrary: acc p)
  case (Cons row rows)
  obtain q r where row: "restore_observation now row p = (q, r)" by fastforce
  then have q: "observations_typed q" "\<And>e. r = Inr (Some e) \<Longrightarrow> obs_entry_ok e"
    using restore_observation_typed [OF Cons.prems(1), of now row] by (auto simp: restored_typed_def)
  show ?case
  proof (cases r)
    case (Inr x)
    let ?acc = "case x of None \<Rightarrow> acc | Some (k, ob) \<Rightarrow> AList.update k ob acc"
    have "distinct (map fst ?acc)" using Cons.prems(2) by (simp add: distinct_update split: option.splits prod.splits)
    moreover have "\<forall>e\<in>set ?acc. obs_entry_ok e"
      using Cons.prems(2,3) q(2) Inr
      by (cases x) (auto dest!: entry_after_update)
    ultimately show ?thesis using Cons.IH [OF q(1), of ?acc] by (simp add: row Inr)
  qed (simp add: row q)
qed simp

lemma restore_fields_typed:
  assumes "observations_typed p" "distinct (map fst obs)" "\<forall>e\<in>set obs. obs_entry_ok e"
  shows "observations_typed (fst (restore_fields d started accepted streams repair decisions obs p))"
proof -
  note keeps = setters_keep [where P = observations_typed] set_count_map_keeps [where P = observations_typed]
    assign_keeps [where P = observations_typed]
  have obs: "observations_typed (s\<lparr>gp_repair_decisions := decisions, gp_observations := obs\<rparr>)" for s :: policy
    using assms(2,3) by (simp add: observations_typed_def)
  show ?thesis
    unfolding restore_fields_def
    by (rule run_steps_keeps [where P = observations_typed, OF _ assms(1)])
      (simp only: list.pred_inject simp_thms,
       intro conjI allI impI keeps obs; (assumption | simp add: observations_typed_def))
qed

lemma restore_typed:
  assumes p: "observations_typed p"
  shows "observations_typed (fst (restore_durable_state d p))"
proof -
  note lift = lift_keeps [where P = observations_typed]
  have observed: "observations_typed (fst (restore_observed d e t st r decs p))" for e t st r decs
  proof -
    define p1 where "p1 = p\<lparr>gp_reads := gp_reads p + 1\<rparr>"
    have p1: "observations_typed p1" using p by (simp add: observations_typed_def p1_def)
    have "observations_typed (fst (try_then (restore_observations now rows [] p1) (\<lambda>obs p1.
        try_then (restore_fields d x t st r decs obs p1) (\<lambda>_. refresh_epoch))))" for now rows x
    proof (rule try_then_keeps)
      show "observations_typed (fst (restore_observations now rows [] p1))"
        using restore_observations_typed [OF p1, of "[]" now rows] by simp
    next
      fix s obs assume o: "restore_observations now rows [] p1 = (s, Inr obs)" "observations_typed s"
      have "distinct (map fst obs) \<and> (\<forall>e\<in>set obs. obs_entry_ok e)"
        using restore_observations_typed [OF p1, of "[]" now rows] o(1) by simp
      then have "observations_typed (fst (restore_fields d x t st r decs obs s))"
        using o(2) by (intro restore_fields_typed) simp_all
      then show "observations_typed (fst (try_then (restore_fields d x t st r decs obs s) (\<lambda>_. refresh_epoch)))"
        by (rule try_then_keeps) (simp add: typed_cong [OF refresh_obs])
    qed
    then show ?thesis
      unfolding restore_observed_def read_clock_def prod.case p1_def [symmetric]
      by (simp add: p1 split: py_obj.split)
  qed
  have counted: "observations_typed (fst (restore_counted d e st p))" for e st
    unfolding restore_counted_def
    by (rule lift, rule p, rule lift, rule p) (simp add: p observed split: py_obj.split)
  have rows: "observations_typed (fst (try_then (lift_exn p (restore_streams (gp_rules_by_stream p) rows []))
      (restore_counted d e)))" for rows e
    by (rule lift, rule p, rule counted)
  have elapsed: "observations_typed (fst (try_then (lift_exn p (restore_elapsed d)) (\<lambda>e q.
      case dget d ''accepted_by_stream'' of
        PList rows \<Rightarrow> try_then (lift_exn q (restore_streams (gp_rules_by_stream q) rows [])) (restore_counted d e)
      | _ \<Rightarrow> (q, Inl (value_error m)))))" for m
    by (rule lift, rule p) (simp add: p rows split: py_obj.split)
  show ?thesis
    unfolding restore_durable_state_def if_distrib [of fst] if_distrib [of observations_typed]
    by (intro if_bool_eq_conj [THEN iffD2] conjI impI)
      (simp add: p, rule lift, rule p, simp add: p elapsed)
qed

lemma step_typed: "observations_typed p \<Longrightarrow> policy_step p q \<Longrightarrow> observations_typed q"
  by (erule policy_step.cases)
    (simp_all add: admit_typed update_observation_typed native_typed outcome_typed score_typed
      documents_typed restore_typed)

interpretation policy_observed: inductive_invariant policy_start policy_step observations_typed
proof unfold_locales
  show "observations_typed s" if "policy_start s" for s
    using that by (auto simp: policy_start_def new_policy_def observations_typed_def split: option.splits sum.splits)
qed (rule step_typed)

text \<open>Every observation a policy ever holds is stored under its own identity, a non-negative
  domain, an absolute topic and a publisher; its debt and loss are finite and in [0, 1], its round
  trip time and jitter finite and not negative, and its two sources are known ones.\<close>

theorem policy_observations_typed:
  assumes "policy_start p" "policy_step\<^sup>*\<^sup>* p q" "(k, ob) \<in> set (gp_observations q)"
  shows "obs_entry_ok (k, ob) \<and> map_of (gp_observations q) k = Some ob"
  using policy_observed.reachable_inv [OF assms(1,2)] assms(3)
  by (auto simp: observations_typed_def)

text \<open>The observation of a checked update, read back.\<close>

definition sample_observation :: "policy \<Rightarrow> policy \<times> unit gw_result" where
  "sample_observation =
     update_observation (0, ''/odom'', ''r1'') (dbl (1/2)) 0 (Fin 10) 1 (PStr ''external_api'') PNone"

theorem policy_observations_typed_witness:
  "\<exists>ob. ((0, ''/odom'', ''r1''), ob) \<in> set (gp_observations (fst (sample_observation sample_policy))) \<and>
        ob_qoe_debt_source ob \<in> set debt_sources \<and> ob_qoe_debt ob \<le> 1"
proof -
  let ?q = "fst (sample_observation sample_policy)"
  have step: "policy_step\<^sup>*\<^sup>* sample_policy ?q"
    unfolding sample_observation_def by (meson observes r_into_rtranclp)
  have "map fst (gp_observations ?q) = [(0, ''/odom'', ''r1'')]" by code_simp
  then obtain ob where ob: "((0, ''/odom'', ''r1''), ob) \<in> set (gp_observations ?q)"
    by (cases "gp_observations ?q") auto
  from policy_observations_typed [OF sample_policy_starts step ob] ob show ?thesis by auto
qed

section \<open>The books\<close>

text \<open>Accepted frames are counted in total and per stream since the epoch began, and since the
  start cumulatively and per class.\<close>

definition balanced :: "policy \<Rightarrow> bool" where
  "balanced p \<longleftrightarrow>
     gp_accepted_total p = sum_list (map snd (gp_accepted_by_stream p)) \<and>
     gp_accepted_cumulative p = sum_list (map snd (gp_accepted_by_class p))"

definition books :: "policy \<Rightarrow> int \<times> int \<times> ((int \<times> string) \<times> int) list \<times> (string \<times> int) list" where
  "books p = (gp_accepted_total p, gp_accepted_cumulative p, gp_accepted_by_stream p, gp_accepted_by_class p)"

lemma books_updates [simp]:
  "books (p\<lparr>gp_reads := n\<rparr>) = books p"
  "books (p\<lparr>gp_observations := obs\<rparr>) = books p"
  "books (p\<lparr>gp_observation_updates := i\<rparr>) = books p"
  "books (p\<lparr>gp_observation_updates_by_source := sm\<rparr>) = books p"
  "books (p\<lparr>gp_observation_expirations := i\<rparr>) = books p"
  "books (p\<lparr>gp_observation_score_uses := i\<rparr>) = books p"
  "books (p\<lparr>gp_native_updates := i\<rparr>) = books p"
  "books (p\<lparr>gp_outcome_updates := i\<rparr>) = books p"
  "books (p\<lparr>gp_task_updates := i\<rparr>) = books p"
  "books (p\<lparr>gp_task_failures := i\<rparr>) = books p"
  "books (p\<lparr>gp_rejected_by_reason := sm\<rparr>) = books p"
  "books (p\<lparr>gp_repair_deferred_count := i\<rparr>) = books p"
  "books (p\<lparr>gp_repair_decisions := ds\<rparr>) = books p"
  by (simp_all add: books_def)

lemma balanced_books: "books q = books p \<Longrightarrow> balanced q = balanced p"
  by (simp add: books_def balanced_def)

abbreviation keeps_books :: "policy \<Rightarrow> policy \<Rightarrow> bool" where
  "keeps_books p q \<equiv> books q = books p"

lemma expire_books [simp]: "books (fst (expire_observations p)) = books p"
  unfolding expire_observations_def read_clock_def
  by (simp, rule try_then_keeps [where P = "keeps_books p"]) (auto simp: Let_def)

lemma score_books [simp]: "books (fst (effective_admission_score m p)) = books p"
  unfolding effective_admission_score_def
  by (rule try_then_keeps [where P = "keeps_books p"]) (auto split: option.splits)

lemma observation_books [simp]:
  "books (fst (update_observation k debt loss rtt jitter source debt_source p)) = books p"
  by (auto simp: update_observation_def read_clock_def Let_def split: option.splits prod.splits)

lemma native_books [simp]: "books (fst (update_native_path_observation m loss rtt jitter p)) = books p"
  unfolding update_native_path_observation_def Let_def
  by (rule try_then_keeps [where P = "keeps_books p"]) auto

lemma outcome_books [simp]:
  "books (fst (update_application_outcome k delivered met latency deadline ok p)) = books p"
proof -
  have "keeps_books p (fst (try_then (update_observation k debt l r j s ds p) f))"
    if "\<And>x s. books (fst (f x s)) = books s" for debt l r j s ds and f :: "unit \<Rightarrow> policy \<Rightarrow> policy \<times> pyfloat gw_result"
    by (rule try_then_keeps [where P = "keeps_books p"]) (simp_all add: that)
  then show ?thesis by (simp add: update_application_outcome_def Let_def split: option.splits)
qed

lemma refresh_balanced: "balanced p \<Longrightarrow> balanced (fst (refresh_epoch p))"
  by (auto simp: refresh_epoch_def read_clock_def Let_def try_then_def lift_exn_def balanced_def
      split: option.splits sum.splits)

lemma refresh_cumulative [simp]: "gp_accepted_cumulative (fst (refresh_epoch p)) = gp_accepted_cumulative p"
  by (auto simp: refresh_epoch_def read_clock_def Let_def try_then_def lift_exn_def
      split: option.splits sum.splits)

text \<open>One admission, seen in the books.\<close>

definition counted :: "policy \<Rightarrow> policy \<times> 'a gw_result \<Rightarrow> bool" where
  "counted p r \<longleftrightarrow>
     (case snd r of
        Inl _ \<Rightarrow> gp_accepted_cumulative (fst r) = gp_accepted_cumulative p
      | Inr _ \<Rightarrow> gp_accepted_cumulative (fst r) = gp_accepted_cumulative p + 1) \<and>
     (balanced p \<longrightarrow> balanced (fst r))"

lemma counted_from:
  assumes "gp_accepted_cumulative q = gp_accepted_cumulative p" "balanced p \<Longrightarrow> balanced q" "counted q r"
  shows "counted p r"
  using assms by (cases "snd r") (auto simp: counted_def)

lemma counted_after:
  assumes q: "books q = books p" and r: "counted q r"
  shows "counted p r"
proof (rule counted_from [OF _ _ r])
  show "gp_accepted_cumulative q = gp_accepted_cumulative p" using q by (simp add: books_def)
  show "balanced p \<Longrightarrow> balanced q" by (simp add: balanced_books [OF q])
qed

lemma refuse_counted: "counted p (refuse status code reason cls p)"
  by (simp add: counted_def refuse_def reject_def balanced_def)

lemma accept_normal_counted: "counted p (accept_normal m cls p)"
  by (simp add: counted_def accept_normal_def balanced_def)

text \<open>A repair attempt counts when it succeeds; otherwise the books stay.\<close>

definition repaired_books :: "string \<Rightarrow> policy \<Rightarrow> policy \<times> bool gw_result \<Rightarrow> bool" where
  "repaired_books cls p r \<longleftrightarrow>
     (if snd r = Inr True
      then books (fst r) = (gp_accepted_total p, gp_accepted_cumulative p + 1, gp_accepted_by_stream p,
                            bump cls (gp_accepted_by_class p))
      else books (fst r) = books p)"

lemma apply_repair_books: "repaired_books cls p (apply_repair cls decision p)"
  by (simp add: repaired_books_def apply_repair_def defer_repair_def Let_def) (simp add: books_def)

lemma try_repair_books: "repaired_books cls p (try_repair m cls p)"
proof -
  have stay: "repaired_books cls p (p, Inr False)" "repaired_books cls p (defer_repair p)"
    "repaired_books cls p (p, Inl e)" for e
    by (simp_all add: repaired_books_def defer_repair_def)
  have run: "repaired_books cls p (try_then (lift_exn p r) (\<lambda>s p1. case sc_decisions s of
      [] \<Rightarrow> (p1, Inl (PyExn IndexError)) | decision # _ \<Rightarrow> apply_repair cls decision p1))" for r
    by (cases r) (simp_all add: lift_exn_def stay apply_repair_books split: list.split)
  show ?thesis unfolding try_repair_def Let_def by (simp add: stay run)
qed

lemma repair_or_refuse_counted: "counted p (repair_or_refuse m cls code reason p)"
proof (cases "try_repair m cls p")
  case (Pair q r)
  note b = try_repair_books [of cls p m, unfolded Pair repaired_books_def fst_conv snd_conv]
  show ?thesis
  proof (cases "r = Inr True")
    case True
    with b show ?thesis
      by (auto simp: repair_or_refuse_def Pair counted_def balanced_def books_def)
  next
    case False
    with b have q: "books q = books p" by simp
    show ?thesis
    proof (cases r)
      case (Inl e)
      with q show ?thesis
        by (simp add: repair_or_refuse_def Pair counted_def balanced_books [OF q]) (simp add: books_def)
    next
      case (Inr x)
      with False show ?thesis
        by (simp add: repair_or_refuse_def Pair counted_after [OF q refuse_counted])
    qed
  qed
qed

lemma fleet_quota_check_counted: "counted p (fleet_quota_check m cls p)"
  by (simp add: fleet_quota_check_def repair_or_refuse_counted accept_normal_counted split: option.splits)

lemma admit_under_counted: "counted p (admit_under rule m p)"
proof -
  have "counted p (try_then (effective_admission_score m p) (admit_scored rule m))"
  proof (cases "effective_admission_score m p")
    case (Pair q r)
    then have q: "books q = books p" using score_books [of m p] by simp
    show ?thesis
    proof (cases r)
      case (Inl e)
      then show ?thesis
        by (simp add: Pair counted_def balanced_books [OF q]) (use q in \<open>simp add: books_def\<close>)
    next
      case (Inr score)
      have "counted q (admit_scored rule m score q)"
        by (simp add: admit_scored_def Let_def repair_or_refuse_counted fleet_quota_check_counted)
      then show ?thesis by (simp add: Pair Inr counted_after [OF q])
    qed
  qed
  then show ?thesis by (simp add: admit_under_def Let_def refuse_counted)
qed

text \<open>A frame is counted exactly when it is admitted: \<open>admit\<close> raises the cumulative count by
  one when it returns an action and leaves it when it raises; and when the books agreed before
  (the epoch's total with the streams, the cumulative count with the classes), they agree after.\<close>

theorem admit_counts_once: "counted p (admit m p)"
proof (cases "refresh_epoch p")
  case (Pair q r)
  then have c: "gp_accepted_cumulative q = gp_accepted_cumulative p" "balanced p \<Longrightarrow> balanced q"
    using refresh_cumulative [of p] refresh_balanced [of p] by simp_all
  have "counted q (case map_of (gp_rules_by_stream q) (stream_key m) of
         None \<Rightarrow>
           if pc_default_action (gp_config q) = ''deny''
           then refuse 403 ''no_matching_rule'' ''frame is not covered by fleet admission policy''
                  ''unclassified'' q
           else fleet_quota_check m ''default'' q
       | Some rule \<Rightarrow> admit_under rule m q)"
    by (simp add: refuse_counted fleet_quota_check_counted admit_under_counted split: option.splits)
  then have "counted p (case map_of (gp_rules_by_stream q) (stream_key m) of
         None \<Rightarrow>
           if pc_default_action (gp_config q) = ''deny''
           then refuse 403 ''no_matching_rule'' ''frame is not covered by fleet admission policy''
                  ''unclassified'' q
           else fleet_quota_check m ''default'' q
       | Some rule \<Rightarrow> admit_under rule m q)"
    by - (rule counted_from [OF c(1) c(2)])
  with c show ?thesis
    by (cases r) (simp_all add: admit_def Pair, simp add: counted_def)
qed

end
