(* ===== verification/StoreSafety.thy ===== *)
theory StoreSafety
  imports GatewayPostgres PolicySafety
begin

text \<open>
  What the durable stores promise, for SQLite and PostgreSQL at once: an operation that raises
  leaves the database as it was, and the writer lease fences writers: a commit carries the
  token of the lease row, tokens never decrease, and two holders never share one.
\<close>

section \<open>Reasoning about steps\<close>

text \<open>A reflexive and transitive relation that every part of a step respects.\<close>

lemma try_then_trans:
  assumes "transp R" "R s (fst m)" "\<And>x t. m = (t, Inr x) \<Longrightarrow> R t (fst (f x t))"
  shows "R s (fst (try_then m f))"
proof (cases m)
  case (Pair t r)
  show ?thesis
  proof (cases r)
    case (Inl e)
    with Pair assms(2) show ?thesis by simp
  next
    case (Inr x)
    with Pair assms(2) assms(3) [of t x] show ?thesis by (auto intro: transpD [OF assms(1)])
  qed
qed

text \<open>Everything of a connection but its database and its statement counter.\<close>

definition link :: "store \<Rightarrow> backend \<times> string \<times> (nat \<Rightarrow> sql_fault option) \<times> (py_exn \<Rightarrow> string) \<times>
    string option \<times> int option \<times> int option \<times> py_dict option" where
  "link s = (st_backend s, st_path s, st_fault s, st_text s, st_lease_id s, st_fence s, st_lease_ms s,
             st_last_snapshot s)"

lemma link_updates [simp]:
  "link (s\<lparr>st_db := db\<rparr>) = link s" "link (s\<lparr>st_stmts := n\<rparr>) = link s"
  by (simp_all add: link_def)

lemma execute_link [simp]: "link (fst (execute args stmt s)) = link s"
  by (auto simp: execute_def Let_def split: option.splits sum.splits prod.splits)

text \<open>Same connection, same lease row.\<close>

definition lease_same :: "store \<Rightarrow> store \<Rightarrow> bool" where
  "lease_same s t \<longleftrightarrow> link t = link s \<and> db_lease (st_db t) = db_lease (st_db s)"

lemma lease_same_refl [simp]: "lease_same s s"
  by (simp add: lease_same_def)

lemma lease_same_trans: "transp lease_same"
  by (auto simp: lease_same_def intro: transpI)

named_theorems lease_rules \<open>steps that keep the connection and its lease row\<close>

definition keeps_lease :: "'a statement \<Rightarrow> bool" where
  "keeps_lease stmt \<longleftrightarrow> (\<forall>db db' x. stmt db = Inr (db', x) \<longrightarrow> db_lease db' = db_lease db)"

lemma execute_lease: "keeps_lease stmt \<Longrightarrow> lease_same s (fst (execute args stmt s))"
  using execute_link [of args stmt s]
  by (auto simp: lease_same_def keeps_lease_def execute_def Let_def link_def
      split: option.splits sum.splits prod.splits)

lemma statements_keep_lease [lease_rules, simp]:
  "keeps_lease no_op" "keeps_lease (insert_frame r)" "keeps_lease select_frames" "keeps_lease (delete_frame pk)"
  "keeps_lease (insert_dedup k)" "keeps_lease (select_keys tbl)" "keeps_lease (known_key k)"
  "keeps_lease (stale_ordinals tbl st n)" "keeps_lease (delete_dedup g)" "keeps_lease (insert_outcome k)"
  "keeps_lease (delete_outcomes ns)" "keeps_lease (upsert_cursor c n)" "keeps_lease select_cursors"
  "keeps_lease (upsert_admission fp j)" "keeps_lease select_admission" "keeps_lease select_lease"
  "keeps_lease (count_rows rows)"
  by (auto simp: keeps_lease_def no_op_def insert_frame_def select_frames_def delete_frame_def
      insert_dedup_def select_keys_def known_key_def stale_ordinals_def delete_dedup_def
      insert_outcome_def delete_outcomes_def upsert_cursor_def select_cursors_def upsert_admission_def
      select_admission_def select_lease_def count_rows_def split: if_splits)

lemma lease_selected:
  "execute [] select_lease s = (t, Inr row) \<Longrightarrow> row = db_lease (st_db s) \<and> lease_same s t"
  using execute_link [of "[]" select_lease s]
  by (auto simp: execute_def Let_def select_lease_def lease_same_def split: option.splits)

section \<open>Transactions\<close>

lemma rolled_back_fst_link [simp]: "link (fst (rolled_back db r)) = link (fst r)"
  by (auto simp: rolled_back_def split: prod.splits sum.splits)

lemma wrap_fst [simp]: "fst (wrap_errors f r) = fst r"
  by (auto simp: wrap_errors_def split: prod.splits sum.splits)

lemma wrap_Inr [simp]: "snd (wrap_errors f r) = Inr x \<longleftrightarrow> snd r = Inr x"
  by (auto simp: wrap_errors_def split: prod.splits sum.splits)

lemma wrap_isl [simp]: "isl (snd (wrap_errors f r)) = isl (snd r)"
  by (auto simp: wrap_errors_def split: prod.splits sum.splits)

lemma commit_after_error: "isl (snd (commit_after body s)) \<Longrightarrow> st_db (fst (commit_after body s)) = st_db s"
  by (auto simp: commit_after_def rolled_back_def split: prod.splits sum.splits)

lemma execute_no_op: "st_db (fst (execute [] no_op s)) = st_db s"
  by (auto simp: execute_def Let_def no_op_def split: option.splits)

lemma transaction_error:
  assumes "isl (snd (transaction body s))"
  shows "st_db (fst (transaction body s)) = st_db s"
proof (cases "execute [] no_op s")
  case (Pair t r)
  then have t: "st_db t = st_db s" using execute_no_op [of s] by simp
  show ?thesis
  proof (cases r)
    case (Inr x)
    then show ?thesis
      using assms commit_after_error [of body t] t by (simp add: transaction_def Pair)
  qed (simp add: transaction_def Pair t)
qed

text \<open>A committed block ran its body to the end, and the body's database is the committed one.\<close>

lemma commit_after_done:
  assumes "commit_after body s = (t, Inr x)"
  obtains u where "body s = (u, Inr x)" "st_db t = st_db u" "link t = link u"
proof -
  from assms obtain u where u: "body s = (u, Inr x)" "fst (execute [] no_op u) = t"
    by (auto simp: commit_after_def rolled_back_def try_then_def split: prod.splits sum.splits)
  with execute_no_op [of u] execute_link [of "[]" no_op u] show ?thesis by (intro that [of u]) auto
qed

lemma transaction_done:
  assumes "transaction body s = (t, Inr x)"
  obtains u v where "st_db u = st_db s" "link u = link s" "body u = (v, Inr x)" "st_db t = st_db v"
    "link t = link v"
proof -
  from assms obtain u where u: "execute [] no_op s = (u, Inr ())" "commit_after body u = (t, Inr x)"
    by (auto simp: transaction_def elim!: try_thenE)
  from commit_after_done [OF u(2)] obtain v where "body u = (v, Inr x)" "st_db t = st_db v" "link t = link v" .
  with u(1) execute_no_op [of s] execute_link [of "[]" no_op s] show ?thesis by (intro that [of u v]) auto
qed

lemma commit_after_link:
  assumes "\<And>u. link (fst (body u)) = link u"
  shows "link (fst (commit_after body s)) = link s"
  unfolding commit_after_def rolled_back_fst_link
  by (rule try_then_trans [where R = "\<lambda>a b. link b = link a"])
    (auto simp: assms intro!: transpI try_then_trans [where R = "\<lambda>a b. link b = link a"])

lemma transaction_link:
  assumes "\<And>u. link (fst (body u)) = link u"
  shows "link (fst (transaction body s)) = link s"
  unfolding transaction_def
  by (rule try_then_trans [where R = "\<lambda>a b. link b = link a"])
    (auto intro!: transpI commit_after_link assms)

lemma commit_after_lease:
  assumes "\<And>u. lease_same u (fst (body u))"
  shows "lease_same s (fst (commit_after body s))"
proof (cases "commit_after body s")
  case (Pair t r)
  show ?thesis
  proof (cases r)
    case (Inl e)
    then have "st_db t = st_db s" using commit_after_error [of body s] by (simp add: Pair)
    moreover have "link t = link s" using commit_after_link [of body s] assms by (simp add: Pair lease_same_def)
    ultimately show ?thesis by (simp add: Pair lease_same_def)
  next
    case (Inr x)
    with Pair obtain u where "body s = (u, Inr x)" "st_db t = st_db u" "link t = link u"
      by (auto elim: commit_after_done)
    with assms [of s] show ?thesis by (simp add: Pair lease_same_def)
  qed
qed

lemma transaction_lease:
  assumes "\<And>u. lease_same u (fst (body u))"
  shows "lease_same s (fst (transaction body s))"
  unfolding transaction_def
  by (rule try_then_trans [OF lease_same_trans]) (auto intro!: execute_lease commit_after_lease assms)

section \<open>The committing operations keep the lease\<close>

lemma verify_lease_same: "lease_same s (fst (verify_lease now s))"
  unfolding verify_lease_def
  by (auto intro!: try_then_trans [OF lease_same_trans] execute_lease split: option.splits)

lemma fence_guard_same: "lease_same s (fst (fence_guard now s))"
  by (auto simp: fence_guard_def verify_lease_same split: option.splits)

text \<open>A guard that passes has seen the writer's own token in an unexpired row.\<close>

lemma fence_guard_passed:
  assumes "fence_guard now s = (t, Inr x)" "st_lease_id s = Some h" "st_fence s = Some f"
  obtains e n where "db_lease (st_db s) = Some (h, f, e)" "now = Some n" "n < e"
proof -
  from assms obtain n where n: "now = Some n" "verify_lease n s = (t, Inr x)"
    by (auto simp: fence_guard_def persistence_def split: option.splits)
  with assms(2,3) obtain u row where "execute [] select_lease s = (u, Inr row)" "lease_valid row h f n"
    by (auto simp: verify_lease_def persistence_def elim!: try_thenE split: if_splits)
  with lease_selected n(1) that show ?thesis by (fastforce simp: lease_valid_def split: option.splits)
qed

lemma save_admission_same: "lease_same s (fst (save_admission d s))"
  by (auto simp: save_admission_def intro!: execute_lease split: py_obj.splits sum.splits)

lemma drop_stale_same:
  "lease_same s (fst (drop_stale_dedup stale s))" "lease_same s (fst (drop_stale_outcomes stale s))"
  by (auto simp: drop_stale_dedup_def drop_stale_outcomes_def intro!: execute_lease)

lemma bodies_keep_lease:
  "lease_same s (fst (append_body m offset payload evict capacity state now s))"
  "lease_same s (fst (cursor_body k n now s))"
  "lease_same s (fst (outcome_body args fk capacity d now s))"
  unfolding append_body_def cursor_body_def outcome_body_def
  by (auto intro!: try_then_trans [OF lease_same_trans] execute_lease fence_guard_same
      save_admission_same drop_stale_same split: option.splits prod.splits)

text \<open>Every body begins with the guard.\<close>

lemma bodies_guarded:
  "append_body m offset payload evict capacity state now s = (t, Inr x) \<Longrightarrow> \<exists>u. fence_guard now s = (u, Inr ())"
  "cursor_body k n now s = (t, Inr x) \<Longrightarrow> \<exists>u. fence_guard now s = (u, Inr ())"
  "outcome_body args fk capacity d now s = (t, Inr y) \<Longrightarrow> \<exists>u. fence_guard now s = (u, Inr ())"
  by (auto simp: append_body_def cursor_body_def outcome_body_def elim!: try_thenE split: prod.splits)

section \<open>The contract of a leased store\<close>

datatype write_request =
  AppendReq frame_metadata int string "int option" int "py_dict option"
| CursorReq obs_key int
| OutcomeReq frame_key int py_dict

definition without_result :: "store \<times> 'a gw_result \<Rightarrow> store \<times> unit gw_result" where
  "without_result r = (fst r, map_sum id (\<lambda>_. ()) (snd r))"

fun sqlite_write :: "write_request \<Rightarrow> int option \<Rightarrow> store \<Rightarrow> store \<times> unit gw_result" where
  "sqlite_write (AppendReq m off payload evict cap state) now s = sqlite_append_frame m off payload evict cap state now s"
| "sqlite_write (CursorReq k n) now s = sqlite_set_cursor k n now s"
| "sqlite_write (OutcomeReq k cap d) now s = without_result (sqlite_commit_outcome k cap d now s)"

fun pg_write :: "write_request \<Rightarrow> int option \<Rightarrow> store \<Rightarrow> store \<times> unit gw_result" where
  "pg_write (AppendReq m off payload evict cap state) now s = pg_append_frame m off payload evict cap state now s"
| "pg_write (CursorReq k n) now s = pg_set_cursor k n now s"
| "pg_write (OutcomeReq k cap d) now s = without_result (pg_commit_outcome k cap d now s)"

type_synonym lease_row = "(string \<times> int \<times> int) option"

text \<open>\<open>covered\<close>: the row's token is later, or it is the same and so is the holder;
  \<open>token_le\<close>: the new row covers the token of the old one.\<close>

fun covered :: "lease_row \<Rightarrow> int \<Rightarrow> string \<Rightarrow> bool" where
  "covered None f h = False"
| "covered (Some (h', f', e)) f h = (f < f' \<or> f = f' \<and> h = h')"

fun token_le :: "lease_row \<Rightarrow> lease_row \<Rightarrow> bool" where
  "token_le None row = True"
| "token_le (Some (h, f, e)) row = covered row f h"

lemma covered_mono: "covered row f h \<Longrightarrow> token_le row row' \<Longrightarrow> covered row' f h"
  by (cases "(row, f, h)" rule: covered.cases; cases "(row', f, h)" rule: covered.cases) auto

lemma token_le_refl [simp]: "token_le row row"
  by (cases "(row, row)" rule: token_le.cases) auto

definition fence_ok :: "lease_row \<Rightarrow> store \<Rightarrow> bool" where
  "fence_ok row s \<longleftrightarrow>
     (st_lease_id s = None \<longleftrightarrow> st_fence s = None) \<and>
     (\<forall>h f. st_lease_id s = Some h \<and> st_fence s = Some f \<longrightarrow> covered row f h)"

lemma fence_ok_mono: "fence_ok row s \<Longrightarrow> token_le row row' \<Longrightarrow> fence_ok row' s"
  by (auto simp: fence_ok_def intro: covered_mono)

lemma fence_ok_link: "fence_ok row s \<Longrightarrow> link t = link s \<Longrightarrow> token_le row row' \<Longrightarrow> fence_ok row' t"
  using fence_ok_mono [of row s row'] by (simp add: fence_ok_def link_def)

abbreviation row_of :: "store \<Rightarrow> lease_row" where
  "row_of s \<equiv> db_lease (st_db s)"

locale leased_store =
  fixes acquire :: "string \<Rightarrow> int \<Rightarrow> int \<Rightarrow> store \<Rightarrow> store \<times> int gw_result"
    and renew :: "int \<Rightarrow> store \<Rightarrow> store \<times> int gw_result"
    and release :: "int \<Rightarrow> store \<Rightarrow> store \<times> unit gw_result"
    and commit :: "write_request \<Rightarrow> int option \<Rightarrow> store \<Rightarrow> store \<times> unit gw_result"
  assumes acquire_error: "acquire h l n s = (t, Inl e) \<Longrightarrow> lease_same s t"
    and acquire_done: "acquire h l n s = (t, Inr k) \<Longrightarrow>
      row_of t = Some (h, k, n + l) \<and> st_lease_id t = Some h \<and> st_fence t = Some k \<and>
      k = next_fence (row_of s) h n \<and> lease_taken (row_of s) h n = None"
    and renew_law: "renew n s = (t, r) \<Longrightarrow> link t = link s \<and> token_le (row_of s) (row_of t)"
    and release_law: "release n s = (t, x) \<Longrightarrow> token_le (row_of s) (row_of t) \<and>
      (link t = link s \<or> st_lease_id t = None \<and> st_fence t = None)"
    and commit_same: "commit q now s = (t, x) \<Longrightarrow> lease_same s t"
    and commit_fenced: "commit q now s = (t, Inr ()) \<Longrightarrow> st_lease_id s = Some h \<Longrightarrow> st_fence s = Some f \<Longrightarrow>
      \<exists>e n. row_of s = Some (h, f, e) \<and> now = Some n \<and> n < e"
begin

lemma acquire_tokens: "acquire h l n s = (t, r) \<Longrightarrow> token_le (row_of s) (row_of t)"
proof (cases r)
  case (Inl e)
  then show "acquire h l n s = (t, r) \<Longrightarrow> ?thesis"
    using acquire_error [of h l n s t e] by (simp add: lease_same_def)
next
  case (Inr k)
  assume "acquire h l n s = (t, r)"
  with Inr have "row_of t = Some (h, k, n + l)" "k = next_fence (row_of s) h n"
    using acquire_done [of h l n s t k] by auto
  then show ?thesis by (cases "row_of s") (auto simp: next_fence_def)
qed

lemma acquire_fence:
  assumes "acquire h l n s = (t, r)" "fence_ok (row_of s) s"
  shows "fence_ok (row_of t) t"
proof (cases r)
  case (Inl e)
  then have "lease_same s t" using acquire_error assms(1) by blast
  with assms(2) show ?thesis by (intro fence_ok_link [OF assms(2)]) (simp_all add: lease_same_def)
next
  case (Inr k)
  then show ?thesis using acquire_done [of h l n s t k] assms(1) by (simp add: fence_ok_def)
qed

lemma renew_fence: "renew n s = (t, r) \<Longrightarrow> fence_ok (row_of s) s \<Longrightarrow> fence_ok (row_of t) t"
  by (drule renew_law) (blast intro: fence_ok_link)

lemma release_fence:
  assumes "release n s = (t, x)" "fence_ok (row_of s) s"
  shows "fence_ok (row_of t) t"
proof -
  from release_law [OF assms(1)] have "token_le (row_of s) (row_of t)"
    "link t = link s \<or> st_lease_id t = None \<and> st_fence t = None" by simp_all
  then show ?thesis
  proof (elim disjE conjE)
    assume "link t = link s"
    with assms(2) show ?thesis using \<open>token_le (row_of s) (row_of t)\<close> by (rule fence_ok_link)
  qed (simp add: fence_ok_def)
qed

lemma commit_fence:
  assumes "commit q now s = (t, x)" "fence_ok (row_of s) s"
  shows "fence_ok (row_of t) t"
  by (rule fence_ok_link [OF assms(2)]) (use commit_same [OF assms(1)] in \<open>simp_all add: lease_same_def\<close>)

end

section \<open>Both stores meet the contract\<close>

lemma execute_done: "execute args stmt s = (t, Inr x) \<Longrightarrow> stmt (st_db s) = Inr (st_db t, x) \<and> link t = link s"
  by (auto simp: execute_def Let_def link_def split: option.splits sum.splits prod.splits)

lemma lease_written:
  "execute args (upsert_lease h k n) s = (t, Inr x) \<Longrightarrow> row_of t = Some (h, k, n)"
  "execute args (update_expiry cond n) s = (t, Inr x) \<Longrightarrow>
     row_of t = map_option (\<lambda>(h, f, x). (h, f, if cond h f then n else x)) (row_of s)"
  by (auto simp: upsert_lease_def update_expiry_def dest!: execute_done sym [of _ "st_db t"])

lemma link_trans: "transp (\<lambda>s t. link t = link s)"
  by (auto intro: transpI)

lemmas link_steps = try_then_trans [OF link_trans]

lemma lease_bodies_link [simp]:
  "link (fst (acquire_body h l n s)) = link s" "link (fst (renew_body h f l n s)) = link s"
  "link (fst (lock_lease s)) = link s"
  unfolding acquire_body_def renew_body_def lock_lease_def Let_def
  by (auto intro!: link_steps split: option.splits)

lemma lock_then_link [simp]:
  "(\<And>u. link (fst (body u)) = link u) \<Longrightarrow> link (fst (try_then (lock_lease s) (\<lambda>_. body))) = link s"
  by (rule link_steps) auto

lemma lock_then_done:
  assumes "try_then (lock_lease s) (\<lambda>_. body) = (t, Inr x)"
  obtains u where "st_db u = st_db s" "link u = link s" "body u = (t, Inr x)"
  using assms by (auto simp: lock_lease_def no_op_def elim!: try_thenE dest!: execute_done)

lemma acquire_body_done:
  assumes "acquire_body h l n s = (t, Inr k)"
  shows "row_of t = Some (h, k, n + l) \<and> k = next_fence (row_of s) h n \<and> lease_taken (row_of s) h n = None"
proof -
  from assms obtain u row args where u: "execute [] select_lease s = (u, Inr row)" "lease_taken row h n = None"
      "k = next_fence row h n" "execute args (upsert_lease h k (n + l)) u = (t, Inr ())"
    by (force simp: acquire_body_def persistence_def Let_def elim!: try_thenE split: option.splits)
  from lease_selected [OF u(1)] u(2,3) lease_written(1) [OF u(4)] show ?thesis by simp
qed

lemma renew_body_done:
  assumes "renew_body h f l n s = (t, Inr x)"
  shows "token_le (row_of s) (row_of t)"
proof -
  from assms obtain u row args where u: "execute [] select_lease s = (u, Inr row)"
      "execute args (update_expiry (\<lambda>_ _. True) (n + l)) u = (t, Inr ())"
    by (auto simp: renew_body_def persistence_def elim!: try_thenE split: if_splits)
  from lease_selected [OF u(1)] lease_written(2) [OF u(2)] show ?thesis
    by (cases "row_of s") (auto simp: lease_same_def)
qed

lemma update_expiry_tokens:
  "execute args (update_expiry cond n) s = (t, Inr x) \<Longrightarrow> token_le (row_of s) (row_of t)"
  by (cases "row_of s") (auto dest!: lease_written(2))

lemma lease_same_undone: "st_db t = st_db s \<Longrightarrow> link t = link s \<Longrightarrow> lease_same s t"
  by (simp add: lease_same_def)

lemma transaction_undone:
  assumes "\<And>u. link (fst (body u)) = link u" "isl (snd (transaction body s))"
  shows "lease_same s (fst (transaction body s))"
  by (rule lease_same_undone [OF transaction_error [OF assms(2)] transaction_link [OF assms(1)]])

lemma acquired_laws:
  assumes link: "\<And>u. link (fst (body u)) = link u"
    and finished: "\<And>u v k. body u = (v, Inr k) \<Longrightarrow>
      row_of v = Some (h, k, n + l) \<and> k = next_fence (row_of u) h n \<and> lease_taken (row_of u) h n = None"
    and run: "acquired h l (wrap_errors f (transaction body s)) = (t, r)"
  shows "case r of
      Inl e \<Rightarrow> lease_same s t
    | Inr k \<Rightarrow> row_of t = Some (h, k, n + l) \<and> st_lease_id t = Some h \<and> st_fence t = Some k \<and>
        k = next_fence (row_of s) h n \<and> lease_taken (row_of s) h n = None"
proof (cases "transaction body s")
  case (Pair u x)
  show ?thesis
  proof (cases x)
    case (Inl e)
    then have "t = u" "isl r" using run by (auto simp: Pair wrap_errors_def acquired_def)
    moreover have "lease_same s u" using transaction_undone [of body s] link by (simp add: Pair Inl)
    ultimately show ?thesis by (cases r) simp_all
  next
    case (Inr k)
    then have r: "r = Inr k" and t: "t = u\<lparr>st_lease_id := Some h, st_fence := Some k, st_lease_ms := Some l\<rparr>"
      using run by (auto simp: Pair wrap_errors_def acquired_def)
    from Pair Inr obtain a b where "st_db a = st_db s" "body a = (b, Inr k)" "st_db u = st_db b"
      by (auto elim: transaction_done)
    with finished [of a b k] show ?thesis by (simp add: r t)
  qed
qed

definition acquire_law :: "string \<Rightarrow> int \<Rightarrow> int \<Rightarrow> store \<Rightarrow> store \<times> int gw_result \<Rightarrow> bool" where
  "acquire_law h l n s r \<longleftrightarrow>
     (case snd r of
        Inl e \<Rightarrow> lease_same s (fst r)
      | Inr k \<Rightarrow> row_of (fst r) = Some (h, k, n + l) \<and> st_lease_id (fst r) = Some h \<and>
          st_fence (fst r) = Some k \<and> k = next_fence (row_of s) h n \<and> lease_taken (row_of s) h n = None)"

lemma acquire_laws:
  "acquire_law h l n s (sqlite_acquire_lease h l n s)" "acquire_law h l n s (pg_acquire_lease h l n s)"
proof -
  have run: "acquire_law h l n s (acquired h l (wrap_errors f (transaction body s)))"
    if "\<And>u. link (fst (body u)) = link u"
      "\<And>u v k. body u = (v, Inr k) \<Longrightarrow>
        row_of v = Some (h, k, n + l) \<and> k = next_fence (row_of u) h n \<and> lease_taken (row_of u) h n = None"
    for body f
    using acquired_laws [OF that, of f s "fst (acquired h l (wrap_errors f (transaction body s)))"
        "snd (acquired h l (wrap_errors f (transaction body s)))"]
    by (simp add: acquire_law_def)
  show "acquire_law h l n s (sqlite_acquire_lease h l n s)"
    unfolding sqlite_acquire_lease_def
    by (cases "h = [] \<or> l \<le> 0 \<or> n < 0") (simp add: acquire_law_def, simp only: if_False, rule run, simp, rule acquire_body_done)
  have lock: "row_of v = Some (h, k, n + l) \<and> k = next_fence (row_of u) h n \<and> lease_taken (row_of u) h n = None"
    if "try_then (lock_lease u) (\<lambda>_. acquire_body h l n) = (v, Inr k)" for u v k
    by (rule lock_then_done [OF that]) (drule acquire_body_done, simp)
  show "acquire_law h l n s (pg_acquire_lease h l n s)"
    unfolding pg_acquire_lease_def
    by (cases "h = [] \<or> l \<le> 0 \<or> n < 0") (simp add: acquire_law_def, simp only: if_False, rule run, simp, rule lock)
qed

lemma transaction_tokens:
  assumes "\<And>u. link (fst (body u)) = link u"
    and "\<And>u v x. body u = (v, Inr x) \<Longrightarrow> token_le (row_of u) (row_of v)"
  shows "link (fst (transaction body s)) = link s \<and> token_le (row_of s) (row_of (fst (transaction body s)))"
proof (cases "transaction body s")
  case (Pair t r)
  have "token_le (row_of s) (row_of t)"
  proof (cases r)
    case (Inl e)
    then show ?thesis using transaction_error [of body s] by (simp add: Pair)
  next
    case (Inr x)
    with Pair obtain u v where "st_db u = st_db s" "body u = (v, Inr x)" "st_db t = st_db v"
      by (auto elim: transaction_done)
    with assms(2) [of u v x] show ?thesis by simp
  qed
  with transaction_link [of body s] assms(1) show ?thesis by (simp add: Pair)
qed

lemma commit_after_tokens:
  assumes "\<And>u. link (fst (body u)) = link u"
    and "\<And>u v x. body u = (v, Inr x) \<Longrightarrow> token_le (row_of u) (row_of v)"
  shows "link (fst (commit_after body s)) = link s \<and> token_le (row_of s) (row_of (fst (commit_after body s)))"
proof (cases "commit_after body s")
  case (Pair t r)
  have "token_le (row_of s) (row_of t)"
  proof (cases r)
    case (Inl e)
    then show ?thesis using commit_after_error [of body s] by (simp add: Pair)
  next
    case (Inr x)
    with Pair obtain v where "body s = (v, Inr x)" "st_db t = st_db v"
      by (auto elim: commit_after_done)
    with assms(2) [of s v x] show ?thesis by simp
  qed
  with commit_after_link [of body s] assms(1) show ?thesis by (simp add: Pair)
qed

definition tokens_kept :: "store \<Rightarrow> store \<Rightarrow> bool" where
  "tokens_kept s t \<longleftrightarrow> link t = link s \<and> token_le (row_of s) (row_of t)"

lemma renew_laws: "tokens_kept s (fst (sqlite_renew_lease n s))" "tokens_kept s (fst (pg_renew_lease n s))"
proof -
  have run: "tokens_kept s (fst (transaction body s))"
    if "\<And>u. link (fst (body u)) = link u" "\<And>u v x. body u = (v, Inr x) \<Longrightarrow> token_le (row_of u) (row_of v)"
    for body :: "store \<Rightarrow> store \<times> int gw_result"
    using transaction_tokens [OF that] by (simp add: tokens_kept_def)
  have lock: "token_le (row_of u) (row_of v)"
    if "try_then (lock_lease u) (\<lambda>_. renew_body h f l n) = (v, Inr x)" for u v x h f l
    by (rule lock_then_done [OF that]) (drule renew_body_done, simp)
  have stay: "tokens_kept s s" by (simp add: tokens_kept_def)
  show "tokens_kept s (fst (sqlite_renew_lease n s))"
    by (auto simp: sqlite_renew_lease_def stay intro!: run split: option.split dest: renew_body_done)
  show "tokens_kept s (fst (pg_renew_lease n s))"
    by (auto simp: pg_renew_lease_def stay intro!: run split: option.split dest: lock)
qed

definition released_law :: "store \<Rightarrow> store \<Rightarrow> bool" where
  "released_law s t \<longleftrightarrow>
     token_le (row_of s) (row_of t) \<and> (link t = link s \<or> st_lease_id t = None \<and> st_fence t = None)"

lemma release_laws: "released_law s (fst (sqlite_release_lease n s))" "released_law s (fst (pg_release_lease n s))"
proof -
  have forget: "released_law s (fst (forget_lease (wrap_errors f r)))" if "token_le (row_of s) (row_of (fst r))"
    for f and r :: "store \<times> unit gw_result"
    using that wrap_fst [of f r] by (cases "wrap_errors f r") (auto simp: forget_lease_def released_law_def)
  have lock: "token_le (row_of u) (row_of v)"
    if "try_then (lock_lease u) (\<lambda>_. execute args (update_expiry cond n)) = (v, Inr x)" for u v x args cond
    by (rule lock_then_done [OF that]) (drule update_expiry_tokens, simp)
  have stay: "released_law s s" by (simp add: released_law_def)
  show "released_law s (fst (sqlite_release_lease n s))"
    by (auto simp: sqlite_release_lease_def stay intro!: forget commit_after_tokens [THEN conjunct2]
        split: option.split dest: update_expiry_tokens)
  show "released_law s (fst (pg_release_lease n s))"
    by (auto simp: pg_release_lease_def stay intro!: forget transaction_tokens [THEN conjunct2]
        split: option.split dest: lock)
qed

text \<open>A committed write passed its guard on the database it started from.\<close>

lemma guarded_commit:
  assumes "wrap_errors f (transaction body s) = (t, Inr x)" "st_lease_id s = Some h" "st_fence s = Some k"
    and "\<And>u v. body u = (v, Inr x) \<Longrightarrow> \<exists>w. fence_guard now u = (w, Inr ())"
  shows "\<exists>e n. row_of s = Some (h, k, e) \<and> now = Some n \<and> n < e"
proof -
  have "transaction body s = (t, Inr x)"
    using assms(1) by (cases "transaction body s"; cases "snd (transaction body s)") (auto simp: wrap_errors_def)
  then obtain u v where u: "st_db u = st_db s" "link u = link s" "body u = (v, Inr x)"
    by (auto elim: transaction_done)
  from assms(4) [OF u(3)] obtain w where w: "fence_guard now u = (w, Inr ())" by blast
  have "st_lease_id u = Some h" "st_fence u = Some k" using u(2) assms(2,3) by (simp_all add: link_def)
  then obtain e n where "row_of u = Some (h, k, e)" "now = Some n" "n < e"
    by (rule fence_guard_passed [OF w])
  with u(1) show ?thesis by simp
qed

lemma write_lease_same: "lease_same s (fst (sqlite_write q now s))" "lease_same s (fst (pg_write q now s))"
  by (cases q; simp add: without_result_def sqlite_append_frame_def sqlite_set_cursor_def sqlite_commit_outcome_def
      pg_append_frame_def pg_set_cursor_def pg_commit_outcome_def transaction_lease bodies_keep_lease)+

lemma write_fenced:
  assumes "st_lease_id s = Some h" "st_fence s = Some f"
  shows "sqlite_write q now s = (t, Inr ()) \<Longrightarrow> \<exists>e n. row_of s = Some (h, f, e) \<and> now = Some n \<and> n < e"
    and "pg_write q now s = (t, Inr ()) \<Longrightarrow> \<exists>e n. row_of s = Some (h, f, e) \<and> now = Some n \<and> n < e"
proof -
  have res: "\<exists>x. r = (t, Inr x)" if "without_result r = (t, Inr ())" for r :: "store \<times> bool gw_result"
    using that by (cases r) (auto simp: without_result_def)
  note g = guarded_commit [OF _ assms]
  show "\<exists>e n. row_of s = Some (h, f, e) \<and> now = Some n \<and> n < e" if w: "sqlite_write q now s = (t, Inr ())"
  proof (cases q)
    case (AppendReq m off payload evict cap state)
    with w show ?thesis by (simp only: sqlite_write.simps sqlite_append_frame_def) (erule g, erule bodies_guarded)
  next
    case (CursorReq k n)
    with w show ?thesis by (simp only: sqlite_write.simps sqlite_set_cursor_def) (erule g, erule bodies_guarded)
  next
    case (OutcomeReq k cap d)
    with w obtain x where "sqlite_commit_outcome k cap d now s = (t, Inr x)" by (auto dest: res)
    then show ?thesis unfolding sqlite_commit_outcome_def by (rule g) (erule bodies_guarded)
  qed
  show "\<exists>e n. row_of s = Some (h, f, e) \<and> now = Some n \<and> n < e" if w: "pg_write q now s = (t, Inr ())"
  proof (cases q)
    case (AppendReq m off payload evict cap state)
    with w show ?thesis by (simp only: pg_write.simps pg_append_frame_def) (erule g, erule bodies_guarded)
  next
    case (CursorReq k n)
    with w show ?thesis by (simp only: pg_write.simps pg_set_cursor_def) (erule g, erule bodies_guarded)
  next
    case (OutcomeReq k cap d)
    with w obtain x where "pg_commit_outcome k cap d now s = (t, Inr x)" by (auto dest: res)
    then show ?thesis unfolding pg_commit_outcome_def by (rule g) (erule bodies_guarded)
  qed
qed

interpretation sqlite_leases: leased_store sqlite_acquire_lease sqlite_renew_lease sqlite_release_lease sqlite_write
proof unfold_locales
  fix h l n s t and e :: gw_exn and k :: int
  note a = acquire_laws(1) [of h l n s]
  show "sqlite_acquire_lease h l n s = (t, Inl e) \<Longrightarrow> lease_same s t"
    using a by (simp add: acquire_law_def)
  show "sqlite_acquire_lease h l n s = (t, Inr k) \<Longrightarrow> row_of t = Some (h, k, n + l) \<and> st_lease_id t = Some h \<and>
      st_fence t = Some k \<and> k = next_fence (row_of s) h n \<and> lease_taken (row_of s) h n = None"
    using a by (simp add: acquire_law_def)
qed (use renew_laws(1) release_laws(1) write_lease_same(1) write_fenced(1) in
    \<open>(metis tokens_kept_def released_law_def fst_conv)+\<close>)

interpretation pg_leases: leased_store pg_acquire_lease pg_renew_lease pg_release_lease pg_write
proof unfold_locales
  fix h l n s t and e :: gw_exn and k :: int
  note a = acquire_laws(2) [of h l n s]
  show "pg_acquire_lease h l n s = (t, Inl e) \<Longrightarrow> lease_same s t"
    using a by (simp add: acquire_law_def)
  show "pg_acquire_lease h l n s = (t, Inr k) \<Longrightarrow> row_of t = Some (h, k, n + l) \<and> st_lease_id t = Some h \<and>
      st_fence t = Some k \<and> k = next_fence (row_of s) h n \<and> lease_taken (row_of s) h n = None"
    using a by (simp add: acquire_law_def)
qed (use renew_laws(2) release_laws(2) write_lease_same(2) write_fenced(2) in
    \<open>(metis tokens_kept_def released_law_def fst_conv)+\<close>)

section \<open>Several writers on one database\<close>

definition store_write :: "write_request \<Rightarrow> int option \<Rightarrow> store \<Rightarrow> store \<times> unit gw_result" where
  "store_write q now s =
     (case q of
        AppendReq m off payload evict cap state \<Rightarrow> store_append_frame m off payload evict cap state now s
      | CursorReq k n \<Rightarrow> store_set_cursor k n now s
      | OutcomeReq k cap d \<Rightarrow> without_result (store_commit_outcome k cap d now s))"

lemma store_write_cases: "store_write q now s =
    (case st_backend s of Sqlite _ \<Rightarrow> sqlite_write q now s | Postgres _ \<Rightarrow> pg_write q now s)"
  by (cases q; cases "st_backend s")
    (simp_all add: store_write_def store_append_frame_def store_set_cursor_def store_commit_outcome_def)

text \<open>The database, each writer's connection, and the commits so far: the token and the holder
  each leased writer had when it committed. A writer may restart, and then has no lease.\<close>

record fence_system =
  fs_db :: gateway_db
  fs_writer :: "nat \<Rightarrow> store"
  fs_commits :: "(int \<times> string) list"

definition store_at :: "fence_system \<Rightarrow> nat \<Rightarrow> store" where
  "store_at x w = fs_writer x w\<lparr>st_db := fs_db x\<rparr>"

definition put_store :: "nat \<Rightarrow> store \<Rightarrow> fence_system \<Rightarrow> fence_system" where
  "put_store w t x = x\<lparr>fs_db := st_db t, fs_writer := (fs_writer x)(w := t)\<rparr>"

definition log_commit :: "store \<Rightarrow> unit gw_result \<Rightarrow> fence_system \<Rightarrow> fence_system" where
  "log_commit s r x =
     (case (r, st_lease_id s, st_fence s) of
        (Inr _, Some h, Some f) \<Rightarrow> x\<lparr>fs_commits := fs_commits x @ [(f, h)]\<rparr>
      | _ \<Rightarrow> x)"

inductive fence_step :: "fence_system \<Rightarrow> fence_system \<Rightarrow> bool" where
  acquire: "store_acquire_lease h l n (store_at x w) = (t, r) \<Longrightarrow> fence_step x (put_store w t x)"
| renew: "store_renew_lease n (store_at x w) = (t, r) \<Longrightarrow> fence_step x (put_store w t x)"
| release: "store_release_lease n (store_at x w) = (t, u) \<Longrightarrow> fence_step x (put_store w t x)"
| commit: "store_write q now (store_at x w) = (t, u) \<Longrightarrow>
    fence_step x (log_commit (store_at x w) u (put_store w t x))"
| restart: "fence_step x (put_store w (fresh_store b path (fs_db x) faults texts) x)"

definition fence_start :: "fence_system \<Rightarrow> bool" where
  "fence_start x \<longleftrightarrow>
     fs_commits x = [] \<and> (\<forall>w. st_lease_id (fs_writer x w) = None \<and> st_fence (fs_writer x w) = None)"

definition commits_ok :: "(int \<times> string) list \<Rightarrow> bool" where
  "commits_ok cs \<longleftrightarrow> sorted_wrt (\<lambda>(f, h) (f', h'). f < f' \<or> f = f' \<and> h = h') cs"

definition fence_inv :: "fence_system \<Rightarrow> bool" where
  "fence_inv x \<longleftrightarrow>
     (\<forall>w. fence_ok (db_lease (fs_db x)) (fs_writer x w)) \<and>
     (\<forall>c\<in>set (fs_commits x). covered (db_lease (fs_db x)) (fst c) (snd c)) \<and> commits_ok (fs_commits x)"

lemma fence_ok_at [simp]: "fence_ok row (store_at x w) = fence_ok row (fs_writer x w)"
  by (simp add: fence_ok_def store_at_def)

lemma store_at_db [simp]: "st_db (store_at x w) = fs_db x"
  by (simp add: store_at_def)

lemma put_inv:
  assumes "fence_inv x" "fence_ok (row_of t) t" "token_le (db_lease (fs_db x)) (row_of t)"
  shows "fence_inv (put_store w t x)"
  using assms by (auto simp: fence_inv_def put_store_def intro: fence_ok_mono covered_mono)

text \<open>What each kind of call does to the tokens, whichever the backend.\<close>

lemma store_calls:
  assumes "fence_ok (row_of s) s"
  shows "store_acquire_lease h l n s = (t, r) \<Longrightarrow> fence_ok (row_of t) t \<and> token_le (row_of s) (row_of t)"
    and "store_renew_lease n s = (t, r) \<Longrightarrow> fence_ok (row_of t) t \<and> token_le (row_of s) (row_of t)"
    and "store_release_lease n s = (t, u) \<Longrightarrow> fence_ok (row_of t) t \<and> token_le (row_of s) (row_of t)"
    and "store_write q now s = (t, u) \<Longrightarrow> fence_ok (row_of t) t \<and> row_of t = row_of s"
  using assms
  by (cases "st_backend s"; simp add: store_acquire_lease_def store_renew_lease_def store_release_lease_def store_write_cases;
      blast intro: sqlite_leases.acquire_fence sqlite_leases.acquire_tokens pg_leases.acquire_fence pg_leases.acquire_tokens
        sqlite_leases.renew_fence pg_leases.renew_fence sqlite_leases.release_fence pg_leases.release_fence
        sqlite_leases.commit_fence pg_leases.commit_fence
        dest: sqlite_leases.renew_law pg_leases.renew_law sqlite_leases.release_law pg_leases.release_law
          sqlite_leases.commit_same [unfolded lease_same_def] pg_leases.commit_same [unfolded lease_same_def])+

lemma store_write_fenced:
  assumes "store_write q now s = (t, Inr ())" "st_lease_id s = Some h" "st_fence s = Some f"
  shows "\<exists>e. row_of s = Some (h, f, e)"
  using assms sqlite_leases.commit_fenced pg_leases.commit_fenced
  by (cases "st_backend s"; simp add: store_write_cases; metis)

lemma store_at_ok: "fence_inv x \<Longrightarrow> fence_ok (row_of (store_at x w)) (store_at x w)"
  by (simp add: fence_inv_def)

lemma fence_step_inv:
  assumes "fence_inv x" "fence_step x y"
  shows "fence_inv y"
  using assms(2)
proof cases
  case (commit q now w t u)
  let ?s = "store_at x w"
  from store_calls(4) [OF store_at_ok [OF assms(1)] commit(2)] have t: "fence_ok (row_of t) t" "row_of t = db_lease (fs_db x)"
    unfolding store_at_db by blast+
  then have put: "fence_inv (put_store w t x)" by (intro put_inv [OF assms(1)]) simp_all
  show ?thesis
  proof (cases "(\<exists>h f. st_lease_id ?s = Some h \<and> st_fence ?s = Some f) \<and> u = Inr ()")
    case True
    then obtain h f where hf: "st_lease_id ?s = Some h" "st_fence ?s = Some f" and u: "u = Inr ()" by blast
    from store_write_fenced [OF commit(2) [unfolded u] hf] obtain e where
      row: "db_lease (fs_db x) = Some (h, f, e)" by auto
    have "\<forall>c\<in>set (fs_commits x). fst c < f \<or> fst c = f \<and> snd c = h"
      using assms(1) row by (auto simp: fence_inv_def)
    moreover have "commits_ok (fs_commits x)" using assms(1) by (simp add: fence_inv_def)
    ultimately have "commits_ok (fs_commits x @ [(f, h)])"
      by (auto simp: commits_ok_def sorted_wrt_append)
    then show ?thesis
      using put hf u row t(2) commit(1)
      by (auto simp: fence_inv_def log_commit_def put_store_def)
  next
    case False
    then have "log_commit ?s u (put_store w t x) = put_store w t x"
      by (auto simp: log_commit_def split: sum.splits option.splits)
    with put commit(1) show ?thesis by simp
  qed
next
  case (restart w b path faults texts)
  have "fence_inv (put_store w (fresh_store b path (fs_db x) faults texts) x)"
    by (rule put_inv [OF assms(1)]) (simp_all add: fresh_store_def fence_ok_def)
  with restart show ?thesis by simp
next
  case (acquire h l n w t r)
  from store_calls(1) [OF store_at_ok [OF assms(1)] acquire(2)] acquire(1) show ?thesis
    by (auto intro: put_inv [OF assms(1)])
next
  case (renew n w t r)
  from store_calls(2) [OF store_at_ok [OF assms(1)] renew(2)] renew(1) show ?thesis
    by (auto intro: put_inv [OF assms(1)])
next
  case (release n w t u)
  from store_calls(3) [OF store_at_ok [OF assms(1)] release(2)] release(1) show ?thesis
    by (auto intro: put_inv [OF assms(1)])
qed

interpretation fenced_writers: inductive_invariant fence_start fence_step fence_inv
proof unfold_locales
  show "fence_inv x" if "fence_start x" for x
    using that by (simp add: fence_start_def fence_inv_def fence_ok_def commits_ok_def)
qed (rule fence_step_inv)

text \<open>C2: whatever writers acquire, renew, release, lose their lease, restart and commit, with
  whatever clocks and failures, on either backend: the commits of leased writers are in the order
  of their fence tokens, a token belongs to one holder, so no commit of a superseded writer comes
  after a commit of its successor.\<close>

theorem stale_writers_fenced:
  assumes "fence_start x" "fence_step\<^sup>*\<^sup>* x y" "i < j" "j < length (fs_commits y)"
  shows "fst (fs_commits y ! i) < fst (fs_commits y ! j) \<or> fs_commits y ! i = fs_commits y ! j"
proof -
  have "commits_ok (fs_commits y)" using fenced_writers.reachable_inv [OF assms(1,2)] by (simp add: fence_inv_def)
  with assms(3,4) show ?thesis
    by (auto simp: commits_ok_def sorted_wrt_iff_nth_less prod_eq_iff split: prod.splits)
qed

section \<open>Failures\<close>

definition undone :: "store \<Rightarrow> store \<times> 'a gw_result \<Rightarrow> bool" where
  "undone s r \<longleftrightarrow> (isl (snd r) \<longrightarrow> st_db (fst r) = st_db s)"

lemma blocks_undone:
  "undone s (wrap_errors f (transaction body s))" "undone s (wrap_errors f (commit_after body s))"
  using transaction_error [of body s] commit_after_error [of body s] by (simp_all add: undone_def)

lemma acquired_undone: "undone s r \<Longrightarrow> undone s (acquired h l r)"
  by (cases r; cases "snd r") (auto simp: undone_def acquired_def)

lemma forget_undone: "undone s r \<Longrightarrow> undone s (forget_lease r)"
  by (cases r) (auto simp: undone_def forget_lease_def)

lemma same_undone: "undone s (s, x)"
  by (simp add: undone_def)

lemma without_result_undone: "undone s r \<Longrightarrow> undone s (without_result r)"
  by (cases r; cases "snd r") (auto simp: undone_def without_result_def)

lemma calls_undone:
  "undone s (store_append_frame m off payload evict cap state now s)"
  "undone s (store_set_cursor k n now s)" "undone s (store_commit_outcome fk cap d now s)"
  "undone s (store_recover max_bytes max_frames cap s)"
  by (cases "st_backend s"; simp add: store_append_frame_def store_set_cursor_def store_commit_outcome_def
      store_recover_def sqlite_append_frame_def sqlite_set_cursor_def sqlite_commit_outcome_def
      sqlite_recover_def pg_append_frame_def pg_set_cursor_def pg_commit_outcome_def pg_recover_def blocks_undone)+

lemma lease_calls_undone:
  "undone s (store_acquire_lease h l t s)" "undone s (store_renew_lease t s)" "undone s (store_release_lease t s)"
  by (cases "st_backend s"; simp add: store_acquire_lease_def store_renew_lease_def store_release_lease_def
      sqlite_acquire_lease_def sqlite_renew_lease_def sqlite_release_lease_def pg_acquire_lease_def
      pg_renew_lease_def pg_release_lease_def blocks_undone acquired_undone forget_undone same_undone
      split: option.split)+


section \<open>Instances\<close>

definition sample_store :: "(nat \<Rightarrow> sql_fault option) \<Rightarrow> store" where
  "sample_store faults = fresh_store (Sqlite ''wal'') ''state.db'' empty_db faults (\<lambda>_. [])"

definition sample_system :: fence_system where
  "sample_system = \<lparr>fs_db = empty_db, fs_writer = (\<lambda>_. sample_store (\<lambda>_. None)), fs_commits = []\<rparr>"

definition do_acquire :: "string \<Rightarrow> int \<Rightarrow> nat \<Rightarrow> fence_system \<Rightarrow> fence_system" where
  "do_acquire h now w x = put_store w (fst (store_acquire_lease h 10 now (store_at x w))) x"

definition do_commit :: "int \<Rightarrow> int \<Rightarrow> nat \<Rightarrow> fence_system \<Rightarrow> fence_system" where
  "do_commit n now w x =
     (case store_write (CursorReq (0, ''/odom'', ''c'') n) (Some now) (store_at x w) of
        (t, r) \<Rightarrow> log_commit (store_at x w) r (put_store w t x))"

lemma sample_steps: "fence_step x (do_acquire h now w x)" "fence_step x (do_commit n now w x)"
proof -
  show "fence_step x (do_acquire h now w x)" unfolding do_acquire_def
    by (rule acquire [OF surjective_pairing])
  show "fence_step x (do_commit n now w x)" unfolding do_commit_def
    by (cases "store_write (CursorReq (0, ''/odom'', ''c'') n) (Some now) (store_at x w)") (auto intro: commit)
qed

text \<open>Writer a commits, its lease runs out, writer b takes over and commits, and the late commit of
  a is refused.\<close>

definition taken_over :: fence_system where
  "taken_over = do_commit 2 25 1 (do_acquire ''b'' 20 1 (do_commit 1 5 0 (do_acquire ''a'' 0 0 sample_system)))"

theorem stale_writers_fenced_witness:
  "fst (fs_commits taken_over ! 0) < fst (fs_commits taken_over ! 1) \<and>
   snd (store_write (CursorReq (0, ''/odom'', ''c'') 3) (Some 26) (store_at taken_over 0)) =
     Inl (FramePersistenceError ''durable writer fence rejected a stale or expired writer'')"
proof -
  have start: "fence_start sample_system"
    by (simp add: fence_start_def sample_system_def sample_store_def fresh_store_def)
  have "fence_step\<^sup>*\<^sup>* sample_system taken_over"
    unfolding taken_over_def by (meson sample_steps rtranclp.rtrancl_into_rtrancl rtranclp.rtrancl_refl)
  from stale_writers_fenced [OF start this, of 0 1]
  have "fst (fs_commits taken_over ! 0) < fst (fs_commits taken_over ! 1) \<or> fs_commits taken_over ! 0 = fs_commits taken_over ! 1"
    if "length (fs_commits taken_over) = 2" using that by simp
  moreover have "fs_commits taken_over = [(1, ''a''), (2, ''b'')]" by code_simp
  ultimately show ?thesis by simp code_simp
qed


end
