(* ===== verification/StoreEffects.thy ===== *)
theory StoreEffects
  imports StoreSafety
begin

text \<open>
  The effect of each call of a durable store on the tables: what a successful append, cursor and
  outcome commit write, that every other call leaves the tables, and the invariant of the tables
  (growing ordinals, unique keys, outcomes of known frames, bounded dedup keys per stream).
\<close>

section \<open>Calls that leave the tables\<close>

definition tables :: "gateway_db \<Rightarrow> frame_row list \<times> key_row list \<times> int \<times> key_row list \<times> int \<times> (obs_key \<times> int) list" where
  "tables db = (db_frames db, db_dedup db, db_dedup_seq db, db_outcomes db, db_outcome_seq db, db_cursors db)"

definition keeps_tables :: "'a statement \<Rightarrow> bool" where
  "keeps_tables stmt \<longleftrightarrow> (\<forall>db db' x. stmt db = Inr (db', x) \<longrightarrow> tables db' = tables db)"

lemma statements_keep_tables [simp]:
  "keeps_tables no_op" "keeps_tables select_frames" "keeps_tables (select_keys tbl)" "keeps_tables (known_key k)"
  "keeps_tables (stale_ordinals tbl st n)" "keeps_tables select_cursors" "keeps_tables (upsert_admission fp j)"
  "keeps_tables select_admission" "keeps_tables select_lease" "keeps_tables (upsert_lease h f e)"
  "keeps_tables (update_expiry c e)" "keeps_tables (count_rows rows)"
  by (auto simp: keeps_tables_def tables_def no_op_def select_frames_def select_keys_def known_key_def
      stale_ordinals_def select_cursors_def upsert_admission_def select_admission_def select_lease_def
      upsert_lease_def update_expiry_def count_rows_def)

abbreviation tables_of :: "store \<Rightarrow> frame_row list \<times> key_row list \<times> int \<times> key_row list \<times> int \<times> (obs_key \<times> int) list" where
  "tables_of s \<equiv> tables (st_db s)"

lemma execute_keeps_tables: "keeps_tables stmt \<Longrightarrow> tables_of (fst (execute args stmt s)) = tables_of s"
  by (auto simp: keeps_tables_def execute_def Let_def split: option.splits sum.splits prod.splits)

lemma tables_trans: "transp (\<lambda>s t. tables_of t = tables_of s)"
  by (auto intro: transpI)

lemmas table_steps = try_then_trans [OF tables_trans]

lemma commit_after_keeps:
  assumes "\<And>u. tables_of (fst (body u)) = tables_of u"
  shows "tables_of (fst (commit_after body s)) = tables_of s"
proof (cases "commit_after body s")
  case (Pair t r)
  show ?thesis
  proof (cases r)
    case (Inl e)
    then show ?thesis using commit_after_error [of body s] by (simp add: Pair)
  next
    case (Inr x)
    with Pair obtain u where "body s = (u, Inr x)" "st_db t = st_db u" by (auto elim: commit_after_done)
    with assms [of s] show ?thesis by (simp add: Pair)
  qed
qed

lemma transaction_keeps:
  assumes "\<And>u. tables_of (fst (body u)) = tables_of u"
  shows "tables_of (fst (transaction body s)) = tables_of s"
  unfolding transaction_def
  by (rule table_steps) (auto intro!: execute_keeps_tables commit_after_keeps assms)

lemma run_no_ops_keep: "tables_of (fst (run_steps (replicate n (execute [] no_op)) s)) = tables_of s"
  by (induction n arbitrary: s) (auto intro!: table_steps execute_keeps_tables)

lemma lease_bodies_keep:
  "tables_of (fst (acquire_body h l n s)) = tables_of s" "tables_of (fst (renew_body h f l n s)) = tables_of s"
  "tables_of (fst (lock_lease s)) = tables_of s" "tables_of (fst (store_counts s)) = tables_of s"
  unfolding acquire_body_def renew_body_def lock_lease_def store_counts_def Let_def
  by (auto intro!: table_steps execute_keeps_tables split: option.splits)

lemma acquired_keeps: "tables_of (fst (acquired h l r)) = tables_of (fst r)"
  by (cases r; cases "snd r") (auto simp: acquired_def)

lemma forget_keeps: "tables_of (fst (forget_lease r)) = tables_of (fst r)"
  by (cases r) (simp add: forget_lease_def)

lemma locked_keeps: "(\<And>u. tables_of (fst (body u)) = tables_of u) \<Longrightarrow>
    tables_of (fst (try_then (lock_lease s) (\<lambda>_. body))) = tables_of s"
  by (rule table_steps) (simp_all add: lease_bodies_keep)

lemma lease_calls_keep [simp]:
  "tables_of (fst (store_acquire_lease h l n s)) = tables_of s"
  "tables_of (fst (store_renew_lease n s)) = tables_of s"
  "tables_of (fst (store_release_lease n s)) = tables_of s"
  by (cases "st_backend s"; auto simp: store_acquire_lease_def store_renew_lease_def store_release_lease_def
      sqlite_acquire_lease_def sqlite_renew_lease_def sqlite_release_lease_def pg_acquire_lease_def
      pg_renew_lease_def pg_release_lease_def acquired_keeps forget_keeps
      intro!: transaction_keeps commit_after_keeps locked_keeps lease_bodies_keep execute_keeps_tables
      split: option.split)+

lemma snapshot_keeps [simp]: "tables_of (fst (store_snapshot s)) = tables_of s"
proof (cases "st_backend s")
  case (Sqlite j)
  then show ?thesis
    by (auto simp: store_snapshot_def sqlite_snapshot_def lease_bodies_keep
        intro!: table_steps execute_keeps_tables)
next
  case (Postgres sv)
  define r where "r = transaction (\<lambda>s1. try_then (store_counts s1) (\<lambda>counts s2.
             try_then (run_steps (replicate 3 (execute [] no_op)) s2) (\<lambda>_ s3. (s3, Inr counts)))) s"
  have "tables_of (fst r) = tables_of s"
    unfolding r_def
    by (rule transaction_keeps) (auto intro!: table_steps simp: lease_bodies_keep run_no_ops_keep)
  then show ?thesis
    unfolding store_snapshot_def Postgres backend.case pg_snapshot_def r_def [symmetric]
    by (cases r; cases "snd r") (auto split: option.split)
qed

section \<open>Committed writes\<close>

text \<open>The rows after an append: the new frame, less the evicted one, and the new key, less the
  stale ones and their outcomes.\<close>

definition append_rows :: "frame_metadata \<Rightarrow> int \<Rightarrow> string \<Rightarrow> int option \<Rightarrow> int \<Rightarrow> gateway_db \<Rightarrow> gateway_db" where
  "append_rows m offset payload evict capacity db =
     (let db1 = db\<lparr>db_frames := db_frames db @ [frame_row_of m offset payload],
                   db_dedup := db_dedup db @ [key_row_of (db_dedup_seq db + 1) (key_of_metadata m)],
                   db_dedup_seq := db_dedup_seq db + 1\<rparr>;
          db2 = (case evict of None \<Rightarrow> db1
                 | Some off \<Rightarrow> fst (projr (delete_frame (fm_domain_id m, fm_topic m, off) db1)));
          stale = snd (projr (stale_ordinals db_dedup (stream_key m) capacity db2))
      in fst (projr (delete_dedup (\<lambda>r. kr_ordinal r \<in> set stale) db2)))"

lemma selected_db: "execute args select_lease s = (t, r) \<Longrightarrow> st_db t = st_db s"
  by (auto simp: execute_def Let_def select_lease_def split: option.splits)

lemma verify_lease_db: "st_db (fst (verify_lease n s)) = st_db s"
  unfolding verify_lease_def
  by (cases "execute [] select_lease s"; cases "snd (execute [] select_lease s)")
    (auto dest: selected_db split: option.split)

lemma guard_step: "fence_guard now s = (t, Inr x) \<Longrightarrow> st_db t = st_db s"
  using verify_lease_db [of "the now" s] by (auto simp: fence_guard_def split: option.splits)

lemma save_admission_tables: "tables_of (fst (save_admission d s)) = tables_of s"
  by (auto simp: save_admission_def persistence_def execute_keeps_tables split: py_obj.split sum.split)

lemma drop_stale_dedup_done: "drop_stale_dedup stale s = (t, Inr x) \<Longrightarrow>
    st_db t = fst (projr (delete_dedup (\<lambda>r. kr_ordinal r \<in> set stale) (st_db s)))"
  by (auto simp: drop_stale_dedup_def delete_dedup_def dest!: execute_done split: if_splits)

lemma insert_frame_done: "execute args (insert_frame r) s = (t, Inr x) \<Longrightarrow>
    st_db t = (st_db s)\<lparr>db_frames := db_frames (st_db s) @ [r]\<rparr>"
  by (auto simp: insert_frame_def dest!: execute_done split: if_splits)

lemma insert_dedup_done: "execute args (insert_dedup k) s = (t, Inr x) \<Longrightarrow>
    st_db t = (st_db s)\<lparr>db_dedup := db_dedup (st_db s) @ [key_row_of (db_dedup_seq (st_db s) + 1) k],
                        db_dedup_seq := db_dedup_seq (st_db s) + 1\<rparr>"
  by (auto simp: insert_dedup_def dest!: execute_done split: if_splits)

lemma stale_ordinals_done: "execute args (stale_ordinals tbl st n) s = (t, Inr x) \<Longrightarrow>
    st_db t = st_db s \<and> x = snd (projr (stale_ordinals tbl st n (st_db s)))"
  by (auto simp: stale_ordinals_def dest!: execute_done)

lemma evict_done:
  "(case evict of None \<Rightarrow> (s, Inr ()) | Some off \<Rightarrow> execute [] (delete_frame (d, p, off)) s) = (t, Inr x) \<Longrightarrow>
    st_db t = (case evict of None \<Rightarrow> st_db s | Some off \<Rightarrow> fst (projr (delete_frame (d, p, off) (st_db s))))"
  by (auto simp: delete_frame_def dest!: execute_done split: option.splits)

text \<open>A transaction that returned ran its body from the same database and kept what it wrote; one
  that raised kept the database.\<close>

lemma committed:
  assumes "wrap_errors f (transaction body s) = (t, Inr x)"
  obtains u v where "st_db u = st_db s" "link u = link s" "body u = (v, Inr x)" "st_db t = st_db v"
proof -
  from assms have "transaction body s = (t, Inr x)"
    by (auto simp: wrap_errors_def split: prod.splits sum.splits)
  then show ?thesis by (rule transaction_done) (rule that)
qed

lemma refused:
  assumes "wrap_errors f (transaction body s) = (t, Inl e)"
  shows "st_db t = st_db s"
proof -
  from assms have "fst (transaction body s) = t" "isl (snd (transaction body s))"
    by (auto simp: wrap_errors_def split: prod.splits sum.splits)
  with transaction_error [of body s] show ?thesis by simp
qed

lemma saved_done:
  "(case state of None \<Rightarrow> (s, Inr ()) | Some d \<Rightarrow> save_admission d s) = (t, Inr x) \<Longrightarrow> tables_of t = tables_of s"
  using save_admission_tables [of "the state" s] by (cases state) auto

lemma append_body_done:
  assumes "append_body m off payload evict cap state now s = (t, Inr x)"
  shows "tables_of t = tables (append_rows m off payload evict cap (st_db s))"
proof -
  from assms obtain s1 s2 s3 s4 s5 s6 stale args args' where
      "fence_guard now s = (s1, Inr ())"
      "execute args (insert_frame (frame_row_of m off payload)) s1 = (s2, Inr ())"
      "execute args' (insert_dedup (key_of_metadata m)) s2 = (s3, Inr ())"
    and evict: "(case evict of None \<Rightarrow> (s3, Inr ())
             | Some off \<Rightarrow> execute [] (delete_frame (fm_domain_id m, fm_topic m, off)) s3) = (s4, Inr ())"
    and stale: "execute [] (stale_ordinals db_dedup (stream_key m) cap) s4 = (s5, Inr stale)"
    and drop: "drop_stale_dedup stale s5 = (s6, Inr ())"
    and save: "(case state of None \<Rightarrow> (s6, Inr ()) | Some d \<Rightarrow> save_admission d s6) = (t, Inr x)"
    unfolding append_body_def by (auto elim!: try_thenE)
  then have "st_db s3 = (st_db s)\<lparr>db_frames := db_frames (st_db s) @ [frame_row_of m off payload],
      db_dedup := db_dedup (st_db s) @ [key_row_of (db_dedup_seq (st_db s) + 1) (key_of_metadata m)],
      db_dedup_seq := db_dedup_seq (st_db s) + 1\<rparr>"
    by (simp add: guard_step insert_frame_done insert_dedup_done)
  note db4 = evict_done [OF evict, unfolded this]
  have "st_db s5 = st_db s4" "stale = snd (projr (stale_ordinals db_dedup (stream_key m) cap (st_db s4)))"
    using stale_ordinals_done [OF stale] by simp_all
  with drop_stale_dedup_done [OF drop] saved_done [OF save]
  have "tables_of t = tables (fst (projr (delete_dedup (\<lambda>r. kr_ordinal r \<in> set (snd (projr
      (stale_ordinals db_dedup (stream_key m) cap (st_db s4))))) (st_db s4))))"
    by (simp only:)
  then show ?thesis unfolding db4 append_rows_def Let_def .
qed

lemma append_rows_fields [simp]:
  "db_frames (append_rows m off payload evict cap db) =
     filter (\<lambda>r. case evict of None \<Rightarrow> True | Some k \<Rightarrow> frame_pk r \<noteq> (fm_domain_id m, fm_topic m, k))
       (db_frames db @ [frame_row_of m off payload])"
  "db_cursors (append_rows m off payload evict cap db) = db_cursors db"
  by (cases evict; simp add: append_rows_def Let_def delete_frame_def delete_dedup_def stale_ordinals_def)+

text \<open>The other two writes.\<close>

lemma cursor_body_done:
  assumes "cursor_body k n now s = (t, Inr x)"
  shows "st_db t = (st_db s)\<lparr>db_cursors := AList.update k n (db_cursors (st_db s))\<rparr>"
  using assms by (cases k) (auto simp: cursor_body_def upsert_cursor_def elim!: try_thenE
      dest!: guard_step execute_done)

definition outcome_rows :: "frame_key \<Rightarrow> int \<Rightarrow> gateway_db \<Rightarrow> gateway_db" where
  "outcome_rows k capacity db =
     (let db1 = db\<lparr>db_outcomes := db_outcomes db @ [key_row_of (db_outcome_seq db + 1) k],
                   db_outcome_seq := db_outcome_seq db + 1\<rparr>
      in fst (projr (delete_outcomes (snd (projr (stale_ordinals db_outcomes (fst k, fst (snd k)) capacity db1))) db1)))"

lemma outcome_rows_fields [simp]:
  "db_frames (outcome_rows k cap db) = db_frames db" "db_cursors (outcome_rows k cap db) = db_cursors db"
  by (simp_all add: outcome_rows_def Let_def delete_outcomes_def)

lemma insert_outcome_done: "execute args (insert_outcome k) s = (t, Inr new) \<Longrightarrow>
    st_db t = (if new then (st_db s)\<lparr>db_outcomes := db_outcomes (st_db s) @ [key_row_of (db_outcome_seq (st_db s) + 1) k],
                                    db_outcome_seq := db_outcome_seq (st_db s) + 1\<rparr> else st_db s) \<and>
    (new \<longrightarrow> k \<in> kr_key ` set (db_dedup (st_db s)))"
  by (drule execute_done) (auto simp: insert_outcome_def split: if_splits)

lemma known_key_done: "execute args (known_key k) s = (t, Inr b) \<Longrightarrow> st_db t = st_db s"
  by (auto simp: known_key_def dest!: execute_done)

lemma drop_stale_outcomes_done: "drop_stale_outcomes stale s = (t, Inr x) \<Longrightarrow>
    st_db t = fst (projr (delete_outcomes stale (st_db s)))"
  by (auto simp: drop_stale_outcomes_def delete_outcomes_def dest!: execute_done split: if_splits)

lemma outcome_body_done:
  assumes "outcome_body args k cap state now s = (t, Inr new)"
  shows "tables_of t = (if new then tables (outcome_rows k cap (st_db s)) else tables_of s) \<and>
    (new \<longrightarrow> k \<in> kr_key ` set (db_dedup (st_db s)))"
proof -
  from assms obtain s1 s2 s3 known inserted where guard: "fence_guard now s = (s1, Inr ())"
      and known: "execute args (known_key k) s1 = (s2, Inr known)"
      and ins: "execute (key_args k) (insert_outcome k) s2 = (s3, Inr inserted)"
      and rest: "(if \<not> inserted then (s3, Inr False) else
        try_then (execute [] (stale_ordinals db_outcomes (fst k, fst (snd k)) cap) s3) (\<lambda>stale s4.
        try_then (drop_stale_outcomes stale s4) (\<lambda>_ s5.
        try_then (save_admission state s5) (\<lambda>_ s6. (s6, Inr True))))) = (t, Inr new)"
    unfolding outcome_body_def by (auto simp: persistence_def elim!: try_thenE split: if_splits)
  have db2: "st_db s2 = st_db s" using guard_step [OF guard] known_key_done [OF known] by simp
  show ?thesis
  proof (cases inserted)
    case False
    with rest insert_outcome_done [OF ins] db2 show ?thesis by simp
  next
    case True
    with rest obtain stale s4 s5 where st: "execute [] (stale_ordinals db_outcomes (fst k, fst (snd k)) cap) s3 = (s4, Inr stale)"
      and drop: "drop_stale_outcomes stale s4 = (s5, Inr ())" and save: "save_admission state s5 = (t, Inr ())" and new
      by (auto elim!: try_thenE)
    have "tables_of t = tables_of s5" using save_admission_tables [of state s5] by (simp add: save)
    with True \<open>new\<close> insert_outcome_done [OF ins] db2 stale_ordinals_done [OF st] drop_stale_outcomes_done [OF drop]
    show ?thesis by (simp add: outcome_rows_def Let_def)
  qed
qed

section \<open>The invariant of the key tables\<close>

abbreviation kr_stream :: "key_row \<Rightarrow> int \<times> string" where
  "kr_stream r \<equiv> (kr_domain_id r, kr_topic r)"

definition keys_ok :: "int \<Rightarrow> gateway_db \<Rightarrow> bool" where
  "keys_ok cap db \<longleftrightarrow>
     sorted_wrt (<) (map kr_ordinal (db_dedup db)) \<and>
     (\<forall>r \<in> set (db_dedup db). kr_ordinal r \<le> db_dedup_seq db) \<and>
     (\<forall>st. length (filter (\<lambda>r. kr_stream r = st) (db_dedup db)) \<le> nat cap) \<and>
     kr_key ` set (db_outcomes db) \<subseteq> kr_key ` set (db_dedup db)"

lemma keys_ok_tables: "tables db' = tables db \<Longrightarrow> keys_ok cap db' = keys_ok cap db"
  by (simp add: tables_def keys_ok_def)

lemma keys_ok_empty [simp]: "keys_ok cap empty_db"
  by (simp add: keys_ok_def empty_db_def)

lemma kept_of_stale: "distinct ys \<Longrightarrow> filter (\<lambda>x. x \<notin> set (drop n ys)) ys = take n ys"
proof -
  assume d: "distinct ys"
  have "filter (\<lambda>x. x \<notin> set (drop n ys)) (take n ys @ drop n ys) = take n ys"
    unfolding filter_append using set_take_disj_set_drop_if_distinct [OF d order_refl, of n]
    by (subst filter_True; force)+
  then show ?thesis by simp
qed

lemma stale_bound:
  assumes "sorted_wrt (<) (xs :: int list)"
  shows "length (filter (\<lambda>x. x \<notin> set (drop n (rev (sort xs)))) xs) \<le> n"
proof -
  from assms have s: "sort xs = xs" and d: "distinct (rev xs)"
    by (auto simp: strict_sorted_iff sorted_sort_id)
  have "length (filter (\<lambda>x. x \<notin> set (drop n (rev xs))) (rev xs)) \<le> n"
    unfolding kept_of_stale [OF d] by simp
  then show ?thesis unfolding s by (simp add: rev_filter [symmetric])
qed

lemma length_filter_mono: "(\<And>x. x \<in> set xs \<Longrightarrow> P x \<Longrightarrow> Q x) \<Longrightarrow> length (filter P xs) \<le> length (filter Q xs)"
  by (induction xs) (auto intro: le_SucI)

text \<open>Deleting the stale rows of one stream brings it back to its capacity and keeps the rest.\<close>

lemma stale_deleted:
  fixes rows :: "key_row list" and st :: "int \<times> string" and n :: nat
  defines "gone \<equiv> set (drop n (rev (sort (map kr_ordinal (filter (\<lambda>r. kr_stream r = st) rows)))))"
  assumes "sorted_wrt (<) (map kr_ordinal rows)"
  shows "length (filter (\<lambda>r. kr_stream r = st) (filter (\<lambda>r. kr_ordinal r \<notin> gone) rows)) \<le> n"
proof -
  define xs where "xs = map kr_ordinal (filter (\<lambda>r. kr_stream r = st) rows)"
  have "sorted_wrt (<) xs" unfolding xs_def using assms(2) by (simp add: sorted_wrt_map sorted_wrt_filter)
  from stale_bound [OF this, of n] have "length (filter (\<lambda>x. x \<notin> gone) xs) \<le> n"
    by (simp add: gone_def xs_def)
  then show ?thesis by (simp add: xs_def filter_map comp_def conj_commute)
qed

lemma keys_ok_append:
  assumes "keys_ok cap db"
  shows "keys_ok cap (append_rows m off payload evict cap db)"
proof -
  define row where "row = key_row_of (db_dedup_seq db + 1) (key_of_metadata m)"
  define rows where "rows = db_dedup db @ [row]"
  define stale where "stale = drop (nat cap) (rev (sort (map kr_ordinal (filter (\<lambda>r. kr_stream r = stream_key m) rows))))"
  let ?new = "append_rows m off payload evict cap db"
  have row: "kr_stream row = stream_key m" "kr_ordinal row = db_dedup_seq db + 1"
    by (simp_all add: row_def key_row_of_def key_of_metadata_def stream_key_def)
  have new: "db_dedup ?new = filter (\<lambda>r. kr_ordinal r \<notin> set stale) rows" "db_dedup_seq ?new = db_dedup_seq db + 1"
      "db_outcomes ?new = filter (\<lambda>r. kr_key r \<notin> kr_key ` set (filter (\<lambda>r. kr_ordinal r \<in> set stale) rows)) (db_outcomes db)"
    unfolding rows_def row_def stale_def
    by (cases evict; simp add: append_rows_def Let_def delete_frame_def delete_dedup_def stale_ordinals_def
        del: filter_append filter.simps set_filter set_append drop_rev map_append)+
  have old: "sorted_wrt (<) (map kr_ordinal (db_dedup db))" "\<forall>r \<in> set (db_dedup db). kr_ordinal r \<le> db_dedup_seq db"
      "length (filter (\<lambda>r. kr_stream r = st) (db_dedup db)) \<le> nat cap"
      "kr_key ` set (db_outcomes db) \<subseteq> kr_key ` set (db_dedup db)" for st
    using assms unfolding keys_ok_def by blast+
  have sorted: "sorted_wrt (<) (map kr_ordinal rows)"
    using old(1,2) row by (force simp: rows_def sorted_wrt_append)
  show ?thesis
    unfolding keys_ok_def new
  proof (intro conjI allI)
    show "sorted_wrt (<) (map kr_ordinal (filter (\<lambda>r. kr_ordinal r \<notin> set stale) rows))"
      using sorted by (simp add: sorted_wrt_map sorted_wrt_filter)
    show "\<forall>r\<in>set (filter (\<lambda>r. kr_ordinal r \<notin> set stale) rows). kr_ordinal r \<le> db_dedup_seq db + 1"
      using old(2) row(2) by (auto simp: rows_def intro: order_trans)
    fix st
    show "length (filter (\<lambda>r. kr_stream r = st) (filter (\<lambda>r. kr_ordinal r \<notin> set stale) rows)) \<le> nat cap"
    proof (cases "st = stream_key m")
      case True
      then show ?thesis using stale_deleted [OF sorted, of st "nat cap"] by (simp add: stale_def)
    next
      case False
      have "length (filter (\<lambda>r. kr_stream r = st) (filter (\<lambda>r. kr_ordinal r \<notin> set stale) rows))
          \<le> length (filter (\<lambda>r. kr_stream r = st) rows)"
        unfolding filter_filter by (rule length_filter_mono) simp
      with False row(1) old(3) [of st] show ?thesis by (simp add: rows_def)
    qed
    show "kr_key ` set (filter (\<lambda>r. kr_key r \<notin> kr_key ` set (filter (\<lambda>r. kr_ordinal r \<in> set stale) rows)) (db_outcomes db))
        \<subseteq> kr_key ` set (filter (\<lambda>r. kr_ordinal r \<notin> set stale) rows)"
      using old(4) unfolding rows_def by force
  qed
qed

lemma keys_ok_outcome:
  assumes "keys_ok cap db" "k \<in> kr_key ` set (db_dedup db)"
  shows "keys_ok cap (outcome_rows k cap' db)"
proof -
  have "kr_key (key_row_of n k) = k" for n by (cases k) (simp add: key_row_of_def kr_key_def)
  with assms show ?thesis by (auto simp: keys_ok_def outcome_rows_def Let_def delete_outcomes_def)
qed

section \<open>The effect of a call\<close>

lemma append_frame_effect:
  "store_append_frame m off payload evict cap state now s = (t, Inl e) \<Longrightarrow> st_db t = st_db s"
  "store_append_frame m off payload evict cap state now s = (t, Inr ()) \<Longrightarrow>
     tables_of t = tables (append_rows m off payload evict cap (st_db s))"
  by (cases "st_backend s"; fastforce simp: store_append_frame_def sqlite_append_frame_def pg_append_frame_def
      elim!: refused committed dest!: append_body_done)+

lemma set_cursor_effect:
  "store_set_cursor k n now s = (t, Inl e) \<Longrightarrow> st_db t = st_db s"
  "store_set_cursor k n now s = (t, Inr ()) \<Longrightarrow>
     st_db t = (st_db s)\<lparr>db_cursors := AList.update k n (db_cursors (st_db s))\<rparr>"
  by (cases "st_backend s"; fastforce simp: store_set_cursor_def sqlite_set_cursor_def pg_set_cursor_def
      elim!: refused committed dest!: cursor_body_done)+

lemma commit_outcome_effect:
  "store_commit_outcome k cap d now s = (t, Inl e) \<Longrightarrow> st_db t = st_db s"
  "store_commit_outcome k cap d now s = (t, Inr new) \<Longrightarrow>
     tables_of t = (if new then tables (outcome_rows k cap (st_db s)) else tables_of s) \<and>
     (new \<longrightarrow> k \<in> kr_key ` set (db_dedup (st_db s)))"
  by (cases "st_backend s"; fastforce simp: store_commit_outcome_def sqlite_commit_outcome_def pg_commit_outcome_def
      elim!: refused committed dest!: outcome_body_done)+

end
