(* ===== verification/GatewayRecovery.thy ===== *)
theory GatewayRecovery
  imports StoreEffects
begin

text \<open>
  Recovery of the gateway's memory from the tables. A topic history that holds the last frames of
  its stream at consecutive offsets, and whose rows are the stream's rows of the frames table, is
  rebuilt exactly by \<open>recover_body\<close>: records, next offset and cursors. The dedup and outcome keys
  are rebuilt from their tables; nothing is trimmed when the tables respect the limits.
\<close>

declare split_paired_All [simp del]

section \<open>Topic histories\<close>

lemma history_of_with [simp]:
  "history_of (with_history k f ts) k' = (if k' = k then f (history_of ts k) else history_of ts k')"
  by (simp add: history_of_def with_history_def update_conv')

lemma history_of_Nil [simp]: "history_of [] k = new_history"
  by (simp add: history_of_def)

lemma distinct_with_history [simp]: "distinct (map fst ts) \<Longrightarrow> distinct (map fst (with_history k f ts))"
  by (simp add: with_history_def distinct_update)

lemma history_of_mem: "distinct (map fst ts) \<Longrightarrow> (k, h) \<in> set ts \<Longrightarrow> history_of ts k = h"
  by (simp add: history_of_def)

definition frame_stream :: "frame_row \<Rightarrow> int \<times> string" where
  "frame_stream r = (fr_domain_id r, fr_topic r)"

definition row_of_record :: "stored_frame \<Rightarrow> frame_row" where
  "row_of_record x = frame_row_of (sf_metadata x) (sf_offset x) (sf_payload x)"

definition record_ok :: "int \<Rightarrow> int \<times> string \<Rightarrow> stored_frame \<Rightarrow> bool" where
  "record_ok max_bytes k x \<longleftrightarrow>
     parse_data_frame (sf_payload x) max_bytes = Inr (sf_metadata x) \<and> stream_key (sf_metadata x) = k"

text \<open>The last frames of a stream, at most \<open>max_frames\<close> of them, at consecutive offsets.\<close>

definition history_ok :: "int \<Rightarrow> int \<Rightarrow> int \<times> string \<Rightarrow> topic_history \<Rightarrow> bool" where
  "history_ok max_bytes max_frames k h \<longleftrightarrow>
     list_all (record_ok max_bytes k) (th_records h) \<and>
     map sf_offset (th_records h) = [th_next_offset h - py_len (th_records h)..th_next_offset h - 1] \<and>
     py_len (th_records h) = min (th_next_offset h) max_frames"

text \<open>Memory and tables agree.\<close>

definition rows_match :: "topics \<Rightarrow> frame_row list \<Rightarrow> bool" where
  "rows_match ts rows \<longleftrightarrow>
     (\<forall>k. filter (\<lambda>r. frame_stream r = k) rows = map row_of_record (th_records (history_of ts k)))"

definition histories_ok :: "int \<Rightarrow> int \<Rightarrow> topics \<Rightarrow> bool" where
  "histories_ok max_bytes max_frames ts \<longleftrightarrow>
     distinct (map fst ts) \<and> (\<forall>k. history_ok max_bytes max_frames k (history_of ts k))"

definition same_frames :: "topics \<Rightarrow> topics \<Rightarrow> bool" where
  "same_frames ts us \<longleftrightarrow>
     (\<forall>k. th_records (history_of us k) = th_records (history_of ts k) \<and>
          th_next_offset (history_of us k) = th_next_offset (history_of ts k))"

lemma new_history_ok [simp]: "0 < n \<Longrightarrow> history_ok b n k new_history"
  by (simp add: history_ok_def new_history_def)

section \<open>Reading the frames\<close>

definition record_of_row :: "int \<Rightarrow> frame_row \<Rightarrow> stored_frame" where
  "record_of_row max_bytes r =
     \<lparr>sf_offset = fr_offset r, sf_payload = fr_payload r,
      sf_metadata = projr (parse_data_frame (fr_payload r) max_bytes)\<rparr>"

definition readable :: "int \<Rightarrow> frame_row \<Rightarrow> bool" where
  "readable max_bytes r \<longleftrightarrow>
     (\<exists>m. parse_data_frame (fr_payload r) max_bytes = Inr m \<and> row_matches m r)"

definition next_after :: "int \<Rightarrow> frame_row list \<Rightarrow> int" where
  "next_after n rows = foldl (\<lambda>n r. max n (fr_offset r + 1)) n rows"

lemma recover_frames_done:
  assumes "list_all (readable b) rows"
  obtains us where "recover_frames b msg rows ts = Inr us"
    and "distinct (map fst ts) \<Longrightarrow> distinct (map fst us)"
    and "\<And>k. history_of us k =
      (let mine = filter (\<lambda>r. frame_stream r = k) rows; h = history_of ts k
       in h\<lparr>th_records := th_records h @ map (record_of_row b) mine,
            th_next_offset := next_after (th_next_offset h) mine\<rparr>)"
  using assms
proof (induction rows arbitrary: ts thesis)
  case Nil
  then show ?case by (simp add: next_after_def)
next
  case (Cons r rows)
  from Cons.prems(2) obtain m where m: "parse_data_frame (fr_payload r) b = Inr m" "row_matches m r"
    by (auto simp: readable_def)
  let ?k = "(fr_domain_id r, fr_topic r)"
  define vs where "vs = with_history ?k (\<lambda>h. h\<lparr>th_records := th_records h @
        [\<lparr>sf_offset = fr_offset r, sf_payload = fr_payload r, sf_metadata = m\<rparr>],
      th_next_offset := max (th_next_offset h) (fr_offset r + 1)\<rparr>) ts"
  from Cons.prems(2) have "list_all (readable b) rows" by simp
  then obtain us where us: "recover_frames b msg rows vs = Inr us"
      "distinct (map fst vs) \<Longrightarrow> distinct (map fst us)"
      "\<And>k. history_of us k = (let mine = filter (\<lambda>r. frame_stream r = k) rows; h = history_of vs k
         in h\<lparr>th_records := th_records h @ map (record_of_row b) mine,
              th_next_offset := next_after (th_next_offset h) mine\<rparr>)"
    by (rule Cons.IH [rotated]) blast
  show ?case
  proof (rule Cons.prems(1))
    show "recover_frames b msg (r # rows) ts = Inr us" using us(1) m by (simp add: vs_def)
    show "distinct (map fst us)" if "distinct (map fst ts)" using us(2) that by (simp add: vs_def)
    show "history_of us k = (let mine = filter (\<lambda>r. frame_stream r = k) (r # rows); h = history_of ts k
       in h\<lparr>th_records := th_records h @ map (record_of_row b) mine,
            th_next_offset := next_after (th_next_offset h) mine\<rparr>)" for k
      using us(3) [of k] m
      by (auto simp: vs_def Let_def frame_stream_def record_of_row_def next_after_def)
  qed
qed

lemma record_of_row_of: "record_ok b k x \<Longrightarrow> record_of_row b (row_of_record x) = x"
  by (simp add: record_ok_def record_of_row_def row_of_record_def frame_row_of_def)

lemma frame_stream_of: "record_ok b k x \<Longrightarrow> frame_stream (row_of_record x) = k"
  by (simp add: record_ok_def frame_stream_def row_of_record_def frame_row_of_def stream_key_def)

lemma offsets_of_ok:
  assumes "history_ok b n k h" "x \<in> set (th_records h)"
  shows "0 \<le> sf_offset x" "sf_offset x < th_next_offset h"
proof -
  from assms(2) have "sf_offset x \<in> set (map sf_offset (th_records h))" by simp
  with assms(1) show "0 \<le> sf_offset x" "sf_offset x < th_next_offset h" by (auto simp: history_ok_def)
qed

lemma history_records_ok: "history_ok b n k h \<Longrightarrow> \<forall>x \<in> set (th_records h). record_ok b k x"
  by (simp add: history_ok_def list_all_iff)

lemma sorted_rows:
  assumes "history_ok b n k h"
  shows "sort_key frame_pk (map row_of_record (th_records h)) = map row_of_record (th_records h)"
proof (rule sort_key_id_if_sorted)
  have pk: "map frame_pk (map row_of_record (th_records h)) = map (\<lambda>i. (fst k, snd k, i)) (map sf_offset (th_records h))"
    using history_records_ok [OF assms] by (auto simp: record_ok_def frame_pk_def row_of_record_def
        frame_row_of_def stream_key_def)
  have "sorted (map (\<lambda>i. (fst k, snd k, i)) [a..c])" for a c :: int
    by (simp add: sorted_map sorted_wrt_mono_rel [OF _ sorted_upto])
  then show "sorted (map frame_pk (map row_of_record (th_records h)))"
    unfolding pk using assms by (simp add: history_ok_def)
qed

lemma next_after_upto: "next_after a (map row_of_record xs) = (if xs = [] then a else max a (c + 1))"
  if "map sf_offset xs = [b..c]" for b c
  using that
proof (induction xs arbitrary: a b)
  case Nil
  then show ?case by (simp add: next_after_def)
next
  case (Cons x xs)
  from Cons.prems have "b \<le> c" by (metis list.simps(3) map_is_Nil_conv upto_Nil2 not_le)
  with Cons.prems have "sf_offset x = b" "map sf_offset xs = [b + 1..c]" by (auto simp: upto_rec1)
  with Cons.IH [of "b + 1" "max a (b + 1)"] \<open>b \<le> c\<close> show ?case
    by (cases xs) (auto simp: next_after_def row_of_record_def frame_row_of_def)
qed

lemma next_after_ok:
  assumes "history_ok b n k h" "0 < n"
  shows "next_after 0 (map row_of_record (th_records h)) = th_next_offset h"
proof (cases "th_records h")
  case Nil
  with assms show ?thesis by (auto simp: history_ok_def next_after_def min_def split: if_splits)
next
  case (Cons x xs)
  then have "0 < py_len (th_records h)" by (simp add: py_len_def)
  with assms have "0 \<le> th_next_offset h" by (auto simp: history_ok_def min_def split: if_splits)
  moreover from assms(1) have "map sf_offset (th_records h) =
      [th_next_offset h - py_len (th_records h)..th_next_offset h - 1]" by (simp add: history_ok_def)
  ultimately show ?thesis using Cons next_after_upto [of "th_records h" _ _ 0] by simp
qed

lemma rows_readable:
  assumes "histories_ok b n ts" "rows_match ts rows"
  shows "list_all (readable b) rows"
proof (rule list.pred_set [THEN fun_cong, THEN iffD2], rule ballI)
  fix r assume "r \<in> set rows"
  define k where "k = frame_stream r"
  from \<open>r \<in> set rows\<close> have "r \<in> set (filter (\<lambda>r. frame_stream r = k) rows)" by (simp add: k_def)
  also have "filter (\<lambda>r. frame_stream r = k) rows = map row_of_record (th_records (history_of ts k))"
    using assms(2) unfolding rows_match_def by blast
  finally obtain x where x: "x \<in> set (th_records (history_of ts k))" "r = row_of_record x" by auto
  have h: "history_ok b n k (history_of ts k)" using assms(1) by (simp add: histories_ok_def)
  with x(1) have "record_ok b k x" by (simp add: history_ok_def list_all_iff)
  moreover have "0 \<le> sf_offset x" by (rule offsets_of_ok(1) [OF h x(1)])
  ultimately show "readable b r"
    by (auto simp: x(2) readable_def record_ok_def row_matches_def row_of_record_def frame_row_of_def stream_key_def)
qed

lemma frames_recovered:
  assumes "histories_ok b n ts" "rows_match ts rows" "0 < n"
  obtains us where "recover_frames b msg (sort_key frame_pk rows) [] = Inr us" "distinct (map fst us)"
    "same_frames ts us" "\<And>k. th_recent_keys (history_of us k) = []" "\<And>k. th_outcome_keys (history_of us k) = []"
proof -
  have "list_all (readable b) (sort_key frame_pk rows)"
    using rows_readable [OF assms(1,2)] by (simp add: list.pred_set)
  then obtain us where us: "recover_frames b msg (sort_key frame_pk rows) [] = Inr us" "distinct (map fst us)"
      "\<And>k. history_of us k = (let mine = filter (\<lambda>r. frame_stream r = k) (sort_key frame_pk rows); h = new_history
       in h\<lparr>th_records := th_records h @ map (record_of_row b) mine,
            th_next_offset := next_after (th_next_offset h) mine\<rparr>)"
    by (rule recover_frames_done [where ts = "[]" and msg = msg]) auto
  have mine: "filter (\<lambda>r. frame_stream r = k) (sort_key frame_pk rows) = map row_of_record (th_records (history_of ts k))" for k
    using assms sorted_rows [of b n k "history_of ts k"]
    by (simp add: rows_match_def histories_ok_def filter_sort)
  have recs: "map (record_of_row b) (map row_of_record (th_records (history_of ts k))) = th_records (history_of ts k)" for k
    using assms(1) record_of_row_of [of b k] history_records_ok [of b n k "history_of ts k"]
    by (auto simp: histories_ok_def intro!: map_idI)
  have next_ok: "next_after 0 (map row_of_record (th_records (history_of ts k))) = th_next_offset (history_of ts k)" for k
    using assms next_after_ok [of b n k "history_of ts k"] by (simp add: histories_ok_def)
  have "same_frames ts us"
    by (simp only: same_frames_def us(3) mine Let_def new_history_def recs next_ok topic_history.simps append_Nil simp_thms)
  then show ?thesis
    by (rule that [OF us(1,2)]) (simp_all add: us(3) Let_def new_history_def)
qed

section \<open>Reading the keys\<close>

abbreviation row_key :: "key_row \<Rightarrow> string \<times> int" where
  "row_key r \<equiv> (kr_publisher_id r, kr_sequence r)"

lemma key_add_length: "length (key_add k ks) \<le> Suc (length ks)"
  by (simp add: key_add_def)

lemma set_key_add [simp]: "set (key_add k ks) = insert k (set ks)"
  by (auto simp: key_add_def)

lemma key_added:
  "th_records (history_of (add_recent_key ts r) k) = th_records (history_of ts k)"
  "th_next_offset (history_of (add_recent_key ts r) k) = th_next_offset (history_of ts k)"
  "th_outcome_keys (history_of (add_recent_key ts r) k) = th_outcome_keys (history_of ts k)"
  "set (th_recent_keys (history_of (add_recent_key ts r) k)) =
     set (th_recent_keys (history_of ts k)) \<union> (if kr_stream r = k then {row_key r} else {})"
  "length (th_recent_keys (history_of (add_recent_key ts r) k)) \<le>
     length (th_recent_keys (history_of ts k)) + (if kr_stream r = k then 1 else 0)"
  "distinct (map fst ts) \<Longrightarrow> distinct (map fst (add_recent_key ts r))"
  using key_add_length [of "row_key r" "th_recent_keys (history_of ts k)"]
  by (auto simp: add_recent_key_def)

lemmas [simp] = key_added(1-4,6)

lemma recent_keys_added:
  "th_records (history_of (foldl add_recent_key ts rows) k) = th_records (history_of ts k)"
  "th_next_offset (history_of (foldl add_recent_key ts rows) k) = th_next_offset (history_of ts k)"
  "th_outcome_keys (history_of (foldl add_recent_key ts rows) k) = th_outcome_keys (history_of ts k)"
  "set (th_recent_keys (history_of (foldl add_recent_key ts rows) k)) =
     set (th_recent_keys (history_of ts k)) \<union> row_key ` set (filter (\<lambda>r. kr_stream r = k) rows)"
  "length (th_recent_keys (history_of (foldl add_recent_key ts rows) k)) \<le>
     length (th_recent_keys (history_of ts k)) + length (filter (\<lambda>r. kr_stream r = k) rows)"
  "distinct (map fst ts) \<Longrightarrow> distinct (map fst (foldl add_recent_key ts rows))"
proof (induction rows arbitrary: ts)
  case Nil
  { case 1 show ?case by simp } { case 2 show ?case by simp } { case 3 show ?case by simp }
  { case 4 show ?case by simp } { case 5 show ?case by simp } { case 6 then show ?case by simp }
next
  case (Cons r rows)
  { case 1 show ?case using Cons.IH(1) [of "add_recent_key ts r"] by simp }
  { case 2 show ?case using Cons.IH(2) [of "add_recent_key ts r"] by simp }
  { case 3 show ?case using Cons.IH(3) [of "add_recent_key ts r"] by simp }
  { case 4 show ?case using Cons.IH(4) [of "add_recent_key ts r"] by auto }
  { case 5 show ?case using Cons.IH(5) [of "add_recent_key ts r"] key_added(5) [of ts r k] by auto }
  { case 6 then show ?case using Cons.IH(6) [of "add_recent_key ts r"] by simp }
qed

lemma trim_within:
  "py_len xs \<le> limit \<Longrightarrow> trim_records limit st xs s = (s, Inr xs)"
  "py_len ks \<le> limit \<Longrightarrow> trim_keys limit st ks s = (s, Inr ks)"
  by (cases xs; simp) (cases ks; simp)

lemma trim_topics_within:
  assumes "\<forall>(k, h) \<in> set ts. py_len (th_records h) \<le> n \<and> py_len (th_recent_keys h) \<le> cap"
  shows "trim_topics n cap ts s = (s, Inr ts)"
  using assms by (induction ts) (auto simp: trim_within)

lemma outcomes_recovered:
  assumes "\<forall>r \<in> set rows. row_key r \<in> set (th_recent_keys (history_of ts (kr_stream r)))"
  obtains us where "recover_outcomes msg rows ts = Inr us" "same_frames ts us"
    "\<And>k. th_recent_keys (history_of us k) = th_recent_keys (history_of ts k)"
    "distinct (map fst ts) \<Longrightarrow> distinct (map fst us)"
  using assms
proof (induction rows arbitrary: ts thesis)
  case Nil
  then show ?case by (simp add: same_frames_def)
next
  case (Cons r rows)
  define vs where "vs = with_history (kr_stream r)
      (\<lambda>h. h\<lparr>th_outcome_keys := key_add (row_key r) (th_outcome_keys h)\<rparr>) ts"
  have keep: "th_recent_keys (history_of vs k) = th_recent_keys (history_of ts k)"
      "th_records (history_of vs k) = th_records (history_of ts k)"
      "th_next_offset (history_of vs k) = th_next_offset (history_of ts k)" for k
    by (simp_all add: vs_def)
  with Cons.prems(2) have "\<forall>r \<in> set rows. row_key r \<in> set (th_recent_keys (history_of vs (kr_stream r)))" by simp
  then obtain us where us: "recover_outcomes msg rows vs = Inr us" "same_frames vs us"
      "\<And>k. th_recent_keys (history_of us k) = th_recent_keys (history_of vs k)"
      "distinct (map fst vs) \<Longrightarrow> distinct (map fst us)"
    by (rule Cons.IH [rotated]) blast
  show ?case
  proof (rule Cons.prems(1))
    show "recover_outcomes msg (r # rows) ts = Inr us"
      using us(1) Cons.prems(2) by (simp add: vs_def Let_def)
    show "same_frames ts us" using us(2) by (simp add: same_frames_def keep)
    show "th_recent_keys (history_of us k) = th_recent_keys (history_of ts k)" for k by (simp add: us(3) keep)
    show "distinct (map fst ts) \<Longrightarrow> distinct (map fst us)" using us(4) by (simp add: vs_def)
  qed
qed

section \<open>Recovery\<close>

text \<open>A step that reads: it keeps the database, and raises only if some statement may fail.\<close>

definition reads :: "store \<Rightarrow> ('a \<Rightarrow> bool) \<Rightarrow> store \<times> 'a gw_result \<Rightarrow> bool" where
  "reads s P r \<longleftrightarrow>
     st_db (fst r) = st_db s \<and> st_fault (fst r) = st_fault s \<and>
     (case snd r of Inl _ \<Rightarrow> st_fault s \<noteq> (\<lambda>_. None) | Inr x \<Rightarrow> P x)"

lemma reads_execute:
  assumes "stmt (st_db s) = Inr (st_db s, x)"
  shows "reads s (\<lambda>y. y = x) (execute [] stmt s)"
  using assms by (auto simp: reads_def execute_def Let_def split: option.splits)

lemma reads_value: "P x \<Longrightarrow> reads s P (s, Inr x)"
  by (simp add: reads_def)

lemma reads_then:
  assumes "reads s P r"
    and "\<And>x t. P x \<Longrightarrow> st_db t = st_db s \<Longrightarrow> st_fault t = st_fault s \<Longrightarrow> reads t Q (f x t)"
  shows "reads s Q (try_then r f)"
proof (cases r)
  case (Pair t y)
  show ?thesis
  proof (cases y)
    case (Inl e)
    with Pair assms(1) show ?thesis by (simp add: reads_def)
  next
    case (Inr x)
    with Pair assms(1) have "P x" "st_db t = st_db s" "st_fault t = st_fault s" by (simp_all add: reads_def)
    with assms(2) [of x t] show ?thesis by (auto simp: Pair Inr reads_def split: sum.split)
  qed
qed

text \<open>What recovery gives back of a memory that agrees with the tables.\<close>

definition agrees :: "int \<Rightarrow> int \<Rightarrow> int \<Rightarrow> topics \<Rightarrow> gateway_db \<Rightarrow> bool" where
  "agrees b n cap ts db \<longleftrightarrow>
     histories_ok b n ts \<and> rows_match ts (db_frames db) \<and> keys_ok cap db \<and>
     (\<forall>c \<in> set (db_cursors db). 0 \<le> snd c)"

lemma topics_recovered:
  assumes "agrees b n cap ts db" "0 < n" "0 \<le> cap"
  obtains us where "recover_frames b fm (sort_key frame_pk (db_frames db)) [] = Inr us"
    "\<And>s. trim_topics n cap (foldl add_recent_key us (sort_key kr_ordinal (db_dedup db))) s =
       (s, Inr (foldl add_recent_key us (sort_key kr_ordinal (db_dedup db))))"
    "\<exists>vs. recover_outcomes om (sort_key kr_ordinal (db_outcomes db))
            (foldl add_recent_key us (sort_key kr_ordinal (db_dedup db))) = Inr vs \<and>
          same_frames ts vs \<and> distinct (map fst vs)"
proof -
  from assms have inv: "histories_ok b n ts" "rows_match ts (db_frames db)" "keys_ok cap db"
    by (simp_all add: agrees_def)
  from inv(1,2) assms(2) obtain us where us: "recover_frames b fm (sort_key frame_pk (db_frames db)) [] = Inr us"
      "distinct (map fst us)" "same_frames ts us" "\<And>k. th_recent_keys (history_of us k) = []"
    by (rule frames_recovered) blast
  define vs where "vs = foldl add_recent_key us (sort_key kr_ordinal (db_dedup db))"
  have frames: "same_frames ts vs"
    using us(3) by (simp add: same_frames_def vs_def recent_keys_added)
  have dist: "distinct (map fst vs)" using us(2) by (simp add: vs_def recent_keys_added)
  have recent: "set (th_recent_keys (history_of vs k)) = row_key ` {r \<in> set (db_dedup db). kr_stream r = k}" for k
    by (simp add: vs_def recent_keys_added us(4))
  have "length (th_recent_keys (history_of vs k)) \<le> nat cap" for k
  proof -
    have "length (th_recent_keys (history_of vs k)) \<le> length (filter (\<lambda>r. kr_stream r = k) (sort_key kr_ordinal (db_dedup db)))"
      using recent_keys_added(5) [of us "sort_key kr_ordinal (db_dedup db)" k] us(4) by (simp add: vs_def)
    also have "\<dots> = length (filter (\<lambda>r. kr_stream r = k) (db_dedup db))"
      by (simp only: filter_sort length_sort)
    also have "\<dots> \<le> nat cap" using inv(3) unfolding keys_ok_def by blast
    finally show ?thesis .
  qed
  moreover have "py_len (th_records (history_of vs k)) \<le> n" for k
  proof -
    have "history_ok b n k (history_of ts k)" "th_records (history_of vs k) = th_records (history_of ts k)"
      using frames inv(1) unfolding same_frames_def histories_ok_def by blast+
    then show ?thesis by (simp add: history_ok_def)
  qed
  ultimately have within_limits: "py_len (th_records (history_of vs k)) \<le> n \<and> py_len (th_recent_keys (history_of vs k)) \<le> cap" for k
    using assms(3) by (simp add: py_len_def le_nat_iff)
  have "\<forall>(k, h) \<in> set vs. py_len (th_records h) \<le> n \<and> py_len (th_recent_keys h) \<le> cap"
  proof (rule ballI, simp only: split_beta)
    fix e assume "e \<in> set vs"
    then have "history_of vs (fst e) = snd e" using history_of_mem [OF dist, of "fst e" "snd e"] by simp
    with within_limits [of "fst e"] show "py_len (th_records (snd e)) \<le> n \<and> py_len (th_recent_keys (snd e)) \<le> cap" by simp
  qed
  then have trim: "trim_topics n cap vs s = (s, Inr vs)" for s by (rule trim_topics_within)
  have "row_key r \<in> set (th_recent_keys (history_of vs (kr_stream r)))" if "r \<in> set (db_outcomes db)" for r
  proof -
    from that inv(3) have "kr_key r \<in> kr_key ` set (db_dedup db)" by (auto simp: keys_ok_def)
    then obtain q where "q \<in> set (db_dedup db)" "kr_key r = kr_key q" by (rule imageE) simp
    then have "q \<in> {q \<in> set (db_dedup db). kr_stream q = kr_stream r}" "row_key r = row_key q"
      by (simp_all add: kr_key_def)
    then show ?thesis unfolding recent by (rule image_eqI [rotated])
  qed
  then have "\<forall>r \<in> set (sort_key kr_ordinal (db_outcomes db)). row_key r \<in> set (th_recent_keys (history_of vs (kr_stream r)))"
    by simp
  then obtain ws where "recover_outcomes om (sort_key kr_ordinal (db_outcomes db)) vs = Inr ws" "same_frames vs ws"
      "distinct (map fst vs) \<Longrightarrow> distinct (map fst ws)"
    by (rule outcomes_recovered) blast
  with frames dist trim us(1) show ?thesis
    by (intro that [of us]) (auto simp: vs_def same_frames_def)
qed

lemma recover_body_reads:
  assumes "agrees b n cap ts (st_db s)" "0 < n" "0 \<le> cap"
  shows "reads s (\<lambda>r. same_frames ts (rc_topics r) \<and> distinct (map fst (rc_topics r)) \<and>
      rc_cursors r = db_cursors (st_db s)) (recover_body fm om b n cap s)"
proof -
  let ?db = "st_db s"
  obtain us where us: "recover_frames b fm (sort_key frame_pk (db_frames ?db)) [] = Inr us"
    "\<And>s. trim_topics n cap (foldl add_recent_key us (sort_key kr_ordinal (db_dedup ?db))) s =
       (s, Inr (foldl add_recent_key us (sort_key kr_ordinal (db_dedup ?db))))"
    "\<exists>vs. recover_outcomes om (sort_key kr_ordinal (db_outcomes ?db))
            (foldl add_recent_key us (sort_key kr_ordinal (db_dedup ?db))) = Inr vs \<and>
          same_frames ts vs \<and> distinct (map fst vs)"
    by (rule topics_recovered [OF assms, of fm om]) blast
  from us(3) obtain vs where vs: "recover_outcomes om (sort_key kr_ordinal (db_outcomes ?db))
            (foldl add_recent_key us (sort_key kr_ordinal (db_dedup ?db))) = Inr vs"
      "same_frames ts vs" "distinct (map fst vs)" by blast
  have cursors: "filter (\<lambda>e. 0 \<le> snd e) (db_cursors ?db) = db_cursors ?db"
    using assms(1) by (simp add: agrees_def)
  show ?thesis
    unfolding recover_body_def Let_def
    by (rule reads_then, rule reads_execute, simp add: select_frames_def,
        simp add: us(1), rule reads_then, rule reads_execute, simp add: select_keys_def,
        simp add: us(2), rule reads_then, rule reads_execute, simp add: select_keys_def,
        simp add: vs(1), rule reads_then, rule reads_execute, simp add: select_cursors_def,
        rule reads_value, simp add: vs cursors)
qed

lemma reads_commit_after:
  assumes "reads s P (body s)"
  shows "reads s P (commit_after body s)"
proof -
  have "reads s P (try_then (body s) (\<lambda>x s1. try_then (execute [] no_op s1) (\<lambda>_ s2. (s2, Inr x))))"
    by (rule reads_then [OF assms], rule reads_then, rule reads_execute, simp add: no_op_def, rule reads_value)
  then show ?thesis
    by (auto simp: commit_after_def rolled_back_def reads_def split: prod.split sum.split)
qed

lemma reads_transaction:
  assumes "\<And>u. st_db u = st_db s \<Longrightarrow> reads u P (body u)"
  shows "reads s P (transaction body s)"
  unfolding transaction_def
  by (rule reads_then, rule reads_execute, simp add: no_op_def, rule reads_commit_after, rule assms)

lemma reads_wrap: "reads s P r \<Longrightarrow> reads s P (wrap_errors f r)"
  by (auto simp: reads_def wrap_errors_def split: prod.splits sum.splits)

lemma store_recover_reads:
  assumes "agrees b n cap ts (st_db s)" "0 < n" "0 \<le> cap"
  shows "reads s (\<lambda>r. same_frames ts (rc_topics r) \<and> distinct (map fst (rc_topics r)) \<and>
      rc_cursors r = db_cursors (st_db s)) (store_recover b n cap s)"
proof (cases "st_backend s")
  case (Sqlite j)
  then show ?thesis
    unfolding store_recover_def sqlite_recover_def
    by (simp only: backend.case) (intro reads_wrap reads_commit_after recover_body_reads assms)
next
  case (Postgres sv)
  have body: "reads u (\<lambda>r. same_frames ts (rc_topics r) \<and> distinct (map fst (rc_topics r)) \<and>
      rc_cursors r = db_cursors (st_db s)) (recover_body fm om b n cap u)" if "st_db u = st_db s" for u fm om
    using recover_body_reads [of b n cap ts u fm om] assms that by simp
  from Postgres show ?thesis
    unfolding store_recover_def pg_recover_def
    by (simp only: backend.case) (intro reads_wrap reads_transaction body)
qed

end
