(* ===== verification/TaskOutcome.thy ===== *)
theory TaskOutcome
  imports PyObj
begin

text \<open>
  \<open>fleetqox/task_outcome.py\<close>: the identity of the frame a terminal task result belongs to, the
  application outcome document built from it, and the mappings from Nav2 goal states and RMF
  responses. Arguments the code checks with \<open>isinstance\<close> are Python objects.
\<close>

definition APPLICATION_OUTCOME_SCHEMA_VERSION :: string where
  "APPLICATION_OUTCOME_SCHEMA_VERSION = ''fleetrmw.quic_gateway_application_outcome.v1''"

definition TASK_KINDS :: "string list" where
  "TASK_KINDS = [''generic'', ''nav2'', ''rmf'']"

definition TERMINAL_STATUSES :: "string list" where
  "TERMINAL_STATUSES = [''succeeded'', ''aborted'', ''canceled'', ''rejected'', ''failed'', ''timed_out'']"

definition NAV2_TERMINAL_STATUS :: "int \<Rightarrow> string option" where
  "NAV2_TERMINAL_STATUS = [4 \<mapsto> ''succeeded'', 5 \<mapsto> ''canceled'', 6 \<mapsto> ''aborted'']"

record task_correlation =
  tc_domain_id :: int
  tc_topic :: string
  tc_publisher_id :: string
  tc_source_sequence_number :: int

definition new_correlation ::
    "py_obj \<Rightarrow> py_obj \<Rightarrow> py_obj \<Rightarrow> py_obj \<Rightarrow> task_correlation outcome" where
  "new_correlation domain_id topic publisher_id sequence =
     (case plain_int domain_id of
        None \<Rightarrow> Inl (ValueError ''task outcome domain_id is invalid'')
      | Some d \<Rightarrow>
          if d < 0 then Inl (ValueError ''task outcome domain_id is invalid'')
          else (case topic of
            PStr (CHR ''/'' # t) \<Rightarrow>
              (case publisher_id of
                 PStr (p # ps) \<Rightarrow>
                   (case plain_int sequence of
                      None \<Rightarrow> Inl (ValueError ''task outcome source sequence is invalid'')
                    | Some q \<Rightarrow>
                        if q \<le> 0 then Inl (ValueError ''task outcome source sequence is invalid'')
                        else Inr \<lparr>tc_domain_id = d, tc_topic = CHR ''/'' # t, tc_publisher_id = p # ps,
                                  tc_source_sequence_number = q\<rparr>)
               | _ \<Rightarrow> Inl (ValueError ''task outcome publisher_id is invalid''))
          | _ \<Rightarrow> Inl (ValueError ''task outcome topic is invalid'')))"

text \<open>\<open>isinstance(v, (int, float)) and not isinstance(v, bool) and math.isfinite(float(v))\<close>.\<close>

definition is_finite_number :: "py_obj \<Rightarrow> bool outcome" where
  "is_finite_number v =
     (if \<not> plain_number v then Inr False
      else case py_float v of Inl e \<Rightarrow> Inl e | Inr x \<Rightarrow> Inr (is_fin x))"

definition outcome_document ::
    "task_correlation \<Rightarrow> string \<Rightarrow> string \<Rightarrow> py_obj \<Rightarrow> py_obj \<Rightarrow> bool \<Rightarrow> pyfloat \<Rightarrow> pyfloat \<Rightarrow> py_dict" where
  "outcome_document c kind status latency deadline received latency_f deadline_f =
     [(''schema_version'', PStr APPLICATION_OUTCOME_SCHEMA_VERSION),
      (''domain_id'', PInt (tc_domain_id c)), (''topic'', PStr (tc_topic c)),
      (''publisher_id'', PStr (tc_publisher_id c)),
      (''source_sequence_number'', PInt (tc_source_sequence_number c)),
      (''delivered'', PBool received),
      (''deadline_met'', PBool (received \<and> exact_number latency \<le> exact_number deadline)),
      (''observed_latency_ms'', PFloat latency_f), (''deadline_ms'', PFloat deadline_f),
      (''task_kind'', PStr kind), (''terminal_status'', PStr status),
      (''task_succeeded'', PBool (received \<and> status = ''succeeded''))]"

definition build_task_application_outcome ::
    "task_correlation \<Rightarrow> string \<Rightarrow> string \<Rightarrow> py_obj \<Rightarrow> py_obj \<Rightarrow> py_obj \<Rightarrow> py_dict outcome" where
  "build_task_application_outcome c kind status latency deadline result_received =
     (if kind \<notin> set TASK_KINDS then Inl (ValueError ''unsupported task outcome kind'')
      else if status \<notin> set TERMINAL_STATUSES then Inl (ValueError ''unsupported terminal task status'')
      else case result_received of
        PBool received \<Rightarrow>
          (case is_finite_number latency of
             Inl e \<Rightarrow> Inl e
           | Inr ok1 \<Rightarrow>
          (case (if ok1 then is_finite_number deadline else Inr False) of
             Inl e \<Rightarrow> Inl e
           | Inr ok \<Rightarrow>
               if \<not> ok then Inl (ValueError ''task outcome latency/deadline must be finite numeric'')
               else if exact_number latency < 0 \<or> exact_number deadline \<le> 0
               then Inl (ValueError ''task outcome latency/deadline is invalid'')
               else if \<not> received \<and> status \<noteq> ''timed_out''
               then Inl (ValueError ''a missing task result must use terminal status timed_out'')
               else (case py_float latency of
                       Inl e \<Rightarrow> Inl e
                     | Inr x \<Rightarrow>
                         map_sum id (outcome_document c kind status latency deadline received x)
                           (py_float deadline))))
      | _ \<Rightarrow> Inl (ValueError ''task outcome result_received must be boolean''))"

definition nav2_application_outcome ::
    "task_correlation \<Rightarrow> py_obj \<Rightarrow> py_obj \<Rightarrow> py_obj \<Rightarrow> py_dict outcome" where
  "nav2_application_outcome c goal_status latency deadline =
     (case Option.bind (plain_int goal_status) NAV2_TERMINAL_STATUS of
        None \<Rightarrow> Inl (ValueError ''Nav2 goal status is not terminal'')
      | Some status \<Rightarrow>
          build_task_application_outcome c ''nav2'' status latency deadline (PBool True))"

definition rmf_application_outcome ::
    "task_correlation \<Rightarrow> py_obj \<Rightarrow> py_obj \<Rightarrow> py_obj \<Rightarrow> py_obj \<Rightarrow> py_dict outcome" where
  "rmf_application_outcome c response_received response_success latency deadline =
     (case (response_received, response_success) of
        (PBool received, PBool success) \<Rightarrow>
          build_task_application_outcome c ''rmf''
            (if received \<and> success then ''succeeded'' else if received then ''rejected'' else ''timed_out'')
            latency deadline (PBool received)
      | _ \<Rightarrow> Inl (ValueError ''RMF response flags must be boolean''))"

end
