(* ===== verification/GatewayService.thy ===== *)
theory GatewayService
  imports GatewayState TaskOutcome
begin

text \<open>
  The service half of \<open>FleetQoxGatewayState\<close>: application outcomes, the snapshot, and
  \<open>handle_request\<close> with its routes, the exceptions each route answers and the exceptions that
  leave it.
\<close>

section \<open>Application outcomes\<close>

record outcome_request =
  oq_key :: frame_key
  oq_delivered :: bool
  oq_deadline_met :: bool
  oq_latency :: py_obj
  oq_deadline :: py_obj
  oq_succeeded :: "bool option"

definition task_fields_present :: "py_dict \<Rightarrow> bool" where
  "task_fields_present d \<longleftrightarrow>
     in_dict ''task_kind'' d \<or> in_dict ''terminal_status'' d \<or> in_dict ''task_succeeded'' d"

definition check_task_fields :: "py_dict \<Rightarrow> bool \<Rightarrow> bool option gw_result" where
  "check_task_fields d delivered =
     (if \<not> task_fields_present d then Inr None
      else case (dget d ''task_kind'', dget d ''terminal_status'', dget d ''task_succeeded'') of
        (PStr kind, PStr status, PBool succeeded) \<Rightarrow>
          if kind \<notin> set TASK_KINDS \<or> status \<notin> set TERMINAL_STATUSES
          then invalid ''application task outcome fields are invalid or incomplete''
          else if succeeded \<noteq> (status = ''succeeded'')
          then invalid ''application task success contradicts terminal status''
          else if succeeded \<and> \<not> delivered
          then invalid ''an undelivered application task cannot succeed''
          else Inr (Some succeeded)
      | _ \<Rightarrow> invalid ''application task outcome fields are invalid or incomplete'')"

definition outcome_identity :: "py_dict \<Rightarrow> frame_key gw_result" where
  "outcome_identity d =
     (case (plain_int (dget d ''domain_id''), dget d ''topic'', dget d ''publisher_id'',
            plain_int (dget d ''source_sequence_number'')) of
        (Some domain_id, PStr topic, PStr publisher_id, Some sequence) \<Rightarrow>
          if domain_id < 0 \<or> \<not> starts_with_slash topic \<or> publisher_id = [] \<or> sequence \<le> 0
          then invalid ''application outcome identity is invalid''
          else Inr (domain_id, topic, publisher_id, sequence)
      | _ \<Rightarrow> invalid ''application outcome identity is invalid'')"

definition outcome_request_of :: "py_dict \<Rightarrow> outcome_request gw_result" where
  "outcome_request_of d =
     (if dget d ''schema_version'' \<noteq> PStr APPLICATION_OUTCOME_SCHEMA_VERSION
      then invalid ''unsupported application outcome schema''
      else case outcome_identity d of
        Inl e \<Rightarrow> Inl e
      | Inr k \<Rightarrow>
          (case (dget d ''delivered'', dget d ''deadline_met'') of
             (PBool delivered, PBool met) \<Rightarrow>
               if \<not> delivered \<and> met
               then invalid ''undelivered application outcome cannot meet its deadline''
               else (case check_task_fields d delivered of
                 Inl e \<Rightarrow> Inl e
               | Inr succeeded \<Rightarrow>
                   if \<not> plain_number (dget d ''observed_latency_ms'') \<or> \<not> plain_number (dget d ''deadline_ms'')
                   then invalid ''application outcome latency/deadline must be numeric''
                   else Inr \<lparr>oq_key = k, oq_delivered = delivered, oq_deadline_met = met,
                             oq_latency = dget d ''observed_latency_ms'', oq_deadline = dget d ''deadline_ms'',
                             oq_succeeded = succeeded\<rparr>)
           | _ \<Rightarrow> invalid ''application outcome delivery flags must be boolean''))"

text \<open>The update of the policy; a ValueError becomes FrameValidationError.\<close>

definition apply_outcome :: "outcome_request \<Rightarrow> pyfloat gateway_step" where
  "apply_outcome q g =
     (case (case oq_key q of (d, t, p, _) \<Rightarrow>
              try_then (lift_exn g (py_float (oq_latency q))) (\<lambda>latency g1.
              try_then (lift_exn g1 (py_float (oq_deadline q))) (\<lambda>deadline g2.
                in_policy (update_application_outcome (d, t, p) (oq_delivered q) (oq_deadline_met q)
                             latency deadline (oq_succeeded q)) g2))) of
        (g1, Inl e) \<Rightarrow>
          (g1, if is_value_exn e then Inl (FrameValidationError (exn_text (gs_text g1) e)) else Inl e)
      | (g1, Inr debt) \<Rightarrow> (g1, Inr debt))"

definition duplicate_outcome_document :: py_dict where
  "duplicate_outcome_document = [(''accepted'', PBool True), (''duplicate'', PBool True)]"

text \<open>\<open>Some True\<close>: stored; \<open>Some False\<close>: the store already had it; \<open>None\<close>: there is no store.\<close>

definition commit_outcome :: "frame_key \<Rightarrow> py_dict option \<Rightarrow> bool option gateway_step" where
  "commit_outcome k state_before g =
     (if Option.is_none (gs_store g) then (g, Inr None)
      else
        try_then (in_policy export_durable_state g) (\<lambda>state_after g1.
        (case try_then (now_unix_ms g1) (\<lambda>now.
                 in_store (store_commit_outcome k (gs_capacity g1) state_after (Some now))) of
           (g2, Inl e) \<Rightarrow> undo_admission state_before e g2
         | (g2, Inr False) \<Rightarrow>
             try_then (case state_before of
                         Some d \<Rightarrow> in_policy (restore_durable_state d) g2
                       | None \<Rightarrow> (g2, Inr ()))
               (\<lambda>_ g3. (g3, Inr (Some False)))
         | (g2, Inr True) \<Rightarrow>
             (metric_add ''durable_admission_commits'' 1
                (metric_add ''durable_application_outcome_commits'' 1 g2), Inr (Some True)))))"

definition set_outcome_keys ::
    "int \<times> string \<Rightarrow> ((string \<times> int) list \<Rightarrow> (string \<times> int) list) \<Rightarrow> gateway \<Rightarrow> gateway" where
  "set_outcome_keys stream f g =
     g\<lparr>gs_topics := with_history stream (\<lambda>h. h\<lparr>th_outcome_keys := f (th_outcome_keys h)\<rparr>) (gs_topics g)\<rparr>"

definition count_task :: "bool option \<Rightarrow> gateway \<Rightarrow> gateway" where
  "count_task succeeded g =
     (case succeeded of
        None \<Rightarrow> g
      | Some ok \<Rightarrow>
          let g1 = metric_add ''application_task_outcome_updates'' 1 g
          in if ok then g1 else metric_add ''application_task_outcome_failures'' 1 g1)"

definition record_new_outcome :: "outcome_request \<Rightarrow> py_dict option gateway_step" where
  "record_new_outcome q g =
     (case oq_key q of (d, t, k) \<Rightarrow>
      try_then (if Option.is_none (gs_store g) then (g, Inr None)
                else try_then (in_policy export_durable_state g) (\<lambda>s g1. (g1, Inr (Some s)))) (\<lambda>state_before g1.
      try_then (apply_outcome q g1) (\<lambda>debt g2.
      try_then (commit_outcome (oq_key q) state_before g2) (\<lambda>inserted g3.
        if inserted = Some False
        then (metric_add ''application_outcome_duplicates'' 1 (set_outcome_keys (d, t) (key_add k) g3),
              Inr (Some duplicate_outcome_document))
        else
          (count_task (oq_succeeded q)
             (metric_add ''application_outcome_updates'' 1
                (set_outcome_keys (d, t) (\<lambda>ks. fst (pop_front (gs_capacity g3) (key_add k ks))) g3)),
           Inr (Some [(''accepted'', PBool True), (''duplicate'', PBool False),
                      (''qoe_debt'', PFloat debt)]))))))"

definition record_application_outcome :: "py_dict \<Rightarrow> py_dict option gateway_step" where
  "record_application_outcome d g =
     (case gs_policy g of
        None \<Rightarrow> (g, invalid ''admission policy is disabled'')
      | Some p \<Rightarrow>
          if \<not> pc_outcome_enabled (gp_config p)
          then (g, invalid ''application outcome QoE debt is disabled'')
          else case outcome_request_of d of
            Inl e \<Rightarrow> (g, Inl e)
          | Inr q \<Rightarrow>
              (case oq_key q of (domain_id, topic, k) \<Rightarrow>
               let stream = (domain_id, topic)
               in case map_of (gs_topics g) stream of
                    None \<Rightarrow> (metric_add ''application_outcome_unknown_frames'' 1 g, Inr None)
                  | Some h \<Rightarrow>
                      if k \<notin> set (th_recent_keys h)
                      then (metric_add ''application_outcome_unknown_frames'' 1 g, Inr None)
                      else if k \<in> set (th_outcome_keys h)
                      then (metric_add ''application_outcome_duplicates'' 1
                              (set_outcome_keys stream (move_to_end k) g),
                            Inr (Some duplicate_outcome_document))
                      else record_new_outcome q g))"

section \<open>Snapshot\<close>

definition optional_dict :: "py_dict option \<Rightarrow> py_obj" where
  "optional_dict d = of_optional PDict d"

definition gateway_document :: "gateway \<Rightarrow> py_dict option \<Rightarrow> py_dict option \<Rightarrow> py_dict" where
  "gateway_document g durable admission =
     (''schema_version'', PStr ''fleetrmw.quic_gateway_state.v1'') # map (map_prod id PInt) (gs_metrics g) @
     [(''topic_count'', PInt (py_len (gs_topics g))),
      (''consumer_count'', PInt (py_len (gs_consumers g))),
      (''retained_frames'', PInt (total_records (gs_topics g))),
      (''application_outcome_key_count'',
        PInt (sum_list (map (\<lambda>(_, h). py_len (th_outcome_keys h)) (gs_topics g)))),
      (''max_frames_per_topic'', PInt (gs_max_frames g)), (''max_frame_bytes'', PInt (gs_max_bytes g)),
      (''dedup_capacity_per_topic'', PInt (gs_capacity g)), (''max_batch_frames'', PInt (gs_max_batch g)),
      (''durable_state_enabled'', PBool (\<not> Option.is_none (gs_store g))), (''durable_state'', optional_dict durable),
      (''admission_policy_enabled'', PBool (\<not> Option.is_none (gs_policy g))), (''admission'', optional_dict admission)]"

definition gateway_snapshot :: "py_dict gateway_step" where
  "gateway_snapshot g =
     try_then (if Option.is_none (gs_store g) then (g, Inr None)
               else try_then (in_store store_snapshot g) (\<lambda>d g1. (g1, Inr (Some d)))) (\<lambda>durable g1.
     try_then (if Option.is_none (gs_policy g1) then (g1, Inr None)
               else try_then (in_policy policy_snapshot g1) (\<lambda>d g2. (g2, Inr (Some d)))) (\<lambda>admission g2.
       (g2, Inr (gateway_document g2 durable admission))))"

section \<open>Responses\<close>

record gateway_response =
  gr_status :: int
  gr_body :: string
  gr_content_type :: string

definition json_response :: "int \<Rightarrow> py_dict \<Rightarrow> gateway_response gateway_step" where
  "json_response status d g =
     lift_exn g (map_sum id (\<lambda>body. \<lparr>gr_status = status, gr_body = body,
                                     gr_content_type = ''application/json''\<rparr>)
                   (json_dumps True (PDict d)))"

definition error_response :: "int \<Rightarrow> string \<Rightarrow> gateway_response gateway_step" where
  "error_response status m = json_response status [(''error'', PStr m)]"

text \<open>Answer the exceptions a predicate selects, let the others pass.\<close>

definition answering ::
    "(gw_exn \<Rightarrow> (gateway_response gateway_step) option) \<Rightarrow> gateway \<times> 'a gw_result \<Rightarrow>
     ('a \<Rightarrow> gateway_response gateway_step) \<Rightarrow> gateway \<times> gateway_response gw_result" where
  "answering handler r f =
     (case r of
        (g, Inl e) \<Rightarrow> (case handler e of None \<Rightarrow> (g, Inl e) | Some h \<Rightarrow> h g)
      | (g, Inr x) \<Rightarrow> f x g)"

definition error_for :: "int \<Rightarrow> gw_exn \<Rightarrow> gateway_response gateway_step" where
  "error_for status e g = error_response status (exn_text (gs_text g) e) g"

section \<open>Queries\<close>

definition query_one :: "(string \<times> string) list \<Rightarrow> string \<Rightarrow> bool \<Rightarrow> string option gw_result" where
  "query_one qs key required =
     (case query_values qs key of
        [] \<Rightarrow> if required then invalid (''missing query parameter: '' @ key) else Inr None
      | [v] \<Rightarrow> if v = [] then invalid (''query parameter must have one value: '' @ key) else Inr (Some v)
      | _ \<Rightarrow> invalid (''query parameter must have one value: '' @ key))"

definition query_domain :: "(string \<times> string) list \<Rightarrow> bool \<Rightarrow> int option gw_result" where
  "query_domain qs required =
     (case query_one qs ''domain_id'' required of
        Inl e \<Rightarrow> Inl e
      | Inr None \<Rightarrow> Inr None
      | Inr (Some v) \<Rightarrow>
          (case py_int_of_str v of
             None \<Rightarrow> invalid ''domain_id query parameter is not an integer''
           | Some d \<Rightarrow>
               if d < 0 then invalid ''domain_id query parameter must be non-negative''
               else Inr (Some d)))"

section \<open>Routes\<close>

text \<open>\<open>json.loads(body.decode("utf-8"))\<close>.\<close>

definition load_body :: "string \<Rightarrow> py_obj gateway_step" where
  "load_body body g =
     lift_exn g (case decode_utf8 body of Inl e \<Rightarrow> Inl e | Inr txt \<Rightarrow> json_loads txt)"

definition observation_values :: "py_dict \<Rightarrow> (obs_key \<times> pyfloat \<times> pyfloat \<times> pyfloat \<times> pyfloat) outcome" where
  "observation_values d =
     (if dget d ''schema_version'' \<noteq> PStr ''fleetrmw.quic_gateway_observation.v1''
      then Inl (ValueError ''unsupported observation schema'')
      else case plain_int (dget d ''domain_id'') of
        None \<Rightarrow> Inl (ValueError ''observation domain_id must be an integer'')
      | Some domain_id \<Rightarrow>
          (case (dget d ''topic'', dget d ''publisher_id'') of
             (PStr topic, PStr publisher_id) \<Rightarrow>
               let numeric = map (dget d) [''qoe_debt'', ''measured_loss'', ''measured_rtt_ms'', ''measured_jitter_ms'']
               in if list_ex (\<lambda>v. \<not> plain_number v) numeric
                  then Inl (ValueError ''observation metrics must be numeric'')
                  else (case map_outcome py_float numeric of
                    Inl e \<Rightarrow> Inl e
                  | Inr [debt, loss, rtt, jitter] \<Rightarrow>
                      Inr ((domain_id, topic, publisher_id), debt, loss, rtt, jitter)
                  | Inr _ \<Rightarrow> Inl KeyError)
           | _ \<Rightarrow> Inl (ValueError ''observation topic/publisher must be strings'')))"

definition observe_request :: "string \<Rightarrow> unit gateway_step" where
  "observe_request body g =
     try_then (load_body body g) (\<lambda>v g1.
       case v of
         PDict d \<Rightarrow>
           try_then (lift_exn g1 (observation_values d)) (\<lambda>(k, debt, loss, rtt, jitter) g2.
             in_policy (update_observation k debt loss rtt jitter (PStr ''external_api'') PNone) g2)
       | _ \<Rightarrow> (g1, Inl (value_error ''observation must be an object'')))"

definition route_observation :: "string \<Rightarrow> gateway_response gateway_step" where
  "route_observation body g0 =
     (let g = metric_add ''observation_requests'' 1 g0
      in if Option.is_none (gs_policy g) then error_response 409 ''admission_policy_disabled'' g
         else answering
           (\<lambda>e. if is_value_exn e \<or> e = PyExn TypeError \<or> e = PyExn KeyError
                then Some (error_for 400 e) else None)
           (observe_request body g) (\<lambda>_. json_response 200 [(''accepted'', PBool True)]))"

definition outcome_request_step :: "string \<Rightarrow> py_dict option gateway_step" where
  "outcome_request_step body g =
     try_then (load_body body g) (\<lambda>v g1.
       case v of
         PDict d \<Rightarrow> record_application_outcome d g1
       | _ \<Rightarrow> (g1, invalid ''application outcome must be an object''))"

text \<open>FrameValidationError and the two decoding errors; another ValueError passes.\<close>

definition invalid_request :: "gw_exn \<Rightarrow> bool" where
  "invalid_request e \<longleftrightarrow>
     (case e of
        FrameValidationError _ \<Rightarrow> True
      | PyExn x \<Rightarrow> x = UnicodeDecodeError \<or> x = JSONDecodeError
      | _ \<Rightarrow> False)"

definition route_outcome :: "string \<Rightarrow> gateway_response gateway_step" where
  "route_outcome body g0 =
     (let g = metric_add ''application_outcome_requests'' 1 g0
      in if (case gs_policy g of None \<Rightarrow> True | Some p \<Rightarrow> \<not> pc_outcome_enabled (gp_config p))
         then error_response 409 ''application_outcome_qoe_debt_disabled'' g
         else answering
           (\<lambda>e. if invalid_request e
                then Some (\<lambda>g. error_for 400 e (metric_add ''invalid_application_outcomes'' 1 g))
                else if is_persistence_exn e then Some (error_for 503 e) else None)
           (outcome_request_step body g)
           (\<lambda>r. case r of
                  None \<Rightarrow> error_response 404 ''application_outcome_frame_not_found''
                | Some d \<Rightarrow> json_response 200 d))"

fun batch_payload :: "py_obj \<Rightarrow> string gw_result" where
  "batch_payload (PStr s) =
     (case from_hex s of None \<Rightarrow> invalid ''batch frame contains invalid hex'' | Some p \<Rightarrow> Inr p)"
| "batch_payload _ = invalid ''batch frame must be hex text''"

definition batch_request :: "string \<Rightarrow> py_obj list gateway_step" where
  "batch_request body g =
     try_then (load_body body g) (\<lambda>v g1.
       case v of
         PDict d \<Rightarrow>
           if dget d ''schema_version'' \<noteq> PStr ''fleetrmw.quic_gateway_frame_batch.v1''
           then (g1, invalid ''unsupported frame batch schema'')
           else (case dget d ''frames'' of
             PList frames \<Rightarrow>
               try_then (g1, map_outcome batch_payload frames) (\<lambda>payloads g2.
                 publish_batch payloads (metric_add ''batch_frames'' (py_len payloads) g2))
           | _ \<Rightarrow> (g1, invalid ''frame batch frames must be a list''))
       | _ \<Rightarrow> (g1, invalid ''frame batch must be an object''))"

definition route_batch :: "string \<Rightarrow> gateway_response gateway_step" where
  "route_batch body g0 =
     (let g = metric_add ''batch_requests'' 1 g0
      in answering
           (\<lambda>e. if is_persistence_exn e then Some (error_for 503 e)
                else if invalid_request e then Some (error_for 400 e) else None)
           (batch_request body g) (\<lambda>rows. json_response 200 [(''results'', PList rows)]))"

text \<open>Publishing: the query is read before the \<open>try\<close> block.\<close>

definition publish_handler :: "gw_exn \<Rightarrow> (gateway_response gateway_step) option" where
  "publish_handler e =
     (case e of
        FrameValidationError _ \<Rightarrow> Some (\<lambda>g. error_for 400 e (metric_add ''invalid_frames'' 1 g))
      | FrameAdmissionError status code reason cls \<Rightarrow>
          Some (json_response status [(''error'', PStr reason), (''reason'', PStr code),
                                      (''traffic_class'', PStr cls)])
      | _ \<Rightarrow> if is_persistence_exn e then Some (error_for 503 e) else None)"

definition route_publish :: "(string \<times> string) list \<Rightarrow> string \<Rightarrow> gateway_response gateway_step" where
  "route_publish qs body g0 =
     (let g = metric_add ''post_requests'' 1 g0
      in try_then (g, query_domain qs False) (\<lambda>domain g1.
         try_then (g1, query_one qs ''topic'' False) (\<lambda>topic g2.
           answering publish_handler (publish body domain topic g2) (\<lambda>r.
             json_response 200 [(''accepted'', PBool (pr_accepted r)), (''duplicate'', PBool (pr_duplicate r)),
                                (''offset'', PInt (pr_offset r))]))))"

definition take_query :: "(string \<times> string) list \<Rightarrow> (int option \<times> string option \<times> string option) gw_result" where
  "take_query qs =
     (case query_domain qs True of
        Inl e \<Rightarrow> Inl e
      | Inr domain \<Rightarrow>
          (case query_one qs ''topic'' True of
             Inl e \<Rightarrow> Inl e
           | Inr topic \<Rightarrow>
               map_sum id (\<lambda>consumer. (domain, topic, consumer)) (query_one qs ''consumer_id'' True)))"

definition route_take :: "(string \<times> string) list \<Rightarrow> gateway_response gateway_step" where
  "route_take qs g0 =
     (let g = metric_add ''get_requests'' 1 g0
      in case take_query qs of
           Inl e \<Rightarrow> (case e of FrameValidationError _ \<Rightarrow> error_for 400 e g | _ \<Rightarrow> (g, Inl e))
         | Inr (Some domain, Some topic, Some consumer) \<Rightarrow>
             answering (\<lambda>e. if is_persistence_exn e then Some (error_for 503 e) else None)
               (take_frame domain topic consumer g)
               (\<lambda>payload g1.
                  case payload of
                    None \<Rightarrow> (g1, Inr \<lparr>gr_status = 204, gr_body = [], gr_content_type = []\<rparr>)
                  | Some p \<Rightarrow>
                      (g1, Inr \<lparr>gr_status = 200, gr_body = p,
                                gr_content_type = ''application/vnd.fleetrmw.frame''\<rparr>))
         | Inr _ \<Rightarrow> (g, Inl (PyExn TypeError)))"

definition handle_request :: "string \<Rightarrow> string \<Rightarrow> string \<Rightarrow> gateway_response gateway_step" where
  "handle_request verb raw_path body g0 =
     try_then (lift_exn (metric_add ''requests_total'' 1 g0) (urlsplit (gs_bad_netloc g0) raw_path))
       (\<lambda>(path, query) g.
          let qs = parse_qsl query
          in if path = ''/healthz'' \<and> verb = ''GET'' then json_response 200 [(''status'', PStr ''ok'')] g
             else if path = ''/fleetrmw/v1/metrics'' \<and> verb = ''GET''
             then try_then (gateway_snapshot g) (\<lambda>d. json_response 200 d)
             else if path = ''/fleetrmw/v1/observations'' \<and> verb = ''POST'' then route_observation body g
             else if path = ''/fleetrmw/v1/application-outcomes'' \<and> verb = ''POST'' then route_outcome body g
             else if path = ''/fleetrmw/v1/frame-batches'' \<and> verb = ''POST'' then route_batch body g
             else if path \<noteq> ''/fleetrmw/v1/frames'' then error_response 404 ''unknown_path'' g
             else if verb = ''POST'' then route_publish qs body g
             else if verb = ''GET'' then route_take qs g
             else error_response 405 ''method_not_allowed'' g)"

end
