(* ===== verification/GatewayCore.thy ===== *)
theory GatewayCore
  imports GatewayRecovery GatewayService
begin

text \<open>
  What each call of the gateway does to its frames: the part of the state that holds frames,
  cursors and tables, the invariant that ties memory to the tables, the calls that leave it, and
  the effects of publishing, of taking and of recovery.
\<close>

declare split_paired_All [simp del]

section \<open>The frames of a gateway\<close>

definition core ::
    "gateway \<Rightarrow> topics \<times> (obs_key \<times> int) list \<times> (int \<times> int \<times> int) \<times>
     (frame_row list \<times> key_row list \<times> int \<times> key_row list \<times> int \<times> (obs_key \<times> int) list) option" where
  "core g = (gs_topics g, gs_consumers g, (gs_max_frames g, gs_max_bytes g, gs_capacity g),
             map_option tables_of (gs_store g))"

lemma core_updates [simp]:
  "core (metric_add name n g) = core g" "core (metric_set name n g) = core g"
  "core (g\<lparr>gs_policy := p\<rparr>) = core g" "core (g\<lparr>gs_wall_reads := i\<rparr>) = core g"
  "core (fst (lift_exn g r)) = core g"
  by (simp_all add: core_def metric_add_def metric_set_def)

lemma core_in_policy [simp]: "core (fst (in_policy f g)) = core g"
  by (auto simp: in_policy_def split: option.split prod.split)

lemma core_now [simp]: "core (fst (now_unix_ms g)) = core g"
  by (simp add: now_unix_ms_def)

lemma core_in_store: "(\<And>s. tables_of (fst (f s)) = tables_of s) \<Longrightarrow> core (fst (in_store f g)) = core g"
  by (auto simp: in_store_def core_def split: option.split prod.split) (metis fst_conv)

lemma core_trans: "transp (\<lambda>g g'. core g' = core g)"
  by (auto intro: transpI)

lemmas core_steps = try_then_trans [OF core_trans]

definition good :: "gateway \<Rightarrow> bool" where
  "good g \<longleftrightarrow>
     0 < gs_max_frames g \<and> gs_max_frames g \<le> gs_capacity g \<and>
     histories_ok (gs_max_bytes g) (gs_max_frames g) (gs_topics g) \<and>
     (\<forall>e \<in> set (gs_consumers g). 0 \<le> snd e) \<and>
     (\<forall>s. gs_store g = Some s \<longrightarrow>
        agrees (gs_max_bytes g) (gs_max_frames g) (gs_capacity g) (gs_topics g) (st_db s) \<and>
        db_cursors (st_db s) = gs_consumers g)"

lemma agrees_tables: "tables db' = tables db \<Longrightarrow> agrees b n cap ts db' = agrees b n cap ts db"
  using keys_ok_tables [of db' db cap] by (simp add: agrees_def tables_def)

lemma good_core: "core g' = core g \<Longrightarrow> good g \<Longrightarrow> good g'"
proof -
  assume c: "core g' = core g" and good: "good g"
  have "agrees (gs_max_bytes g) (gs_max_frames g) (gs_capacity g) (gs_topics g) (st_db s) \<and>
      db_cursors (st_db s) = gs_consumers g" if s: "gs_store g' = Some s" for s
  proof -
    from c s obtain u where u: "gs_store g = Some u" "tables_of s = tables_of u"
      by (cases "gs_store g") (auto simp: core_def)
    then have "db_cursors (st_db s) = db_cursors (st_db u)" by (simp add: tables_def)
    with u good agrees_tables [OF u(2)] show ?thesis by (simp add: good_def)
  qed
  with c good show ?thesis by (simp add: good_def core_def)
qed

text \<open>A call that keeps the frames, the cursors and the invariant.\<close>

definition limits :: "gateway \<Rightarrow> int \<times> int \<times> int" where
  "limits g = (gs_max_frames g, gs_max_bytes g, gs_capacity g)"

definition quiet :: "gateway \<Rightarrow> gateway \<Rightarrow> bool" where
  "quiet g g' \<longleftrightarrow>
     same_frames (gs_topics g) (gs_topics g') \<and> gs_consumers g' = gs_consumers g \<and>
     limits g' = limits g \<and> (good g \<longrightarrow> good g')"

lemma quiet_core: "core g' = core g \<Longrightarrow> quiet g g'"
  using good_core [of g' g] by (simp add: quiet_def core_def same_frames_def limits_def)

lemma quiet_refl [simp]: "quiet g g"
  by (simp add: quiet_core)

lemma quiet_trans: "transp quiet"
  by (rule transpI) (simp add: quiet_def same_frames_def)

lemmas quiet_steps = try_then_trans [OF quiet_trans]

lemma quiet_then_core: "quiet g h \<Longrightarrow> core h' = core h \<Longrightarrow> quiet g h'"
  using quiet_core transpD [OF quiet_trans] by blast

section \<open>Calls that keep the core\<close>

lemma core_export [simp]: "core (fst (export_if_durable g)) = core g"
  by (auto simp: export_if_durable_def intro!: core_steps)

lemma core_admit [simp]: "core (fst (admit_frame m g)) = core g"
  by (auto simp: admit_frame_def intro!: core_steps)

lemma core_undo [simp]: "core (fst (undo_admission d e g)) = core g"
  by (auto simp: undo_admission_def intro!: core_steps split: option.split)

lemma core_scores [simp]: "core (fst (batch_scores ms g)) = core g"
  by (induction ms arbitrary: g) (auto intro!: core_steps)

lemma core_renew [simp]: "core (fst (renew_gateway_lease g)) = core g"
proof -
  have "core (fst (try_then (now_unix_ms g) (\<lambda>now. in_store (store_renew_lease now)))) = core g"
    by (auto intro!: core_steps core_in_store)
  then show ?thesis
    by (auto simp: renew_gateway_lease_def split: prod.split sum.split)
qed

lemma core_snapshot [simp]: "core (fst (gateway_snapshot g)) = core g"
  by (auto simp: gateway_snapshot_def intro!: core_steps core_in_store)

lemma core_json [simp]: "core (fst (json_response st d g)) = core g" "core (fst (error_response st m g)) = core g"
    "core (fst (error_for st e g)) = core g"
  by (simp_all add: json_response_def error_response_def error_for_def)

lemma core_apply_outcome [simp]: "core (fst (apply_outcome q g)) = core g"
proof -
  have "core (fst (case oq_key q of (d, t, p, _) \<Rightarrow>
              try_then (lift_exn g (py_float (oq_latency q))) (\<lambda>latency g1.
              try_then (lift_exn g1 (py_float (oq_deadline q))) (\<lambda>deadline g2.
                in_policy (update_application_outcome (d, t, p) (oq_delivered q) (oq_deadline_met q)
                             latency deadline (oq_succeeded q)) g2)))) = core g"
    by (auto intro!: core_steps split: prod.split)
  then show ?thesis
    by (auto simp: apply_outcome_def split: prod.splits sum.splits)
qed

lemma core_observe [simp]: "core (fst (observe_request body g)) = core g"
  by (auto simp: observe_request_def load_body_def intro!: core_steps split: py_obj.split prod.split)

section \<open>Calls to the store\<close>

text \<open>A call of the store after a reading of the clock: it fails and leaves the tables, or it
  succeeds on the store of the gateway.\<close>

definition keeps_on_failure :: "(int \<Rightarrow> gateway \<Rightarrow> store \<Rightarrow> store \<times> 'a gw_result) \<Rightarrow> bool" where
  "keeps_on_failure f \<longleftrightarrow> (\<forall>now g s t e. f now g s = (t, Inl e) \<longrightarrow> st_db t = st_db s)"

lemma commits_keep_on_failure:
  "keeps_on_failure (\<lambda>now g. store_append_frame m off payload evict (cap g) d (Some now))"
  "keeps_on_failure (\<lambda>now g. store_set_cursor k n (Some now))"
  "keeps_on_failure (\<lambda>now g. store_commit_outcome fk c d' (Some now))"
  by (auto simp: keeps_on_failure_def dest: append_frame_effect(1) set_cursor_effect(1) commit_outcome_effect(1))

lemma stored_call:
  assumes "try_then (now_unix_ms g) (\<lambda>now g1. in_store (f now g1) g1) = (g', r)"
    and fail: "keeps_on_failure f"
  shows "case r of Inl e \<Rightarrow> core g' = core g
    | Inr x \<Rightarrow> \<exists>s t now g1. gs_store g = Some s \<and> core g1 = core g \<and> gs_store g1 = gs_store g \<and>
        f now g1 s = (t, Inr x) \<and> g' = g1\<lparr>gs_store := Some t\<rparr>"
proof -
  obtain g1 n where n: "now_unix_ms g = (g1, n)" by fastforce
  then have g1: "core g1 = core g" "gs_store g1 = gs_store g"
    using core_now [of g] by (auto simp: now_unix_ms_def lift_exn_def)
  show ?thesis
  proof (cases n)
    case (Inl e)
    with assms(1) n g1 show ?thesis by auto
  next
    case (Inr now)
    with assms(1) n have call: "in_store (f now g1) g1 = (g', r)" by simp
    show ?thesis
    proof (cases "gs_store g1")
      case None
      with call g1 show ?thesis by (auto simp: in_store_def)
    next
      case (Some s)
      obtain t y where t: "f now g1 s = (t, y)" by fastforce
      with call Some have res: "g' = g1\<lparr>gs_store := Some t\<rparr>" "r = y" by (auto simp: in_store_def)
      show ?thesis
      proof (cases y)
        case (Inl e)
        with fail t have "st_db t = st_db s" unfolding keeps_on_failure_def by blast
        then have "tables_of t = tables_of s" by simp
        with Inl res Some g1(1) show ?thesis by (simp add: core_def)
      next
        case (Inr x)
        have "gs_store g = Some s \<and> core g1 = core g \<and> gs_store g1 = gs_store g \<and>
            f now g1 s = (t, Inr x) \<and> g' = g1\<lparr>gs_store := Some t\<rparr>"
          using Inr res Some g1 t by simp
        then have "\<exists>s t now g1. gs_store g = Some s \<and> core g1 = core g \<and> gs_store g1 = gs_store g \<and>
            f now g1 s = (t, Inr x) \<and> g' = g1\<lparr>gs_store := Some t\<rparr>" by blast
        with Inr res show ?thesis by simp
      qed
    qed
  qed
qed

lemma undo_raises: "undo_admission d e g \<noteq> (g', Inr x)"
  by (auto simp: undo_admission_def try_then_def split: prod.splits sum.splits)

lemma store_metric [simp]: "gs_store (metric_add name n g) = gs_store g"
  by (simp add: metric_add_def)

lemma commit_frame_failed:
  assumes "commit_frame m payload h d0 d1 g = (g', Inl e)"
  shows "core g' = core g"
proof -
  from assms have "\<not> Option.is_none (gs_store g)" by (auto simp: commit_frame_def)
  obtain g1 r where r: "try_then (now_unix_ms g) (\<lambda>now g1. in_store (store_append_frame m (th_next_offset h) payload
      (if py_len (th_records h) \<ge> gs_max_frames g then map_option sf_offset (py_index (th_records h) 0) else None)
      (gs_capacity g1) d1 (Some now)) g1) = (g1, r)" by fastforce
  show ?thesis
  proof (cases r)
    case (Inl e1)
    with stored_call [OF r commits_keep_on_failure(1)] have "core g1 = core g" by simp
    moreover from assms \<open>\<not> Option.is_none (gs_store g)\<close> r Inl
    have "undo_admission d0 e1 g1 = (g', Inl e :: unit gw_result)" by (simp add: commit_frame_def Let_def)
    then have "core g' = core g1" using core_undo [of d0 e1 g1, where ?'a = unit] by simp
    ultimately show ?thesis by simp
  next
    case (Inr x)
    with assms \<open>\<not> Option.is_none (gs_store g)\<close> r show ?thesis by (simp add: commit_frame_def Let_def)
  qed
qed

lemma commit_frame_done:
  assumes "commit_frame m payload h d0 d1 g = (g', Inr ())"
  shows "gs_topics g' = gs_topics g \<and> gs_consumers g' = gs_consumers g \<and> limits g' = limits g \<and>
    (case gs_store g of None \<Rightarrow> gs_store g' = None
     | Some s \<Rightarrow> \<exists>t. gs_store g' = Some t \<and> tables_of t = tables (append_rows m (th_next_offset h) payload
         (if py_len (th_records h) \<ge> gs_max_frames g then map_option sf_offset (py_index (th_records h) 0) else None)
         (gs_capacity g) (st_db s)))"
proof (cases "gs_store g")
  case None
  with assms show ?thesis by (auto simp: commit_frame_def)
next
  case (Some s)
  obtain g1 r where r: "try_then (now_unix_ms g) (\<lambda>now g1. in_store (store_append_frame m (th_next_offset h) payload
      (if py_len (th_records h) \<ge> gs_max_frames g then map_option sf_offset (py_index (th_records h) 0) else None)
      (gs_capacity g1) d1 (Some now)) g1) = (g1, r)" by fastforce
  with assms Some have "r = Inr ()" and g': "core g' = core g1" "gs_store g' = gs_store g1"
    by (auto simp: commit_frame_def Let_def simp: undo_raises split: sum.splits if_splits)
  with stored_call [OF r commits_keep_on_failure(1)] Some obtain t now g2 where
      "core g2 = core g" "g1 = g2\<lparr>gs_store := Some t\<rparr>"
      "store_append_frame m (th_next_offset h) payload
        (if py_len (th_records h) \<ge> gs_max_frames g then map_option sf_offset (py_index (th_records h) 0) else None)
        (gs_capacity g2) d1 (Some now) s = (t, Inr ())"
    by auto
  with append_frame_effect(2) Some g' show ?thesis by (auto simp: core_def limits_def)
qed

section \<open>Publishing\<close>

text \<open>The history after one more frame: the oldest record leaves a full history.\<close>

definition new_record :: "topic_history \<Rightarrow> string \<Rightarrow> frame_metadata \<Rightarrow> stored_frame" where
  "new_record h payload m = \<lparr>sf_offset = th_next_offset h, sf_payload = payload, sf_metadata = m\<rparr>"

definition push_record :: "int \<Rightarrow> frame_metadata \<Rightarrow> string \<Rightarrow> topic_history \<Rightarrow> stored_frame list" where
  "push_record n m payload h =
     (if py_len (th_records h) \<ge> n then tl (th_records h) else th_records h) @ [new_record h payload m]"

lemma pop_front_short: "py_len xs \<le> n \<Longrightarrow> fst (pop_front n xs) = xs"
  by (cases xs) simp_all

lemma pop_front_push:
  assumes "history_ok b n k h" "0 < n"
  shows "fst (pop_front n (th_records h @ [x])) =
    (if py_len (th_records h) \<ge> n then tl (th_records h) else th_records h) @ [x]"
proof (cases "py_len (th_records h) \<ge> n")
  case True
  with assms obtain y ys where ys: "th_records h = y # ys" by (cases "th_records h") auto
  from assms(1) ys have "py_len (ys @ [x]) \<le> n" by (simp add: history_ok_def)
  then have "fst (pop_front n (ys @ [x])) = ys @ [x]" by (rule pop_front_short)
  with True ys show ?thesis by (cases "pop_front n (ys @ [x])") simp
next
  case False
  then show ?thesis by (simp add: pop_front_short)
qed

lemma push_history_ok:
  assumes ok: "history_ok b n k h" and n: "0 < n"
    and m: "parse_data_frame payload b = Inr m" "stream_key m = k"
    and h': "th_records h' = push_record n m payload h" "th_next_offset h' = th_next_offset h + 1"
  shows "history_ok b n k h'"
proof (cases "py_len (th_records h) \<ge> n")
  case True
  with ok n obtain y ys where ys: "th_records h = y # ys" by (cases "th_records h") auto
  have len: "py_len (th_records h) = n" "n \<le> th_next_offset h" using ok True by (auto simp: history_ok_def)
  have "[th_next_offset h - n..th_next_offset h - 1] =
      (th_next_offset h - n) # [th_next_offset h - n + 1..th_next_offset h - 1]"
    using n by (intro upto_rec1) simp
  moreover have "map sf_offset (th_records h) = [th_next_offset h - n..th_next_offset h - 1]"
    using ok len by (simp add: history_ok_def)
  ultimately have "map sf_offset ys = [th_next_offset h + 1 - n..th_next_offset h - 1]"
    by (simp add: ys algebra_simps)
  moreover have "[th_next_offset h + 1 - n..th_next_offset h] =
      [th_next_offset h + 1 - n..th_next_offset h - 1] @ [th_next_offset h]"
    using n by (intro upto_rec2) simp
  ultimately show ?thesis using ok m h' True ys len
    by (auto simp: history_ok_def push_record_def new_record_def record_ok_def)
next
  case False
  with ok have len: "py_len (th_records h) = th_next_offset h" by (auto simp: history_ok_def min_def split: if_splits)
  then have "0 \<le> th_next_offset h" by (metis py_len_nonneg)
  then have "[0..th_next_offset h] = [0..th_next_offset h - 1] @ [th_next_offset h]" by (intro upto_rec2)
  with ok m h' False len show ?thesis
    by (auto simp: history_ok_def push_record_def new_record_def record_ok_def)
qed

text \<open>The rows after the append are those of the pushed history.\<close>

lemma push_rows:
  assumes ok: "history_ok b n k h" and n: "0 < n" and k: "stream_key m = k"
    and rows: "filter (\<lambda>r. frame_stream r = k) rows = map row_of_record (th_records h)"
    and evict: "evict = (if py_len (th_records h) \<ge> n then map_option sf_offset (py_index (th_records h) 0) else None)"
  shows "filter (\<lambda>r. frame_stream r = k) (filter (\<lambda>r. case evict of None \<Rightarrow> True
      | Some off \<Rightarrow> frame_pk r \<noteq> (fm_domain_id m, fm_topic m, off)) (rows @ [frame_row_of m (th_next_offset h) payload]))
    = map row_of_record (push_record n m payload h)"
proof -
  let ?keep = "\<lambda>r. case evict of None \<Rightarrow> True | Some off \<Rightarrow> frame_pk r \<noteq> (fm_domain_id m, fm_topic m, off)"
  let ?new = "frame_row_of m (th_next_offset h) payload"
  have new: "frame_stream ?new = k" "row_of_record (new_record h payload m) = ?new"
    using k by (simp_all add: frame_stream_def frame_row_of_def stream_key_def row_of_record_def new_record_def)
  have "filter (\<lambda>r. frame_stream r = k) (filter ?keep (rows @ [?new])) =
      filter ?keep (map row_of_record (th_records h) @ [?new])"
    using new(1) by (simp add: rows [symmetric] filter_filter conj_commute)
  also have "\<dots> = map row_of_record (push_record n m payload h)"
  proof (cases "py_len (th_records h) \<ge> n")
    case True
    with n obtain y ys where ys: "th_records h = y # ys" by (cases "th_records h") auto
    from True ys evict have ev: "evict = Some (sf_offset y)" by (simp add: py_index_def)
    have "distinct (map sf_offset (th_records h))" using ok by (simp add: history_ok_def)
    moreover have "sf_offset y < th_next_offset h" by (rule offsets_of_ok(2) [OF ok]) (simp add: ys)
    ultimately have "\<forall>x \<in> set ys. sf_offset x \<noteq> sf_offset y" "sf_offset y \<noteq> th_next_offset h"
      by (auto simp: ys image_iff)
    moreover have "frame_pk (row_of_record x) = (fst k, snd k, sf_offset x)" if "x \<in> set (th_records h)" for x
      using history_records_ok [OF ok] that
      by (auto simp: frame_pk_def row_of_record_def frame_row_of_def record_ok_def stream_key_def)
    moreover have "frame_pk ?new = (fst k, snd k, th_next_offset h)"
      using k by (auto simp: frame_pk_def frame_row_of_def stream_key_def)
    moreover have "k = (fm_domain_id m, fm_topic m)" using k by (simp add: stream_key_def)
    ultimately have "filter ?keep (map row_of_record ys) = map row_of_record ys" "\<not> ?keep (row_of_record y)" "?keep ?new"
      by (auto simp: ev ys intro!: filter_True)
    then show ?thesis using True new(2) by (simp add: push_record_def ys)
  next
    case False
    then show ?thesis using new(2) evict by (simp add: push_record_def)
  qed
  finally show ?thesis .
qed

lemma push_other_rows:
  assumes "k \<noteq> stream_key m"
  shows "filter (\<lambda>r. frame_stream r = k) (filter (\<lambda>r. case evict of None \<Rightarrow> True
      | Some off \<Rightarrow> frame_pk r \<noteq> (fm_domain_id m, fm_topic m, off)) (rows @ [frame_row_of m off' payload]))
    = filter (\<lambda>r. frame_stream r = k) rows"
proof -
  have "frame_stream (frame_row_of m off' payload) \<noteq> k"
    using assms by (simp add: frame_stream_def frame_row_of_def stream_key_def)
  moreover have "frame_pk r \<noteq> (fm_domain_id m, fm_topic m, off)" if "frame_stream r = k" for r off
    using assms that by (auto simp: frame_stream_def frame_pk_def stream_key_def)
  ultimately show ?thesis
    by (auto simp: filter_filter intro!: filter_cong split: option.split)
qed

lemma quiet_topics:
  assumes "same_frames (gs_topics g) ts" "distinct (map fst (gs_topics g)) \<Longrightarrow> distinct (map fst ts)"
  shows "quiet g (g\<lparr>gs_topics := ts\<rparr>)"
proof -
  have ok: "history_ok b n k (history_of ts k) = history_ok b n k (history_of (gs_topics g) k)" for b n k
    using assms(1) by (simp add: history_ok_def same_frames_def)
  have rows: "rows_match (gs_topics g) rows = rows_match ts rows" for rows
    using assms(1) by (simp add: rows_match_def same_frames_def)
  have hists: "histories_ok b n ts" if "histories_ok b n (gs_topics g)" for b n
    using that assms(2) by (simp add: histories_ok_def ok)
  have "good (g\<lparr>gs_topics := ts\<rparr>)" if good: "good g"
    using good hists rows by (simp add: good_def agrees_def)
  then show ?thesis using assms(1) by (simp add: quiet_def limits_def)
qed

lemma quiet_with_history:
  assumes "\<And>h. th_records (f h) = th_records h \<and> th_next_offset (f h) = th_next_offset h"
  shows "quiet g (g\<lparr>gs_topics := with_history k f (gs_topics g)\<rparr>)"
  by (rule quiet_topics) (simp_all add: same_frames_def assms)

text \<open>One more frame in its stream, everything else as it was.\<close>

definition pushed :: "frame_metadata \<Rightarrow> string \<Rightarrow> gateway \<Rightarrow> gateway \<Rightarrow> bool" where
  "pushed m payload g g' \<longleftrightarrow>
     good g' \<and> gs_consumers g' = gs_consumers g \<and> limits g' = limits g \<and>
     (\<forall>k. let h = history_of (gs_topics g) k; h' = history_of (gs_topics g') k
          in if k = stream_key m
             then th_records h' = push_record (gs_max_frames g) m payload h \<and>
                  th_next_offset h' = th_next_offset h + 1
             else th_records h' = th_records h \<and> th_next_offset h' = th_next_offset h)"

lemma quiet_pushed:
  assumes "quiet g h" "pushed m payload h g'"
  shows "pushed m payload g g'"
  using assms by (auto simp: quiet_def pushed_def same_frames_def limits_def push_record_def new_record_def Let_def)

lemma store_record_topics:
  "gs_topics (store_record m payload g) = with_history (stream_key m)
     (\<lambda>h. h\<lparr>th_next_offset := th_next_offset h + 1,
           th_records := fst (pop_front (gs_max_frames g)
              (th_records (history_of (gs_topics g) (stream_key m)) @ [new_record (history_of (gs_topics g) (stream_key m)) payload m])),
           th_recent_keys := fst (pop_front (gs_capacity g)
              (key_add (dedup_key m) (th_recent_keys (history_of (gs_topics g) (stream_key m)))))\<rparr>) (gs_topics g)"
  "gs_consumers (store_record m payload g) = gs_consumers g" "limits (store_record m payload g) = limits g"
  "gs_store (store_record m payload g) = gs_store g"
  by (simp_all add: store_record_def Let_def new_record_def metric_add_def limits_def split: prod.split)

lemma commit_and_store:
  assumes good: "good g" and m: "parse_data_frame payload (gs_max_bytes g) = Inr m"
    and commit: "commit_frame m payload (history_of (gs_topics g) (stream_key m)) d0 d1 g = (g3, Inr ())"
  shows "pushed m payload g (store_record m payload g3)"
proof -
  let ?k = "stream_key m" and ?n = "gs_max_frames g"
  let ?h = "history_of (gs_topics g) ?k"
  let ?g' = "store_record m payload g3"
  from commit_frame_done [OF commit] have same: "gs_topics g3 = gs_topics g" "gs_consumers g3 = gs_consumers g"
      "gs_max_frames g3 = ?n" "gs_max_bytes g3 = gs_max_bytes g" "gs_capacity g3 = gs_capacity g"
    by (auto simp: limits_def)
  have lims: "gs_consumers ?g' = gs_consumers g" "gs_max_frames ?g' = ?n" "gs_max_bytes ?g' = gs_max_bytes g"
      "gs_capacity ?g' = gs_capacity g" "gs_store ?g' = gs_store g3"
    using store_record_topics(2,3,4) [of m payload g3] same by (auto simp: limits_def)
  from good have n: "0 < ?n" and ok: "history_ok (gs_max_bytes g) ?n k (history_of (gs_topics g) k)" for k
    by (simp_all add: good_def histories_ok_def)
  have pushed: "th_records (history_of (gs_topics ?g') k) =
        (if k = ?k then push_record ?n m payload ?h else th_records (history_of (gs_topics g) k))"
      "th_next_offset (history_of (gs_topics ?g') k) =
        th_next_offset (history_of (gs_topics g) k) + (if k = ?k then 1 else 0)" for k
    using pop_front_push [OF ok n, of ?k "new_record ?h payload m"]
    by (auto simp: store_record_topics same push_record_def)
  have hists: "histories_ok (gs_max_bytes g) ?n (gs_topics ?g')"
    unfolding histories_ok_def
  proof (intro conjI allI)
    show "distinct (map fst (gs_topics ?g'))"
      using good by (simp add: store_record_topics same good_def histories_ok_def)
    show "history_ok (gs_max_bytes g) ?n k (history_of (gs_topics ?g') k)" for k
    proof (cases "k = ?k")
      case True
      show ?thesis by (rule push_history_ok [OF ok n m]) (simp_all add: True pushed)
    next
      case False
      with ok [of k] pushed [of k] show ?thesis by (simp add: history_ok_def)
    qed
  qed
  have "good ?g'"
    unfolding good_def lims
  proof (intro conjI allI impI)
    fix t assume t: "gs_store g3 = Some t"
    with commit_frame_done [OF commit] obtain s where s: "gs_store g = Some s"
      by (auto split: option.splits)
    with commit_frame_done [OF commit] t have "tables_of t = tables (append_rows m (th_next_offset ?h) payload
         (if py_len (th_records ?h) \<ge> ?n then map_option sf_offset (py_index (th_records ?h) 0) else None)
         (gs_capacity g) (st_db s))"
      by auto
    moreover define db where "db = append_rows m (th_next_offset ?h) payload
         (if py_len (th_records ?h) \<ge> ?n then map_option sf_offset (py_index (th_records ?h) 0) else None)
         (gs_capacity g) (st_db s)"
    ultimately have tabs: "tables_of t = tables db" by simp
    from good s have old: "agrees (gs_max_bytes g) ?n (gs_capacity g) (gs_topics g) (st_db s)"
        "db_cursors (st_db s) = gs_consumers g" by (simp_all add: good_def)
    have match: "filter (\<lambda>r. frame_stream r = k) (db_frames (st_db s)) = map row_of_record (th_records (history_of (gs_topics g) k))" for k
      using old(1) unfolding agrees_def rows_match_def by blast
    have "rows_match (gs_topics ?g') (db_frames db)"
      unfolding rows_match_def db_def append_rows_fields
    proof (rule allI)
      fix k
      show "filter (\<lambda>r. frame_stream r = k) (filter (\<lambda>r. case (if py_len (th_records ?h) \<ge> ?n
            then map_option sf_offset (py_index (th_records ?h) 0) else None) of None \<Rightarrow> True
          | Some off \<Rightarrow> frame_pk r \<noteq> (fm_domain_id m, fm_topic m, off))
          (db_frames (st_db s) @ [frame_row_of m (th_next_offset ?h) payload]))
        = map row_of_record (th_records (history_of (gs_topics ?g') k))"
      proof (cases "k = ?k")
        case True
        show ?thesis unfolding pushed(1) True using push_rows [OF ok n refl match refl] by simp
      next
        case False
        show ?thesis using push_other_rows [OF False] match [of k] pushed(1) [of k] False by simp
      qed
    qed
    moreover have "keys_ok (gs_capacity g) db"
      unfolding db_def using old(1) by (intro keys_ok_append) (simp add: agrees_def)
    moreover have "db_cursors db = gs_consumers g" using old(2) by (simp add: db_def)
    moreover have "db_cursors (st_db t) = db_cursors db" using tabs by (simp add: tables_def)
    ultimately have "agrees (gs_max_bytes g) ?n (gs_capacity g) (gs_topics ?g') db" "db_cursors (st_db t) = gs_consumers g"
      using hists old good by (simp_all add: agrees_def good_def)
    then show "agrees (gs_max_bytes g) ?n (gs_capacity g) (gs_topics ?g') (st_db t)"
        "db_cursors (st_db t) = gs_consumers g"
      using agrees_tables [OF tabs] by simp_all
  qed (use good hists in \<open>simp_all add: good_def\<close>)
  with lims pushed show ?thesis by (simp add: pushed_def limits_def)
qed

definition publish_effect :: "string \<Rightarrow> gateway \<Rightarrow> gateway \<times> publish_result gw_result \<Rightarrow> bool" where
  "publish_effect payload g r \<longleftrightarrow>
     (case snd r of
        Inl _ \<Rightarrow> quiet g (fst r)
      | Inr p \<Rightarrow>
          if pr_accepted p
          then pushed (pr_metadata p) payload g (fst r) \<and>
               parse_data_frame payload (gs_max_bytes g) = Inr (pr_metadata p) \<and>
               pr_offset p = th_next_offset (history_of (gs_topics g) (stream_key (pr_metadata p)))
          else quiet g (fst r))"

lemma publish_new:
  assumes good: "good g" and m: "parse_data_frame payload (gs_max_bytes g) = Inr m"
    and admit: "admit_frame m g = (g1, Inr (action, d0, d1))"
  defines "g2 \<equiv> g1\<lparr>gs_topics := with_history (stream_key m) id (gs_topics g1)\<rparr>"
  defines "h \<equiv> history_of (gs_topics g2) (stream_key m)"
  shows "publish_effect payload g (try_then (commit_frame m payload h d0 d1 g2) (\<lambda>_ g3.
           (store_record m payload g3,
            Inr \<lparr>pr_accepted = True, pr_duplicate = False, pr_offset = th_next_offset h,
                 pr_metadata = m, pr_admission_action = action\<rparr>)))"
proof -
  have "core g1 = core g" using core_admit [of m g] admit by simp
  then have quiet1: "quiet g g1" by (rule quiet_core)
  have "quiet g1 g2" unfolding g2_def by (rule quiet_with_history) simp
  with quiet1 have quiet: "quiet g g2" by (rule transpD [OF quiet_trans])
  have bytes: "gs_max_bytes g2 = gs_max_bytes g" and good2: "good g2" using quiet good
    by (simp_all add: quiet_def limits_def)
  obtain g3 r where r: "commit_frame m payload h d0 d1 g2 = (g3, r)" by fastforce
  show ?thesis
  proof (cases r)
    case (Inl e)
    with r commit_frame_failed [of m payload h d0 d1 g2 g3 e] quiet have "quiet g g3"
      by (simp add: quiet_then_core)
    with r Inl show ?thesis by (simp add: publish_effect_def)
  next
    case (Inr u)
    with r have "commit_frame m payload h d0 d1 g2 = (g3, Inr ())" by simp
    with good2 m have "pushed m payload g2 (store_record m payload g3)"
      unfolding h_def by (intro commit_and_store) (simp_all add: bytes)
    with quiet have "pushed m payload g (store_record m payload g3)" by (rule quiet_pushed)
    moreover have "th_next_offset h = th_next_offset (history_of (gs_topics g) (stream_key m))"
      using quiet by (simp add: h_def quiet_def same_frames_def)
    ultimately show ?thesis using r Inr m by (simp add: publish_effect_def)
  qed
qed

lemma publish_effect: "good g \<Longrightarrow> publish_effect payload g (publish payload d t g)"
proof -
  assume good: "good g"
  show ?thesis
  proof (cases "parse_data_frame payload (gs_max_bytes g)")
    case (Inl e)
    then show ?thesis by (simp add: publish_def publish_effect_def)
  next
    case (Inr m)
    note m = Inr
    consider e where "check_expected m d t = Inl e" | "check_expected m d t = Inr ()" "is_duplicate m g"
      | "check_expected m d t = Inr ()" "\<not> is_duplicate m g" by (cases "check_expected m d t") auto
    then show ?thesis
    proof cases
      case 1
      with m show ?thesis by (simp add: publish_def publish_effect_def)
    next
      case 2
      have "quiet g (fst (answer_duplicate m g))"
        unfolding answer_duplicate_def fst_conv
        by (rule quiet_then_core [OF quiet_with_history]) simp_all
      moreover have "\<exists>p. snd (answer_duplicate m g) = Inr p \<and> \<not> pr_accepted p"
        by (simp add: answer_duplicate_def)
      ultimately show ?thesis using m 2 by (auto simp: publish_def publish_effect_def)
    next
      case 3
      obtain g1 r where r: "admit_frame m g = (g1, r)" by fastforce
      show ?thesis
      proof (cases r)
        case (Inl e)
        have "core g1 = core g" using core_admit [of m g] r by simp
        then have "quiet g g1" by (rule quiet_core)
        with m 3 r Inl show ?thesis by (simp add: publish_def publish_effect_def)
      next
        case (Inr x)
        obtain action d0 d1 where "x = (action, d0, d1)" by (cases x) auto
        with m 3 r Inr publish_new [OF good m, of g1 action d0 d1] show ?thesis
          by (simp add: publish_def Let_def)
      qed
    qed
  qed
qed

section \<open>Taking\<close>

lemma commit_cursor_failed:
  assumes "commit_cursor k n g = (g', Inl e)"
  shows "core g' = core g"
proof -
  from assms have "\<not> Option.is_none (gs_store g)" by (auto simp: commit_cursor_def)
  obtain g1 r where r: "try_then (now_unix_ms g) (\<lambda>now g1. in_store (store_set_cursor k n (Some now)) g1) = (g1, r)"
    by fastforce
  with assms \<open>\<not> Option.is_none (gs_store g)\<close> have "r = Inl e" "core g' = core g1"
    by (auto simp: commit_cursor_def split: sum.splits if_splits)
  with stored_call [OF r commits_keep_on_failure(2)] show ?thesis by simp
qed

lemma commit_cursor_done:
  assumes "commit_cursor k n g = (g', Inr ())"
  shows "gs_topics g' = gs_topics g \<and> gs_consumers g' = gs_consumers g \<and> limits g' = limits g \<and>
    (case gs_store g of None \<Rightarrow> gs_store g' = None
     | Some s \<Rightarrow> \<exists>t. gs_store g' = Some t \<and>
         st_db t = (st_db s)\<lparr>db_cursors := AList.update k n (db_cursors (st_db s))\<rparr>)"
proof (cases "gs_store g")
  case None
  with assms show ?thesis by (auto simp: commit_cursor_def)
next
  case (Some s)
  obtain g1 r where r: "try_then (now_unix_ms g) (\<lambda>now g1. in_store (store_set_cursor k n (Some now)) g1) = (g1, r)"
    by fastforce
  with assms Some have "r = Inr ()" and g': "core g' = core g1" "gs_store g' = gs_store g1"
    by (auto simp: commit_cursor_def split: sum.splits)
  with stored_call [OF r commits_keep_on_failure(2)] Some obtain t now g2 where
      "core g2 = core g" "g1 = g2\<lparr>gs_store := Some t\<rparr>" "store_set_cursor k n (Some now) s = (t, Inr ())"
    by auto
  with set_cursor_effect(2) Some g' show ?thesis by (auto simp: core_def limits_def)
qed

definition cursor_of :: "gateway \<Rightarrow> obs_key \<Rightarrow> int" where
  "cursor_of g k = (case map_of (gs_consumers g) k of None \<Rightarrow> 0 | Some n \<Rightarrow> n)"

text \<open>The cursor of one consumer moved, everything else as it was.\<close>

definition moved :: "obs_key \<Rightarrow> int \<Rightarrow> gateway \<Rightarrow> gateway \<Rightarrow> bool" where
  "moved k n g g' \<longleftrightarrow>
     good g' \<and> gs_topics g' = gs_topics g \<and> limits g' = limits g \<and>
     (\<forall>j. cursor_of g' j = (if j = k then n else cursor_of g j))"

lemma cursor_set:
  assumes good: "good g" and n: "0 \<le> n" and commit: "commit_cursor k n g = (g', Inr ())"
    and same: "gs_topics g2 = gs_topics g'" "gs_consumers g2 = AList.update k n (gs_consumers g')"
      "limits g2 = limits g'" "gs_store g2 = gs_store g'"
  shows "moved k n g g2"
proof -
  from commit_cursor_done [OF commit] have c: "gs_topics g' = gs_topics g" "gs_consumers g' = gs_consumers g"
      "limits g' = limits g" by simp_all
  have lims: "gs_max_frames g2 = gs_max_frames g" "gs_max_bytes g2 = gs_max_bytes g" "gs_capacity g2 = gs_capacity g"
    using same(3) c(3) by (simp_all add: limits_def)
  have consumers: "\<forall>e \<in> set (AList.update k n (gs_consumers g)). 0 \<le> snd e"
    using good n by (auto simp: good_def dest!: set_update_sub [THEN subsetD])
  have "good g2"
    unfolding good_def lims
  proof (intro conjI allI impI)
    fix t assume t: "gs_store g2 = Some t"
    with same(4) commit_cursor_done [OF commit] obtain s where s: "gs_store g = Some s"
        "st_db t = (st_db s)\<lparr>db_cursors := AList.update k n (db_cursors (st_db s))\<rparr>"
      by (auto split: option.splits)
    from good s(1) have "agrees (gs_max_bytes g) (gs_max_frames g) (gs_capacity g) (gs_topics g) (st_db s)"
        "db_cursors (st_db s) = gs_consumers g" by (simp_all add: good_def)
    with s(2) consumers c same(1,2) show
        "agrees (gs_max_bytes g) (gs_max_frames g) (gs_capacity g) (gs_topics g2) (st_db t)"
        "db_cursors (st_db t) = gs_consumers g2"
      by (simp_all add: agrees_def keys_ok_def)
  qed (use good consumers c same in \<open>simp_all add: good_def\<close>)
  then show ?thesis using same c by (simp add: moved_def cursor_of_def update_conv')
qed

lemma base_offset_ok: "history_ok b n k h \<Longrightarrow> base_offset h = th_next_offset h - py_len (th_records h)"
proof (cases "th_records h")
  case (Cons x xs)
  assume "history_ok b n k h"
  then have "map sf_offset (th_records h) = [th_next_offset h - py_len (th_records h)..th_next_offset h - 1]"
    by (simp add: history_ok_def)
  moreover have "0 < py_len (th_records h)" by (simp add: Cons py_len_def)
  moreover from this have "[th_next_offset h - py_len (th_records h)..th_next_offset h - 1] =
      (th_next_offset h - py_len (th_records h)) # [th_next_offset h - py_len (th_records h) + 1..th_next_offset h - 1]"
    by (intro upto_rec1) simp
  ultimately show ?thesis by (simp add: Cons base_offset_def)
qed (simp add: base_offset_def)

lemma next_record_ok:
  assumes offsets: "map sf_offset xs = [b..c]" and i: "b \<le> i" "i \<le> c"
  obtains x where "find (\<lambda>r. \<not> sf_offset r < i) xs = Some x" "x \<in> set xs" "sf_offset x = i"
  using assms
proof (induction xs arbitrary: b thesis)
  case Nil
  then show ?case by simp
next
  case (Cons x xs)
  from Cons.prems(3,4) have "[b..c] = b # [b + 1..c]" by (intro upto_rec1) simp
  with Cons.prems(2) have x: "sf_offset x = b" "map sf_offset xs = [b + 1..c]" by simp_all
  show ?case
  proof (cases "i = b")
    case True
    with x(1) show ?thesis by (intro Cons.prems(1) [of x]) simp_all
  next
    case False
    with Cons.prems(3) have "b + 1 \<le> i" by simp
    from Cons.IH [OF _ x(2) this Cons.prems(4)] obtain y where
        "find (\<lambda>r. \<not> sf_offset r < i) xs = Some y" "y \<in> set xs" "sf_offset y = i" by blast
    with x(1) \<open>b + 1 \<le> i\<close> show ?thesis by (intro Cons.prems(1) [of y]) simp_all
  qed
qed

lemma no_next_record:
  assumes "\<forall>x \<in> set xs. sf_offset x < i"
  shows "find (\<lambda>r. \<not> sf_offset r < i) xs = None"
  using assms by (auto simp: find_None_iff)

text \<open>What taking does: the position read is the cursor, or the oldest retained frame when the
  cursor is behind it.\<close>

definition position :: "gateway \<Rightarrow> obs_key \<Rightarrow> int" where
  "position g k = max (cursor_of g k) (base_offset (history_of (gs_topics g) (fst k, fst (snd k))))"

definition take_effect :: "obs_key \<Rightarrow> gateway \<Rightarrow> gateway \<times> string option gw_result \<Rightarrow> bool" where
  "take_effect k g r \<longleftrightarrow>
     (let h = history_of (gs_topics g) (fst k, fst (snd k)); i = position g k
      in case snd r of
           Inl _ \<Rightarrow> quiet g (fst r)
         | Inr None \<Rightarrow> th_next_offset h \<le> i \<and> moved k i g (fst r)
         | Inr (Some p) \<Rightarrow> (\<exists>x \<in> set (th_records h). sf_offset x = i \<and> sf_payload x = p) \<and>
             moved k (i + 1) g (fst r))"

lemma metric_fields [simp]:
  "gs_topics (metric_add name n g) = gs_topics g" "gs_consumers (metric_add name n g) = gs_consumers g"
  "limits (metric_add name n g) = limits g"
  by (simp_all add: metric_add_def limits_def)

lemma consumer_fields [simp]:
  "gs_topics (set_consumer k n g) = gs_topics g" "gs_consumers (set_consumer k n g) = AList.update k n (gs_consumers g)"
  "limits (set_consumer k n g) = limits g" "gs_store (set_consumer k n g) = gs_store g"
  by (simp_all add: set_consumer_def limits_def)

lemma good_metric: "good g \<Longrightarrow> good (metric_add name n g)"
  by (rule good_core) simp_all

lemma moved_metric: "moved k n (metric_add name i g) g' = moved k n g g'"
  by (simp add: moved_def cursor_of_def)

text \<open>Committing the cursor and then setting it.\<close>

lemma commit_then_set:
  assumes good: "good g" and n: "0 \<le> n"
  shows "case commit_cursor k n g of (g1, Inl e) \<Rightarrow> core g1 = core g
    | (g1, Inr _) \<Rightarrow> moved k n g (metric_add name 1 (set_consumer k n g1))"
proof -
  obtain g1 r where r: "commit_cursor k n g = (g1, r)" by fastforce
  show ?thesis
  proof (cases r)
    case (Inl e)
    with r commit_cursor_failed [of k n g g1 e] show ?thesis by simp
  next
    case (Inr u)
    with r have "commit_cursor k n g = (g1, Inr ())" by simp
    from cursor_set [OF good n this, of "metric_add name 1 (set_consumer k n g1)"]
    have "moved k n g (metric_add name 1 (set_consumer k n g1))"
      by simp
    with r Inr show ?thesis by simp
  qed
qed

lemma take_from_effect:
  assumes good: "good g" and present: "map_of (gs_topics g) (fst k, fst (snd k)) = Some h"
  shows "take_effect k g (take_from k h g)"
proof -
  have h: "history_of (gs_topics g) (fst k, fst (snd k)) = h" using present by (simp add: history_of_def)
  from good have n: "0 < gs_max_frames g"
    and ok: "history_ok (gs_max_bytes g) (gs_max_frames g) (fst k, fst (snd k)) h"
    unfolding h [symmetric] by (simp_all add: good_def histories_ok_def)
  have base: "0 \<le> base_offset h" "base_offset h = th_next_offset h - py_len (th_records h)"
    using base_offset_ok [OF ok] ok n py_len_nonneg [of "th_records h"] by (auto simp: history_ok_def)
  define stored where "stored = (case map_of (gs_consumers g) k of None \<Rightarrow> base_offset h | Some n \<Rightarrow> n)"
  define g0 where "g0 = (if stored < base_offset h then metric_add ''consumer_overruns'' 1 g else g)"
  have i: "(if stored < base_offset h then base_offset h else stored) = position g k" "0 \<le> position g k"
    using base(1) by (auto simp: position_def h cursor_of_def stored_def split: option.split)
  have g0: "good g0" "core g0 = core g" "moved k j g0 g' = moved k j g g'" for j g'
    using good by (auto simp: g0_def good_metric moved_metric)
  have from_eq: "take_from k h g = (case next_record h (position g k) of
           Some r \<Rightarrow>
             try_then (commit_cursor k (sf_offset r + 1) g0) (\<lambda>_ g1.
               (metric_add ''dequeued_frames'' 1 (set_consumer k (sf_offset r + 1) g1), Inr (Some (sf_payload r))))
         | None \<Rightarrow>
             let n = max (position g k) (th_next_offset h)
             in try_then (commit_cursor k n g0) (\<lambda>_ g1.
                  (metric_add ''empty_takes'' 1 (set_consumer k n g1), Inr None)))"
    unfolding take_from_def stored_def [symmetric] Let_def i(1) g0_def [symmetric] ..
  have offsets: "map sf_offset (th_records h) = [base_offset h..th_next_offset h - 1]"
    using ok by (simp add: base(2) history_ok_def)
  have lower: "base_offset h \<le> position g k" by (simp add: position_def h)
  show ?thesis
  proof (cases "position g k < th_next_offset h")
    case True
    then have "position g k \<le> th_next_offset h - 1" by simp
    from next_record_ok [OF offsets lower this] obtain x where
        x: "next_record h (position g k) = Some x" "x \<in> set (th_records h)" "sf_offset x = position g k"
      unfolding next_record_def by blast
    have "0 \<le> position g k + 1" using i(2) by simp
    from commit_then_set [OF g0(1) this, of k "''dequeued_frames''"] show ?thesis
      using x g0 by (auto simp: from_eq take_effect_def h Let_def quiet_core split: prod.splits sum.splits)
  next
    case False
    have "\<forall>x \<in> set (th_records h). sf_offset x < position g k"
      using offsets_of_ok(2) [OF ok] False by fastforce
    then have none: "next_record h (position g k) = None" unfolding next_record_def by (rule no_next_record)
    have "max (position g k) (th_next_offset h) = position g k" using False by simp
    with commit_then_set [OF g0(1) i(2), of k "''empty_takes''"] none show ?thesis
      using g0 False by (auto simp: from_eq take_effect_def h Let_def quiet_core split: prod.splits sum.splits)
  qed
qed

lemma take_effect: "good g \<Longrightarrow> take_effect (d, t, c) g (take_frame d t c g)"
proof (cases "map_of (gs_topics g) (d, t)")
  case None
  assume good: "good g"
  have h: "history_of (gs_topics g) (d, t) = new_history" by (simp add: None history_of_def)
  have "0 \<le> cursor_of g (d, t, c)"
  proof (cases "map_of (gs_consumers g) (d, t, c)")
    case (Some n)
    with map_of_SomeD [OF Some] good show ?thesis by (auto simp: cursor_of_def good_def)
  qed (simp add: cursor_of_def)
  then have i: "position g (d, t, c) = cursor_of g (d, t, c)"
    by (simp add: position_def h new_history_def base_offset_def)
  moreover have "moved (d, t, c) (cursor_of g (d, t, c)) g (metric_add ''empty_takes'' 1 g)"
    using good_metric [OF good] by (simp add: moved_def cursor_of_def)
  ultimately show ?thesis using \<open>0 \<le> cursor_of g (d, t, c)\<close>
    by (simp add: take_effect_def take_frame_def None h new_history_def)
next
  case (Some h)
  assume "good g"
  with take_from_effect [of g "(d, t, c)" h] Some show ?thesis by (simp add: take_frame_def)
qed

section \<open>Opening a gateway\<close>

lemma schema_keeps [simp]: "keeps_tables select_schema" "keeps_tables (upsert_schema v)"
  by (auto simp: keeps_tables_def tables_def select_schema_def upsert_schema_def)

lemma check_schema_keeps: "tables_of (fst (check_schema v m s)) = tables_of s"
  by (auto simp: check_schema_def intro!: table_steps execute_keeps_tables split: option.split)

lemma opening_keeps:
  "tables_of (fst (try_then (run_steps (replicate n (execute [] no_op)) s) (\<lambda>_. check_schema v m))) = tables_of s"
  by (rule table_steps) (simp_all add: run_no_ops_keep check_schema_keeps)

lemma open_location_keeps: "tables_of (fst (open_location env location)) = tables (en_db env)"
proof -
  have "tables_of (fst (try_then (execute [] no_op s) (\<lambda>_. transaction
      (\<lambda>s1. try_then (run_steps (replicate n (execute [] no_op)) s1) (\<lambda>_. check_schema v m))))) = tables_of s" for s n v m
    by (rule table_steps) (auto intro!: execute_keeps_tables transaction_keeps opening_keeps)
  moreover have "tables_of (fst (commit_after
      (\<lambda>s. try_then (run_steps (replicate n (execute [] no_op)) s) (\<lambda>_. check_schema v m)) s)) = tables_of s" for s n v m
    by (rule commit_after_keeps) (rule opening_keeps)
  ultimately show ?thesis
    by (simp add: open_location_def open_store_def pg_open_store_def fresh_store_def Let_def)
qed

lemma load_admission_keeps [simp]: "tables_of (fst (store_load_admission fp s)) = tables_of s"
  by (cases "st_backend s"; auto simp: store_load_admission_def sqlite_load_admission_def pg_load_admission_def
      intro!: table_steps execute_keeps_tables transaction_keeps)

lemma core_take_lease [simp]: "core (fst (take_lease g)) = core g"
  by (auto simp: take_lease_def intro!: core_steps core_in_store split: option.split)

lemma core_restore_policy [simp]: "core (fst (restore_policy d n g)) = core g"
  by (auto simp: restore_policy_def intro!: core_steps core_in_store split: option.split py_obj.split)

lemma recover_state_done:
  assumes run: "recover_state g = (g', Inr ())" and s: "gs_store g = Some s"
    and inv: "agrees (gs_max_bytes g) (gs_max_frames g) (gs_capacity g) ts (st_db s)"
    and n: "0 < gs_max_frames g" "gs_max_frames g \<le> gs_capacity g"
  shows "good g' \<and> same_frames ts (gs_topics g') \<and> gs_consumers g' = db_cursors (st_db s) \<and> limits g' = limits g"
proof -
  obtain t x where x: "store_recover (gs_max_bytes g) (gs_max_frames g) (gs_capacity g) s = (t, x)" by fastforce
  define g1 where "g1 = g\<lparr>gs_store := Some t\<rparr>"
  from run s x obtain r where r: "x = Inr r"
    and rest: "try_then (in_store store_snapshot (install_recovered r g1)) (\<lambda>durable. restore_policy durable (rc_frames r))
      = (g', Inr ())"
    by (cases x) (simp_all add: recover_state_def in_store_def g1_def)
  have "reads s (\<lambda>r. same_frames ts (rc_topics r) \<and> distinct (map fst (rc_topics r)) \<and> rc_cursors r = db_cursors (st_db s)) (t, x)"
    using store_recover_reads [OF inv n(1)] n by (simp add: x)
  with r have t: "st_db t = st_db s" and rec: "same_frames ts (rc_topics r)" "distinct (map fst (rc_topics r))"
      "rc_cursors r = db_cursors (st_db s)" by (simp_all add: reads_def)
  have g1: "gs_store (install_recovered r g1) = Some t" "gs_topics (install_recovered r g1) = rc_topics r"
      "gs_consumers (install_recovered r g1) = rc_cursors r" "limits (install_recovered r g1) = limits g"
    by (simp_all add: install_recovered_def g1_def metric_set_def limits_def)
  have hists: "histories_ok (gs_max_bytes g) (gs_max_frames g) (rc_topics r)" and
      rows: "rows_match (rc_topics r) (db_frames (st_db s))"
  proof -
    have "history_ok b n k (history_of (rc_topics r) k) = history_ok b n k (history_of ts k)" for b n k
      using rec(1) by (simp add: history_ok_def same_frames_def)
    with inv rec show "histories_ok (gs_max_bytes g) (gs_max_frames g) (rc_topics r)"
        "rows_match (rc_topics r) (db_frames (st_db s))"
      by (simp_all add: agrees_def histories_ok_def rows_match_def same_frames_def)
  qed
  have "good (install_recovered r g1)"
    using g1 hists rows inv n t rec(3) by (simp add: good_def agrees_def limits_def)
  moreover have "core g' = core (install_recovered r g1)"
  proof -
    have "core (fst (try_then (in_store store_snapshot (install_recovered r g1))
        (\<lambda>durable. restore_policy durable (rc_frames r)))) = core (install_recovered r g1)"
      by (auto intro!: core_steps core_in_store)
    then show ?thesis by (simp add: rest)
  qed
  ultimately have "quiet (install_recovered r g1) g'" "good g'" by (blast intro: quiet_core good_core)+
  with g1 rec show ?thesis by (simp add: quiet_def same_frames_def)
qed

lemma new_gateway_limits:
  assumes "check_gateway_config c = None"
  shows "0 < gs_max_frames (blank_gateway c env)" "gs_max_frames (blank_gateway c env) \<le> gs_capacity (blank_gateway c env)"
  using assms by (auto simp: check_gateway_config_def blank_gateway_def split: if_splits option.splits)

lemma new_gateway_opened:
  assumes run: "new_gateway c env = (g', Inr ())" and path: "gc_durable_path c \<noteq> None"
    and inv: "agrees (gs_max_bytes (blank_gateway c env)) (gs_max_frames (blank_gateway c env))
      (gs_capacity (blank_gateway c env)) ts (en_db env)"
  shows "good g' \<and> same_frames ts (gs_topics g') \<and> gs_consumers g' = db_cursors (en_db env) \<and>
    limits g' = limits (blank_gateway c env)"
proof -
  from run have check: "check_gateway_config c = None"
    by (auto simp: new_gateway_def Let_def split: option.splits)
  from path obtain location where loc: "gc_durable_path c = Some location" by blast
  let ?g = "blank_gateway c env"
  obtain s r where s: "open_location env location = (s, r)" by fastforce
  have tabs: "tables_of s = tables (en_db env)" using open_location_keeps [of env location] by (simp add: s)
  from run check loc s have "r = Inr ()" by (cases r) (simp_all add: new_gateway_def Let_def)
  obtain g1 l where l: "take_lease (?g\<lparr>gs_store := Some s\<rparr>) = (g1, l)" by fastforce
  have c1: "core g1 = core (?g\<lparr>gs_store := Some s\<rparr>)" using core_take_lease [of "?g\<lparr>gs_store := Some s\<rparr>"] by (simp add: l)
  have abandoned: "\<not> (\<exists>h. abandon b e h' = (h, Inr ()))" for b e h'
    by (auto simp: abandon_def split: if_splits prod.splits sum.splits)
  from run check loc s \<open>r = Inr ()\<close> l abandoned have rec: "recover_state g1 = (g', Inr ())"
    by (auto simp: new_gateway_def Let_def split: sum.splits prod.splits)
  from c1 obtain t where t: "gs_store g1 = Some t" "tables_of t = tables_of s" by (auto simp: core_def)
  have lims: "gs_max_frames g1 = gs_max_frames ?g" "gs_max_bytes g1 = gs_max_bytes ?g" "gs_capacity g1 = gs_capacity ?g"
    using c1 by (simp_all add: core_def)
  have tt: "tables_of t = tables (en_db env)" using t(2) tabs by simp
  with inv have "agrees (gs_max_bytes g1) (gs_max_frames g1) (gs_capacity g1) ts (st_db t)"
    by (simp add: lims agrees_tables [OF tt])
  from recover_state_done [OF rec t(1) this] new_gateway_limits [OF check, of env] tt
  show ?thesis by (simp add: lims tables_def limits_def)
qed

lemma agrees_empty: "0 < n \<Longrightarrow> agrees b n cap [] empty_db"
  by (simp add: agrees_def histories_ok_def rows_match_def) (simp add: empty_db_def new_history_def)

lemma new_gateway_good:
  assumes "new_gateway c env = (g', Inr ())" "en_db env = empty_db"
  shows "good g' \<and> (\<forall>k. cursor_of g' k = 0) \<and> same_frames [] (gs_topics g')"
proof -
  from assms(1) have check: "check_gateway_config c = None"
    by (auto simp: new_gateway_def Let_def split: option.splits)
  note lims = new_gateway_limits [OF check, of env]
  show ?thesis
  proof (cases "gc_durable_path c")
    case None
    with assms(1) check have "g' = blank_gateway c env" by (simp add: new_gateway_def Let_def)
    moreover have "good (blank_gateway c env)"
      using lims by (auto simp: good_def histories_ok_def blank_gateway_def)
    ultimately show ?thesis by (simp add: blank_gateway_def cursor_of_def same_frames_def)
  next
    case (Some location)
    with new_gateway_opened [OF assms(1), of "[]"] agrees_empty [OF lims(1)] assms(2)
    show ?thesis by (simp add: cursor_of_def) (simp add: empty_db_def)
  qed
qed

section \<open>Outcomes\<close>

lemma good_outcome:
  assumes good: "good g" and s: "gs_store g = Some s"
    and tabs: "tables_of t = tables (outcome_rows k cap (st_db s))" and known: "k \<in> kr_key ` set (db_dedup (st_db s))"
  shows "good (g\<lparr>gs_store := Some t\<rparr>)"
proof -
  from good s have "agrees (gs_max_bytes g) (gs_max_frames g) (gs_capacity g) (gs_topics g) (st_db s)"
      "db_cursors (st_db s) = gs_consumers g" by (simp_all add: good_def)
  with keys_ok_outcome [OF _ known, of "gs_capacity g" cap]
  have "agrees (gs_max_bytes g) (gs_max_frames g) (gs_capacity g) (gs_topics g) (outcome_rows k cap (st_db s))"
      "db_cursors (outcome_rows k cap (st_db s)) = gs_consumers g" by (simp_all add: agrees_def)
  moreover have "db_cursors (st_db t) = db_cursors (outcome_rows k cap (st_db s))" using tabs by (simp add: tables_def)
  ultimately show ?thesis using good agrees_tables [OF tabs] by (simp add: good_def)
qed

lemma quiet_commit_outcome: "quiet g (fst (commit_outcome k d g))"
proof (cases "gs_store g")
  case None
  then show ?thesis by (simp add: commit_outcome_def)
next
  case (Some s)
  obtain g1 x where x: "in_policy export_durable_state g = (g1, x)" by fastforce
  then have c1: "core g1 = core g" and s1: "gs_store g1 = Some s"
    using core_in_policy [of export_durable_state g] Some
    by (auto simp: in_policy_def split: option.splits prod.splits)
  show ?thesis
  proof (cases x)
    case (Inl e)
    with x Some c1 show ?thesis by (simp add: commit_outcome_def quiet_core)
  next
    case (Inr after)
    obtain g2 r where r: "try_then (now_unix_ms g1) (\<lambda>now g. in_store (store_commit_outcome k (gs_capacity g1) after (Some now)) g)
        = (g2, r)" by fastforce
    have quiet2: "quiet g1 g2"
    proof (cases r)
      case (Inl e)
      with stored_call [OF r commits_keep_on_failure(3)] show ?thesis by (simp add: quiet_core)
    next
      case (Inr new)
      with stored_call [OF r commits_keep_on_failure(3)] s1 obtain t now h where
          h: "core h = core g1" "gs_store h = Some s" "store_commit_outcome k (gs_capacity g1) after (Some now) s = (t, Inr new)"
            "g2 = h\<lparr>gs_store := Some t\<rparr>" by auto
      have "quiet h g2"
      proof (cases new)
        case True
        with commit_outcome_effect(2) [OF h(3)] good_outcome [of h s t k "gs_capacity g1"] h(2,4) show ?thesis
          by (auto simp: quiet_def same_frames_def limits_def)
      next
        case False
        with commit_outcome_effect(2) [OF h(3)] h(2,4) have "core g2 = core h" by (simp add: core_def)
        then show ?thesis by (rule quiet_core)
      qed
      with quiet_core [OF h(1)] show ?thesis by (rule transpD [OF quiet_trans])
    qed
    then have "quiet g g2" using quiet_core [OF c1] transpD [OF quiet_trans] by blast
    moreover have "core (fst (commit_outcome k d g)) = core g2"
    proof (cases r)
      case (Inl e)
      with x Inr r Some show ?thesis by (simp add: commit_outcome_def)
    next
      case (Inr new)
      show ?thesis
      proof (cases new)
        case True
        with x \<open>x = Inr after\<close> r Inr Some show ?thesis by (simp add: commit_outcome_def)
      next
        case False
        have "core (fst (try_then (case d of Some d \<Rightarrow> in_policy (restore_durable_state d) g2 | None \<Rightarrow> (g2, Inr ()))
            (\<lambda>_ g3. (g3, Inr (Some False) :: bool option gw_result)))) = core g2"
          by (auto intro!: core_steps split: option.split)
        with False x \<open>x = Inr after\<close> r Inr Some show ?thesis by (simp add: commit_outcome_def)
      qed
    qed
    ultimately show ?thesis by (rule quiet_then_core)
  qed
qed

lemma quiet_outcome_keys: "quiet g (set_outcome_keys st f g)"
  unfolding set_outcome_keys_def by (rule quiet_with_history) simp

lemma core_count_task [simp]: "core (count_task ok g) = core g"
  by (simp add: count_task_def Let_def split: option.split)

lemma quiet_counted_keys:
  "quiet g (metric_add name n (set_outcome_keys st f g))"
  "quiet g (count_task ok (metric_add name n (set_outcome_keys st f g)))"
  by (rule quiet_then_core [OF quiet_outcome_keys]; simp)+

lemma quiet_new_outcome: "quiet g (fst (record_new_outcome q g))"
proof -
  obtain d t k where q: "oq_key q = (d, t, k)" by (cases "oq_key q") auto
  have "core (fst (if Option.is_none (gs_store g) then (g, Inr None)
                else try_then (in_policy export_durable_state g) (\<lambda>s g1. (g1, Inr (Some s) :: py_dict option gw_result)))) = core g"
    by (auto intro!: core_steps)
  then have export: "quiet g (fst (if Option.is_none (gs_store g) then (g, Inr None)
                else try_then (in_policy export_durable_state g) (\<lambda>s g1. (g1, Inr (Some s) :: py_dict option gw_result))))"
    by (rule quiet_core)
  have applied: "quiet h (fst (apply_outcome q h))" for h by (rule quiet_core) simp
  show ?thesis
    unfolding record_new_outcome_def q prod.case
    by (rule quiet_steps, rule export, rule quiet_steps, rule applied, rule quiet_steps, rule quiet_commit_outcome)
      (simp add: quiet_counted_keys)
qed

lemma quiet_outcome: "quiet g (fst (record_application_outcome doc g))"
  unfolding record_application_outcome_def Let_def
  by (auto simp: quiet_new_outcome quiet_core quiet_counted_keys split: option.split sum.split prod.split)

end
