(* ===== verification/GatewayRuns.thy ===== *)
theory GatewayRuns
  imports GatewayCore "HOL-Library.Sublist"
begin

text \<open>
  The gateway as a set of queues. Calls of the gateway, a restart from its database included, are
  labelled steps; the abstract machine keeps, per stream, the list of everything accepted and, per
  consumer, how far it has read. Every run of the gateway is a run of the queues: accepted frames
  get consecutive offsets, a consumer reads the frame at its cursor, or the oldest frame still
  retained when it has fallen behind, and a restart loses nothing.
\<close>

declare split_paired_All [simp del]

section \<open>Runs of the gateway\<close>

datatype event =
  Accepted "int \<times> string" string int
| Delivered obs_key string
| NothingToTake obs_key
| Reopened
| OtherCall

text \<open>A restart opens, with the same limits, a database whose tables of frames, keys, outcomes and
  cursors are those of the running gateway: after a crash, after closing, or when another process
  takes over. The lease and the admission state may differ.\<close>

inductive gateway_call :: "gateway \<Rightarrow> event \<Rightarrow> gateway \<Rightarrow> bool" where
  call_accepted: "publish payload d t g = (g', Inr p) \<Longrightarrow> pr_accepted p \<Longrightarrow>
     gateway_call g (Accepted (stream_key (pr_metadata p)) payload (pr_offset p)) g'"
| call_not_accepted: "publish payload d t g = (g', Inr p) \<Longrightarrow> \<not> pr_accepted p \<Longrightarrow> gateway_call g OtherCall g'"
| call_refused: "publish payload d t g = (g', Inl e) \<Longrightarrow> gateway_call g OtherCall g'"
| call_delivered: "take_frame d t c g = (g', Inr (Some p)) \<Longrightarrow> gateway_call g (Delivered (d, t, c) p) g'"
| call_nothing: "take_frame d t c g = (g', Inr None) \<Longrightarrow> gateway_call g (NothingToTake (d, t, c)) g'"
| call_take_failed: "take_frame d t c g = (g', Inl e) \<Longrightarrow> gateway_call g OtherCall g'"
| call_outcome: "gateway_call g OtherCall (fst (record_application_outcome doc g))"
| call_renew: "gateway_call g OtherCall (fst (renew_gateway_lease g))"
| call_snapshot: "gateway_call g OtherCall (fst (gateway_snapshot g))"
| call_policy: "gateway_call g OtherCall (fst (in_policy (f :: policy \<Rightarrow> policy \<times> unit gw_result) g))"
| call_scores: "gateway_call g OtherCall (fst (batch_scores ms g))"
| call_count: "gateway_call g OtherCall (metric_add name n g)"
| call_reopen: "gs_store g = Some s \<Longrightarrow> tables (en_db env) = tables (st_db s) \<Longrightarrow>
     gc_durable_path c \<noteq> None \<Longrightarrow> limits (blank_gateway c env) = limits g \<Longrightarrow>
     new_gateway c env = (g', Inr ()) \<Longrightarrow> gateway_call g Reopened g'"

inductive gateway_run :: "gateway \<Rightarrow> event list \<Rightarrow> gateway \<Rightarrow> bool" where
  run_nil: "gateway_run g [] g"
| run_step: "gateway_run g es h \<Longrightarrow> gateway_call h e g' \<Longrightarrow> gateway_run g (es @ [e]) g'"

definition gateway_start :: "gateway \<Rightarrow> bool" where
  "gateway_start g \<longleftrightarrow> (\<exists>c env. en_db env = empty_db \<and> new_gateway c env = (g, Inr ()))"

section \<open>Queues\<close>

record queues =
  qu_log :: "int \<times> string \<Rightarrow> string list"
  qu_cursor :: "obs_key \<Rightarrow> nat"

definition empty_queues :: queues where
  "empty_queues = \<lparr>qu_log = (\<lambda>_. []), qu_cursor = (\<lambda>_. 0)\<rparr>"

abbreviation stream_of :: "obs_key \<Rightarrow> int \<times> string" where
  "stream_of k \<equiv> (fst k, fst (snd k))"

text \<open>Where a consumer reads next: the last \<open>n\<close> frames of a stream are retained.\<close>

definition read_at :: "nat \<Rightarrow> queues \<Rightarrow> obs_key \<Rightarrow> nat" where
  "read_at n q k = max (qu_cursor q k) (length (qu_log q (stream_of k)) - n)"

fun queue_step :: "nat \<Rightarrow> queues \<Rightarrow> event \<Rightarrow> queues option" where
  "queue_step n q (Accepted k p offset) =
     (if offset = int (length (qu_log q k))
      then Some (q\<lparr>qu_log := (qu_log q)(k := qu_log q k @ [p])\<rparr>) else None)"
| "queue_step n q (Delivered k p) =
     (let i = read_at n q k; entries = qu_log q (stream_of k)
      in if i < length entries \<and> entries ! i = p then Some (q\<lparr>qu_cursor := (qu_cursor q)(k := i + 1)\<rparr>) else None)"
| "queue_step n q (NothingToTake k) =
     (if qu_cursor q k = length (qu_log q (stream_of k)) then Some q else None)"
| "queue_step n q Reopened = Some q"
| "queue_step n q OtherCall = Some q"

fun queue_run :: "nat \<Rightarrow> event list \<Rightarrow> queues \<Rightarrow> queues option" where
  "queue_run n [] q = Some q"
| "queue_run n (e # es) q = (case queue_step n q e of None \<Rightarrow> None | Some q' \<Rightarrow> queue_run n es q')"

lemma queue_run_append:
  "queue_run n (es @ fs) q = (case queue_run n es q of None \<Rightarrow> None | Some q' \<Rightarrow> queue_run n fs q')"
  by (induction es arbitrary: q) (auto split: option.split)

text \<open>A gateway stands for queues: offsets count the log, the records are its last frames.\<close>

definition stands_for :: "gateway \<Rightarrow> queues \<Rightarrow> bool" where
  "stands_for g q \<longleftrightarrow>
     good g \<and>
     (\<forall>k. th_next_offset (history_of (gs_topics g) k) = int (length (qu_log q k)) \<and>
          map sf_payload (th_records (history_of (gs_topics g) k)) =
            drop (length (qu_log q k) - nat (gs_max_frames g)) (qu_log q k)) \<and>
     (\<forall>k. cursor_of g k = int (qu_cursor q k) \<and> qu_cursor q k \<le> length (qu_log q (stream_of k)))"

lemma stands_forD:
  assumes "stands_for g q"
  shows "good g" "th_next_offset (history_of (gs_topics g) k) = int (length (qu_log q k))"
    "map sf_payload (th_records (history_of (gs_topics g) k)) =
       drop (length (qu_log q k) - nat (gs_max_frames g)) (qu_log q k)"
    "cursor_of g j = int (qu_cursor q j)" "qu_cursor q j \<le> length (qu_log q (stream_of j))"
    "0 < gs_max_frames g" "history_ok (gs_max_bytes g) (gs_max_frames g) k (history_of (gs_topics g) k)"
  using assms unfolding stands_for_def good_def histories_ok_def by blast+

lemma quiet_stands_for:
  assumes "quiet g g'" "stands_for g q"
  shows "stands_for g' q"
  using assms by (simp add: stands_for_def quiet_def same_frames_def cursor_of_def limits_def)

lemma same_cursors_stands_for:
  assumes "stands_for g q" "good g'" "same_frames (gs_topics g) (gs_topics g')" "gs_consumers g' = gs_consumers g"
    "limits g' = limits g"
  shows "stands_for g' q"
  using assms by (simp add: stands_for_def same_frames_def cursor_of_def limits_def)

lemma pushed_stands_for:
  assumes q: "stands_for g q" and push: "pushed m payload g g'"
  shows "stands_for g' (q\<lparr>qu_log := (qu_log q)(stream_key m := qu_log q (stream_key m) @ [payload])\<rparr>)"
    (is "stands_for g' ?q")
proof -
  let ?k = "stream_key m" and ?n = "gs_max_frames g"
  let ?h = "history_of (gs_topics g)" and ?h' = "history_of (gs_topics g')"
  have push': "good g'" "gs_consumers g' = gs_consumers g" "gs_max_frames g' = ?n"
      "th_records (?h' ?k) = push_record ?n m payload (?h ?k)" "th_next_offset (?h' ?k) = th_next_offset (?h ?k) + 1"
    and other: "k \<noteq> ?k \<Longrightarrow> th_records (?h' k) = th_records (?h k) \<and> th_next_offset (?h' k) = th_next_offset (?h k)" for k
    using push by (simp_all add: pushed_def limits_def Let_def split: if_splits)
  note q' = stands_forD [OF q]
  have len: "py_len (th_records (?h ?k)) = min (int (length (qu_log q ?k))) ?n"
    using q'(7) [of ?k] q'(2) [of ?k] by (simp add: history_ok_def)
  have "map sf_payload (push_record ?n m payload (?h ?k)) =
      drop (length (qu_log q ?k @ [payload]) - nat ?n) (qu_log q ?k @ [payload])"
    using q'(3) [of ?k] q'(6) len
    by (auto simp: push_record_def new_record_def map_tl drop_Suc tl_drop Suc_diff_le nat_le_iff)
  then have records: "map sf_payload (th_records (?h' k)) = drop (length (qu_log ?q k) - nat ?n) (qu_log ?q k)"
      "th_next_offset (?h' k) = int (length (qu_log ?q k))" for k
    using q'(2,3) [of k] q'(2) [of ?k] push'(4,5) other [of k] by (cases "k = ?k"; simp)+
  have cursors: "cursor_of g' k = int (qu_cursor ?q k)" "qu_cursor ?q k \<le> length (qu_log ?q (stream_of k))" for k
    using q'(4,5) [of k] push'(2) by (auto simp: cursor_of_def)
  show ?thesis
    unfolding stands_for_def push'(3) using push'(1) records cursors by blast
qed

lemma position_read_at:
  assumes "stands_for g q"
  shows "position g k = int (read_at (nat (gs_max_frames g)) q k)"
proof -
  note q = stands_forD [OF assms]
  have "base_offset (history_of (gs_topics g) (stream_of k)) =
      int (length (qu_log q (stream_of k))) - min (int (length (qu_log q (stream_of k)))) (gs_max_frames g)"
    using base_offset_ok [OF q(7)] q(2,7) [of "stream_of k"] by (simp add: history_ok_def)
  with q(4) [of k] q(6) show ?thesis by (auto simp: position_def read_at_def min_def of_nat_diff nat_le_iff)
qed

lemma record_at:
  assumes q: "stands_for g q" and x: "x \<in> set (th_records (history_of (gs_topics g) k))"
  shows "0 \<le> sf_offset x \<and> nat (sf_offset x) < length (qu_log q k) \<and> qu_log q k ! nat (sf_offset x) = sf_payload x"
proof -
  let ?xs = "th_records (history_of (gs_topics g) k)" and ?n = "gs_max_frames g"
  note q' = stands_forD [OF q]
  from x obtain j where j: "j < length ?xs" "?xs ! j = x" by (auto simp: in_set_conv_nth)
  have len: "int (length ?xs) = min (int (length (qu_log q k))) ?n"
    using q'(2,7) [of k] by (simp add: history_ok_def py_len_def)
  have "map sf_offset ?xs = [int (length (qu_log q k)) - int (length ?xs)..int (length (qu_log q k)) - 1]"
    using q'(2,7) [of k] by (simp add: history_ok_def py_len_def)
  moreover have "int (length (qu_log q k)) - int (length ?xs) + int j \<le> int (length (qu_log q k)) - 1"
    using j(1) by simp
  ultimately have "map sf_offset ?xs ! j = int (length (qu_log q k)) - int (length ?xs) + int j"
    by (simp only: nth_upto)
  with j have off: "sf_offset x = int (length (qu_log q k)) - int (length ?xs) + int j" by simp
  have "map sf_payload ?xs ! j = qu_log q k ! (length (qu_log q k) - nat ?n + j)"
    unfolding q'(3) using j(1) len q'(6) by (intro nth_drop) auto
  with j have "qu_log q k ! (length (qu_log q k) - nat ?n + j) = sf_payload x" by simp
  moreover have "nat (sf_offset x) = length (qu_log q k) - nat ?n + j"
    using off len q'(6) by auto
  ultimately show ?thesis using off len j(1) by auto
qed

lemma moved_stands_for:
  assumes q: "stands_for g q" and move: "moved k (int n) g g'" and n: "n \<le> length (qu_log q (stream_of k))"
  shows "stands_for g' (q\<lparr>qu_cursor := (qu_cursor q)(k := n)\<rparr>)"
  using stands_forD [OF q] move n by (auto simp: stands_for_def moved_def limits_def)

text \<open>Every call of the gateway is a step of the queues.\<close>

lemma call_simulated:
  assumes q: "stands_for g q" and step: "gateway_call g e g'"
  obtains q' where "queue_step (nat (gs_max_frames g)) q e = Some q'" "stands_for g' q'" "limits g' = limits g"
proof -
  note q' = stands_forD [OF q]
  have quiet: "quiet g g' \<Longrightarrow> e = OtherCall \<Longrightarrow> thesis"
    using quiet_stands_for [OF _ q] by (intro that) (auto simp: quiet_def)
  from step show thesis
  proof cases
    case (call_accepted payload d t p)
    with publish_effect [OF q'(1), of payload d t] have
        "pushed (pr_metadata p) payload g g'" "pr_offset p = th_next_offset (history_of (gs_topics g) (stream_key (pr_metadata p)))"
      by (simp_all add: publish_effect_def)
    with call_accepted(1) pushed_stands_for [OF q] q'(2) show thesis by (intro that) (auto simp: pushed_def)
  next
    case (call_not_accepted payload d t p)
    with publish_effect [OF q'(1), of payload d t] quiet show thesis by (simp add: publish_effect_def)
  next
    case (call_refused payload d t e)
    with publish_effect [OF q'(1), of payload d t] quiet show thesis by (simp add: publish_effect_def)
  next
    case (call_delivered d t c p)
    with take_effect [OF q'(1), of d t c] obtain x where
        x: "x \<in> set (th_records (history_of (gs_topics g) (d, t)))" "sf_offset x = position g (d, t, c)" "sf_payload x = p"
      and move: "moved (d, t, c) (position g (d, t, c) + 1) g g'"
      by (auto simp: take_effect_def Let_def)
    let ?i = "read_at (nat (gs_max_frames g)) q (d, t, c)"
    have i: "position g (d, t, c) = int ?i" by (rule position_read_at [OF q])
    with record_at [OF q x(1)] x(2,3) have at: "?i < length (qu_log q (d, t))" "qu_log q (d, t) ! ?i = p" by simp_all
    from move i have "moved (d, t, c) (int (?i + 1)) g g'" by (simp add: add.commute)
    from moved_stands_for [OF q this] at call_delivered(1) move show thesis
      by (intro that) (auto simp: Let_def moved_def)
  next
    case (call_nothing d t c)
    with take_effect [OF q'(1), of d t c] have none: "th_next_offset (history_of (gs_topics g) (d, t)) \<le> position g (d, t, c)"
        "moved (d, t, c) (position g (d, t, c)) g g'" by (auto simp: take_effect_def Let_def)
    let ?i = "read_at (nat (gs_max_frames g)) q (d, t, c)"
    have i: "position g (d, t, c) = int ?i" by (rule position_read_at [OF q])
    have "length (qu_log q (d, t)) \<le> ?i" using none(1) i q'(2) [of "(d, t)"] by simp
    moreover have "length (qu_log q (d, t)) \<le> length (qu_log q (d, t)) - nat (gs_max_frames g) \<longleftrightarrow> qu_log q (d, t) = []"
      using q'(6) by (cases "qu_log q (d, t)") auto
    ultimately have c: "?i = qu_cursor q (d, t, c)" "qu_cursor q (d, t, c) = length (qu_log q (d, t))"
      using q'(5) [of "(d, t, c)"] by (auto simp: read_at_def le_max_iff_disj)
    with moved_stands_for [OF q, of "(d, t, c)" ?i g'] none(2) i call_nothing(1) show thesis
      by (intro that) (auto simp: fun_upd_idem moved_def)
  next
    case (call_take_failed d t c e)
    with take_effect [OF q'(1), of d t c] quiet show thesis by (simp add: take_effect_def)
  next
    case (call_outcome doc)
    with quiet quiet_outcome show thesis by blast
  next
    case call_renew
    with quiet quiet_core core_renew show thesis by blast
  next
    case call_snapshot
    with quiet quiet_core core_snapshot show thesis by blast
  next
    case (call_policy f)
    with quiet quiet_core core_in_policy show thesis by blast
  next
    case (call_scores ms)
    with quiet quiet_core core_scores show thesis by blast
  next
    case (call_count name n)
    with quiet quiet_core core_updates(1) show thesis by blast
  next
    case (call_reopen s env c)
    from q'(1) call_reopen(2) have inv: "agrees (gs_max_bytes g) (gs_max_frames g) (gs_capacity g) (gs_topics g) (st_db s)"
        "db_cursors (st_db s) = gs_consumers g" by (simp_all add: good_def)
    with call_reopen(3,5) have "agrees (gs_max_bytes (blank_gateway c env)) (gs_max_frames (blank_gateway c env))
        (gs_capacity (blank_gateway c env)) (gs_topics g) (en_db env)"
      by (simp add: agrees_tables [OF call_reopen(3)] limits_def)
    from new_gateway_opened [OF call_reopen(6,4) this] inv(2) call_reopen(3,5)
    have "good g'" "same_frames (gs_topics g) (gs_topics g')" "gs_consumers g' = gs_consumers g" "limits g' = limits g"
      by (simp_all add: tables_def)
    then have "stands_for g' q" by (rule same_cursors_stands_for [OF q])
    with call_reopen(1) \<open>limits g' = limits g\<close> show thesis by (intro that) simp_all
  qed
qed

lemma start_stands_for: "gateway_start g \<Longrightarrow> stands_for g empty_queues"
  using new_gateway_good [of _ _ g]
  by (auto simp: gateway_start_def stands_for_def empty_queues_def same_frames_def new_history_def)

lemma run_simulated:
  assumes "gateway_run g0 es g" "gateway_start g0"
  shows "\<exists>q. queue_run (nat (gs_max_frames g0)) es empty_queues = Some q \<and> stands_for g q \<and> limits g = limits g0"
  using assms
proof (induction rule: gateway_run.induct)
  case (run_nil g)
  then show ?case by (simp add: start_stands_for)
next
  case (run_step g es h e g')
  then obtain q where q: "queue_run (nat (gs_max_frames g)) es empty_queues = Some q" "stands_for h q" "limits h = limits g"
    by blast
  from call_simulated [OF q(2) run_step.hyps(2)] obtain q' where
      "queue_step (nat (gs_max_frames h)) q e = Some q'" "stands_for g' q'" "limits g' = limits h" by blast
  with q show ?case by (auto simp: queue_run_append limits_def)
qed

section \<open>What consumers receive\<close>

fun accepted_of :: "int \<times> string \<Rightarrow> event list \<Rightarrow> (string \<times> int) list" where
  "accepted_of k [] = []"
| "accepted_of k (Accepted j p i # es) = (if j = k then (p, i) # accepted_of k es else accepted_of k es)"
| "accepted_of k (_ # es) = accepted_of k es"

fun delivered_to :: "obs_key \<Rightarrow> event list \<Rightarrow> string list" where
  "delivered_to k [] = []"
| "delivered_to k (Delivered j p # es) = (if j = k then p # delivered_to k es else delivered_to k es)"
| "delivered_to k (_ # es) = delivered_to k es"

lemma accepted_append [simp]: "accepted_of k (es @ fs) = accepted_of k es @ accepted_of k fs"
  by (induction k es rule: accepted_of.induct) auto

lemma delivered_append [simp]: "delivered_to k (es @ fs) = delivered_to k es @ delivered_to k fs"
  by (induction k es rule: delivered_to.induct) auto

lemma subseq_read_one:
  assumes "subseq xs (take c ys)" "c \<le> i" "i < length ys"
  shows "subseq (xs @ [ys ! i]) (take (i + 1) ys)"
proof -
  have "take (i + 1) ys = take c ys @ (drop c (take i ys) @ [ys ! i])"
    using assms(2,3) by (metis Suc_eq_plus1 append_assoc append_take_drop_id min.absorb1 take_Suc_conv_app_nth take_take)
  moreover have "subseq [ys ! i] (drop c (take i ys) @ [ys ! i])" by (simp add: subseq_singleton_left)
  ultimately show ?thesis using assms(1) by (simp add: list_emb_append_mono)
qed

text \<open>The queues remember what was accepted, in order, and how far each consumer has read.\<close>

lemma queue_history:
  assumes "queue_run n es empty_queues = Some q"
  shows "map fst (accepted_of s es) = qu_log q s \<and>
    map snd (accepted_of s es) = map int [0..<length (qu_log q s)] \<and>
    qu_cursor q k \<le> length (qu_log q (stream_of k)) \<and>
    subseq (delivered_to k es) (take (qu_cursor q k) (qu_log q (stream_of k)))"
  using assms
proof (induction es arbitrary: q rule: rev_induct)
  case Nil
  then show ?case by (auto simp: empty_queues_def)
next
  case (snoc e es)
  from snoc.prems obtain h where h: "queue_run n es empty_queues = Some h" "queue_step n h e = Some q"
    by (auto simp: queue_run_append split: option.splits)
  note ih = snoc.IH [OF h(1)]
  show ?case
  proof (cases e)
    case (Accepted j p i)
    have "subseq (take c xs) (take c (xs @ ys))" for c and xs ys :: "string list" by (rule prefix_imp_subseq) simp
    with ih h(2) Accepted show ?thesis
      by (auto split: if_splits intro: le_SucI subseq_order.trans)
  next
    case (Delivered j p)
    let ?i = "read_at n h j"
    from h(2) Delivered have i: "?i < length (qu_log h (stream_of j))" "qu_log h (stream_of j) ! ?i = p"
        "q = h\<lparr>qu_cursor := (qu_cursor h)(j := ?i + 1)\<rparr>" by (auto simp: Let_def split: if_splits)
    have "qu_cursor h j \<le> ?i" by (simp add: read_at_def)
    with i ih Delivered subseq_read_one [of "delivered_to j es" "qu_cursor h j" "qu_log h (stream_of j)" ?i]
    show ?thesis by auto
  qed (use ih h(2) in \<open>auto split: if_splits\<close>)
qed

end
