(* ===== verification/GatewayDelivery.thy ===== *)
theory GatewayDelivery
  imports GatewayRuns
begin

text \<open>
  The properties of the gateway as a message store: refinement of the queues, order of delivery,
  exact recovery, duplicates, draining, and the requests of the service as runs.
\<close>

declare split_paired_All [simp del]

section \<open>A small run\<close>

definition demo_config :: gateway_config where
  "demo_config = default_gateway_config\<lparr>gc_durable_path := Some ''state.db''\<rparr>"

definition demo_env :: "gateway_db \<Rightarrow> environment" where
  "demo_env db =
     \<lparr>en_db = db, en_faults = (\<lambda>_. None), en_journal = ''delete'', en_psycopg = False,
      en_server = \<lparr>sv_endpoint = [], sv_synchronous_commit = [], sv_version = [], sv_in_recovery = False\<rparr>,
      en_text = (\<lambda>_. []), en_wall = (\<lambda>_. Fin 1), en_bad_netloc = (\<lambda>_. False)\<rparr>"

definition demo_frame :: "string \<Rightarrow> string" where
  "demo_frame seq = DATA_FRAME_MAGIC @ ''{\"schema_version\":\"fleetrmw.data_frame.v1\",\"route\":{\"topic\":\"/a\"},'' @
     ''\"sample_envelope\":{\"topic\":\"/a\",\"publisher_id\":\"p\",\"source_sequence_number\":'' @ seq @ ''}}''"

definition demo_open :: gateway where
  "demo_open = fst (new_gateway demo_config (demo_env empty_db))"

definition demo_published :: gateway where
  "demo_published = fst (publish (demo_frame ''1'') None None demo_open)"

definition demo_taken :: gateway where
  "demo_taken = fst (take_frame 0 ''/a'' ''c'' demo_published)"

definition demo_reopened :: gateway where
  "demo_reopened = fst (new_gateway demo_config (demo_env (st_db (the (gs_store demo_taken)))))"

definition demo_events :: "event list" where
  "demo_events = [Accepted (0, ''/a'') (demo_frame ''1'') 0, Delivered (0, ''/a'', ''c'') (demo_frame ''1''), Reopened]"

lemma demo_env_db [simp]: "en_db (demo_env db) = db"
  by (simp add: demo_env_def)

lemma demo_starts: "gateway_start demo_open"
proof -
  have "snd (new_gateway demo_config (demo_env empty_db)) = Inr ()" by code_simp
  then have "new_gateway demo_config (demo_env empty_db) = (demo_open, Inr ())"
    unfolding demo_open_def by (metis prod.collapse)
  then show ?thesis unfolding gateway_start_def using demo_env_db by blast
qed

lemma demo_takes: "gateway_run demo_open (butlast demo_events) demo_taken"
proof -
  have "map_sum id (\<lambda>p. (pr_accepted p, pr_offset p, stream_key (pr_metadata p)))
      (snd (publish (demo_frame ''1'') None None demo_open)) = Inr (True, 0, 0, ''/a'')" by code_simp
  then obtain p where p: "publish (demo_frame ''1'') None None demo_open = (demo_published, Inr p)"
      "pr_accepted p" "pr_offset p = 0" "stream_key (pr_metadata p) = (0, ''/a'')"
    by (auto simp: demo_published_def prod_eq_iff)
  have "snd (take_frame 0 ''/a'' ''c'' demo_published) = Inr (Some (demo_frame ''1''))" by code_simp
  then have "gateway_call demo_published (Delivered (0, ''/a'', ''c'') (demo_frame ''1'')) demo_taken"
    by (intro call_delivered) (simp add: demo_taken_def prod_eq_iff)
  moreover have "gateway_call demo_open (Accepted (0, ''/a'') (demo_frame ''1'') 0) demo_published"
    using call_accepted [OF p(1,2)] by (simp add: p(3,4))
  ultimately show ?thesis using run_step [OF run_step [OF run_nil]] by (simp add: demo_events_def)
qed

lemma demo_limits: "limits demo_open = (1024, 1048576, 4096)"
  by code_simp

lemma demo_stored: "gs_store demo_taken = Some (the (gs_store demo_taken))"
proof -
  have "\<not> Option.is_none (gs_store demo_taken)" by code_simp
  then show ?thesis by (cases "gs_store demo_taken") auto
qed

lemma demo_reopens: "new_gateway demo_config (demo_env (st_db (the (gs_store demo_taken)))) = (demo_reopened, Inr ())"
proof -
  have "snd (new_gateway demo_config (demo_env (st_db (the (gs_store demo_taken))))) = Inr ()" by code_simp
  then show ?thesis unfolding demo_reopened_def by (metis prod.collapse)
qed

lemma demo_runs: "gateway_run demo_open demo_events demo_reopened"
proof -
  have "limits (blank_gateway demo_config env) = (1024, 1048576, 4096)" for env
    by (simp add: limits_def blank_gateway_def demo_config_def default_gateway_config_def)
  moreover have "limits demo_taken = (1024, 1048576, 4096)"
    using run_simulated [OF demo_takes demo_starts] demo_limits by auto
  ultimately have "gateway_call demo_taken Reopened demo_reopened"
    by (intro call_reopen [OF demo_stored _ _ _ demo_reopens]) (simp_all add: demo_config_def)
  from run_step [OF demo_takes this] show ?thesis by (simp add: demo_events_def)
qed

section \<open>Queues\<close>

text \<open>C1: every run of a gateway, on either backend and with whatever clocks, failures and restarts,
  is a run of plain queues: an accepted frame is appended at the offset that counts its stream, a
  consumer gets the frame at its cursor (or the oldest retained one if it fell behind), is told
  there is nothing only when it has read everything, and a restart from the database changes
  nothing; the memory always holds exactly the last frames of each stream.\<close>

theorem gateway_refines_queues:
  assumes "gateway_start g0" "gateway_run g0 es g"
  shows "\<exists>q. queue_run (nat (gs_max_frames g0)) es empty_queues = Some q \<and> stands_for g q"
  using run_simulated [OF assms(2,1)] by blast

lemma gateway_refines_queues_witness:
  "\<exists>q. queue_run (nat (gs_max_frames demo_open)) demo_events empty_queues = Some q \<and> stands_for demo_reopened q"
  by (rule gateway_refines_queues [OF demo_starts demo_runs])

text \<open>C11: what a consumer is ever given is, in order and without repetition, part of what its stream
  accepted, and the accepted frames of a stream are numbered 0, 1, 2 and so on, across restarts.\<close>

theorem deliveries_in_order:
  assumes "gateway_start g0" "gateway_run g0 es g"
  shows "subseq (delivered_to k es) (map fst (accepted_of (stream_of k) es)) \<and>
    map snd (accepted_of s es) = map int [0..<length (accepted_of s es)]"
proof
  from run_simulated [OF assms(2,1)] obtain q where q: "queue_run (nat (gs_max_frames g0)) es empty_queues = Some q"
    by blast
  have "subseq (take c xs) xs" for c and xs :: "string list" by (rule prefix_imp_subseq) (rule take_is_prefix)
  with queue_history [OF q, of "stream_of k" k] show "subseq (delivered_to k es) (map fst (accepted_of (stream_of k) es))"
    by (auto intro: subseq_order.trans)
  have "length (qu_log q s) = length (accepted_of s es)" using queue_history [OF q, of s k] by (metis length_map)
  with queue_history [OF q, of s k] show "map snd (accepted_of s es) = map int [0..<length (accepted_of s es)]" by simp
qed

lemma deliveries_in_order_witness:
  "subseq [demo_frame ''1''] [demo_frame ''1''] \<and> delivered_to (0, ''/a'', ''c'') demo_events = [demo_frame ''1'']"
  using deliveries_in_order [OF demo_starts demo_runs, of "(0, ''/a'', ''c'')"] by (simp add: demo_events_def)

section \<open>Recovery\<close>

text \<open>C7: the database of a running gateway, read without failures by either backend, gives back exactly
  the memory of the gateway: for every stream its retained frames and its next offset, and every
  consumer's cursor; reading changes nothing.\<close>

theorem recovery_exact:
  assumes "gateway_start g0" "gateway_run g0 es g" "gs_store g = Some s"
    and "st_db s' = st_db s" "st_fault s' = (\<lambda>_. None)"
  shows "\<exists>t r. store_recover (gs_max_bytes g) (gs_max_frames g) (gs_capacity g) s' = (t, Inr r) \<and>
    st_db t = st_db s \<and> same_frames (gs_topics g) (rc_topics r) \<and> rc_cursors r = gs_consumers g"
proof -
  from run_simulated [OF assms(2,1)] have "good g" by (auto simp: stands_for_def)
  with assms(3) have inv: "agrees (gs_max_bytes g) (gs_max_frames g) (gs_capacity g) (gs_topics g) (st_db s')"
      "db_cursors (st_db s') = gs_consumers g" "0 < gs_max_frames g" "0 \<le> gs_capacity g"
    by (simp_all add: good_def assms(4))
  obtain t x where x: "store_recover (gs_max_bytes g) (gs_max_frames g) (gs_capacity g) s' = (t, x)" by fastforce
  with store_recover_reads [OF inv(1,3,4)] assms(5) obtain r where "x = Inr r"
    by (cases x) (simp_all add: reads_def)
  with x store_recover_reads [OF inv(1,3,4)] inv(2) assms(4) show ?thesis by (auto simp: reads_def)
qed

lemma recovery_exact_witness:
  defines "s \<equiv> the (gs_store demo_taken)"
  shows "\<exists>t r. store_recover 1048576 1024 4096 (s\<lparr>st_fault := \<lambda>_. None\<rparr>) = (t, Inr r) \<and>
    same_frames (gs_topics demo_taken) (rc_topics r) \<and> rc_cursors r = gs_consumers demo_taken"
proof -
  have "limits demo_taken = (1024, 1048576, 4096)"
    using run_simulated [OF demo_takes demo_starts] demo_limits by auto
  then have lims: "gs_max_frames demo_taken = 1024" "gs_max_bytes demo_taken = 1048576" "gs_capacity demo_taken = 4096"
    by (simp_all add: limits_def)
  from recovery_exact [OF demo_starts demo_takes demo_stored, of "s\<lparr>st_fault := \<lambda>_. None\<rparr>"] show ?thesis
    by (auto simp: lims s_def)
qed

section \<open>Duplicates\<close>

lemma pop_front_last: "0 < n \<Longrightarrow> x \<in> set (fst (pop_front n (xs @ [x])))"
proof (induction xs)
  case (Cons y ys)
  then show ?case by (cases "pop_front n (ys @ [x])") simp
qed simp

lemma published_key:
  assumes "good g" "publish payload d t g = (g1, Inr p)"
  shows "parse_data_frame payload (gs_max_bytes g) = Inr (pr_metadata p) \<and>
    check_expected (pr_metadata p) d t = Inr () \<and> is_duplicate (pr_metadata p) g1"
proof -
  from assms(2) obtain m where m: "parse_data_frame payload (gs_max_bytes g) = Inr m" "check_expected m d t = Inr ()"
    and rest: "(if is_duplicate m g then answer_duplicate m g else
       try_then (admit_frame m g) (\<lambda>(action, state_before, state_after) g1.
       let g2 = g1\<lparr>gs_topics := with_history (stream_key m) id (gs_topics g1)\<rparr>;
           h = history_of (gs_topics g2) (stream_key m)
       in try_then (commit_frame m payload h state_before state_after g2) (\<lambda>_ g3.
            (store_record m payload g3,
             Inr \<lparr>pr_accepted = True, pr_duplicate = False, pr_offset = th_next_offset h,
                  pr_metadata = m, pr_admission_action = action\<rparr>)))) = (g1, Inr p)"
    by (auto simp: publish_def elim!: try_thenE)
  show ?thesis
  proof (cases "is_duplicate m g")
    case True
    with rest m show ?thesis
      by (auto simp: answer_duplicate_def is_duplicate_def with_history_def move_to_end_def update_conv')
  next
    case False
    with rest obtain x action d0 d1 where x: "admit_frame m g = (x, Inr (action, d0, d1))"
      and rest': "(let g2 = x\<lparr>gs_topics := with_history (stream_key m) id (gs_topics x)\<rparr>;
           h = history_of (gs_topics g2) (stream_key m)
       in try_then (commit_frame m payload h d0 d1 g2) (\<lambda>_ g3.
            (store_record m payload g3,
             Inr \<lparr>pr_accepted = True, pr_duplicate = False, pr_offset = th_next_offset h,
                  pr_metadata = m, pr_admission_action = action\<rparr>))) = (g1, Inr p)"
      by (auto elim!: try_thenE)
    let ?g2 = "x\<lparr>gs_topics := with_history (stream_key m) id (gs_topics x)\<rparr>"
    from rest' obtain g3 where g3: "commit_frame m payload (history_of (gs_topics ?g2) (stream_key m)) d0 d1 ?g2 = (g3, Inr ())"
        "g1 = store_record m payload g3" "pr_metadata p = m"
      by (auto simp: Let_def elim!: try_thenE)
    have "core x = core g" using core_admit [of m g] by (simp add: x)
    then have x': "gs_topics x = gs_topics g" "limits x = limits g" by (simp_all add: core_def limits_def)
    have g3': "gs_topics g3 = with_history (stream_key m) id (gs_topics g)" "gs_capacity g3 = gs_capacity g"
      using commit_frame_done [OF g3(1)] x' by (simp_all add: limits_def)
    have "dedup_key m \<notin> set (th_recent_keys (history_of (gs_topics g) (stream_key m)))"
      using False by (auto simp: is_duplicate_def history_of_def new_history_def split: option.splits)
    then have "key_add (dedup_key m) (th_recent_keys (history_of (gs_topics g3) (stream_key m))) =
        th_recent_keys (history_of (gs_topics g) (stream_key m)) @ [dedup_key m]"
      by (simp add: key_add_def g3')
    moreover have "0 < gs_capacity g3" using assms(1) by (simp add: good_def g3')
    ultimately have "is_duplicate m g1"
      using pop_front_last by (simp add: is_duplicate_def g3(2) store_record_topics with_history_def update_conv')
    with m g3(3) show ?thesis by simp
  qed
qed



section \<open>Draining\<close>

fun takes :: "nat \<Rightarrow> obs_key \<Rightarrow> gateway \<Rightarrow> gateway \<times> string option gw_result list" where
  "takes 0 k g = (g, [])"
| "takes (Suc n) k g =
     (case take_frame (fst k) (fst (snd k)) (snd (snd k)) g of
        (g1, r) \<Rightarrow> (case takes n k g1 of (g2, rs) \<Rightarrow> (g2, r # rs)))"

lemma take_in_memory:
  assumes "gs_store g = None"
  obtains g' r where "take_frame d t c g = (g', Inr r)" "gs_store g' = None" "gs_max_frames g' = gs_max_frames g"
proof -
  have commit: "commit_cursor k n h = (h, Inr ())" if "gs_store h = None" for k n h
    using that by (simp add: commit_cursor_def)
  have "gs_max_frames (metric_add n i h) = gs_max_frames h" "gs_max_frames (set_consumer k n' h) = gs_max_frames h" for n i h k n'
    by (simp_all add: metric_add_def set_consumer_def)
  with assms commit show ?thesis
    by (cases "take_frame d t c g")
      (auto simp: take_frame_def take_from_def Let_def intro: that split: option.splits if_splits)
qed

lemma take_in_order:
  fixes k :: obs_key
  assumes q: "stands_for g q" and mem: "gs_store g = None"
  defines "i \<equiv> read_at (nat (gs_max_frames g)) q k" and "entries \<equiv> qu_log q (stream_of k)"
  obtains g' q' where "take_frame (fst k) (fst (snd k)) (snd (snd k)) g =
      (g', Inr (if i < length entries then Some (entries ! i) else None))"
    "stands_for g' q'" "gs_store g' = None" "gs_max_frames g' = gs_max_frames g" "qu_log q' = qu_log q"
    "qu_cursor q' k = min (i + 1) (length entries)"
proof -
  obtain d t c where k: "k = (d, t, c)" by (cases k)
  obtain g' r where r: "take_frame d t c g = (g', Inr r)" "gs_store g' = None" "gs_max_frames g' = gs_max_frames g"
    by (rule take_in_memory [OF mem])
  show ?thesis
  proof (cases r)
    case (Some p)
    with r(1) have "gateway_call g (Delivered (d, t, c) p) g'" by (auto intro: call_delivered)
    from call_simulated [OF q this] obtain q' where
        q': "queue_step (nat (gs_max_frames g)) q (Delivered (d, t, c) p) = Some q'" "stands_for g' q'" by blast
    with Some r k show ?thesis
      by (intro that [of g' q']) (auto simp: i_def entries_def Let_def split: if_splits)
  next
    case None
    with r(1) have "gateway_call g (NothingToTake (d, t, c)) g'" by (auto intro: call_nothing)
    from call_simulated [OF q this] obtain q' where
        q': "queue_step (nat (gs_max_frames g)) q (NothingToTake (d, t, c)) = Some q'" "stands_for g' q'" by blast
    with None r k show ?thesis
      by (intro that [of g' q']) (auto simp: i_def entries_def read_at_def split: if_splits)
  qed
qed

lemma takes_in_order:
  assumes "stands_for g q" "gs_store g = None"
    and "rest = drop (read_at (nat (gs_max_frames g)) q k) (qu_log q (stream_of k))"
  shows "snd (takes (length rest + 1) k g) = map (\<lambda>p. Inr (Some p)) rest @ [Inr None]"
  using assms
proof (induction rest arbitrary: g q)
  case Nil
  then have "\<not> read_at (nat (gs_max_frames g)) q k < length (qu_log q (stream_of k))" by (simp add: not_less)
  with take_in_order [OF Nil.prems(1,2), of k] obtain g' where
      "take_frame (fst k) (fst (snd k)) (snd (snd k)) g = (g', Inr None)" by auto
  then show ?case by simp
next
  case (Cons p rest)
  let ?i = "read_at (nat (gs_max_frames g)) q k" and ?log = "qu_log q (stream_of k)"
  from Cons.prems(3) have i: "?i < length ?log" by (metis drop_all list.distinct(1) not_le)
  have "?log ! ?i # drop (Suc ?i) ?log = p # rest" unfolding Cons.prems(3) by (rule Cons_nth_drop_Suc [OF i])
  then have p: "?log ! ?i = p" "drop (?i + 1) ?log = rest" by simp_all
  from take_in_order [OF Cons.prems(1,2), of k] i obtain g' q' where
      g': "take_frame (fst k) (fst (snd k)) (snd (snd k)) g = (g', Inr (Some (?log ! ?i)))"
      "stands_for g' q'" "gs_store g' = None" "gs_max_frames g' = gs_max_frames g" "qu_log q' = qu_log q"
      "qu_cursor q' k = ?i + 1" by auto
  have "read_at (nat (gs_max_frames g')) q' k = ?i + 1"
    using g'(4,5,6) by (auto simp: read_at_def)
  with p(2) g'(5) have "rest = drop (read_at (nat (gs_max_frames g')) q' k) (qu_log q' (stream_of k))" by simp
  from Cons.IH [OF g'(2,3) this] g'(1) p(1) show ?case by (simp add: split_beta)
qed

text \<open>C24: in a gateway without a database taking never fails, and a consumer that keeps asking gets
  every accepted frame of its stream from its position on, each in its turn, and is then told there
  is nothing.\<close>

theorem consumers_drain:
  assumes "gateway_start g0" "gateway_run g0 es g" "gs_store g = None"
    and "rest = drop (nat (position g k)) (map fst (accepted_of (stream_of k) es))"
  shows "snd (takes (length rest + 1) k g) = map (\<lambda>p. Inr (Some p)) rest @ [Inr None]"
proof -
  from run_simulated [OF assms(2,1)] obtain q where q: "queue_run (nat (gs_max_frames g0)) es empty_queues = Some q"
      "stands_for g q" by blast
  have "map fst (accepted_of (stream_of k) es) = qu_log q (stream_of k)"
    using queue_history [OF q(1), of "stream_of k" k] by simp
  with assms(4) position_read_at [OF q(2), of k]
  have "rest = drop (read_at (nat (gs_max_frames g)) q k) (qu_log q (stream_of k))" by simp
  with q(2) assms(3) show ?thesis by (rule takes_in_order)
qed

definition demo_memory :: gateway where
  "demo_memory = fst (new_gateway default_gateway_config (demo_env empty_db))"

definition demo_accepted :: gateway where
  "demo_accepted = fst (publish (demo_frame ''1'') None None demo_memory)"

lemma consumers_drain_witness:
  "snd (takes 2 (0, ''/a'', ''c'') demo_accepted) = [Inr (Some (demo_frame ''1'')), Inr None]"
proof -
  let ?k = "(0, ''/a'', ''c'') :: obs_key"
  have mem: "new_gateway default_gateway_config (demo_env empty_db) = (demo_memory, Inr ())"
    unfolding demo_memory_def by (simp add: new_gateway_def check_gateway_config_def default_gateway_config_def Let_def)
  then have start: "gateway_start demo_memory"
    unfolding gateway_start_def using demo_env_db by blast
  have "map_sum id (\<lambda>p. (pr_accepted p, pr_offset p, stream_key (pr_metadata p)))
      (snd (publish (demo_frame ''1'') None None demo_memory)) = Inr (True, 0, 0, ''/a'')" by code_simp
  then obtain p where p: "publish (demo_frame ''1'') None None demo_memory = (demo_accepted, Inr p)"
      "pr_accepted p" "pr_offset p = 0" "stream_key (pr_metadata p) = (0, ''/a'')"
    by (auto simp: demo_accepted_def prod_eq_iff)
  then have "gateway_call demo_memory (Accepted (0, ''/a'') (demo_frame ''1'') 0) demo_accepted"
    using call_accepted [OF p(1,2)] by simp
  from run_step [OF run_nil this] have run: "gateway_run demo_memory [Accepted (0, ''/a'') (demo_frame ''1'') 0] demo_accepted"
    by simp
  have "Option.is_none (gs_store demo_accepted)" "position demo_accepted ?k = 0" by code_simp+
  with consumers_drain [OF start run _ refl, of ?k] show ?thesis by (simp add: Option.is_none_def numeral_2_eq_2)
qed

end
