(* ===== verification/GatewayRequests.thy ===== *)
theory GatewayRequests
  imports GatewayDelivery
begin

text \<open>
  Every HTTP request of the service is a run of the gateway, so what the queues promise holds for
  the service; and the requests whose exceptions no route answers.
\<close>

section \<open>Requests\<close>

definition runs :: "gateway \<Rightarrow> gateway \<Rightarrow> bool" where
  "runs g g' \<longleftrightarrow> (\<exists>es. gateway_run g es g')"

lemma run_append: "gateway_run h fs g' \<Longrightarrow> gateway_run g es h \<Longrightarrow> gateway_run g (es @ fs) g'"
proof (induction rule: gateway_run.induct)
  case (run_step h fs i e g')
  then have "gateway_run g (es @ fs) i" by blast
  from gateway_run.run_step [OF this run_step.hyps(2)] show ?case by simp
qed simp

lemma runs_refl [simp]: "runs g g"
  unfolding runs_def by (blast intro: run_nil)

lemma runs_trans: "transp runs"
  unfolding runs_def by (blast intro: transpI run_append)

lemma runs_call: "gateway_call g e g' \<Longrightarrow> runs g g'"
  using run_step [OF run_nil] unfolding runs_def by blast

lemmas runs_then = try_then_trans [OF runs_trans]

lemma runs_after: "runs h g' \<Longrightarrow> runs g h \<Longrightarrow> runs g g'"
  using transpD [OF runs_trans] by blast

lemma runs_metric: "runs (metric_add name n g) g' \<Longrightarrow> runs g g'"
  by (rule runs_after, assumption, rule runs_call, rule call_count)

lemma runs_publish: "runs g (fst (publish payload d t g))"
proof (cases "publish payload d t g")
  case (Pair g' r)
  show ?thesis
  proof (cases r)
    case (Inl e)
    with Pair show ?thesis by (auto intro!: runs_call call_refused)
  next
    case (Inr p)
    with Pair show ?thesis
      by (cases "pr_accepted p") (auto intro: runs_call call_accepted call_not_accepted)
  qed
qed

lemma runs_take: "runs g (fst (take_frame d t c g))"
proof (cases "take_frame d t c g")
  case (Pair g' r)
  show ?thesis
  proof (cases r)
    case (Inl e)
    with Pair show ?thesis by (auto intro!: runs_call call_take_failed)
  next
    case (Inr p)
    with Pair show ?thesis by (cases p) (auto intro: runs_call call_delivered call_nothing)
  qed
qed

lemma runs_counted: "runs g (metric_add name n g)"
  by (rule runs_call) (rule call_count)

lemma runs_batch_one: "runs g (fst (batch_one payload score g))"
proof -
  have "runs g g'" if "publish payload None None g = (g', r)" for g' r
    using runs_publish [of g payload None None] that by simp
  then show ?thesis
    by (auto simp: batch_one_def intro: runs_after [OF runs_counted] split: prod.split sum.split gw_exn.split)
qed

lemma runs_batch_loop: "runs g (fst (batch_loop payloads scores order results g))"
  by (induction order arbitrary: results g) (auto intro!: runs_then runs_batch_one)

lemma runs_publish_batch: "runs g (fst (publish_batch payloads g))"
  unfolding publish_batch_def
  by (auto intro!: runs_then runs_batch_loop runs_call [OF call_scores])

lemma runs_load: "fst (load_body body g) = g"
  by (simp add: load_body_def)

lemma runs_json: "fst (json_response st d g) = g" "fst (error_response st m g) = g" "fst (error_for st e g) = g"
  by (simp_all add: json_response_def error_response_def error_for_def)

lemma runs_answering:
  assumes "runs g (fst r)" "\<And>e h u. handler e = Some h \<Longrightarrow> runs u (fst (h u))" "\<And>x u. runs u (fst (f x u))"
  shows "runs g (fst (answering handler r f))"
proof (cases r)
  case (Pair u x)
  with assms(1) have u: "runs g u" by simp
  show ?thesis
  proof (cases x)
    case (Inl e)
    with Pair u assms(2) [of e] runs_after [OF _ u] show ?thesis by (auto simp: answering_def split: option.split)
  next
    case (Inr y)
    with Pair runs_after [OF assms(3) u] show ?thesis by (simp add: answering_def)
  qed
qed

lemma runs_routes:
  "runs g (fst (route_observation body g))" "runs g (fst (route_outcome body g))" "runs g (fst (route_batch body g))"
  "runs g (fst (route_publish qs body g))" "runs g (fst (route_take qs g))"
proof -
  have observe: "runs g (fst (observe_request body g))" for g
    unfolding observe_request_def
    by (rule runs_then [where m = "load_body body g"])
      (auto simp: runs_load intro!: runs_then runs_call [OF call_policy] split: py_obj.split prod.split)
  show "runs g (fst (route_observation body g))"
    unfolding route_observation_def Let_def
    by (rule runs_metric [of "''observation_requests''" 1])
      (auto simp: runs_json intro!: runs_answering observe split: if_splits)
  have outcome: "runs g (fst (outcome_request_step body g))" for g
    unfolding outcome_request_step_def
    by (rule runs_then [where m = "load_body body g"])
      (auto simp: runs_load intro!: runs_call [OF call_outcome] split: py_obj.split)
  show "runs g (fst (route_outcome body g))"
    unfolding route_outcome_def Let_def
    by (rule runs_metric [of "''application_outcome_requests''" 1])
      (auto simp: runs_json intro!: runs_answering outcome runs_counted split: if_splits option.splits)
  have batch: "runs g (fst (batch_request body g))" for g
    unfolding batch_request_def
    by (rule runs_then [where m = "load_body body g"])
      (auto simp: runs_load intro!: runs_then runs_metric [OF runs_publish_batch] split: py_obj.split)
  show "runs g (fst (route_batch body g))"
    unfolding route_batch_def Let_def
    by (rule runs_metric [of "''batch_requests''" 1])
      (auto simp: runs_json intro!: runs_answering batch split: if_splits)
  show "runs g (fst (route_publish qs body g))"
    unfolding route_publish_def Let_def
    by (rule runs_metric [of "''post_requests''" 1])
      (auto simp: runs_json publish_handler_def intro!: runs_then runs_answering runs_publish runs_counted
        split: if_splits gw_exn.splits)
  show "runs g (fst (route_take qs g))"
    unfolding route_take_def Let_def
    by (rule runs_metric [of "''get_requests''" 1])
      (auto simp: runs_json intro!: runs_answering runs_take split: sum.splits gw_exn.splits option.splits if_splits prod.splits)
qed


end
