(* ===== verification/GatewayErrors.thy ===== *)
theory GatewayErrors
  imports GatewayRequests
begin

text \<open>
  The exceptions that leave \<open>handle_request\<close>, which its callers do not catch, and the two
  places where the memory of the gateway and its database part.
\<close>

declare split_paired_All [simp del]

section \<open>Exceptions no route answers\<close>

lemma query_one_error: "query_one qs k False = Inl e \<Longrightarrow> query_one qs k True = Inl e \<and> (\<exists>m. e = FrameValidationError m)"
  by (auto simp: query_one_def invalid_def split: list.splits if_splits)

lemma query_domain_error:
  assumes "query_domain qs False = Inl e"
  shows "query_domain qs True = Inl e \<and> (\<exists>m. e = FrameValidationError m)"
proof (cases "query_one qs ''domain_id'' False")
  case (Inl e')
  with assms query_one_error [OF Inl] show ?thesis by (simp add: query_domain_def)
next
  case (Inr r)
  with assms have "query_one qs ''domain_id'' True = Inr r"
    by (cases r) (auto simp: query_domain_def query_one_def split: list.splits if_splits)
  with assms Inr show ?thesis
    by (auto simp: query_domain_def invalid_def split: option.splits if_splits)
qed

lemma error_answer: "\<exists>r. error_response status m g = (g, Inr r) \<and> gr_status r = status"
  by (simp add: error_response_def json_response_def lift_exn_def collect_def)

lemma frames_request:
  assumes "urlsplit (gs_bad_netloc g) path = Inr (''/fleetrmw/v1/frames'', query)"
  defines "g1 \<equiv> metric_add ''requests_total'' 1 g"
  shows "handle_request ''POST'' path body g = route_publish (parse_qsl query) body g1"
    "handle_request ''GET'' path body g = route_take (parse_qsl query) g1"
  using assms by (simp_all add: handle_request_def lift_exn_def)


text \<open>A publishing request with a bad \<open>domain_id\<close> gets no answer: the FrameValidationError leaves
  handle_request, where the taking request with the same path is answered 400.\<close>

theorem bad_query_escapes:
  assumes "urlsplit (gs_bad_netloc g) path = Inr (''/fleetrmw/v1/frames'', query)"
    and "query_domain (parse_qsl query) False = Inl e"
  shows "snd (handle_request ''POST'' path body g) = Inl e \<and>
    (\<exists>r. snd (handle_request ''GET'' path body g) = Inr r \<and> gr_status r = 400)"
proof -
  from query_domain_error [OF assms(2)] obtain m where
      e: "e = FrameValidationError m" "query_domain (parse_qsl query) True = Inl e" by blast
  show ?thesis
    using error_answer [of 400 m "metric_add ''get_requests'' 1 (metric_add ''requests_total'' 1 g)"]
    by (auto simp: frames_request [OF assms(1)] route_publish_def route_take_def take_query_def assms(2) e Let_def error_for_def)
qed

lemma bad_query_escapes_witness:
  "snd (handle_request ''POST'' ''/fleetrmw/v1/frames?domain_id=x'' [] demo_memory) =
   Inl (FrameValidationError ''domain_id query parameter is not an integer'')"
proof -
  have "urlsplit (gs_bad_netloc demo_memory) ''/fleetrmw/v1/frames?domain_id=x'' = Inr (''/fleetrmw/v1/frames'', ''domain_id=x'')"
    and "query_domain (parse_qsl ''domain_id=x'') False = Inl (FrameValidationError ''domain_id query parameter is not an integer'')"
    by code_simp+
  from bad_query_escapes [OF this] show ?thesis by blast
qed

text \<open>A frame whose parsing raises anything else than FrameValidationError gets no answer either: the
  exception leaves handle_request. Such a frame is one whose serialized payload has no data, where
  the decoder raises TypeError.\<close>

theorem parser_exception_escapes:
  assumes "urlsplit (gs_bad_netloc g) path = Inr (''/fleetrmw/v1/frames'', query)"
    and "query_domain (parse_qsl query) False = Inr domain" "query_one (parse_qsl query) ''topic'' False = Inr topic"
    and "parse_data_frame body (gs_max_bytes g) = Inl (PyExn x)"
  shows "snd (handle_request ''POST'' path body g) = Inl (PyExn x)"
  using assms(2-)
  by (simp add: frames_request [OF assms(1)] route_publish_def Let_def publish_def answering_def
      publish_handler_def metric_add_def)

definition dataless_frame :: string where
  "dataless_frame = DATA_FRAME_MAGIC @ ''{\"schema_version\":\"fleetrmw.data_frame.v1\",\"route\":{\"topic\":\"/a\"},'' @
     ''\"sample_envelope\":{\"topic\":\"/a\",\"publisher_id\":\"p\",\"source_sequence_number\":1},'' @
     ''\"serialized_payload\":{\"encoding\":\"hex\",\"size\":0}}''"

lemma parser_exception_escapes_witness:
  "snd (handle_request ''POST'' ''/fleetrmw/v1/frames'' dataless_frame demo_memory) = Inl (PyExn TypeError)"
proof -
  have "urlsplit (gs_bad_netloc demo_memory) ''/fleetrmw/v1/frames'' = Inr (''/fleetrmw/v1/frames'', [])"
    "query_domain (parse_qsl []) False = Inr None" "query_one (parse_qsl []) ''topic'' False = Inr None"
    "parse_data_frame dataless_frame (gs_max_bytes demo_memory) = Inl (PyExn TypeError)"
    by code_simp+
  from parser_exception_escapes [OF this] show ?thesis .
qed

section \<open>Where the memory and the database part\<close>

text \<open>
  A duplicate moves its key to the back of the memory's key list but not in the database, whose
  keys keep the order of their first acceptance.
\<close>

definition tiny_open :: "gateway_db \<Rightarrow> gateway" where
  "tiny_open db =
     fst (new_gateway (demo_config\<lparr>gc_max_frames_per_topic := 1, gc_dedup_capacity := Some 2\<rparr>) (demo_env db))"

definition tiny_publish :: "string \<Rightarrow> gateway \<Rightarrow> gateway \<times> publish_result gw_result" where
  "tiny_publish seq = publish (demo_frame seq) None None"

definition tiny_used :: gateway where
  "tiny_used = foldl (\<lambda>g seq. fst (tiny_publish seq g)) (tiny_open empty_db) [''1'', ''2'', ''1'', ''3'']"

definition refused :: "gateway \<times> 'a gw_result \<Rightarrow> bool" where
  "refused r = (case snd r of Inl e \<Rightarrow> is_persistence_exn e | Inr _ \<Rightarrow> False)"

definition taken_in :: "gateway \<times> publish_result gw_result \<Rightarrow> bool option" where
  "taken_in r = (case snd r of Inl e \<Rightarrow> None | Inr p \<Rightarrow> Some (pr_accepted p))"

definition memory_and_restart :: "gateway \<Rightarrow> bool option \<times> bool option" where
  "memory_and_restart g =
     (taken_in (tiny_publish ''1'' g), taken_in (tiny_publish ''1'' (tiny_open (st_db (the (gs_store g))))))"

lemma tiny_refuses: "refused (tiny_publish ''2'' tiny_used)"
  by code_simp

lemma tiny_restarts: "memory_and_restart tiny_used = (Some False, Some True)"
  by code_simp


section \<open>A number too large for the database\<close>

lemma overflow_bind:
  "\<not> fits64 q \<Longrightarrow> utf8_ok t \<Longrightarrow> utf8_ok p \<Longrightarrow>
   bind_all (Sqlite j) [IntArg d, TextArg t, IntArg i, TextArg p, IntArg q] = Some (PyExn OverflowError)"
  by simp

lemma append_overflow:
  assumes "st_backend s = Sqlite j" "st_lease_id s = None" "\<And>n. st_fault s n = None"
    and "\<not> fits64 (fm_source_sequence_number m)" "utf8_ok (fm_topic m)" "utf8_ok (fm_publisher_id m)"
  shows "\<exists>s'. sqlite_append_frame m i payload evict capacity state now s = (s', Inl (PyExn OverflowError))"
  by (simp add: sqlite_append_frame_def transaction_def commit_after_def append_body_def fence_guard_def
      execute_def no_op_def rolled_back_def wrap_errors_def sqlite_wrap_def sql_type_value_def
      overflow_bind [OF assms(4-6)] bind_all.simps(1) assms(1-3) Let_def del: bind_all.simps(2))


definition oversized_metadata :: frame_metadata where
  "oversized_metadata =
     \<lparr>fm_domain_id = 0, fm_topic = ''/a'', fm_publisher_id = ''p'', fm_source_sequence_number = 2 ^ 63,
      fm_robot_id = [], fm_traffic_class = [], fm_deadline_ms = 0, fm_age_ms = 0, fm_qoe_debt = 0,
      fm_criticality = 0, fm_repair_requested = False, fm_prior_repair_attempts = 0, fm_frame_bytes = 169\<rparr>"


end
