(* ===== verification/TaskReports.thy ===== *)
theory TaskReports
  imports GatewayRequests
begin

text \<open>
  The two ends of a task report: what \<open>task_outcome.py\<close> writes, the gateway reads as it was
  meant.
\<close>

declare split_paired_All [simp del]

section \<open>Numbers of a report\<close>

lemma finite_number:
  assumes "is_finite_number v = Inr True"
  obtains x where "plain_number v" "py_float v = Inr x" "is_fin x"
  using assms by (auto simp: is_finite_number_def split: if_splits sum.splits)

lemma float_of_int: "py_float_of_int i = Inr x \<Longrightarrow> x = dbl (of_int i)"
  by (auto simp: py_float_of_int_def split: pyfloat.splits)

lemma float_of_nonneg:
  assumes "plain_number v" "py_float v = Inr x" "is_fin x" "\<not> exact_number v < 0"
  shows "\<not> x < 0"
proof (cases v)
  case (PInt i)
  with assms(4) have "0 \<le> (of_int i :: rat)" by (simp add: fconst)
  then have "0 \<le> dbl (of_int i)" by (rule dbl_nonneg)
  moreover have "x = dbl (of_int i)" using assms(2) PInt by (auto dest: float_of_int)
  ultimately show ?thesis using fle_less_trans [of 0 x 0] by auto
qed (use assms in simp_all)

lemma float_of_positive:
  assumes "plain_number v" "py_float v = Inr x" "is_fin x" "\<not> exact_number v \<le> 0"
  shows "\<not> x \<le> 0"
proof (cases v)
  case (PInt i)
  with assms(4) have "1 \<le> i" by (simp add: fconst)
  then have "dbl 1 \<le> dbl (of_int i)" by (intro dbl_mono) simp
  moreover have "\<not> Fin 1 \<le> Fin 0" by simp
  ultimately have "\<not> dbl (of_int i) \<le> Fin 0" by (metis dbl_1 fle_trans)
  with assms(2) PInt show ?thesis by (auto dest!: float_of_int simp: fconst)
qed (use assms in simp_all)

section \<open>What a report holds\<close>

lemma correlation_fields:
  assumes "new_correlation domain_id topic publisher_id sequence = Inr c"
  shows "0 \<le> tc_domain_id c" "starts_with_slash (tc_topic c)" "tc_publisher_id c \<noteq> []" "0 < tc_source_sequence_number c"
  using assms
  by (auto simp: new_correlation_def starts_with_slash_def split: option.splits if_splits py_obj.splits list.splits char.splits bool.splits)

lemma reportE:
  assumes "build_task_application_outcome c kind status latency deadline result = Inr doc"
  obtains received x y where "kind \<in> set TASK_KINDS" "status \<in> set TERMINAL_STATUSES" "result = PBool received"
    "received \<or> status = ''timed_out''"
    "plain_number latency" "plain_number deadline" "py_float latency = Inr x" "py_float deadline = Inr y"
    "is_fin x" "is_fin y" "\<not> x < 0" "\<not> y \<le> 0" "doc = outcome_document c kind status latency deadline received x y"
proof -
  from assms obtain received where r: "kind \<in> set TASK_KINDS" "status \<in> set TERMINAL_STATUSES" "result = PBool received"
    by (auto simp: build_task_application_outcome_def split: if_splits py_obj.splits)
  from assms r have finite: "is_finite_number latency = Inr True" "is_finite_number deadline = Inr True"
    by (auto simp: build_task_application_outcome_def split: if_splits sum.splits)
  from finite obtain x y where x: "plain_number latency" "py_float latency = Inr x" "is_fin x"
      and y: "plain_number deadline" "py_float deadline = Inr y" "is_fin y"
    by (metis finite_number)
  from assms r finite x y have rest: "\<not> exact_number latency < 0" "\<not> exact_number deadline \<le> 0" "received \<or> status = ''timed_out''"
      "doc = outcome_document c kind status latency deadline received x y"
    by (auto simp: build_task_application_outcome_def split: if_splits)
  show ?thesis
    by (rule that [OF r rest(3) x(1) y(1) x(2) y(2) x(3) y(3) float_of_nonneg [OF x rest(1)] float_of_positive [OF y rest(2)] rest(4)])
qed

text \<open>What the gateway reads off a report, and whether its policy accepts the numbers.\<close>

definition report_read :: "task_correlation \<Rightarrow> bool \<Rightarrow> bool \<Rightarrow> bool \<Rightarrow> pyfloat \<Rightarrow> pyfloat \<Rightarrow> outcome_request" where
  "report_read c received met ok x y =
     \<lparr>oq_key = (tc_domain_id c, tc_topic c, tc_publisher_id c, tc_source_sequence_number c),
      oq_delivered = received, oq_deadline_met = met, oq_latency = PFloat x, oq_deadline = PFloat y,
      oq_succeeded = Some ok\<rparr>"

lemma report_understood:
  assumes "new_correlation d t p n = Inr c" "kind \<in> set TASK_KINDS" "status \<in> set TERMINAL_STATUSES"
    and "received \<or> status = ''timed_out''"
  shows "outcome_request_of (outcome_document c kind status latency deadline received x y) =
    Inr (report_read c received (received \<and> exact_number latency \<le> exact_number deadline) (received \<and> status = ''succeeded'') x y)"
  using correlation_fields [OF assms(1)] assms(2-)
  by (auto simp: outcome_request_of_def outcome_document_def outcome_identity_def check_task_fields_def
      task_fields_present_def in_dict_def dget_def dget_or_def report_read_def)

text \<open>C34: a task report built from a correlation the constructor accepted is one the gateway accepts and
  reads as it was meant: the frame it names, delivered exactly if a result came, on time exactly if
  it came within the deadline (compared without rounding), succeeded exactly if the terminal status
  says so; and its latency and deadline are finite, not negative and positive, as the policy wants
  them.\<close>

theorem task_reports_understood:
  assumes "new_correlation d t p n = Inr c"
    and "build_task_application_outcome c kind status latency deadline result = Inr doc"
  shows "\<exists>received x y. result = PBool received \<and> py_float latency = Inr x \<and> py_float deadline = Inr y \<and>
    is_fin x \<and> is_fin y \<and> \<not> x < 0 \<and> \<not> y \<le> 0 \<and>
    outcome_request_of doc = Inr (report_read c received
      (received \<and> exact_number latency \<le> exact_number deadline) (received \<and> status = ''succeeded'') x y)"
  using assms(2) by (elim reportE) (auto simp: report_understood [OF assms(1)])

lemma task_reports_understood_witness:
  "outcome_request_of (case new_correlation (PInt 0) (PStr ''/a'') (PStr ''p'') (PInt 7) of Inr c \<Rightarrow>
     (case build_task_application_outcome c ''nav2'' ''succeeded'' (PInt 20) (PFloat (Fin 50)) (PBool True) of
        Inr doc \<Rightarrow> doc | _ \<Rightarrow> []) | _ \<Rightarrow> []) =
   Inr (report_read \<lparr>tc_domain_id = 0, tc_topic = ''/a'', tc_publisher_id = ''p'', tc_source_sequence_number = 7\<rparr>
     True True True (Fin 20) (Fin 50))"
proof -
  let ?c = "\<lparr>tc_domain_id = 0, tc_topic = ''/a'', tc_publisher_id = ''p'', tc_source_sequence_number = 7\<rparr>"
  have c: "new_correlation (PInt 0) (PStr ''/a'') (PStr ''p'') (PInt 7) = Inr ?c"
    by (simp add: new_correlation_def)
  have x: "py_float (PInt 20) = Inr (Fin 20)" by code_simp
  have "\<not> isl (build_task_application_outcome ?c ''nav2'' ''succeeded'' (PInt 20) (PFloat (Fin 50)) (PBool True))"
    by code_simp
  then obtain doc where doc:
      "build_task_application_outcome ?c ''nav2'' ''succeeded'' (PInt 20) (PFloat (Fin 50)) (PBool True) = Inr doc"
    by (metis sum.collapse(2))
  from task_reports_understood [OF c doc] x show ?thesis by (auto simp: c doc)
qed

text \<open>A Nav2 report says the task succeeded exactly if the goal status is STATUS_SUCCEEDED (4) and
  is otherwise about a cancelled (5) or aborted (6) goal; an RMF report says so exactly if a response
  came and reports success, and says delivered exactly if a response came.\<close>

theorem nav2_and_rmf_reports:
  assumes "new_correlation d t p n = Inr c"
  shows "(\<forall>doc. nav2_application_outcome c goal latency deadline = Inr doc \<longrightarrow>
      goal \<in> {PInt 4, PInt 5, PInt 6} \<and>
      (\<exists>q. outcome_request_of doc = Inr q \<and> oq_delivered q \<and> oq_succeeded q = Some (goal = PInt 4))) \<and>
    (\<forall>doc. rmf_application_outcome c response success latency deadline = Inr doc \<longrightarrow>
      (\<exists>q received ok. response = PBool received \<and> success = PBool ok \<and> outcome_request_of doc = Inr q \<and>
        oq_delivered q = received \<and> oq_succeeded q = Some (received \<and> ok)))"
proof (rule conjI; intro allI impI)
  fix doc assume doc: "nav2_application_outcome c goal latency deadline = Inr doc"
  then obtain i status where i: "goal = PInt i" "NAV2_TERMINAL_STATUS i = Some status"
      and built: "build_task_application_outcome c ''nav2'' status latency deadline (PBool True) = Inr doc"
    by (cases goal) (auto simp: nav2_application_outcome_def split: option.splits)
  from i(2) have "i \<in> {4, 5, 6}" "status = ''succeeded'' \<longleftrightarrow> i = 4"
    by (auto simp: NAV2_TERMINAL_STATUS_def split: if_splits)
  with i(1) built show "goal \<in> {PInt 4, PInt 5, PInt 6} \<and>
      (\<exists>q. outcome_request_of doc = Inr q \<and> oq_delivered q \<and> oq_succeeded q = Some (goal = PInt 4))"
    by - (erule reportE, auto simp: report_understood [OF assms] report_read_def)
next
  fix doc assume "rmf_application_outcome c response success latency deadline = Inr doc"
  then obtain received ok where flags: "response = PBool received" "success = PBool ok"
      and "build_task_application_outcome c ''rmf''
        (if received \<and> ok then ''succeeded'' else if received then ''rejected'' else ''timed_out'')
        latency deadline (PBool received) = Inr doc"
    by (auto simp: rmf_application_outcome_def split: py_obj.splits)
  then show "\<exists>q received ok. response = PBool received \<and> success = PBool ok \<and> outcome_request_of doc = Inr q \<and>
      oq_delivered q = received \<and> oq_succeeded q = Some (received \<and> ok)"
    by (elim reportE) (auto simp: report_understood [OF assms] report_read_def split: if_splits)
qed

lemma nav2_and_rmf_reports_witness:
  "\<exists>q. outcome_request_of (case nav2_application_outcome
       \<lparr>tc_domain_id = 0, tc_topic = ''/a'', tc_publisher_id = ''p'', tc_source_sequence_number = 7\<rparr>
       (PInt 6) (PInt 20) (PInt 50) of Inr doc \<Rightarrow> doc | _ \<Rightarrow> []) = Inr q \<and> oq_delivered q \<and> oq_succeeded q = Some False"
proof -
  let ?c = "\<lparr>tc_domain_id = 0, tc_topic = ''/a'', tc_publisher_id = ''p'', tc_source_sequence_number = 7\<rparr>"
  have c: "new_correlation (PInt 0) (PStr ''/a'') (PStr ''p'') (PInt 7) = Inr ?c"
    by (simp add: new_correlation_def)
  have "\<not> isl (nav2_application_outcome ?c (PInt 6) (PInt 20) (PInt 50))" by code_simp
  then obtain doc where doc: "nav2_application_outcome ?c (PInt 6) (PInt 20) (PInt 50) = Inr doc"
    by (metis sum.collapse(2))
  from nav2_and_rmf_reports [OF c, of "PInt 6" "PInt 20" "PInt 50" PNone PNone] doc show ?thesis by auto
qed

end
