(* ===== verification/StoreEquivalence.thy ===== *)
theory StoreEquivalence
  imports StoreEffects
begin

text \<open>
  The two durable stores are interchangeable: started from the same tables and the same lease, with
  no failing statement and with parameters that both databases take, an SQLite store and a
  PostgreSQL store succeed or fail together, answer the same and leave the same tables.
\<close>

section \<open>Twin stores\<close>

definition twins :: "store \<Rightarrow> store \<Rightarrow> bool" where
  "twins s t \<longleftrightarrow>
     (\<exists>j. st_backend s = Sqlite j) \<and> (\<exists>sv. st_backend t = Postgres sv) \<and>
     st_fault s = (\<lambda>_. None) \<and> st_fault t = (\<lambda>_. None) \<and> st_db s = st_db t \<and>
     st_lease_id s = st_lease_id t \<and> st_fence s = st_fence t \<and> st_lease_ms s = st_lease_ms t"

fun same_result :: "'a gw_result \<Rightarrow> 'a gw_result \<Rightarrow> bool" where
  "same_result (Inl _) (Inl _) = True"
| "same_result (Inr x) (Inr y) = (x = y)"
| "same_result _ _ = False"

definition twin_steps :: "store \<times> 'a gw_result \<Rightarrow> store \<times> 'a gw_result \<Rightarrow> bool" where
  "twin_steps r q \<longleftrightarrow> twins (fst r) (fst q) \<and> same_result (snd r) (snd q)"

text \<open>Parameters both databases take: 64 bit integers and UTF-8 text without NUL.\<close>

fun portable_arg :: "sql_arg \<Rightarrow> bool" where
  "portable_arg (IntArg i) = fits64 i"
| "portable_arg (TextArg x) = (utf8_ok x \<and> CHR 0x00 \<notin> set x)"

lemma portable_binds: "list_all portable_arg args \<Longrightarrow> bind_all b args = None"
proof (induction args)
  case (Cons a args)
  then have "bind_error b a = None" by (cases "(b, a)" rule: bind_error.cases) auto
  with Cons show ?case by simp
qed simp

lemma twins_execute:
  assumes "twins s t" "list_all portable_arg args" "list_all portable_arg args'"
  shows "twin_steps (execute args stmt s) (execute args' stmt t)"
  using assms portable_binds [OF assms(2)] portable_binds [OF assms(3)]
  by (cases "stmt (st_db t)") (auto simp: twin_steps_def execute_def Let_def twins_def)

lemma twins_then:
  assumes "twin_steps r q" "\<And>x s t. twins s t \<Longrightarrow> twin_steps (f x s) (g x t)"
  shows "twin_steps (try_then r f) (try_then q g)"
  using assms(1) assms(2) [of "fst r" "fst q"]
  by (cases r; cases q; cases "snd r"; cases "snd q") (auto simp: twin_steps_def)

lemma twins_value: "twins s t \<Longrightarrow> twin_steps (s, Inr x) (t, Inr x)"
  by (simp add: twin_steps_def)

lemma twins_failed: "twins s t \<Longrightarrow> twin_steps (s, Inl e) (t, Inl e')"
  by (simp add: twin_steps_def)

lemma twins_rolled_back:
  assumes "twin_steps r q" "db = db'"
  shows "twin_steps (rolled_back db r) (rolled_back db' q)"
  using assms by (cases r; cases q; cases "snd r"; cases "snd q")
    (auto simp: rolled_back_def twin_steps_def twins_def)

lemma twins_commit_after:
  assumes "twins s t" "\<And>s t. twins s t \<Longrightarrow> twin_steps (body s) (body' t)"
  shows "twin_steps (commit_after body s) (commit_after body' t)"
  unfolding commit_after_def
  by (intro twins_rolled_back twins_then assms twins_execute twins_value)
    (use assms(1) in \<open>simp_all add: twins_def\<close>)

lemma twins_transaction:
  assumes "twins s t" "\<And>s t. twins s t \<Longrightarrow> twin_steps (body s) (body' t)"
  shows "twin_steps (transaction body s) (transaction body' t)"
  unfolding transaction_def
  by (intro twins_then twins_commit_after twins_execute assms) simp_all

lemma twins_wrap: "twin_steps r q \<Longrightarrow> twin_steps (wrap_errors f r) (wrap_errors g q)"
  by (cases r; cases q; cases "snd r"; cases "snd q") (auto simp: twin_steps_def wrap_errors_def)

lemmas twin_rules = twins_then twins_value twins_failed twins_wrap

section \<open>The calls\<close>

lemma twins_select_lease: "twins s t \<Longrightarrow> twin_steps (execute [] select_lease s) (execute [] select_lease t)"
  by (rule twins_execute) simp_all

lemma twins_verify: "twins s t \<Longrightarrow> twin_steps (verify_lease now s) (verify_lease now t)"
proof -
  assume tw: "twins s t"
  then have "st_lease_id s = st_lease_id t" "st_fence s = st_fence t" by (simp_all add: twins_def)
  with tw show ?thesis
    by (auto simp: verify_lease_def persistence_def intro!: twin_rules twins_select_lease split: option.split)
qed

lemma twins_guard: "twins s t \<Longrightarrow> twin_steps (fence_guard now s) (fence_guard now t)"
proof -
  assume tw: "twins s t"
  then have "st_lease_id s = st_lease_id t" by (simp add: twins_def)
  with tw show ?thesis
    by (auto simp: fence_guard_def persistence_def intro: twins_value twins_failed twins_verify split: option.split)
qed

definition portable_state :: "py_dict \<Rightarrow> bool" where
  "portable_state d \<longleftrightarrow>
     (case dget d ''policy_fingerprint'' of PStr fp \<Rightarrow> portable_arg (TextArg fp) | _ \<Rightarrow> True) \<and>
     (case json_dumps False (PDict d) of Inl _ \<Rightarrow> True | Inr txt \<Rightarrow> portable_arg (TextArg txt))"

fun portable_request :: "write_request \<Rightarrow> bool" where
  "portable_request (AppendReq m off payload evict cap state) \<longleftrightarrow>
     list_all portable_arg [IntArg (fm_domain_id m), TextArg (fm_topic m), IntArg off,
       TextArg (fm_publisher_id m), IntArg (fm_source_sequence_number m)] \<and>
     (case state of None \<Rightarrow> True | Some d \<Rightarrow> portable_state d)"
| "portable_request (CursorReq (d, p, c) n) = list_all portable_arg [IntArg d, TextArg p, TextArg c, IntArg n]"
| "portable_request (OutcomeReq k cap d) \<longleftrightarrow> list_all portable_arg (key_args k) \<and> portable_state d"

lemma twins_save: "twins s t \<Longrightarrow> portable_state d \<Longrightarrow> twin_steps (save_admission d s) (save_admission d t)"
  by (auto simp: save_admission_def persistence_def portable_state_def intro: twins_failed twins_execute
      split: py_obj.split sum.split)

lemma twins_append:
  assumes "twins s t" "portable_request (AppendReq m off payload evict cap state)"
  shows "twin_steps (append_body m off payload evict cap state now s) (append_body m off payload evict cap state now t)"
  using assms unfolding append_body_def
  by (auto intro!: twins_then twins_guard twins_execute twins_value twins_save
      simp: drop_stale_dedup_def split: option.splits)

lemma twins_cursor:
  assumes "twins s t" "portable_request (CursorReq k n)"
  shows "twin_steps (cursor_body k n now s) (cursor_body k n now t)"
  using assms by (cases k) (auto simp: cursor_body_def intro!: twins_then twins_guard twins_execute)

lemma twins_outcome:
  assumes "twins s t" "portable_request (OutcomeReq k cap d)"
  shows "twin_steps (outcome_body (key_args k) k cap d now s)
    (outcome_body [TextArg (fst (snd k)), TextArg (fst (snd (snd k)))] k cap d now t)"
  using assms unfolding outcome_body_def
  by (cases k) (auto intro!: twins_then twins_guard twins_execute twins_value twins_failed twins_save
      simp: persistence_def drop_stale_outcomes_def key_args_def)

definition portable_lease :: "string \<Rightarrow> int \<Rightarrow> int \<Rightarrow> store \<Rightarrow> bool" where
  "portable_lease h l n s \<longleftrightarrow>
     list_all portable_arg [TextArg h, IntArg n, IntArg (n + l), IntArg (next_fence (db_lease (st_db s)) h n)] \<and>
     (case st_lease_id s of None \<Rightarrow> True | Some w \<Rightarrow> portable_arg (TextArg w)) \<and>
     (case st_fence s of None \<Rightarrow> True | Some f \<Rightarrow> portable_arg (IntArg f)) \<and>
     (case st_lease_ms s of None \<Rightarrow> True | Some m \<Rightarrow> portable_arg (IntArg (n + m)))"

text \<open>A store that is a twin of another and still has its first database.\<close>

lemma twins_acquire_body:
  assumes "twins s t" "list_all portable_arg [TextArg h, IntArg (n + l), IntArg (next_fence (db_lease (st_db s)) h n)]"
  shows "twin_steps (acquire_body h l n s) (acquire_body h l n t)"
proof -
  obtain s1 t1 where run: "execute [] select_lease s = (s1, Inr (db_lease (st_db s)))"
      "execute [] select_lease t = (t1, Inr (db_lease (st_db s)))" "twins s1 t1"
    using assms(1) by (auto simp: execute_def select_lease_def twins_def Let_def)
  have "twin_steps (execute args (upsert_lease h k m) s1) (execute args (upsert_lease h k m) t1)"
    if "list_all portable_arg args" for args k m
    using run(3) that by (intro twins_execute)
  with assms(2) show ?thesis
    by (auto simp: acquire_body_def run(1,2) persistence_def Let_def intro!: twins_failed twins_then twins_value run(3)
        split: option.split)
qed

lemma twins_renew_body:
  assumes "twins s t" "fits64 (n + l)"
  shows "twin_steps (renew_body h f l n s) (renew_body h f l n t)"
  using assms unfolding renew_body_def
  by (auto simp: persistence_def intro!: twins_then twins_select_lease twins_failed twins_value twins_execute)

lemma twins_acquired: "twin_steps r q \<Longrightarrow> twin_steps (acquired h l r) (acquired h l q)"
  unfolding acquired_def by (erule twins_then) (auto simp: twin_steps_def twins_def)

lemma twins_forget: "twin_steps r q \<Longrightarrow> twin_steps (forget_lease r) (forget_lease q)"
  by (cases r; cases q) (auto simp: forget_lease_def twin_steps_def twins_def)

text \<open>The transactions of SQLite and PostgreSQL on twins with the same tables as the given ones.\<close>

lemma twins_lease_transaction:
  assumes "twins s t" "\<And>u v. twins u v \<Longrightarrow> st_db u = st_db s \<Longrightarrow> twin_steps (body u) (body v)"
  shows "twin_steps (transaction body s) (transaction (\<lambda>u. try_then (lock_lease u) (\<lambda>_. body)) t)"
proof -
  let ?s1 = "s\<lparr>st_stmts := st_stmts s + 1\<rparr>" and ?t1 = "t\<lparr>st_stmts := st_stmts t + 1\<rparr>"
  let ?t2 = "?t1\<lparr>st_stmts := st_stmts ?t1 + 1\<rparr>"
  have runs: "execute [] no_op s = (?s1, Inr ())" "execute [] no_op t = (?t1, Inr ())" "lock_lease ?t1 = (?t2, Inr ())"
      and tw: "twins ?s1 ?t1" "twins ?s1 ?t2"
    using assms(1) by (auto simp: execute_def no_op_def lock_lease_def twins_def Let_def)
  have body: "twin_steps (body ?s1) (body ?t2)" by (rule assms(2)) (use tw in simp_all)
  let ?run = "\<lambda>r. try_then r (\<lambda>x s1. try_then (execute [] no_op s1) (\<lambda>_ s2. (s2, Inr x)))"
  have "twin_steps (?run (body ?s1)) (?run (body ?t2))"
    by (intro twins_then body twins_execute twins_value) simp_all
  moreover have "st_db ?s1 = st_db ?t1" using tw by (simp add: twins_def)
  ultimately have "twin_steps (rolled_back (st_db ?s1) (?run (body ?s1))) (rolled_back (st_db ?t1) (?run (body ?t2)))"
    by (rule twins_rolled_back)
  then show ?thesis
    by (simp only: transaction_def commit_after_def runs try_then_simps)
qed

text \<open>C19: an SQLite store and a PostgreSQL store with the same tables and the same lease, no failing
  statement and parameters both databases take, are equivalent: every committing operation, the
  acquisition and the renewal of the lease succeed on both or fail on both, with the same answer, and
  leave the same tables, the same lease and the same fence token.\<close>

theorem backends_agree:
  assumes "twins s t" "portable_request q" "portable_lease h l n s"
  shows "twin_steps (sqlite_write q now s) (pg_write q now t) \<and>
    twin_steps (sqlite_acquire_lease h l n s) (pg_acquire_lease h l n t) \<and>
    twin_steps (sqlite_renew_lease n s) (pg_renew_lease n t)"
proof (intro conjI)
  show "twin_steps (sqlite_write q now s) (pg_write q now t)"
  proof (cases q)
    case (AppendReq m off payload evict cap state)
    with assms(1,2) show ?thesis
      by (auto simp: sqlite_append_frame_def pg_append_frame_def intro!: twins_wrap twins_transaction twins_append)
  next
    case (CursorReq k i)
    with assms(1,2) show ?thesis
      by (auto simp: sqlite_set_cursor_def pg_set_cursor_def intro!: twins_wrap twins_transaction twins_cursor)
  next
    case (OutcomeReq k cap d)
    have "twin_steps (sqlite_commit_outcome k cap d now s) (pg_commit_outcome k cap d now t)"
      unfolding sqlite_commit_outcome_def pg_commit_outcome_def
      by (intro twins_wrap twins_transaction twins_outcome assms(1)) (use assms(2) OutcomeReq in simp_all)
    then show ?thesis
      unfolding OutcomeReq sqlite_write.simps pg_write.simps without_result_def
      by (cases "snd (sqlite_commit_outcome k cap d now s)"; cases "snd (pg_commit_outcome k cap d now t)")
        (auto simp: twin_steps_def)
  qed
  show "twin_steps (sqlite_acquire_lease h l n s) (pg_acquire_lease h l n t)"
    using assms(1,3) unfolding sqlite_acquire_lease_def pg_acquire_lease_def
    by (auto simp: portable_lease_def intro!: twins_failed twins_acquired twins_wrap twins_lease_transaction twins_acquire_body)
  have ids: "st_lease_id s = st_lease_id t" "st_fence s = st_fence t" "st_lease_ms s = st_lease_ms t"
    using assms(1) by (simp_all add: twins_def)
  show "twin_steps (sqlite_renew_lease n s) (pg_renew_lease n t)"
    using assms(1,3) unfolding sqlite_renew_lease_def pg_renew_lease_def ids
    by (auto simp: portable_lease_def ids persistence_def
        intro!: twins_failed twins_wrap twins_lease_transaction twins_renew_body split: option.split)
qed

definition demo_sqlite :: store where
  "demo_sqlite = fresh_store (Sqlite ''delete'') ''state.db'' empty_db (\<lambda>_. None) (\<lambda>_. [])"

definition demo_postgres :: store where
  "demo_postgres = fresh_store
     (Postgres \<lparr>sv_endpoint = [], sv_synchronous_commit = [], sv_version = [], sv_in_recovery = False\<rparr>)
     ''postgresql://h/d'' empty_db (\<lambda>_. None) (\<lambda>_. [])"

lemma backends_agree_witness:
  "twin_steps (sqlite_write (CursorReq (0, ''/a'', ''c'') 1) None demo_sqlite)
     (pg_write (CursorReq (0, ''/a'', ''c'') 1) None demo_postgres) \<and>
   snd (sqlite_write (CursorReq (0, ''/a'', ''c'') 1) None demo_sqlite) = Inr () \<and>
   snd (sqlite_acquire_lease ''w'' 5000 1000 demo_sqlite) = Inr 1"
proof -
  have "twins demo_sqlite demo_postgres"
    by (simp add: twins_def demo_sqlite_def demo_postgres_def fresh_store_def)
  moreover have "portable_request (CursorReq (0, ''/a'', ''c'') 1)" "portable_lease ''w'' 5000 1000 demo_sqlite"
    by code_simp+
  ultimately have "twin_steps (sqlite_write (CursorReq (0, ''/a'', ''c'') 1) None demo_sqlite)
     (pg_write (CursorReq (0, ''/a'', ''c'') 1) None demo_postgres)"
    using backends_agree by blast
  moreover have "snd (sqlite_write (CursorReq (0, ''/a'', ''c'') 1) None demo_sqlite) = Inr ()"
      "snd (sqlite_acquire_lease ''w'' 5000 1000 demo_sqlite) = Inr 1" by code_simp+
  ultimately show ?thesis by blast
qed

end
