(* ===== verification/LocalControl.thy ===== *)
theory LocalControl
  imports Json
begin

text \<open>
  \<open>fleetqox/local_control_lease.py\<close>: the robot-side controller that publishes a velocity
  command only under an active control lease, clipped to the bounds of its policy and limited in
  acceleration and jerk, and falls back when the lease expires. All numbers are floats; a division
  by a time difference that underflows to zero raises.
\<close>

section \<open>Commands\<close>

record twist_command =
  tw_linear_x :: pyfloat
  tw_linear_y :: pyfloat
  tw_linear_z :: pyfloat
  tw_angular_x :: pyfloat
  tw_angular_y :: pyfloat
  tw_angular_z :: pyfloat

definition twist_fields :: "twist_command \<Rightarrow> pyfloat list" where
  "twist_fields c = [tw_linear_x c, tw_linear_y c, tw_linear_z c, tw_angular_x c, tw_angular_y c, tw_angular_z c]"

definition zero_command :: twist_command where
  "zero_command = \<lparr>tw_linear_x = 0, tw_linear_y = 0, tw_linear_z = 0,
                   tw_angular_x = 0, tw_angular_y = 0, tw_angular_z = 0\<rparr>"

definition lease_optional_float :: "py_obj \<Rightarrow> pyfloat option outcome" where
  "lease_optional_float v =
     (case py_float v of
        Inr x \<Rightarrow> Inr (Some x)
      | Inl e \<Rightarrow> if e = TypeError \<or> is_value_error e then Inr None else Inl e)"

definition lease_optional_int :: "py_obj \<Rightarrow> int option outcome" where
  "lease_optional_int v =
     (case int_of_float_of v of
        Inr i \<Rightarrow> Inr (Some i)
      | Inl e \<Rightarrow> if e = TypeError \<or> is_value_error e then Inr None else Inl e)"

text \<open>\<open>_float\<close>: a value that is no number is 0.\<close>

definition float_or_zero :: "py_obj \<Rightarrow> pyfloat outcome" where
  "float_or_zero v = map_sum id (case_option 0 id) (lease_optional_float v)"

definition lease_mapping :: "py_obj \<Rightarrow> py_dict" where
  "lease_mapping v = (case v of PDict d \<Rightarrow> d | _ \<Rightarrow> [])"

definition twist_from_mapping :: "py_dict \<Rightarrow> twist_command outcome" where
  "twist_from_mapping d =
     (let linear = lease_mapping (dget d ''linear''); angular = lease_mapping (dget d ''angular'')
      in case map_outcome (\<lambda>(m, k). float_or_zero (dget m k))
                [(linear, ''x''), (linear, ''y''), (linear, ''z''),
                 (angular, ''x''), (angular, ''y''), (angular, ''z'')] of
           Inl e \<Rightarrow> Inl e
         | Inr [a, b, c, u, v, w] \<Rightarrow>
             Inr \<lparr>tw_linear_x = a, tw_linear_y = b, tw_linear_z = c,
                  tw_angular_x = u, tw_angular_y = v, tw_angular_z = w\<rparr>
         | Inr _ \<Rightarrow> Inl TypeError)"

definition twist_payload :: "twist_command \<Rightarrow> py_obj" where
  "twist_payload c = PDict
     [(''linear'', PDict [(''x'', PFloat (tw_linear_x c)), (''y'', PFloat (tw_linear_y c)), (''z'', PFloat (tw_linear_z c))]),
      (''angular'', PDict [(''x'', PFloat (tw_angular_x c)), (''y'', PFloat (tw_angular_y c)), (''z'', PFloat (tw_angular_z c))])]"

definition py_abs :: "pyfloat \<Rightarrow> pyfloat" where
  "py_abs x = (if x < 0 then - x else x)"

definition twist_is_zero :: "twist_command \<Rightarrow> bool" where
  "twist_is_zero c \<longleftrightarrow> list_all (\<lambda>v. py_abs v \<le> dbl (1 / 10 ^ 9)) (twist_fields c)"

text \<open>\<open>==\<close> of the dataclass.\<close>

definition twist_eq :: "twist_command \<Rightarrow> twist_command \<Rightarrow> bool" where
  "twist_eq a b \<longleftrightarrow> list_all2 feq (twist_fields a) (twist_fields b)"

record twist_acceleration =
  ta_linear_x :: pyfloat
  ta_angular_z :: pyfloat

definition zero_acceleration :: twist_acceleration where
  "zero_acceleration = \<lparr>ta_linear_x = 0, ta_angular_z = 0\<rparr>"

record dynamic_limit_result =
  dl_command :: twist_command
  dl_acceleration :: twist_acceleration
  dl_acceleration_clipped :: bool
  dl_jerk_clipped :: bool

definition dl_clipped :: "dynamic_limit_result \<Rightarrow> bool" where
  "dl_clipped r \<longleftrightarrow> dl_acceleration_clipped r \<or> dl_jerk_clipped r"

definition dl_stages :: "dynamic_limit_result \<Rightarrow> string list" where
  "dl_stages r =
     (if dl_acceleration_clipped r then [''acceleration''] else []) @
     (if dl_jerk_clipped r then [''jerk''] else [])"

section \<open>Policies\<close>

record lease_policy =
  lp_controller_profile :: string
  lp_max_linear_x :: pyfloat
  lp_max_abs_linear_y :: pyfloat
  lp_max_abs_linear_z :: pyfloat
  lp_max_abs_angular_x :: pyfloat
  lp_max_abs_angular_y :: pyfloat
  lp_max_abs_angular_z :: pyfloat
  lp_max_linear_accel_x :: pyfloat
  lp_max_abs_angular_accel_z :: pyfloat
  lp_max_linear_jerk_x :: pyfloat
  lp_max_abs_angular_jerk_z :: pyfloat
  lp_max_local_lifespan_ms :: pyfloat
  lp_pending_command_window_ms :: pyfloat
  lp_publish_stop_on_expiry :: bool
  lp_expiry_action :: string

definition default_lease_policy :: lease_policy where
  "default_lease_policy =
     \<lparr>lp_controller_profile = ''diff_drive_safe_v1'', lp_max_linear_x = dbl (1/4),
      lp_max_abs_linear_y = 0, lp_max_abs_linear_z = 0, lp_max_abs_angular_x = 0,
      lp_max_abs_angular_y = 0, lp_max_abs_angular_z = dbl (35/100), lp_max_linear_accel_x = 1,
      lp_max_abs_angular_accel_z = dbl 2, lp_max_linear_jerk_x = dbl 20,
      lp_max_abs_angular_jerk_z = dbl 40, lp_max_local_lifespan_ms = dbl 500,
      lp_pending_command_window_ms = dbl 120, lp_publish_stop_on_expiry = True,
      lp_expiry_action = ''stop''\<rparr>"

definition positive_float :: "py_obj \<Rightarrow> pyfloat \<Rightarrow> pyfloat outcome" where
  "positive_float v dflt =
     map_sum id (\<lambda>r. case r of None \<Rightarrow> dflt | Some x \<Rightarrow> if x \<le> 0 then dflt else x) (lease_optional_float v)"

definition nonnegative_float :: "py_obj \<Rightarrow> pyfloat \<Rightarrow> pyfloat outcome" where
  "nonnegative_float v dflt =
     map_sum id (\<lambda>r. case r of None \<Rightarrow> dflt | Some x \<Rightarrow> if x < 0 then dflt else x) (lease_optional_float v)"

definition lease_bool :: "py_obj \<Rightarrow> bool \<Rightarrow> bool" where
  "lease_bool v dflt =
     (case v of
        PNone \<Rightarrow> dflt
      | PBool b \<Rightarrow> b
      | _ \<Rightarrow> map lower_char (py_str v) \<in> {''1'', ''true'', ''yes'', ''on''})"

definition expiry_actions :: "string list" where
  "expiry_actions = [''stop'', ''hold_last'', ''drop'']"

definition policy_from_mapping :: "string \<Rightarrow> py_dict \<Rightarrow> lease_policy outcome" where
  "policy_from_mapping name d =
     (let expiry = py_str (dget_or (PStr ''stop'') d ''expiry_action'');
          p = default_lease_policy
      in if expiry \<notin> set expiry_actions
         then Inl (ValueError (''invalid expiry_action for '' @ name @ '': '' @ expiry))
         else case map_outcome (\<lambda>(read, k, dflt). read (dget d k) dflt)
                [(positive_float, ''max_linear_x'', lp_max_linear_x p),
                 (nonnegative_float, ''max_abs_linear_y'', lp_max_abs_linear_y p),
                 (nonnegative_float, ''max_abs_linear_z'', lp_max_abs_linear_z p),
                 (nonnegative_float, ''max_abs_angular_x'', lp_max_abs_angular_x p),
                 (nonnegative_float, ''max_abs_angular_y'', lp_max_abs_angular_y p),
                 (nonnegative_float, ''max_abs_angular_z'', lp_max_abs_angular_z p),
                 (nonnegative_float, ''max_linear_accel_x'', lp_max_linear_accel_x p),
                 (nonnegative_float, ''max_abs_angular_accel_z'', lp_max_abs_angular_accel_z p),
                 (nonnegative_float, ''max_linear_jerk_x'', lp_max_linear_jerk_x p),
                 (nonnegative_float, ''max_abs_angular_jerk_z'', lp_max_abs_angular_jerk_z p),
                 (positive_float, ''max_local_lifespan_ms'', lp_max_local_lifespan_ms p),
                 (nonnegative_float, ''pending_command_window_ms'', lp_pending_command_window_ms p)] of
           Inl e \<Rightarrow> Inl e
         | Inr [lx, ly, lz, ax, ay, az, lin_accel, ang_accel, lin_jerk, ang_jerk, lifespan, window] \<Rightarrow>
             Inr \<lparr>lp_controller_profile = name, lp_max_linear_x = lx, lp_max_abs_linear_y = ly,
                  lp_max_abs_linear_z = lz, lp_max_abs_angular_x = ax, lp_max_abs_angular_y = ay,
                  lp_max_abs_angular_z = az, lp_max_linear_accel_x = lin_accel,
                  lp_max_abs_angular_accel_z = ang_accel, lp_max_linear_jerk_x = lin_jerk,
                  lp_max_abs_angular_jerk_z = ang_jerk, lp_max_local_lifespan_ms = lifespan,
                  lp_pending_command_window_ms = window,
                  lp_publish_stop_on_expiry = lease_bool (dget d ''publish_stop_on_expiry'') (lp_publish_stop_on_expiry p),
                  lp_expiry_action = expiry\<rparr>
         | Inr _ \<Rightarrow> Inl TypeError)"

definition POSITIVE_PROFILE_FIELDS :: "string list" where
  "POSITIVE_PROFILE_FIELDS = [''max_linear_x'', ''max_local_lifespan_ms'']"

definition NONNEGATIVE_PROFILE_FIELDS :: "string list" where
  "NONNEGATIVE_PROFILE_FIELDS =
     [''max_abs_linear_y'', ''max_abs_linear_z'', ''max_abs_angular_x'', ''max_abs_angular_y'',
      ''max_abs_angular_z'', ''max_linear_accel_x'', ''max_abs_angular_accel_z'', ''max_linear_jerk_x'',
      ''max_abs_angular_jerk_z'', ''pending_command_window_ms'']"

definition REQUIRED_PROFILE_FIELDS :: "string list" where
  "REQUIRED_PROFILE_FIELDS =
     [''max_linear_x'', ''max_abs_linear_y'', ''max_abs_linear_z'', ''max_abs_angular_x'',
      ''max_abs_angular_y'', ''max_abs_angular_z'', ''max_linear_accel_x'', ''max_abs_angular_accel_z'',
      ''max_linear_jerk_x'', ''max_abs_angular_jerk_z'', ''max_local_lifespan_ms'',
      ''pending_command_window_ms'', ''expiry_action'']"

definition check_profile_field :: "string \<Rightarrow> py_dict \<Rightarrow> string \<Rightarrow> (pyfloat \<Rightarrow> bool) \<Rightarrow> string \<Rightarrow> unit outcome" where
  "check_profile_field name d key bad what =
     (case lease_optional_float (dget d key) of
        Inl e \<Rightarrow> Inl e
      | Inr v \<Rightarrow>
          if (case v of None \<Rightarrow> True | Some x \<Rightarrow> \<not> is_fin x \<or> bad x)
          then Inl (ValueError (''lease profile '' @ name @ '' field '' @ key @ '' must be '' @ what))
          else Inr ())"

definition validate_profile :: "string \<Rightarrow> py_dict \<Rightarrow> unit outcome" where
  "validate_profile name d =
     (let missing = filter (\<lambda>k. \<not> in_dict k d) REQUIRED_PROFILE_FIELDS;
          expiry = py_str (dget d ''expiry_action'')
      in if missing \<noteq> []
         then Inl (ValueError (''lease profile '' @ name @ '' missing fields: '' @ join_with '', '' missing))
         else if expiry \<notin> set expiry_actions
         then Inl (ValueError (''invalid expiry_action for '' @ name @ '': '' @ expiry))
         else case map_outcome (\<lambda>k. check_profile_field name d k (\<lambda>x. x \<le> 0) ''positive'') POSITIVE_PROFILE_FIELDS of
           Inl e \<Rightarrow> Inl e
         | Inr _ \<Rightarrow>
             map_sum id (\<lambda>_. ())
               (map_outcome (\<lambda>k. check_profile_field name d k (\<lambda>x. x < 0) ''non-negative'') NONNEGATIVE_PROFILE_FIELDS))"

text \<open>\<open>merged[key] = value\<close> for every override that is not None.\<close>

definition merge_overrides :: "py_dict \<Rightarrow> py_dict \<Rightarrow> py_dict" where
  "merge_overrides d overrides =
     foldl (\<lambda>m (k, v). if v = PNone then m else AList.update k v m) d overrides"

text \<open>The file of the profiles is given by its bytes; a profile name or overrides of \<open>None\<close> and
  the empty one count alike.\<close>

definition load_lease_policy :: "string \<Rightarrow> string \<Rightarrow> py_dict \<Rightarrow> lease_policy outcome" where
  "load_lease_policy bytes profile overrides =
     (case (case decode_utf8 bytes of Inl e \<Rightarrow> Inl e | Inr txt \<Rightarrow> json_loads txt) of
        Inl e \<Rightarrow> Inl e
      | Inr (PDict config) \<Rightarrow>
          if dget config ''schema_version'' \<noteq> PStr ''fleetrmw.local_controller_profiles.v1''
          then Inl (ValueError (''unsupported profile schema_version: '' @ py_str (dget config ''schema_version'')))
          else (case dget config ''profiles'' of
            PDict profiles \<Rightarrow>
              (let selected = (if profile \<noteq> [] then profile
                               else py_str (dget_or (PStr []) config ''default_profile''))
               in if selected = []
                  then Inl (ValueError ''lease profile config needs a selected or default profile'')
                  else (case dget profiles selected of
                    PDict payload \<Rightarrow>
                      (let merged = merge_overrides payload overrides
                       in case validate_profile selected merged of
                            Inl e \<Rightarrow> Inl e
                          | Inr _ \<Rightarrow> policy_from_mapping selected merged)
                  | _ \<Rightarrow> Inl (ValueError (''unknown lease profile: '' @ selected @ ''; available: '' @
                               join_with '', '' (sort (map fst profiles))))))
          | _ \<Rightarrow> Inl (ValueError ''lease profile config must contain profiles''))
      | Inr _ \<Rightarrow> Inl (ValueError ''lease profile config must be a JSON object''))"

section \<open>Leases\<close>

record control_lease =
  cl_event_id :: "int option"
  cl_robot_id :: string
  cl_flow_id :: string
  cl_kind :: string
  cl_wire_mode :: string
  cl_action :: string
  cl_source_topic :: string
  cl_policy :: string
  cl_deadline_ms :: "pyfloat option"
  cl_lifespan_ms :: pyfloat
  cl_received_monotonic_ms :: pyfloat
  cl_local_expires_at_ms :: pyfloat
  cl_reason :: string

datatype envelope = EnvelopeText string | EnvelopeMap py_dict

definition envelope_data :: "envelope \<Rightarrow> py_dict outcome" where
  "envelope_data payload =
     (case payload of
        EnvelopeMap d \<Rightarrow> Inr d
      | EnvelopeText txt \<Rightarrow>
          (case json_loads txt of
             Inl e \<Rightarrow> Inl e | Inr (PDict d) \<Rightarrow> Inr d | Inr _ \<Rightarrow> Inl AttributeError))"

definition lease_from_envelope :: "envelope \<Rightarrow> pyfloat \<Rightarrow> lease_policy \<Rightarrow> control_lease outcome" where
  "lease_from_envelope payload received p =
     (case envelope_data payload of
        Inl e \<Rightarrow> Inl e
      | Inr d \<Rightarrow>
     (case positive_float (dget d ''lifespan_ms'') (lp_max_local_lifespan_ms p) of
        Inl e \<Rightarrow> Inl e
      | Inr lifespan \<Rightarrow>
     (case lease_optional_int (dget d ''event_id'') of
        Inl e \<Rightarrow> Inl e
      | Inr event_id \<Rightarrow>
     (case lease_optional_float (dget d ''deadline_ms'') of
        Inl e \<Rightarrow> Inl e
      | Inr deadline \<Rightarrow>
          let local_lifespan = py_min lifespan (lp_max_local_lifespan_ms p);
              text = (\<lambda>k dflt. py_str (dget_or (PStr dflt) d k))
          in Inr \<lparr>cl_event_id = event_id, cl_robot_id = text ''robot_id'' ''unknown_robot'',
                  cl_flow_id = text ''flow_id'' [], cl_kind = text ''kind'' [],
                  cl_wire_mode = text ''wire_mode'' [], cl_action = text ''action'' [],
                  cl_source_topic = text ''source_topic'' [], cl_policy = text ''policy'' [],
                  cl_deadline_ms = deadline, cl_lifespan_ms = local_lifespan,
                  cl_received_monotonic_ms = received, cl_local_expires_at_ms = received + local_lifespan,
                  cl_reason = text ''reason'' []\<rparr>))))"

definition lease_expired :: "control_lease \<Rightarrow> pyfloat \<Rightarrow> bool" where
  "lease_expired l now \<longleftrightarrow> cl_local_expires_at_ms l < now"

definition lease_log_record :: "control_lease option \<Rightarrow> py_obj" where
  "lease_log_record lease =
     (case lease of
        None \<Rightarrow> PNone
      | Some l \<Rightarrow> PDict
          [(''event_id'', of_optional PInt (cl_event_id l)), (''robot_id'', PStr (cl_robot_id l)),
           (''flow_id'', PStr (cl_flow_id l)), (''kind'', PStr (cl_kind l)),
           (''wire_mode'', PStr (cl_wire_mode l)), (''action'', PStr (cl_action l)),
           (''source_topic'', PStr (cl_source_topic l)), (''policy'', PStr (cl_policy l)),
           (''deadline_ms'', of_optional PFloat (cl_deadline_ms l)),
           (''lifespan_ms'', PFloat (cl_lifespan_ms l)),
           (''received_monotonic_ms'', PFloat (cl_received_monotonic_ms l)),
           (''local_expires_at_ms'', PFloat (cl_local_expires_at_ms l)), (''reason'', PStr (cl_reason l))])"

record lease_decision =
  ld_status :: string
  ld_reason :: string
  ld_publish :: bool
  ld_safe_command :: twist_command
  ld_requested_command :: "twist_command option"
  ld_lease :: "control_lease option"
  ld_now_ms :: pyfloat
  ld_clipped :: bool
  ld_clip_stages :: "string list"

definition decision_log_record :: "lease_decision \<Rightarrow> py_dict" where
  "decision_log_record d =
     [(''schema_version'', PStr ''fleetrmw.local_control_lease.v1''), (''status'', PStr (ld_status d)),
      (''reason'', PStr (ld_reason d)), (''publish'', PBool (ld_publish d)),
      (''clipped'', PBool (ld_clipped d)), (''clip_stages'', PList (map PStr (ld_clip_stages d))),
      (''now_ms'', PFloat (ld_now_ms d)), (''safe_command'', twist_payload (ld_safe_command d)),
      (''requested_command'', of_optional twist_payload (ld_requested_command d)),
      (''lease'', lease_log_record (ld_lease d))]"

text \<open>The fields a decision leaves at their defaults: not clipped, in no stage.\<close>

definition plain_decision ::
    "string \<Rightarrow> string \<Rightarrow> bool \<Rightarrow> twist_command \<Rightarrow> twist_command option \<Rightarrow> control_lease option \<Rightarrow>
     pyfloat \<Rightarrow> lease_decision" where
  "plain_decision status reason publish safe requested lease now =
     \<lparr>ld_status = status, ld_reason = reason, ld_publish = publish, ld_safe_command = safe,
      ld_requested_command = requested, ld_lease = lease, ld_now_ms = now, ld_clipped = False,
      ld_clip_stages = []\<rparr>"

section \<open>Limits\<close>

definition clamp :: "pyfloat \<Rightarrow> pyfloat \<Rightarrow> pyfloat \<Rightarrow> pyfloat" where
  "clamp value lower upper = py_min upper (py_max lower value)"

definition step_toward :: "pyfloat \<Rightarrow> pyfloat \<Rightarrow> pyfloat \<Rightarrow> pyfloat" where
  "step_toward previous goal max_step =
     (if max_step \<le> 0 then previous
      else let delta = goal - previous
           in if py_abs delta \<le> max_step then goal
              else if delta > 0 then previous + max_step else previous - max_step)"

definition clip_command :: "twist_command \<Rightarrow> lease_policy \<Rightarrow> twist_command \<times> bool" where
  "clip_command c p =
     (let bounded = (\<lambda>v limit. clamp v (- limit) limit);
          safe = \<lparr>tw_linear_x = bounded (tw_linear_x c) (lp_max_linear_x p),
                  tw_linear_y = bounded (tw_linear_y c) (lp_max_abs_linear_y p),
                  tw_linear_z = bounded (tw_linear_z c) (lp_max_abs_linear_z p),
                  tw_angular_x = bounded (tw_angular_x c) (lp_max_abs_angular_x p),
                  tw_angular_y = bounded (tw_angular_y c) (lp_max_abs_angular_y p),
                  tw_angular_z = bounded (tw_angular_z c) (lp_max_abs_angular_z p)\<rparr>
      in (safe, \<not> twist_eq safe c))"

text \<open>\<open>math.isclose(a, b, rel_tol=0.0, abs_tol=1e-12)\<close>.\<close>

definition is_close :: "pyfloat \<Rightarrow> pyfloat \<Rightarrow> bool" where
  "is_close a b \<longleftrightarrow> feq a b \<or> (is_fin a \<and> is_fin b \<and> py_abs (b - a) \<le> dbl (1 / 10 ^ 12))"

definition limit_over ::
    "twist_command \<Rightarrow> twist_command \<Rightarrow> twist_acceleration \<Rightarrow> pyfloat \<Rightarrow> lease_policy \<Rightarrow> dynamic_limit_result" where
  "limit_over c previous prior dt p =
     (let wanted_x = fdiv (tw_linear_x c - tw_linear_x previous) dt;
          wanted_z = fdiv (tw_angular_z c - tw_angular_z previous) dt;
          accel_x = clamp wanted_x (- lp_max_linear_accel_x p) (lp_max_linear_accel_x p);
          accel_z = clamp wanted_z (- lp_max_abs_angular_accel_z p) (lp_max_abs_angular_accel_z p);
          jerk_x = step_toward (ta_linear_x prior) accel_x (py_max 0 (lp_max_linear_jerk_x p) * dt);
          jerk_z = step_toward (ta_angular_z prior) accel_z (py_max 0 (lp_max_abs_angular_jerk_z p) * dt)
      in \<lparr>dl_command = c\<lparr>tw_linear_x := tw_linear_x previous + jerk_x * dt,
                        tw_angular_z := tw_angular_z previous + jerk_z * dt\<rparr>,
          dl_acceleration = \<lparr>ta_linear_x = jerk_x, ta_angular_z = jerk_z\<rparr>,
          dl_acceleration_clipped = (\<not> is_close accel_x wanted_x \<or> \<not> is_close accel_z wanted_z),
          dl_jerk_clipped = (\<not> (feq jerk_x accel_x \<and> feq jerk_z accel_z))\<rparr>)"

definition apply_dynamic_limits ::
    "twist_command \<Rightarrow> twist_command \<Rightarrow> pyfloat option \<Rightarrow> twist_acceleration option \<Rightarrow> pyfloat \<Rightarrow>
     lease_policy \<Rightarrow> dynamic_limit_result outcome" where
  "apply_dynamic_limits c previous previous_ms previous_accel now p =
     (case previous_ms of
        None \<Rightarrow> Inr \<lparr>dl_command = c, dl_acceleration = zero_acceleration,
                    dl_acceleration_clipped = False, dl_jerk_clipped = False\<rparr>
      | Some before_ms \<Rightarrow>
          if now \<le> before_ms
          then Inr \<lparr>dl_command = c, dl_acceleration = zero_acceleration,
                    dl_acceleration_clipped = False, dl_jerk_clipped = False\<rparr>
          else let dt = fdiv (now - before_ms) (dbl 1000)
               in if feq dt 0 then Inl ZeroDivisionError
                  else Inr (limit_over c previous
                              (case previous_accel of None \<Rightarrow> zero_acceleration | Some a \<Rightarrow> a) dt p))"

definition apply_rate_limits ::
    "twist_command \<Rightarrow> twist_command \<Rightarrow> pyfloat option \<Rightarrow> pyfloat \<Rightarrow> lease_policy \<Rightarrow> (twist_command \<times> bool) outcome" where
  "apply_rate_limits c previous previous_ms now p =
     map_sum id (\<lambda>r. (dl_command r, dl_clipped r))
       (apply_dynamic_limits c previous previous_ms (Some zero_acceleration) now p)"

definition clip_reason :: "bool \<Rightarrow> string list \<Rightarrow> string" where
  "clip_reason bound_clipped stages =
     (if bound_clipped \<and> stages \<noteq> []
      then ''command clipped to local safety, '' @ join_with '', '' stages @ '' bounds''
      else if stages \<noteq> [] then ''command clipped to local '' @ join_with '', '' stages @ '' bounds''
      else ''command clipped to local safety bounds'')"

section \<open>The state machine\<close>

record control_state =
  lc_policy :: lease_policy
  lc_active_lease :: "control_lease option"
  lc_last_output :: twist_command
  lc_last_output_ms :: "pyfloat option"
  lc_last_accel :: twist_acceleration
  lc_fallback_event_ids :: "int option list"
  lc_pending_command :: "(twist_command \<times> pyfloat) option"

definition new_control_state :: "lease_policy \<Rightarrow> control_state" where
  "new_control_state p =
     \<lparr>lc_policy = p, lc_active_lease = None, lc_last_output = zero_command, lc_last_output_ms = None,
      lc_last_accel = zero_acceleration, lc_fallback_event_ids = [], lc_pending_command = None\<rparr>"

definition note_fallback :: "control_lease \<Rightarrow> control_state \<Rightarrow> control_state" where
  "note_fallback l s = s\<lparr>lc_fallback_event_ids := List.insert (cl_event_id l) (lc_fallback_event_ids s)\<rparr>"

definition fallback_stop :: "control_lease \<Rightarrow> pyfloat \<Rightarrow> string \<Rightarrow> control_state \<Rightarrow> control_state \<times> lease_decision" where
  "fallback_stop l now reason s =
     ((note_fallback l s)\<lparr>lc_last_output := zero_command, lc_last_output_ms := Some now,
                          lc_last_accel := zero_acceleration\<rparr>,
      plain_decision ''fallback_stop'' reason True zero_command None (Some l) now)"

definition expiry_decision :: "control_lease \<Rightarrow> pyfloat \<Rightarrow> string \<Rightarrow> control_state \<Rightarrow> control_state \<times> lease_decision" where
  "expiry_decision l now reason s =
     (let action = map lower_char (lp_expiry_action (lc_policy s))
      in if action = ''hold_last''
         then (note_fallback l s,
               plain_decision ''fallback_hold_last'' (reason @ ''; holding last safe command'') True
                 (lc_last_output s) None (Some l) now)
         else if action = ''drop''
         then (note_fallback l s,
               plain_decision ''fallback_drop'' (reason @ ''; no fallback command published'') False
                 (lc_last_output s) None (Some l) now)
         else fallback_stop l now (reason @ ''; publishing fallback stop'') s)"

definition limited_decision :: "twist_command \<Rightarrow> pyfloat \<Rightarrow> control_lease \<Rightarrow> bool \<Rightarrow> dynamic_limit_result \<Rightarrow> lease_decision" where
  "limited_decision c now l bound_clipped r =
     (let clipped = (bound_clipped \<or> dl_clipped r)
      in \<lparr>ld_status = (if clipped then ''clip'' else ''accept''),
          ld_reason = (if clipped then clip_reason bound_clipped (dl_stages r)
                       else ''command accepted under active lease''),
          ld_publish = True, ld_safe_command = dl_command r, ld_requested_command = Some c,
          ld_lease = Some l, ld_now_ms = now, ld_clipped = clipped,
          ld_clip_stages = (if bound_clipped then [''safety_bound''] else []) @ dl_stages r\<rparr>)"

definition evaluate_command :: "twist_command \<Rightarrow> pyfloat \<Rightarrow> control_state \<Rightarrow> control_state \<times> lease_decision outcome" where
  "evaluate_command c now s =
     (case lc_active_lease s of
        None \<Rightarrow>
          (s\<lparr>lc_pending_command := Some (c, now)\<rparr>,
           Inr (plain_decision ''drop_no_lease'' ''typed command arrived before any active control lease''
                  False zero_command (Some c) None now))
      | Some l \<Rightarrow>
          if lease_expired l now
          then (case expiry_decision l now ''active lease expired before command'' s of (s1, d) \<Rightarrow> (s1, Inr d))
          else (case clip_command c (lc_policy s) of (bounded, bound_clipped) \<Rightarrow>
            (case apply_dynamic_limits bounded (lc_last_output s) (lc_last_output_ms s)
                    (Some (lc_last_accel s)) now (lc_policy s) of
               Inl e \<Rightarrow> (s, Inl e)
             | Inr r \<Rightarrow>
                 (s\<lparr>lc_last_output := dl_command r, lc_last_output_ms := Some now,
                    lc_last_accel := dl_acceleration r\<rparr>,
                  Inr (limited_decision c now l bound_clipped r)))))"

definition stale_lease_decision :: "control_lease \<Rightarrow> control_state \<Rightarrow> lease_decision option" where
  "stale_lease_decision l s =
     (case lc_active_lease s of
        None \<Rightarrow> None
      | Some active \<Rightarrow>
          (case (cl_event_id active, cl_event_id l) of
             (Some held, Some arrived) \<Rightarrow>
               if arrived > held then None
               else Some (plain_decision
                 (if arrived = held then ''duplicate_lease'' else ''stale_lease'')
                 (if arrived = held then ''duplicate control lease ignored without extending local expiry''
                  else ''stale control lease ignored because a newer lease is active'')
                 False (lc_last_output s) None (Some active) (cl_received_monotonic_ms l))
           | _ \<Rightarrow> None))"

text \<open>The ids to forget are those that are not there.\<close>

definition discard_fallback :: "int option \<Rightarrow> int option list \<Rightarrow> int option list" where
  "discard_fallback i ids = (if i \<notin> set ids then removeAll i ids else ids)"

definition ingest_lease :: "control_lease \<Rightarrow> control_state \<Rightarrow> control_state \<times> lease_decision outcome" where
  "ingest_lease l s =
     (case stale_lease_decision l s of
        Some d \<Rightarrow> (s, Inr d)
      | None \<Rightarrow>
          let s1 = s\<lparr>lc_active_lease := Some l,
                     lc_fallback_event_ids := discard_fallback (cl_event_id l) (lc_fallback_event_ids s)\<rparr>;
              decision = plain_decision ''lease_update'' ''lease accepted into local controller state'' False
                           (lc_last_output s1) None (Some l) (cl_received_monotonic_ms l)
          in case lc_pending_command s1 of
               None \<Rightarrow> (s1, Inr decision)
             | Some (c, received) \<Rightarrow>
                 if cl_received_monotonic_ms l - received \<le> lp_pending_command_window_ms (lc_policy s1)
                 then evaluate_command c (cl_received_monotonic_ms l) (s1\<lparr>lc_pending_command := None\<rparr>)
                 else (s1, Inr decision))"

definition control_tick :: "pyfloat \<Rightarrow> control_state \<Rightarrow> control_state \<times> lease_decision option" where
  "control_tick now s =
     (case lc_active_lease s of
        None \<Rightarrow> (s, None)
      | Some l \<Rightarrow>
          if \<not> lp_publish_stop_on_expiry (lc_policy s) \<or> \<not> lease_expired l now \<or>
             cl_event_id l \<in> set (lc_fallback_event_ids s)
          then (s, None)
          else (case expiry_decision l now ''active lease expired'' s of (s1, d) \<Rightarrow> (s1, Some d)))"

end
