(* ===== verification/ControlSafety.thy ===== *)
theory ControlSafety
  imports LocalControl
begin

text \<open>
  What the robot-side controller promises: commands only under a live lease and inside the bounds
  that are not limited dynamically, a stop when the lease runs out, bounded acceleration; and where
  it does not keep the promise of its module.
\<close>

section \<open>Runs\<close>

datatype control_event = Ingest control_lease | Command twist_command pyfloat | Tick pyfloat

fun event_ms :: "control_event \<Rightarrow> pyfloat" where
  "event_ms (Ingest l) = cl_received_monotonic_ms l"
| "event_ms (Command c now) = now"
| "event_ms (Tick now) = now"

fun control_step :: "control_event \<Rightarrow> control_state \<Rightarrow> control_state \<times> lease_decision option outcome" where
  "control_step (Ingest l) s = (case ingest_lease l s of (s1, r) \<Rightarrow> (s1, map_sum id Some r))"
| "control_step (Command c now) s = (case evaluate_command c now s of (s1, r) \<Rightarrow> (s1, map_sum id Some r))"
| "control_step (Tick now) s = (case control_tick now s of (s1, d) \<Rightarrow> (s1, Inr d))"

fun control_run :: "control_event list \<Rightarrow> control_state \<Rightarrow> control_state \<times> lease_decision option outcome list" where
  "control_run [] s = (s, [])"
| "control_run (e # es) s =
     (case control_step e s of (s1, r) \<Rightarrow> (case control_run es s1 of (s2, rs) \<Rightarrow> (s2, r # rs)))"

text \<open>The command the robot last received, starting from standstill.\<close>

definition received_command :: "twist_command \<Rightarrow> lease_decision option outcome \<Rightarrow> twist_command" where
  "received_command c r =
     (case r of Inr (Some d) \<Rightarrow> if ld_publish d then ld_safe_command d else c | _ \<Rightarrow> c)"

definition last_received :: "lease_decision option outcome list \<Rightarrow> twist_command" where
  "last_received rs = foldl received_command zero_command rs"

lemma plain_decision_simps [simp]:
  "ld_status (plain_decision st re pu sa rq le now) = st" "ld_publish (plain_decision st re pu sa rq le now) = pu"
  "ld_safe_command (plain_decision st re pu sa rq le now) = sa" "ld_lease (plain_decision st re pu sa rq le now) = le"
  "ld_now_ms (plain_decision st re pu sa rq le now) = now"
  by (simp_all add: plain_decision_def)

lemma limited_decision_simps [simp]:
  "ld_publish (limited_decision c now l b r)" "ld_safe_command (limited_decision c now l b r) = dl_command r"
  "ld_lease (limited_decision c now l b r) = Some l" "ld_now_ms (limited_decision c now l b r) = now"
  by (simp_all add: limited_decision_def Let_def)

lemma limited_status: "ld_status (limited_decision c now l b r) \<in> {''accept'', ''clip''}"
  by (simp add: limited_decision_def Let_def)

section \<open>One step\<close>

text \<open>What evaluating a command can do.\<close>

lemma evaluate_cases:
  assumes "evaluate_command c now s = (s', r)"
  obtains (no_lease) "lc_active_lease s = None" "s' = s\<lparr>lc_pending_command := Some (c, now)\<rparr>"
      "\<exists>d. r = Inr d \<and> \<not> ld_publish d"
  | (expired) l d where "lc_active_lease s = Some l" "lease_expired l now" "r = Inr d"
      "expiry_decision l now ''active lease expired before command'' s = (s', d)"
  | (raised) l e where "lc_active_lease s = Some l" "r = Inl e" "s' = s"
  | (limited) l x where "lc_active_lease s = Some l" "\<not> lease_expired l now"
      "apply_dynamic_limits (fst (clip_command c (lc_policy s))) (lc_last_output s) (lc_last_output_ms s)
         (Some (lc_last_accel s)) now (lc_policy s) = Inr x"
      "r = Inr (limited_decision c now l (snd (clip_command c (lc_policy s))) x)"
      "s' = s\<lparr>lc_last_output := dl_command x, lc_last_output_ms := Some now, lc_last_accel := dl_acceleration x\<rparr>"
proof (cases "lc_active_lease s")
  case None
  with assms show ?thesis by (intro no_lease) (auto simp: evaluate_command_def)
next
  case (Some l)
  show ?thesis
  proof (cases "lease_expired l now")
    case True
    with Some assms show ?thesis
      by (intro expired [OF Some True, of "snd (expiry_decision l now ''active lease expired before command'' s)"])
        (auto simp: evaluate_command_def split: prod.splits)
  next
    case False
    show ?thesis
    proof (cases "apply_dynamic_limits (fst (clip_command c (lc_policy s))) (lc_last_output s) (lc_last_output_ms s)
         (Some (lc_last_accel s)) now (lc_policy s)")
      case (Inl e)
      with Some False assms show ?thesis by (intro raised) (auto simp: evaluate_command_def split: prod.splits)
    next
      case (Inr x)
      with Some False assms show ?thesis by (intro limited) (auto simp: evaluate_command_def split: prod.splits)
    qed
  qed
qed

lemma expiry_cases:
  assumes "expiry_decision l now reason s = (s', d)"
  obtains (stop) "ld_status d = ''fallback_stop''" "ld_publish d" "ld_safe_command d = zero_command"
      "s' = (note_fallback l s)\<lparr>lc_last_output := zero_command, lc_last_output_ms := Some now, lc_last_accel := zero_acceleration\<rparr>"
      "ld_lease d = Some l" "ld_now_ms d = now"
  | (hold) "ld_status d = ''fallback_hold_last''" "ld_publish d" "ld_safe_command d = lc_last_output s"
      "s' = note_fallback l s" "ld_lease d = Some l" "ld_now_ms d = now"
      "map lower_char (lp_expiry_action (lc_policy s)) = ''hold_last''"
  | (drop) "\<not> ld_publish d" "s' = note_fallback l s" "ld_lease d = Some l" "ld_now_ms d = now"
      "map lower_char (lp_expiry_action (lc_policy s)) = ''drop''"
  using assms
  by (cases "map lower_char (lp_expiry_action (lc_policy s)) = ''hold_last''";
      cases "map lower_char (lp_expiry_action (lc_policy s)) = ''drop''")
    (auto simp: expiry_decision_def fallback_stop_def Let_def)

lemma note_fallback_simps [simp]:
  "lc_active_lease (note_fallback l s) = lc_active_lease s" "lc_policy (note_fallback l s) = lc_policy s"
  "lc_last_output (note_fallback l s) = lc_last_output s" "lc_last_accel (note_fallback l s) = lc_last_accel s"
  "lc_last_output_ms (note_fallback l s) = lc_last_output_ms s" "lc_pending_command (note_fallback l s) = lc_pending_command s"
  "set (lc_fallback_event_ids (note_fallback l s)) = insert (cl_event_id l) (set (lc_fallback_event_ids s))"
  by (simp_all add: note_fallback_def)

lemma discard_nothing [simp]: "discard_fallback i ids = ids"
  by (simp add: discard_fallback_def)

text \<open>Accepting a lease, and what may follow it.\<close>

definition with_lease :: "control_lease \<Rightarrow> control_state \<Rightarrow> control_state" where
  "with_lease l s = s\<lparr>lc_active_lease := Some l\<rparr>"

lemma ingest_cases:
  assumes "ingest_lease l s = (s', r)"
  obtains (stale) active d where "lc_active_lease s = Some active" "stale_lease_decision l s = Some d" "s' = s" "r = Inr d" "\<not> ld_publish d"
  | (accepted) d where "stale_lease_decision l s = None" "s' = with_lease l s" "r = Inr d" "\<not> ld_publish d"
  | (pending) c where "stale_lease_decision l s = None"
      "evaluate_command c (cl_received_monotonic_ms l) ((with_lease l s)\<lparr>lc_pending_command := None\<rparr>) = (s', r)"
proof (cases "stale_lease_decision l s")
  case (Some d)
  then obtain active where "lc_active_lease s = Some active" "\<not> ld_publish d"
    by (auto simp: stale_lease_decision_def split: option.splits if_splits)
  with Some assms show ?thesis by (intro stale) (auto simp: ingest_lease_def)
next
  case None
  note fresh = this
  show ?thesis
  proof (cases "lc_pending_command s")
    case None
    with fresh assms show ?thesis
      by (intro accepted) (auto simp: ingest_lease_def with_lease_def Let_def)
  next
    case (Some p)
    with fresh assms show ?thesis
      by (cases p) (auto simp: ingest_lease_def with_lease_def Let_def split: if_splits intro: accepted pending)
  qed
qed

section \<open>Every command has its lease\<close>

definition in_bound :: "pyfloat \<Rightarrow> pyfloat \<Rightarrow> bool" where
  "in_bound v limit \<longleftrightarrow> - limit \<le> v \<and> v \<le> limit"

lemma clamp_in_bound: "0 \<le> limit \<Longrightarrow> in_bound (clamp v (- limit) limit) limit"
  by (cases v; cases limit) (auto simp: clamp_def py_min_def py_max_def in_bound_def fconst)

text \<open>The four axes without dynamic limits.\<close>

definition side_axes_bounded :: "lease_policy \<Rightarrow> twist_command \<Rightarrow> bool" where
  "side_axes_bounded p c \<longleftrightarrow>
     in_bound (tw_linear_y c) (lp_max_abs_linear_y p) \<and> in_bound (tw_linear_z c) (lp_max_abs_linear_z p) \<and>
     in_bound (tw_angular_x c) (lp_max_abs_angular_x p) \<and> in_bound (tw_angular_y c) (lp_max_abs_angular_y p)"

definition policy_ok :: "lease_policy \<Rightarrow> bool" where
  "policy_ok p \<longleftrightarrow>
     list_all (\<lambda>x. is_fin x \<and> 0 \<le> x)
       [lp_max_linear_x p, lp_max_abs_linear_y p, lp_max_abs_linear_z p, lp_max_abs_angular_x p,
        lp_max_abs_angular_y p, lp_max_abs_angular_z p, lp_max_linear_accel_x p,
        lp_max_abs_angular_accel_z p, lp_max_linear_jerk_x p, lp_max_abs_angular_jerk_z p,
        lp_max_local_lifespan_ms p, lp_pending_command_window_ms p] \<and>
     0 < lp_max_linear_x p \<and> 0 < lp_max_local_lifespan_ms p \<and> lp_expiry_action p \<in> set expiry_actions"

lemma limits_keep_side_axes:
  assumes "apply_dynamic_limits c prev prev_ms accel now p = Inr x"
  shows "tw_linear_y (dl_command x) = tw_linear_y c" "tw_linear_z (dl_command x) = tw_linear_z c"
    "tw_angular_x (dl_command x) = tw_angular_x c" "tw_angular_y (dl_command x) = tw_angular_y c"
  using assms by (auto simp: apply_dynamic_limits_def limit_over_def Let_def split: option.splits if_splits)

lemma limited_side_axes:
  assumes "policy_ok p" "apply_dynamic_limits (fst (clip_command c p)) prev prev_ms accel now p = Inr x"
  shows "side_axes_bounded p (dl_command x)"
  using assms(1) clamp_in_bound limits_keep_side_axes [OF assms(2)]
  by (simp add: side_axes_bounded_def policy_ok_def clip_command_def Let_def)

text \<open>A decision to publish: a command under a live lease, or the fallback of an expired one.\<close>

definition justified :: "control_state \<Rightarrow> control_state \<Rightarrow> lease_decision \<Rightarrow> bool" where
  "justified s s' d \<longleftrightarrow>
     (\<exists>l. lc_active_lease s' = Some l \<and> ld_lease d = Some l \<and> lc_last_output s' = ld_safe_command d \<and>
       (if lease_expired l (ld_now_ms d)
        then ld_status d = ''fallback_stop'' \<and> ld_safe_command d = zero_command \<or>
             ld_status d = ''fallback_hold_last'' \<and> ld_safe_command d = lc_last_output s \<and>
             map lower_char (lp_expiry_action (lc_policy s)) = ''hold_last''
        else ld_status d \<in> {''accept'', ''clip''} \<and> side_axes_bounded (lc_policy s) (ld_safe_command d)))"

lemma expiry_justified:
  assumes "expiry_decision l now reason s = (s', d)" "ld_publish d" "lc_active_lease s = Some l" "lease_expired l now"
  shows "justified s s' d"
  using assms by (elim expiry_cases) (auto simp: justified_def)

lemma evaluate_justified:
  assumes "policy_ok (lc_policy s)" "evaluate_command c now s = (s', Inr d)" "ld_publish d"
  shows "justified s s' d"
  using assms(2)
proof (cases rule: evaluate_cases)
  case (expired l d')
  with assms(3) expiry_justified [OF expired(4) _ expired(1,2)] show ?thesis by simp
next
  case (limited l x)
  with limited_side_axes [OF assms(1) limited(3)] limited_status show ?thesis by (simp add: justified_def)
qed (use assms(3) in auto)


definition demo_lease :: "int option \<Rightarrow> rat \<Rightarrow> control_lease" where
  "demo_lease i t =
     \<lparr>cl_event_id = i, cl_robot_id = ''r'', cl_flow_id = [], cl_kind = [], cl_wire_mode = [], cl_action = [],
      cl_source_topic = [], cl_policy = [], cl_deadline_ms = None, cl_lifespan_ms = Fin 100,
      cl_received_monotonic_ms = Fin t, cl_local_expires_at_ms = Fin (t + 100), cl_reason = []\<rparr>"

definition drive :: "pyfloat \<Rightarrow> twist_command" where
  "drive v = zero_command\<lparr>tw_linear_x := v\<rparr>"


section \<open>The stop when the lease runs out\<close>

fun in_time :: "pyfloat \<Rightarrow> control_event list \<Rightarrow> bool" where
  "in_time t [] = True"
| "in_time t (e # es) = (t \<le> event_ms e \<and> in_time (event_ms e) es)"

fun named_lease :: "control_event \<Rightarrow> bool" where
  "named_lease (Ingest l) = (cl_event_id l \<noteq> None)"
| "named_lease _ = True"

definition stop_policy :: "lease_policy \<Rightarrow> bool" where
  "stop_policy p \<longleftrightarrow> lp_publish_stop_on_expiry p \<and>
     map lower_char (lp_expiry_action p) \<notin> {''hold_last'', ''drop''}"

text \<open>A lease that had its fallback is over, and the robot stands; the ids of fallbacks are not
  above the id of the lease.\<close>

definition stops :: "pyfloat \<Rightarrow> control_state \<Rightarrow> bool" where
  "stops t s \<longleftrightarrow> stop_policy (lc_policy s) \<and>
     (case lc_active_lease s of
        None \<Rightarrow> lc_fallback_event_ids s = [] \<and> lc_last_output s = zero_command
      | Some l \<Rightarrow> (\<exists>i. cl_event_id l = Some i \<and> (\<forall>j \<in> set (lc_fallback_event_ids s). \<exists>k \<le> i. j = Some k)) \<and>
          (cl_event_id l \<in> set (lc_fallback_event_ids s) \<longrightarrow>
             lease_expired l t \<and> lc_last_output s = zero_command))"

lemma expired_later: "lease_expired l t \<Longrightarrow> t \<le> u \<Longrightarrow> lease_expired l u"
  by (simp add: lease_expired_def fless_le_trans)

lemma stops_later: "stops t s \<Longrightarrow> t \<le> u \<Longrightarrow> stops u s"
  by (auto simp: stops_def split: option.splits intro: expired_later)

lemma stops_pending [simp]: "stops t (s\<lparr>lc_pending_command := c\<rparr>) = stops t s"
  by (simp add: stops_def split: option.split)

lemma stops_expiry:
  assumes "stops t s" "lc_active_lease s = Some l" "lease_expired l now" "expiry_decision l now reason s = (s', d)"
  shows "stops now s' \<and> ld_publish d \<and> ld_safe_command d = zero_command \<and> lc_last_output s' = zero_command \<and>
    lc_active_lease s' = Some l"
  using assms(4) assms(1-3)
  by (elim expiry_cases) (auto simp: stops_def stop_policy_def)

lemma stops_evaluate:
  assumes "stops t s" "t \<le> now" "evaluate_command c now s = (s', r)"
  shows "stops now s'"
  using assms(3)
proof (cases rule: evaluate_cases)
  case no_lease
  with assms show ?thesis by (simp add: stops_def)
next
  case (expired l d)
  with stops_expiry [OF assms(1) expired(1,2,4)] show ?thesis by simp
next
  case (raised l e)
  with stops_later [OF assms(1,2)] show ?thesis by simp
next
  case (limited l x)
  with assms(1,2) show ?thesis by (auto simp: stops_def dest: expired_later)
qed

lemma stops_step:
  assumes "stops t s" "named_lease e" "t \<le> event_ms e" "control_step e s = (s', r)"
  shows "stops (event_ms e) s'"
proof (cases e)
  case (Ingest l)
  with assms(4) obtain r' where "ingest_lease l s = (s', r')" by (auto split: prod.splits)
  moreover have fresh: "stops t (with_lease l s)" if new: "stale_lease_decision l s = None"
  proof -
    obtain i where i: "cl_event_id l = Some i" using assms(2) Ingest by auto
    with new assms(1) show ?thesis
      by (fastforce simp: stops_def with_lease_def stale_lease_decision_def split: option.splits if_splits)
  qed
  ultimately show ?thesis
  proof (cases rule: ingest_cases)
    case stale
    with stops_later [OF assms(1,3)] show ?thesis by simp
  next
    case (accepted d)
    with stops_later [OF fresh assms(3)] show ?thesis by simp
  next
    case (pending c)
    have "stops t ((with_lease l s)\<lparr>lc_pending_command := None\<rparr>)" using fresh [OF pending(1)] by simp
    from stops_evaluate [OF this _ pending(2)] assms(3) Ingest show ?thesis by simp
  qed
next
  case (Command c now)
  with assms show ?thesis by (auto intro: stops_evaluate split: prod.splits)
next
  case (Tick now)
  with assms show ?thesis
    by (auto simp: control_tick_def dest: stops_expiry [of t] intro: stops_later split: prod.splits option.splits if_splits)
qed

lemma stops_run:
  "stops t s \<Longrightarrow> in_time t es \<Longrightarrow> list_all named_lease es \<Longrightarrow> stops (last (t # map event_ms es)) (fst (control_run es s))"
proof (induction es arbitrary: t s)
  case (Cons e es)
  obtain s1 r where r: "control_step e s = (s1, r)" by fastforce
  with stops_step [OF Cons.prems(1) _ _ r] Cons.prems have "stops (event_ms e) s1" by simp
  from Cons.IH [OF this] Cons.prems r show ?case by (simp add: split_beta)
qed simp

text \<open>What was published last is what the state remembers.\<close>

lemma expiry_received:
  "expiry_decision l now reason s = (s', d) \<Longrightarrow>
   lc_last_output s' = received_command (lc_last_output s) (Inr (Some d)) \<and> lc_policy s' = lc_policy s"
  by (elim expiry_cases) (auto simp: received_command_def)

lemma evaluate_received:
  assumes "evaluate_command c now s = (s', r)"
  shows "lc_last_output s' = received_command (lc_last_output s) (map_sum id Some r) \<and> lc_policy s' = lc_policy s"
  using assms
proof (cases rule: evaluate_cases)
  case (expired l d)
  with expiry_received [OF expired(4)] show ?thesis by simp
qed (auto simp: received_command_def)

lemma received_step:
  assumes "control_step e s = (s', r)"
  shows "lc_last_output s' = received_command (lc_last_output s) r \<and> lc_policy s' = lc_policy s"
proof (cases e)
  case (Ingest l)
  with assms obtain r' where r: "ingest_lease l s = (s', r')" "r = map_sum id Some r'" by (auto split: prod.splits)
  from r(1) show ?thesis
  proof (cases rule: ingest_cases)
    case (pending c)
    from evaluate_received [OF pending(2)] r(2) show ?thesis by (simp add: with_lease_def)
  qed (use r(2) in \<open>auto simp: received_command_def with_lease_def\<close>)
next
  case (Command c now)
  with assms show ?thesis by (auto dest: evaluate_received split: prod.splits)
next
  case (Tick now)
  with assms show ?thesis
    by (auto simp: control_tick_def received_command_def [of _ "Inr None"] dest: expiry_received
        split: prod.splits option.splits if_splits)
qed

lemma received_run:
  "control_run es s = (s', rs) \<Longrightarrow> lc_last_output s' = foldl received_command (lc_last_output s) rs \<and> lc_policy s' = lc_policy s"
proof (induction es arbitrary: s rs)
  case (Cons e es)
  obtain s1 r where r: "control_step e s = (s1, r)" by fastforce
  with Cons.prems obtain rs1 where "control_run es s1 = (s', rs1)" "rs = r # rs1" by (auto split: prod.splits)
  with Cons.IH received_step [OF r] show ?case by simp
qed simp

lemma control_run_append:
  "control_run (es @ fs) s = (case control_run es s of (s1, rs) \<Rightarrow> (case control_run fs s1 of (s2, rs') \<Rightarrow> (s2, rs @ rs')))"
  by (induction es arbitrary: s) (simp_all split: prod.splits)

lemma in_time_append: "in_time t (es @ fs) \<longleftrightarrow> in_time t es \<and> in_time (last (t # map event_ms es)) fs"
  by (induction es arbitrary: t) auto

text \<open>C5: with a stopping policy, named leases and a clock that does not go back, a tick after the expiry
  of the active lease leaves the robot stopped: the last command it received is the zero command,
  whatever leases, commands and ticks came before.\<close>

theorem robot_stops_after_expiry:
  assumes "stop_policy p" "in_time t0 (es @ [Tick now])" "list_all named_lease es"
    and "control_run (es @ [Tick now]) (new_control_state p) = (s, rs)"
    and "lc_active_lease s = Some l" "lease_expired l now"
  shows "last_received rs = zero_command"
proof -
  obtain s1 rs1 where s1: "control_run es (new_control_state p) = (s1, rs1)" by fastforce
  with assms(4) obtain r where r: "control_step (Tick now) s1 = (s, r)" by (auto simp: control_run_append split: prod.splits)
  let ?t = "last (t0 # map event_ms es)"
  have "stops t0 (new_control_state p)" using assms(1) by (simp add: stops_def new_control_state_def)
  from stops_run [OF this _ assms(3)] assms(2) s1 have st: "stops ?t s1" by (simp add: in_time_append)
  have "lc_last_output s = zero_command"
  proof (cases "cl_event_id l \<in> set (lc_fallback_event_ids s1)")
    case True
    with r st assms(5) show ?thesis
      by (auto simp: control_tick_def stops_def split: option.splits if_splits prod.splits dest: stops_expiry [OF st])
  next
    case False
    with r st assms(5,6) show ?thesis
      by (auto simp: control_tick_def split: option.splits if_splits prod.splits dest: stops_expiry [OF st] simp: stops_def stop_policy_def)
  qed
  with received_run [OF assms(4)] show ?thesis by (simp add: last_received_def new_control_state_def)
qed

definition demo_drive :: "control_event list" where
  "demo_drive = [Ingest (demo_lease (Some 1) 0), Command (drive (Fin (1/8))) (Fin 10)]"

lemma robot_stops_after_expiry_witness:
  "last_received (snd (control_run demo_drive (new_control_state default_lease_policy))) = drive (Fin (1/8)) \<and>
   last_received (snd (control_run (demo_drive @ [Tick (Fin 200)]) (new_control_state default_lease_policy))) = zero_command"
proof
  let ?r = "control_run (demo_drive @ [Tick (Fin 200)]) (new_control_state default_lease_policy)"
  show "last_received (snd (control_run demo_drive (new_control_state default_lease_policy))) = drive (Fin (1/8))"
    by code_simp
  have "stop_policy default_lease_policy" "in_time (Fin 0) (demo_drive @ [Tick (Fin 200)])" "list_all named_lease demo_drive"
      "lc_active_lease (fst ?r) = Some (demo_lease (Some 1) 0)" "lease_expired (demo_lease (Some 1) 0) (Fin 200)"
    by code_simp+
  from robot_stops_after_expiry [OF this(1-3) _ this(4,5)]
  show "last_received (snd ?r) = zero_command" by (metis prod.collapse)
qed

lemma fallback_ids_stay_evaluate:
  "evaluate_command c now s = (s', r) \<Longrightarrow> set (lc_fallback_event_ids s) \<subseteq> set (lc_fallback_event_ids s')"
  by (elim evaluate_cases) (auto elim: expiry_cases)

lemma fallback_ids_stay:
  assumes "control_step e s = (s', r)" shows "set (lc_fallback_event_ids s) \<subseteq> set (lc_fallback_event_ids s')"
proof (cases e)
  case (Ingest l)
  with assms obtain r' where "ingest_lease l s = (s', r')" by (auto split: prod.splits)
  then show ?thesis
  proof (cases rule: ingest_cases)
    case (pending c)
    from fallback_ids_stay_evaluate [OF pending(2)] show ?thesis by (simp add: with_lease_def)
  qed (simp_all add: with_lease_def)
next
  case (Command c now)
  with assms show ?thesis using fallback_ids_stay_evaluate by (fastforce split: prod.splits)
next
  case (Tick now)
  with assms show ?thesis
    by (auto simp: control_tick_def elim: expiry_cases split: prod.splits option.splits if_splits)
qed

lemma fallback_ids_stay_run:
  "control_run es s = (s', rs) \<Longrightarrow> set (lc_fallback_event_ids s) \<subseteq> set (lc_fallback_event_ids s')"
proof (induction es arbitrary: s rs)
  case (Cons e es)
  obtain s1 r where r: "control_step e s = (s1, r)" by fastforce
  with Cons.prems obtain rs1 where "control_run es s1 = (s', rs1)" by (auto split: prod.splits)
  with Cons.IH fallback_ids_stay [OF r] show ?case by blast
qed simp

text \<open>C39: the fallback of a lease without an event id is remembered for ever: once there was one, no tick
  acts on the expiry of any later lease without an id, and the robot keeps the last command.\<close>

theorem anonymous_lease_not_stopped:
  assumes "None \<in> set (lc_fallback_event_ids s)" "control_run es s = (s', rs)"
    and "lc_active_lease s' = Some l" "cl_event_id l = None"
  shows "control_tick now s' = (s', None)"
  using fallback_ids_stay_run [OF assms(2)] assms(1,3,4) by (auto simp: control_tick_def)

lemma anonymous_lease_not_stopped_witness:
  "let es = [Ingest (demo_lease None 0), Tick (Fin 200)];
       fs = [Ingest (demo_lease None 300), Command (drive (Fin (1/8))) (Fin 310)];
       s = fst (control_run es (new_control_state default_lease_policy));
       r = control_run fs s
   in lease_expired (the (lc_active_lease (fst r))) (Fin 1000) \<and> 0 < tw_linear_x (lc_last_output (fst r)) \<and>
      control_tick (Fin 1000) (fst r) = (fst r, None)"
proof -
  let ?s = "fst (control_run [Ingest (demo_lease None 0), Tick (Fin 200)] (new_control_state default_lease_policy))"
  let ?r = "control_run [Ingest (demo_lease None 300), Command (drive (Fin (1/8))) (Fin 310)] ?s"
  have "None \<in> set (lc_fallback_event_ids ?s)" "lc_active_lease (fst ?r) = Some (demo_lease None 300)"
    "cl_event_id (demo_lease None 300) = None" "0 < tw_linear_x (lc_last_output (fst ?r))" by code_simp+
  from anonymous_lease_not_stopped [OF this(1) _ this(2,3)]
  have "control_tick now (fst ?r) = (fst ?r, None)" for now by (metis prod.collapse)
  moreover note \<open>0 < tw_linear_x (lc_last_output (fst ?r))\<close>
  moreover have "lease_expired (the (lc_active_lease (fst ?r))) (Fin 1000)" by code_simp
  ultimately show ?thesis unfolding Let_def by blast
qed

section \<open>The life of a lease\<close>

lemma positive_float_cases:
  assumes "positive_float v dflt = Inr x" "0 < dflt"
  shows "x = NaN \<or> 0 < x"
  using assms by (cases x) (auto simp: positive_float_def fconst split: option.splits if_splits)

text \<open>C35: a lease lives longer than 0 and at most the bound of the policy after it was received, unless its
  lifespan is not a number: then it never expires.\<close>

theorem lease_lifetimes:
  assumes "policy_ok p" "lease_from_envelope payload t p = Inr l"
  shows "if cl_lifespan_ms l = NaN then \<forall>now. \<not> lease_expired l now
    else 0 < cl_lifespan_ms l \<and> cl_lifespan_ms l \<le> lp_max_local_lifespan_ms p \<and>
         cl_local_expires_at_ms l = t + cl_lifespan_ms l"
proof -
  have bound: "0 < lp_max_local_lifespan_ms p" "is_fin (lp_max_local_lifespan_ms p)" using assms(1) by (simp_all add: policy_ok_def)
  from assms(2) obtain d x where x: "positive_float (dget d ''lifespan_ms'') (lp_max_local_lifespan_ms p) = Inr x"
      "cl_lifespan_ms l = py_min x (lp_max_local_lifespan_ms p)" "cl_local_expires_at_ms l = t + cl_lifespan_ms l"
    by (auto simp: lease_from_envelope_def Let_def split: sum.splits)
  show ?thesis
  proof (cases "x = NaN")
    case True
    then have nan: "cl_lifespan_ms l = NaN" using x(2) by (cases "lp_max_local_lifespan_ms p") (simp_all add: py_min_def)
    have "t + NaN = NaN" by (cases t) simp_all
    with nan x(3) show ?thesis by (simp add: lease_expired_def)
  next
    case False
    with positive_float_cases [OF x(1) bound(1)] have "0 < x" by simp
    with bound x show ?thesis
      by (cases x; cases "lp_max_local_lifespan_ms p") (auto simp: py_min_def fconst)
  qed
qed

lemma lease_lifetimes_witness:
  "let l = lease_from_envelope (EnvelopeText ''{\"event_id\":1,\"lifespan_ms\":NaN}'') (Fin 0) default_lease_policy
   in case l of Inr l \<Rightarrow> cl_event_id l = Some 1 \<and> (\<forall>now. \<not> lease_expired l now) | _ \<Rightarrow> False"
proof -
  let ?l = "lease_from_envelope (EnvelopeText ''{\"event_id\":1,\"lifespan_ms\":NaN}'') (Fin 0) default_lease_policy"
  have "case ?l of Inr l \<Rightarrow> cl_event_id l = Some 1 \<and> cl_lifespan_ms l = NaN | _ \<Rightarrow> False" by code_simp
  then obtain l where l: "?l = Inr l" "cl_event_id l = Some 1" "cl_lifespan_ms l = NaN" by (auto split: sum.splits)
  have "policy_ok default_lease_policy" by code_simp
  from lease_lifetimes [OF this l(1)] l show ?thesis unfolding Let_def by simp
qed

section \<open>Out of bounds\<close>

definition overshoot :: "control_event list" where
  "overshoot =
     [Ingest (demo_lease (Some 1) 0), Command (drive (dbl (1/5))) (Fin 0), Command (drive (Fin (1/4))) (Fin 50),
      Command (drive (Fin (1/4))) (Fin 51)]"


text \<open>A speed that is not a number is clipped to the lower bound: under an active lease, the first
  command with such a speed makes the robot drive backwards at full speed.\<close>

theorem nan_speed_reverses:
  assumes "lc_active_lease s = Some l" "\<not> lease_expired l now" "lc_last_output_ms s = None"
    and "policy_ok (lc_policy s)" "tw_linear_x c = NaN" "evaluate_command c now s = (s', Inr d)"
  shows "ld_publish d \<and> tw_linear_x (ld_safe_command d) = - lp_max_linear_x (lc_policy s)"
  using assms(6)
proof (cases rule: evaluate_cases)
  case (limited l' x)
  have "clamp NaN (- lp_max_linear_x (lc_policy s)) (lp_max_linear_x (lc_policy s)) = - lp_max_linear_x (lc_policy s)"
    using assms(4) by (cases "lp_max_linear_x (lc_policy s)") (auto simp: policy_ok_def clamp_def py_min_def py_max_def fconst)
  with limited assms(3,5) show ?thesis by (auto simp: apply_dynamic_limits_def clip_command_def Let_def)
qed (use assms in auto)

lemma nan_speed_reverses_witness:
  "let s = fst (control_run [Ingest (demo_lease (Some 1) 0)] (new_control_state default_lease_policy))
   in case snd (evaluate_command (drive NaN) (Fin 10) s) of
        Inr d \<Rightarrow> tw_linear_x (ld_safe_command d) = Fin (-1/4) | _ \<Rightarrow> False"
proof -
  let ?s = "fst (control_run [Ingest (demo_lease (Some 1) 0)] (new_control_state default_lease_policy))"
  have "\<not> isl (snd (evaluate_command (drive NaN) (Fin 10) ?s))" by code_simp
  then obtain d where d: "evaluate_command (drive NaN) (Fin 10) ?s = (fst (evaluate_command (drive NaN) (Fin 10) ?s), Inr d)"
    by (metis prod.collapse sum.collapse(2))
  have "lc_active_lease ?s = Some (demo_lease (Some 1) 0)" "\<not> lease_expired (demo_lease (Some 1) 0) (Fin 10)"
    "lc_last_output_ms ?s = None" "policy_ok (lc_policy ?s)" "tw_linear_x (drive NaN) = NaN"
    "- lp_max_linear_x (lc_policy ?s) = Fin (-1/4)" by code_simp+
  note facts = this
  have "snd (evaluate_command (drive NaN) (Fin 10) ?s) = Inr d" by (subst d) simp
  with nan_speed_reverses [OF facts(1-5) d] facts(6) show ?thesis unfolding Let_def by simp
qed

end
