(* ===== verification/ControlLimits.thy ===== *)
theory ControlLimits
  imports ControlSafety Doubles
begin

text \<open>
  The acceleration limit of the robot-side controller, with the rounding of every operation, and
  the policies that can be loaded.
\<close>

section \<open>Floats of the machine\<close>

text \<open>A double, or NaN.\<close>

fun is_machine :: "pyfloat \<Rightarrow> bool" where
  "is_machine (Fin a) = (dbl a = Fin a)"
| "is_machine _ = True"

lemma is_machine_dbl [simp]: "is_machine (dbl x)"
  using is_double_dbl [of x] by (cases "dbl x") auto

lemma is_machine_ops [simp]: "is_machine (x + y)" "is_machine (x * y)" "is_machine (fdiv x y)" "is_machine (x - y)"
proof -
  show sum: "is_machine (x + y)" for x y by (cases x; cases y) simp_all
  show "is_machine (x * y)" by (cases x; cases y) simp_all
  show "is_machine (fdiv x y)" by (cases x; cases y) simp_all
  show "is_machine (x - y)" unfolding minus_pyfloat_def by (rule sum)
qed

lemma is_machine_const [simp]: "is_machine 0" "is_machine 1"
  by (simp_all add: fconst)

lemma is_machine_minus: "is_machine x \<Longrightarrow> is_machine (- x)"
  by (cases x) (auto simp: dbl_def Let_def nearest_minus split: if_splits)

lemma is_machine_clamp: "is_machine v \<Longrightarrow> is_machine a \<Longrightarrow> is_machine b \<Longrightarrow> is_machine (clamp v a b)"
  by (simp add: clamp_def py_min_def py_max_def)

section \<open>Steps towards a goal\<close>

text \<open>A step towards a goal stays between where it starts and the goal.\<close>

lemma step_up:
  assumes "is_machine (Fin a)" "is_machine (Fin g)" "is_machine s" "0 < s" "s < Fin g - Fin a"
  shows "Fin a \<le> Fin a + s \<and> Fin a + s \<le> Fin g"
proof -
  from assms(4,5) obtain t where s: "s = Fin t" "0 < t"
    by (cases s; cases "Fin g - Fin a") (auto simp: fconst)
  from assms(3,5) s have "t < g - a" by (intro dbl_less) (simp_all add: minus_pyfloat_def)
  with s assms(1,2) show ?thesis by (auto intro: dbl_below dbl_above)
qed

lemma step_down:
  assumes "is_machine (Fin a)" "is_machine (Fin g)" "is_machine s" "0 < s" "s < - (Fin g - Fin a)"
  shows "Fin g \<le> Fin a - s \<and> Fin a - s \<le> Fin a"
proof -
  have neg: "dbl (- x) = - dbl x" for x by (simp add: dbl_def Let_def nearest_minus)
  have "- (Fin g - Fin a) = Fin a - Fin g" using neg [of "g - a"] by (simp add: minus_pyfloat_def)
  with assms(4,5) obtain t where s: "s = Fin t" "0 < t"
    by (cases s; cases "Fin a - Fin g") (auto simp: fconst)
  from assms(3,5) s \<open>- (Fin g - Fin a) = _\<close> have "t < a - g" by (intro dbl_less) (simp_all add: minus_pyfloat_def)
  with s assms(1,2) show ?thesis by (auto simp: minus_pyfloat_def intro: dbl_below dbl_above)
qed

lemma step_toward_bound:
  assumes "in_bound a limit" "in_bound g limit" "is_fin limit"
    and "is_machine a" "is_machine g" "is_machine m" "m \<noteq> NaN"
  shows "in_bound (step_toward a g m) limit"
proof -
  from assms(1-3) obtain x y where fin: "a = Fin x" "g = Fin y"
    by (cases limit; cases a; cases g) (auto simp: in_bound_def)
  have total: "x \<le> y \<or> y < x" if "x \<noteq> NaN" "y \<noteq> NaN" for x y :: pyfloat
    using that by (cases x; cases y) auto
  have "g - a \<noteq> NaN" by (simp add: fin minus_pyfloat_def)
  then have delta: "g - a \<noteq> NaN" "- (g - a) \<noteq> NaN" by (cases "g - a"; simp)+
  have "\<not> 0 < - (g - a) \<longleftrightarrow> 0 \<le> g - a" using delta by (cases "g - a") (auto simp: fconst)
  then have split: "py_abs (g - a) = (if 0 < g - a then g - a else - (g - a))" using delta
    by (cases "g - a") (auto simp: py_abs_def fconst)
  consider "m \<le> 0" | "py_abs (g - a) \<le> m" | "0 < m" "m < g - a" "0 < g - a" | "0 < m" "m < - (g - a)" "\<not> 0 < g - a"
    using total [of m 0] total [of "g - a" m] total [of "- (g - a)" m] assms(7) delta split by (auto simp: fconst split: if_splits)
  then show ?thesis
  proof cases
    case 3
    then have "\<not> m \<le> 0" "\<not> py_abs (g - a) \<le> m" by (cases m; cases "g - a"; auto simp: py_abs_def fconst split: if_splits)+
    with 3 step_up [of x y m] assms fin show ?thesis
      by (auto simp: step_toward_def in_bound_def Let_def intro: fle_trans)
  next
    case 4
    then have "\<not> m \<le> 0" "\<not> py_abs (g - a) \<le> m" by (cases m; cases "g - a"; auto simp: py_abs_def fconst split: if_splits)+
    with 4 step_down [of x y m] assms fin show ?thesis
      by (auto simp: step_toward_def in_bound_def Let_def intro: fle_trans)
  qed (use assms in \<open>simp_all add: step_toward_def Let_def\<close>)
qed

section \<open>Bounded acceleration\<close>

definition timed :: "pyfloat \<Rightarrow> bool" where
  "timed t \<longleftrightarrow> is_fin t \<and> is_machine t \<and> 0 \<le> t"

definition double_limits :: "lease_policy \<Rightarrow> bool" where
  "double_limits p \<longleftrightarrow> policy_ok p \<and> is_machine (lp_max_linear_accel_x p) \<and> is_machine (lp_max_abs_angular_accel_z p)"

definition accel_bounded :: "lease_policy \<Rightarrow> twist_acceleration \<Rightarrow> bool" where
  "accel_bounded p a \<longleftrightarrow>
     in_bound (ta_linear_x a) (lp_max_linear_accel_x p) \<and> is_machine (ta_linear_x a) \<and>
     in_bound (ta_angular_z a) (lp_max_abs_angular_accel_z p) \<and> is_machine (ta_angular_z a)"

lemma zero_in_bound: "0 \<le> limit \<Longrightarrow> in_bound 0 limit"
  by (cases limit) (auto simp: in_bound_def fconst)

lemma zero_accel_bounded: "policy_ok p \<Longrightarrow> accel_bounded p zero_acceleration"
  by (simp add: accel_bounded_def zero_acceleration_def policy_ok_def zero_in_bound)

lemma elapsed_finite:
  assumes "timed t" "timed now" "t < now"
  shows "\<exists>d. fdiv (now - t) (dbl 1000) = Fin d \<and> 0 \<le> d"
proof -
  from assms obtain a b where ab: "t = Fin a" "now = Fin b" "0 \<le> a" "a < b" "is_machine (Fin b)"
    by (cases t; cases now) (auto simp: timed_def fconst)
  then have "dbl (b - a) \<le> Fin b" "0 \<le> dbl (b - a)" by (auto intro: dbl_below dbl_nonneg)
  then obtain x where x: "dbl (b - a) = Fin x" "0 \<le> x" by (cases "dbl (b - a)") (auto simp: fconst)
  have "is_machine (Fin x)" using is_machine_dbl [of "b - a"] x(1) by simp
  with x(2) have "dbl (x / 1000) \<le> Fin x" "0 \<le> dbl (x / 1000)" by (auto intro: dbl_below dbl_nonneg)
  then obtain d where "dbl (x / 1000) = Fin d" "0 \<le> d" by (cases "dbl (x / 1000)") (auto simp: fconst)
  moreover have "dbl 1000 = Fin 1000" using dbl_int [of 1000] by simp
  ultimately show ?thesis using x(1) by (simp add: ab minus_pyfloat_def)
qed

lemma axis_bounded:
  assumes "in_bound a limit" "is_machine a" "is_machine limit" "is_fin limit" "0 \<le> limit" "is_fin jerk"
  shows "in_bound (step_toward a (clamp (fdiv v (Fin d)) (- limit) limit) (py_max 0 jerk * Fin d)) limit \<and>
    is_machine (step_toward a (clamp (fdiv v (Fin d)) (- limit) limit) (py_max 0 jerk * Fin d))"
proof
  have m: "py_max 0 jerk * Fin d \<noteq> NaN" using assms(6) by (cases jerk) (auto simp: py_max_def fconst)
  have g: "is_machine (clamp (fdiv v (Fin d)) (- limit) limit)" using assms(3) by (intro is_machine_clamp) (simp_all add: is_machine_minus)
  from step_toward_bound [OF assms(1) clamp_in_bound [OF assms(5)] assms(4,2) g _ m]
  show "in_bound (step_toward a (clamp (fdiv v (Fin d)) (- limit) limit) (py_max 0 jerk * Fin d)) limit" by simp
  show "is_machine (step_toward a (clamp (fdiv v (Fin d)) (- limit) limit) (py_max 0 jerk * Fin d))"
    using assms(2) g by (simp add: step_toward_def Let_def)
qed

lemma limits_bounded:
  assumes "double_limits p" "accel_bounded p a" "timed t" "timed now"
    and "apply_dynamic_limits c prev (Some t) (Some a) now p = Inr x"
  shows "accel_bounded p (dl_acceleration x)"
proof (cases "now \<le> t")
  case True
  with assms(1,5) zero_accel_bounded show ?thesis by (auto simp: apply_dynamic_limits_def double_limits_def)
next
  case False
  with assms(3,4) have "t < now" by (cases t; cases now) (auto simp: timed_def)
  from elapsed_finite [OF assms(3,4) this] obtain d where d: "fdiv (now - t) (dbl 1000) = Fin d" by blast
  have x: "x = limit_over c prev a (Fin d) p"
    using False assms(5) by (auto simp: apply_dynamic_limits_def d Let_def split: if_splits)
  from assms(1) have p: "is_machine (lp_max_linear_accel_x p)" "is_machine (lp_max_abs_angular_accel_z p)"
    "is_fin (lp_max_linear_accel_x p)" "is_fin (lp_max_abs_angular_accel_z p)"
    "0 \<le> lp_max_linear_accel_x p" "0 \<le> lp_max_abs_angular_accel_z p"
    "is_fin (lp_max_linear_jerk_x p)" "is_fin (lp_max_abs_angular_jerk_z p)"
    by (simp_all add: double_limits_def policy_ok_def)
  from assms(2) have a: "in_bound (ta_linear_x a) (lp_max_linear_accel_x p)" "is_machine (ta_linear_x a)"
    "in_bound (ta_angular_z a) (lp_max_abs_angular_accel_z p)" "is_machine (ta_angular_z a)"
    by (simp_all add: accel_bounded_def)
  show ?thesis
    using axis_bounded [OF a(1,2) p(1,3,5,7)] axis_bounded [OF a(3,4) p(2,4,6,8)]
    by (simp add: x limit_over_def Let_def accel_bounded_def)
qed

definition steady :: "lease_policy \<Rightarrow> control_state \<Rightarrow> bool" where
  "steady p s \<longleftrightarrow> lc_policy s = p \<and> accel_bounded p (lc_last_accel s) \<and>
     (case lc_last_output_ms s of None \<Rightarrow> True | Some t \<Rightarrow> timed t)"

lemma steady_limits:
  assumes "double_limits p" "steady p s" "timed now"
    and "apply_dynamic_limits c (lc_last_output s) (lc_last_output_ms s) (Some (lc_last_accel s)) now (lc_policy s) = Inr x"
  shows "accel_bounded p (dl_acceleration x)"
proof (cases "lc_last_output_ms s")
  case None
  with assms zero_accel_bounded [of p] show ?thesis by (auto simp: apply_dynamic_limits_def double_limits_def)
next
  case (Some t)
  with assms limits_bounded [OF assms(1), of "lc_last_accel s" t now] show ?thesis by (simp add: steady_def)
qed

lemma steady_expiry:
  assumes "policy_ok p" "steady p s" "timed now" "expiry_decision l now reason s = (s', d)"
  shows "steady p s'"
  using assms(4,1,2,3) by (elim expiry_cases) (simp_all add: steady_def zero_accel_bounded)

lemma steady_evaluate:
  assumes "double_limits p" "steady p s" "timed now" "evaluate_command c now s = (s', r)"
  shows "steady p s'"
  using assms(4)
proof (cases rule: evaluate_cases)
  case (expired l d)
  with assms steady_expiry [of p s now] show ?thesis by (simp add: double_limits_def)
next
  case (limited l x)
  with assms steady_limits [OF assms(1-3)] show ?thesis by (simp add: steady_def)
qed (use assms in \<open>simp_all add: steady_def\<close>)

lemma steady_step:
  assumes "double_limits p" "steady p s" "timed (event_ms e)" "control_step e s = (s', r)"
  shows "steady p s'"
proof (cases e)
  case (Ingest l)
  with assms(4) obtain r' where "ingest_lease l s = (s', r')" by (auto split: prod.splits)
  then show ?thesis
  proof (cases rule: ingest_cases)
    case (pending c)
    have "steady p ((with_lease l s)\<lparr>lc_pending_command := None\<rparr>)" using assms(2) by (simp add: steady_def with_lease_def)
    from steady_evaluate [OF assms(1) this _ pending(2)] assms(3) Ingest show ?thesis by simp
  qed (use assms(2) in \<open>simp_all add: steady_def with_lease_def\<close>)
next
  case (Command c now)
  with assms show ?thesis by (auto intro: steady_evaluate split: prod.splits)
next
  case (Tick now)
  with assms show ?thesis
    by (auto simp: control_tick_def double_limits_def intro: steady_expiry split: prod.splits option.splits if_splits)
qed

lemma steady_start: "double_limits p \<Longrightarrow> steady p (new_control_state p)"
  by (simp add: double_limits_def steady_def new_control_state_def zero_accel_bounded)

text \<open>One timed event of a controller with a fixed policy.\<close>

definition timed_step :: "lease_policy \<times> control_state \<Rightarrow> lease_policy \<times> control_state \<Rightarrow> bool" where
  "timed_step x y \<longleftrightarrow> fst y = fst x \<and> (\<exists>e r. timed (event_ms e) \<and> control_step e (snd x) = (snd y, r))"

interpretation steadiness: inductive_invariant
  "\<lambda>x. double_limits (fst x) \<and> snd x = new_control_state (fst x)" timed_step
  "\<lambda>x. double_limits (fst x) \<and> steady (fst x) (snd x)"
  by unfold_locales (auto simp: timed_step_def intro: steady_start steady_step)

lemma timed_run:
  "list_all (\<lambda>e. timed (event_ms e)) es \<Longrightarrow> control_run es s = (s', rs) \<Longrightarrow> timed_step\<^sup>*\<^sup>* (p, s) (p, s')"
proof (induction es arbitrary: s rs)
  case (Cons e es)
  obtain s1 r where r: "control_step e s = (s1, r)" by fastforce
  with Cons.prems obtain rs1 where "control_run es s1 = (s', rs1)" by (auto split: prod.splits)
  with Cons have "timed_step\<^sup>*\<^sup>* (p, s1) (p, s')" by simp
  moreover have "timed_step (p, s) (p, s1)" using Cons.prems(1) r by (auto simp: timed_step_def)
  ultimately show ?case by (meson converse_rtranclp_into_rtranclp)
qed simp

text \<open>The speed a published command adds is the acceleration the state keeps, times the time since
  the last output.\<close>

definition changes_speed :: "control_state \<Rightarrow> pyfloat \<Rightarrow> control_state \<Rightarrow> bool" where
  "changes_speed s now s' \<longleftrightarrow>
     (case lc_last_output_ms s of
        None \<Rightarrow> True
      | Some t \<Rightarrow> t < now \<longrightarrow>
          tw_linear_x (lc_last_output s') =
            tw_linear_x (lc_last_output s) + ta_linear_x (lc_last_accel s') * fdiv (now - t) (dbl 1000) \<and>
          tw_angular_z (lc_last_output s') =
            tw_angular_z (lc_last_output s) + ta_angular_z (lc_last_accel s') * fdiv (now - t) (dbl 1000))"

lemma limits_change_speed:
  assumes "apply_dynamic_limits c prev (Some t) (Some a) now p = Inr x" "t < now"
  shows "tw_linear_x (dl_command x) = tw_linear_x prev + ta_linear_x (dl_acceleration x) * fdiv (now - t) (dbl 1000) \<and>
    tw_angular_z (dl_command x) = tw_angular_z prev + ta_angular_z (dl_acceleration x) * fdiv (now - t) (dbl 1000)"
proof -
  have "\<not> now \<le> t" using assms(2) by (cases t; cases now) auto
  with assms(1) show ?thesis by (auto simp: apply_dynamic_limits_def limit_over_def Let_def split: if_splits)
qed



section \<open>Loaded policies\<close>

lemma checked_field:
  assumes "check_profile_field name d k bad what = Inr ()"
  obtains x where "lease_optional_float (dget d k) = Inr (Some x)" "is_fin x" "\<not> bad x"
  using assms by (auto simp: check_profile_field_def split: sum.splits option.splits if_splits)

lemma checked_fields:
  "map_outcome (\<lambda>k. check_profile_field name d k bad what) ks = Inr us \<Longrightarrow> k \<in> set ks \<Longrightarrow>
   check_profile_field name d k bad what = Inr ()"
  by (induction ks arbitrary: us) (auto split: sum.splits)

lemma validated_fields:
  assumes "validate_profile name d = Inr ()"
  shows "k \<in> set POSITIVE_PROFILE_FIELDS \<Longrightarrow> \<exists>x. positive_float (dget d k) dflt = Inr x \<and> is_fin x \<and> 0 < x"
    and "k \<in> set NONNEGATIVE_PROFILE_FIELDS \<Longrightarrow> \<exists>x. nonnegative_float (dget d k) dflt = Inr x \<and> is_fin x \<and> 0 \<le> x"
proof -
  from assms obtain us vs where
      us: "map_outcome (\<lambda>k. check_profile_field name d k (\<lambda>x. x \<le> 0) ''positive'') POSITIVE_PROFILE_FIELDS = Inr us"
    and vs: "map_outcome (\<lambda>k. check_profile_field name d k (\<lambda>x. x < 0) ''non-negative'') NONNEGATIVE_PROFILE_FIELDS = Inr vs"
    by (auto simp: validate_profile_def Let_def split: sum.splits if_splits)
  show "\<exists>x. positive_float (dget d k) dflt = Inr x \<and> is_fin x \<and> 0 < x" if k: "k \<in> set POSITIVE_PROFILE_FIELDS"
  proof -
    obtain x where x: "lease_optional_float (dget d k) = Inr (Some x)" "is_fin x" "\<not> x \<le> 0"
      by (rule checked_field [OF checked_fields [OF us k]])
    then have "0 < x" by (cases x) (auto simp: fconst)
    with x show ?thesis by (simp add: positive_float_def)
  qed
  show "\<exists>x. nonnegative_float (dget d k) dflt = Inr x \<and> is_fin x \<and> 0 \<le> x" if k: "k \<in> set NONNEGATIVE_PROFILE_FIELDS"
  proof -
    obtain x where x: "lease_optional_float (dget d k) = Inr (Some x)" "is_fin x" "\<not> x < 0"
      by (rule checked_field [OF checked_fields [OF vs k]])
    then have "0 \<le> x" by (cases x) (auto simp: fconst)
    with x show ?thesis by (simp add: nonnegative_float_def)
  qed
qed

lemma read_policy_ok:
  assumes "validate_profile name d = Inr ()" "policy_from_mapping name d = Inr p"
  shows "policy_ok p \<and> lp_controller_profile p = name"
proof -
  note pos = validated_fields(1) [OF assms(1)] and nonneg = validated_fields(2) [OF assms(1)]
  have lin: "\<exists>x. positive_float (dget d ''max_linear_x'') dflt = Inr x \<and> is_fin x \<and> 0 < x"
    and life: "\<exists>x. positive_float (dget d ''max_local_lifespan_ms'') dflt = Inr x \<and> is_fin x \<and> 0 < x" for dflt
    by (rule pos, simp add: POSITIVE_PROFILE_FIELDS_def)+
  have "list_all (\<lambda>k. \<forall>dflt. \<exists>x. nonnegative_float (dget d k) dflt = Inr x \<and> is_fin x \<and> 0 \<le> x) NONNEGATIVE_PROFILE_FIELDS"
    using nonneg by (simp add: list_all_iff)
  note rest = this [unfolded NONNEGATIVE_PROFILE_FIELDS_def list.pred_inject]
  have le: "0 < x \<Longrightarrow> 0 \<le> x" for x :: pyfloat by (rule fless_imp_le)
  let ?q = default_lease_policy
  obtain a where a: "positive_float (dget d ''max_linear_x'') (lp_max_linear_x ?q) = Inr a" "is_fin a" "0 < a" using lin by blast
  obtain l where l: "positive_float (dget d ''max_local_lifespan_ms'') (lp_max_local_lifespan_ms ?q) = Inr l" "is_fin l" "0 < l" using life by blast
  obtain b where b: "nonnegative_float (dget d ''max_abs_linear_y'') (lp_max_abs_linear_y ?q) = Inr b" "is_fin b" "0 \<le> b" using rest by blast
  obtain c where c: "nonnegative_float (dget d ''max_abs_linear_z'') (lp_max_abs_linear_z ?q) = Inr c" "is_fin c" "0 \<le> c" using rest by blast
  obtain e where e: "nonnegative_float (dget d ''max_abs_angular_x'') (lp_max_abs_angular_x ?q) = Inr e" "is_fin e" "0 \<le> e" using rest by blast
  obtain f where f: "nonnegative_float (dget d ''max_abs_angular_y'') (lp_max_abs_angular_y ?q) = Inr f" "is_fin f" "0 \<le> f" using rest by blast
  obtain g where g: "nonnegative_float (dget d ''max_abs_angular_z'') (lp_max_abs_angular_z ?q) = Inr g" "is_fin g" "0 \<le> g" using rest by blast
  obtain h where h: "nonnegative_float (dget d ''max_linear_accel_x'') (lp_max_linear_accel_x ?q) = Inr h" "is_fin h" "0 \<le> h" using rest by blast
  obtain i where i: "nonnegative_float (dget d ''max_abs_angular_accel_z'') (lp_max_abs_angular_accel_z ?q) = Inr i" "is_fin i" "0 \<le> i" using rest by blast
  obtain j where j: "nonnegative_float (dget d ''max_linear_jerk_x'') (lp_max_linear_jerk_x ?q) = Inr j" "is_fin j" "0 \<le> j" using rest by blast
  obtain k where k: "nonnegative_float (dget d ''max_abs_angular_jerk_z'') (lp_max_abs_angular_jerk_z ?q) = Inr k" "is_fin k" "0 \<le> k" using rest by blast
  obtain m where m: "nonnegative_float (dget d ''pending_command_window_ms'') (lp_pending_command_window_ms ?q) = Inr m" "is_fin m" "0 \<le> m" using rest by blast
  note vals = a(1) l(1) b(1) c(1) e(1) f(1) g(1) h(1) i(1) j(1) k(1) m(1)
  from assms(2) have p: "lp_max_linear_x p = a" "lp_max_abs_linear_y p = b" "lp_max_abs_linear_z p = c"
      "lp_max_abs_angular_x p = e" "lp_max_abs_angular_y p = f" "lp_max_abs_angular_z p = g"
      "lp_max_linear_accel_x p = h" "lp_max_abs_angular_accel_z p = i" "lp_max_linear_jerk_x p = j"
      "lp_max_abs_angular_jerk_z p = k" "lp_max_local_lifespan_ms p = l" "lp_pending_command_window_ms p = m"
      "lp_expiry_action p \<in> set expiry_actions" "lp_controller_profile p = name"
    by (auto simp: policy_from_mapping_def Let_def vals split: if_splits)
  have "0 \<le> a" "0 \<le> l" using a(3) l(3) by (auto intro: le)
  with a b c e f g h i j k l m show ?thesis by (simp add: policy_ok_def p)
qed

text \<open>C36: a policy that is loaded from a file of profiles, with whatever overrides, is well formed: every
  limit is a finite number that is not negative, the speed limit and the longest lease are positive
  and the expiry action is one of the three known ones.\<close>

theorem loaded_policies_ok:
  assumes "load_lease_policy bytes profile overrides = Inr p"
  shows "policy_ok p \<and> (profile \<noteq> [] \<longrightarrow> lp_controller_profile p = profile)"
  using assms
  by (auto simp: load_lease_policy_def Let_def dest!: read_policy_ok split: sum.splits py_obj.splits if_splits)

definition demo_profiles :: string where
  "demo_profiles =
     ''{\"schema_version\":\"fleetrmw.local_controller_profiles.v1\",\"default_profile\":\"d\",\"profiles\":{\"d\":{'' @
     ''\"max_linear_x\":1,\"max_abs_linear_y\":0,\"max_abs_linear_z\":0,\"max_abs_angular_x\":0,\"max_abs_angular_y\":0,'' @
     ''\"max_abs_angular_z\":1,\"max_linear_accel_x\":1,\"max_abs_angular_accel_z\":1,\"max_linear_jerk_x\":2,'' @
     ''\"max_abs_angular_jerk_z\":2,\"max_local_lifespan_ms\":400,\"pending_command_window_ms\":50,\"expiry_action\":\"stop\"}}}''"

lemma loaded_policies_ok_witness:
  "case load_lease_policy demo_profiles ''d'' [(''max_linear_x'', PInt 2)] of
     Inr p \<Rightarrow> policy_ok p \<and> lp_max_linear_x p = Fin 2 \<and> lp_controller_profile p = ''d'' | _ \<Rightarrow> False"
proof -
  have "case load_lease_policy demo_profiles ''d'' [(''max_linear_x'', PInt 2)] of
     Inr p \<Rightarrow> lp_max_linear_x p = Fin 2 | _ \<Rightarrow> False" by code_simp
  then obtain p where p: "load_lease_policy demo_profiles ''d'' [(''max_linear_x'', PInt 2)] = Inr p" "lp_max_linear_x p = Fin 2"
    by (auto split: sum.splits)
  with loaded_policies_ok [OF p(1)] show ?thesis by simp
qed

end
