(* ===== verification/FlowScheduler.thy ===== *)
theory FlowScheduler
  imports PyObj
begin

text \<open>
  \<open>fleetqox/model.py\<close> and \<open>fleetqox/scheduler.py\<close>: flows, their profiles and observations,
  the link of a tick, and the scheduler that decides which flow sends how many bytes. Numbers
  annotated \<open>float\<close> are floats, and keys of a sort are ordered as numbers without NaN are.
\<close>

section \<open>Flows\<close>

datatype flow_class = SAFETY | CONTROL | COORDINATION | STATE | PERCEPTION | HUMAN_QOE | DEBUG | BULK

record qos_profile =
  qs_reliability :: string
  qs_durability :: string
  qs_depth :: int
  qs_deadline_ms :: pyfloat
  qs_lifespan_ms :: pyfloat
  qs_liveliness_lease_ms :: pyfloat

record qoe_profile =
  qe_operator_visible :: bool
  qe_smoothness_weight :: pyfloat
  qe_freeze_penalty :: pyfloat
  qe_visual_confidence_weight :: pyfloat

record task_context =
  tk_task_id :: string
  tk_robot_id :: string
  tk_task_criticality :: pyfloat
  tk_collision_risk :: pyfloat
  tk_operator_attention :: pyfloat
  tk_coordination_pressure :: pyfloat

record flow_spec =
  fs_flow_id :: string
  fs_robot_id :: string
  fs_topic :: string
  fs_flow_class :: flow_class
  fs_qos :: qos_profile
  fs_qoe :: qoe_profile
  fs_nominal_size_bytes :: int
  fs_nominal_rate_hz :: pyfloat
  fs_causal_task_gain :: pyfloat
  fs_redundancy :: pyfloat
  fs_semantic_delta_ratio :: pyfloat
  fs_tags :: "(string \<times> string) list"

record flow_observation =
  fo_age_ms :: pyfloat
  fo_queue_depth :: int
  fo_measured_loss :: pyfloat
  fo_measured_rtt_ms :: pyfloat
  fo_observed_jitter_ms :: pyfloat
  fo_task :: task_context

record network_link =
  nl_capacity_bytes :: int
  nl_capacity_packets :: "int option"
  nl_capacity_airtime_ns :: "int option"
  nl_loss :: pyfloat
  nl_jitter_ms :: pyfloat
  nl_rtt_ms :: pyfloat

record flow_decision =
  fd_flow_id :: string
  fd_action :: string
  fd_priority :: pyfloat
  fd_allocated_bytes :: int
  fd_reason :: string
  fd_degraded :: bool
  fd_reliability :: string
  fd_wire_mode :: string
  fd_predicted_slack_ms :: pyfloat

definition check_qos :: "qos_profile \<Rightarrow> unit outcome" where
  "check_qos q =
     (if qs_reliability q \<notin> {''best_effort'', ''reliable''}
      then Inl (ValueError (''unknown reliability: '' @ qs_reliability q))
      else if qs_durability q \<notin> {''volatile'', ''transient_local''}
      then Inl (ValueError (''unknown durability: '' @ qs_durability q))
      else if qs_depth q < 1 then Inl (ValueError ''depth must be positive'')
      else if qs_deadline_ms q \<le> 0 \<or> qs_lifespan_ms q \<le> 0
      then Inl (ValueError ''deadline and lifespan must be positive'')
      else Inr ())"

definition clipped_task :: "task_context \<Rightarrow> task_context" where
  "clipped_task t =
     t\<lparr>tk_task_criticality := clip01 (tk_task_criticality t),
       tk_collision_risk := clip01 (tk_collision_risk t),
       tk_operator_attention := clip01 (tk_operator_attention t),
       tk_coordination_pressure := clip01 (tk_coordination_pressure t)\<rparr>"

definition check_spec :: "flow_spec \<Rightarrow> unit outcome" where
  "check_spec s =
     (case check_qos (fs_qos s) of
        Inl e \<Rightarrow> Inl e
      | Inr _ \<Rightarrow>
          if fs_nominal_size_bytes s \<le> 0 then Inl (ValueError ''nominal_size_bytes must be positive'')
          else if fs_nominal_rate_hz s \<le> 0 then Inl (ValueError ''nominal_rate_hz must be positive'')
          else if fs_semantic_delta_ratio s \<le> 0 then Inl (ValueError ''semantic_delta_ratio must be positive'')
          else Inr ())"

definition check_link :: "network_link \<Rightarrow> unit outcome" where
  "check_link l =
     (if nl_capacity_bytes l < 0 then Inl (ValueError ''capacity must be non-negative'')
      else if (case nl_capacity_packets l of None \<Rightarrow> False | Some n \<Rightarrow> n < 0)
      then Inl (ValueError ''capacity_packets_per_tick must be non-negative'')
      else if (case nl_capacity_airtime_ns l of None \<Rightarrow> False | Some n \<Rightarrow> n < 0)
      then Inl (ValueError ''capacity_airtime_ns_per_tick must be non-negative'')
      else if \<not> (0 \<le> nl_loss l \<and> nl_loss l \<le> 1) then Inl (ValueError ''loss must be in [0, 1]'')
      else if nl_jitter_ms l < 0 \<or> nl_rtt_ms l < 0
      then Inl (ValueError ''jitter and rtt must be non-negative'')
      else Inr ())"

section \<open>The scheduler\<close>

record scheduler_weights =
  sw_causal_gain :: pyfloat
  sw_risk_reduction :: pyfloat
  sw_freshness :: pyfloat
  sw_deadline :: pyfloat
  sw_operator_qoe :: pyfloat
  sw_coordination :: pyfloat
  sw_reliability_penalty :: pyfloat
  sw_bandwidth_cost :: pyfloat
  sw_redundancy_penalty :: pyfloat
  sw_stale_penalty :: pyfloat

definition default_weights :: scheduler_weights where
  "default_weights =
     \<lparr>sw_causal_gain = dbl 3, sw_risk_reduction = dbl (22/10), sw_freshness = dbl 2,
      sw_deadline = dbl (24/10), sw_operator_qoe = dbl (17/10), sw_coordination = dbl (12/10),
      sw_reliability_penalty = dbl (8/10), sw_bandwidth_cost = dbl (11/10),
      sw_redundancy_penalty = dbl (15/10), sw_stale_penalty = dbl 6\<rparr>"

record flow_scheduler =
  sr_weights :: scheduler_weights
  sr_critical_fraction :: pyfloat
  sr_qoe_fraction :: pyfloat
  sr_degradation_floor :: pyfloat

definition new_flow_scheduler ::
    "scheduler_weights \<Rightarrow> pyfloat \<Rightarrow> pyfloat \<Rightarrow> pyfloat \<Rightarrow> flow_scheduler outcome" where
  "new_flow_scheduler w critical qoe lowest =
     (if \<not> (0 \<le> critical \<and> critical \<le> 1) then Inl (ValueError ''critical_budget_fraction must be in [0, 1]'')
      else if \<not> (0 \<le> qoe \<and> qoe \<le> 1) then Inl (ValueError ''qoe_budget_fraction must be in [0, 1]'')
      else if \<not> (0 < lowest \<and> lowest \<le> 1) then Inl (ValueError ''degradation_floor must be in (0, 1]'')
      else Inr \<lparr>sr_weights = w, sr_critical_fraction = critical, sr_qoe_fraction = qoe, sr_degradation_floor = lowest\<rparr>)"

text \<open>The defaults of the constructor.\<close>

definition default_scheduler :: flow_scheduler where
  "default_scheduler =
     \<lparr>sr_weights = default_weights, sr_critical_fraction = dbl (55/100), sr_qoe_fraction = dbl (12/100),
      sr_degradation_floor = dbl (18/100)\<rparr>"

fun class_floor :: "flow_class \<Rightarrow> pyfloat" where
  "class_floor SAFETY = dbl 12"
| "class_floor CONTROL = dbl 10"
| "class_floor COORDINATION = dbl 8"
| "class_floor STATE = dbl 6"
| "class_floor PERCEPTION = dbl 3"
| "class_floor HUMAN_QOE = dbl 4"
| "class_floor DEBUG = dbl (1/2)"
| "class_floor BULK = dbl (1/10)"

text \<open>\<open>int(n * x)\<close> for an integer and a float.\<close>

definition int_times :: "int \<Rightarrow> pyfloat \<Rightarrow> int outcome" where
  "int_times n x = (case py_float_of_int n of Inl e \<Rightarrow> Inl e | Inr y \<Rightarrow> py_int_of_float (y * x))"

definition bandwidth_cost :: "flow_spec \<Rightarrow> pyfloat outcome" where
  "bandwidth_cost s =
     map_sum id (\<lambda>n. fdiv (n * fs_nominal_rate_hz s) (dbl 1000000)) (py_float_of_int (fs_nominal_size_bytes s))"

definition effective_size :: "flow_spec \<Rightarrow> flow_observation \<Rightarrow> int outcome" where
  "effective_size s ob =
     (case py_float_of_int (fs_nominal_size_bytes s) of
        Inl e \<Rightarrow> Inl e
      | Inr n \<Rightarrow>
          map_sum id (max 1)
            (py_int_of_float (n * fs_semantic_delta_ratio s * dbl (of_int (min 3 (max 1 (fo_queue_depth ob)))))))"

definition degradable :: "flow_spec \<Rightarrow> bool" where
  "degradable s \<longleftrightarrow> fs_flow_class s \<in> {PERCEPTION, HUMAN_QOE, DEBUG, BULK}"

definition degraded_size :: "flow_scheduler \<Rightarrow> int \<Rightarrow> int outcome" where
  "degraded_size sr n = map_sum id (max 1) (int_times n (sr_degradation_floor sr))"

definition flow_priority :: "flow_scheduler \<Rightarrow> network_link \<Rightarrow> flow_spec \<Rightarrow> flow_observation \<Rightarrow> pyfloat outcome" where
  "flow_priority sr l s ob =
     (let w = sr_weights sr; task = clipped_task (fo_task ob); q = fs_qos s; e = fs_qoe s;
          age_ratio = py_min (dbl 2) (fdiv (fo_age_ms ob) (qs_lifespan_ms q));
          deadline_ratio = py_min (dbl 2) (fdiv (fo_age_ms ob) (qs_deadline_ms q));
          qoe = (qe_smoothness_weight e + qe_freeze_penalty e + qe_visual_confidence_weight e) *
                tk_operator_attention task;
          pressure = nl_loss l + fo_measured_loss ob +
                fdiv (py_max 0 (fo_measured_rtt_ms ob - qs_deadline_ms q)) (qs_deadline_ms q)
      in map_sum id (\<lambda>cost.
           class_floor (fs_flow_class s) + sw_causal_gain w * fs_causal_task_gain s
           + sw_risk_reduction w * tk_collision_risk task * tk_task_criticality task
           + sw_freshness w * age_ratio + sw_deadline w * deadline_ratio + sw_operator_qoe w * qoe
           + sw_coordination w * tk_coordination_pressure task - sw_reliability_penalty w * pressure
           - sw_bandwidth_cost w * cost - sw_redundancy_penalty w * fs_redundancy s)
         (bandwidth_cost s))"

text \<open>A candidate with its priority and its priority per byte.\<close>

type_synonym scored_flow = "pyfloat \<times> pyfloat \<times> flow_spec \<times> flow_observation"

fun flow_of :: "scored_flow \<Rightarrow> string" where
  "flow_of (_, _, s, _) = fs_flow_id s"

definition plain_flow_decision :: "string \<Rightarrow> string \<Rightarrow> pyfloat \<Rightarrow> int \<Rightarrow> string \<Rightarrow> bool \<Rightarrow> flow_decision" where
  "plain_flow_decision i action priority n reason degraded =
     \<lparr>fd_flow_id = i, fd_action = action, fd_priority = priority, fd_allocated_bytes = n, fd_reason = reason,
      fd_degraded = degraded, fd_reliability = [], fd_wire_mode = [], fd_predicted_slack_ms = 0\<rparr>"

fun score_flows ::
    "flow_scheduler \<Rightarrow> network_link \<Rightarrow> (flow_spec \<times> flow_observation) list \<Rightarrow>
     (scored_flow list \<times> flow_decision list) outcome" where
  "score_flows sr l [] = Inr ([], [])"
| "score_flows sr l ((s, ob) # cs) =
     (case check_spec s of
        Inl e \<Rightarrow> Inl e
      | Inr _ \<Rightarrow>
          if qs_lifespan_ms (fs_qos s) < fo_age_ms ob
          then map_sum id (\<lambda>(scored, dropped).
                 (scored, plain_flow_decision (fs_flow_id s) ''drop'' (- sw_stale_penalty (sr_weights sr)) 0
                            ''stale beyond lifespan'' False # dropped))
               (score_flows sr l cs)
          else (case flow_priority sr l s ob of
            Inl e \<Rightarrow> Inl e
          | Inr p \<Rightarrow>
              (case effective_size s ob of
                 Inl e \<Rightarrow> Inl e
               | Inr n \<Rightarrow>
                   map_sum id (\<lambda>(scored, dropped). ((p, fdiv p (dbl (of_int n)), s, ob) # scored, dropped))
                     (score_flows sr l cs))))"

definition critical_class :: "flow_class \<Rightarrow> bool" where
  "critical_class c \<longleftrightarrow> c \<in> {SAFETY, CONTROL, COORDINATION, STATE}"

definition partition_flows :: "scored_flow list \<Rightarrow> scored_flow list \<times> scored_flow list" where
  "partition_flows fs = partition (\<lambda>(_, _, s, _). critical_class (fs_flow_class s)) fs"

text \<open>\<open>sorted(xs, key=..., reverse=True)\<close>: descending, equal keys in their order.\<close>

fun insert_desc :: "('a \<Rightarrow> 'a \<Rightarrow> bool) \<Rightarrow> 'a \<Rightarrow> 'a list \<Rightarrow> 'a list" where
  "insert_desc below x [] = [x]"
| "insert_desc below x (y # ys) = (if below x y then y # insert_desc below x ys else x # y # ys)"

definition sorted_desc :: "('a \<Rightarrow> 'a \<Rightarrow> bool) \<Rightarrow> 'a list \<Rightarrow> 'a list" where
  "sorted_desc below xs = foldr (insert_desc below) xs []"

definition lower_priority :: "scored_flow \<Rightarrow> scored_flow \<Rightarrow> bool" where
  "lower_priority x y \<longleftrightarrow> fst x < fst y"

definition lower_density :: "scored_flow \<Rightarrow> scored_flow \<Rightarrow> bool" where
  "lower_density x y \<longleftrightarrow>
     (if feq (fst (snd x)) (fst (snd y)) then fst x < fst y else fst (snd x) < fst (snd y))"

text \<open>One pass over sorted flows: a flow that does not fit is sent degraded if that is allowed and
  fits, and is left otherwise.\<close>

fun admit_flows ::
    "flow_scheduler \<Rightarrow> bool \<Rightarrow> string \<Rightarrow> scored_flow list \<Rightarrow> int \<Rightarrow> (flow_decision list \<times> int) outcome" where
  "admit_flows sr allow reason [] remaining = Inr ([], remaining)"
| "admit_flows sr allow reason ((p, d, s, ob) # fs) remaining =
     (case effective_size s ob of
        Inl e \<Rightarrow> Inl e
      | Inr n \<Rightarrow>
          if n \<le> remaining
          then map_sum id (\<lambda>(ds, r). (plain_flow_decision (fs_flow_id s) ''send'' p n reason False # ds, r))
                 (admit_flows sr allow reason fs (remaining - n))
          else if allow \<and> degradable s
          then (case degraded_size sr n of
            Inl e \<Rightarrow> Inl e
          | Inr k \<Rightarrow>
              if k \<le> remaining
              then map_sum id (\<lambda>(ds, r).
                     (plain_flow_decision (fs_flow_id s) ''send_degraded'' p k (reason @ '': degraded'') True # ds, r))
                     (admit_flows sr allow reason fs (remaining - k))
              else admit_flows sr allow reason fs remaining)
          else admit_flows sr allow reason fs remaining)"

definition admit_by_priority ::
    "flow_scheduler \<Rightarrow> scored_flow list \<Rightarrow> int \<Rightarrow> (flow_decision list \<times> int) outcome" where
  "admit_by_priority sr fs capacity =
     admit_flows sr True ''critical reservation'' (sorted_desc lower_priority fs) capacity"

definition admit_by_density ::
    "flow_scheduler \<Rightarrow> scored_flow list \<Rightarrow> int \<Rightarrow> (flow_decision list \<times> int) outcome" where
  "admit_by_density sr fs capacity =
     admit_flows sr True ''semantic utility per byte'' (sorted_desc lower_density fs) capacity"

definition allocated :: "flow_decision list \<Rightarrow> int" where
  "allocated ds = sum_list (map fd_allocated_bytes ds)"

definition not_selected :: "flow_decision list \<Rightarrow> scored_flow list \<Rightarrow> scored_flow list" where
  "not_selected ds fs = filter (\<lambda>f. flow_of f \<notin> set (map fd_flow_id ds)) fs"

definition focused_qoe :: "scored_flow list \<Rightarrow> scored_flow list" where
  "focused_qoe fs =
     filter (\<lambda>(_, _, s, ob). fs_flow_class s = HUMAN_QOE \<and> 0 < tk_operator_attention (fo_task ob)) fs"

text \<open>A deferral for every scored flow that has no decision yet.\<close>

fun defer_undecided :: "scored_flow list \<Rightarrow> string set \<Rightarrow> flow_decision list" where
  "defer_undecided [] decided = []"
| "defer_undecided ((p, d, s, ob) # fs) decided =
     (if fs_flow_id s \<in> decided then defer_undecided fs decided
      else plain_flow_decision (fs_flow_id s) ''defer'' (class_floor (fs_flow_class s)) 0 ''insufficient capacity'' False
             # defer_undecided fs decided)"

text \<open>The three passes: the critical reservation, the focused operator flows, and the rest.\<close>

definition share_capacity ::
    "flow_scheduler \<Rightarrow> int \<Rightarrow> scored_flow list \<Rightarrow> flow_decision list outcome" where
  "share_capacity sr capacity fs =
     (case partition_flows fs of (critical, opportunistic) \<Rightarrow>
     (case int_times capacity (sr_critical_fraction sr) of Inl e \<Rightarrow> Inl e | Inr critical_budget \<Rightarrow>
     (case admit_by_priority sr critical (min critical_budget capacity) of Inl e \<Rightarrow> Inl e | Inr (ds1, left1) \<Rightarrow>
      let shared = capacity - allocated ds1 + max 0 left1
      in
     (case int_times capacity (sr_qoe_fraction sr) of Inl e \<Rightarrow> Inl e | Inr qoe_limit \<Rightarrow>
      let qoe_budget = min shared qoe_limit
      in
     (case admit_by_density sr (focused_qoe opportunistic) qoe_budget of Inl e \<Rightarrow> Inl e | Inr (ds2, left2) \<Rightarrow>
     (case admit_by_density sr (not_selected ds2 opportunistic @ not_selected ds1 critical)
             (shared - (qoe_budget - left2)) of Inl e \<Rightarrow> Inl e | Inr (ds3, _) \<Rightarrow>
        Inr (ds1 @ ds2 @ ds3)))))))"

definition schedule_flows ::
    "flow_scheduler \<Rightarrow> (flow_spec \<times> flow_observation) list \<Rightarrow> network_link \<Rightarrow> flow_decision list outcome" where
  "schedule_flows sr candidates l =
     (case check_link l of Inl e \<Rightarrow> Inl e | Inr _ \<Rightarrow>
     (case score_flows sr l candidates of Inl e \<Rightarrow> Inl e | Inr (scored, dropped) \<Rightarrow>
     (case share_capacity sr (nl_capacity_bytes l) scored of Inl e \<Rightarrow> Inl e | Inr admitted \<Rightarrow>
      let decided = dropped @ admitted
      in Inr (sort_key fd_flow_id (decided @ defer_undecided scored (set (map fd_flow_id decided)))))))"

end
