(* ===== verification/FleetOptimizer.thy ===== *)
theory FleetOptimizer
  imports FlowScheduler
begin

text \<open>
  \<open>fleetqox/fleet_optimizer.py\<close>: the optimizer that gives every flow of a tick its paths and bytes, by the
  scores of the paths, the utility of the flow and the fairness debt of its robot.
\<close>

section \<open>Telemetry, demands and decisions\<close>

datatype transport_mode = UNICAST | REDUNDANT | DEGRADED | DROP

record path_telemetry =
  pt_path_id :: string
  pt_latency_ms :: pyfloat
  pt_jitter_ms :: pyfloat
  pt_loss :: pyfloat
  pt_nack_rate :: pyfloat
  pt_deadline_miss_ratio :: pyfloat
  pt_bandwidth_utilization :: pyfloat
  pt_failure_domain :: string

record robot_qoe_state =
  rq_robot_id :: string
  rq_control_delivery_ratio :: pyfloat
  rq_deadline_miss_ratio :: pyfloat
  rq_qoe_score :: pyfloat

record fleet_flow_demand =
  fl_flow_id :: string
  fl_robot_id :: string
  fl_flow_class :: flow_class
  fl_deadline_ms :: pyfloat
  fl_payload_bytes :: int
  fl_rate_hz :: pyfloat
  fl_criticality :: pyfloat
  fl_qoe_weight :: pyfloat
  fl_age_ms :: pyfloat
  fl_lifespan_ms :: pyfloat

record optimizer_weights =
  ow_loss :: pyfloat
  ow_latency :: pyfloat
  ow_jitter :: pyfloat
  ow_nack :: pyfloat
  ow_deadline_miss :: pyfloat
  ow_utilization :: pyfloat
  ow_class_value :: pyfloat
  ow_criticality :: pyfloat
  ow_qoe :: pyfloat
  ow_fairness_debt :: pyfloat
  ow_age_pressure :: pyfloat

definition default_optimizer_weights :: optimizer_weights where
  "default_optimizer_weights =
     \<lparr>ow_loss = dbl (32/10), ow_latency = dbl (18/10), ow_jitter = dbl (12/10), ow_nack = dbl (22/10),
      ow_deadline_miss = dbl (28/10), ow_utilization = dbl (9/10), ow_class_value = dbl 3,
      ow_criticality = dbl (24/10), ow_qoe = dbl (15/10), ow_fairness_debt = dbl 2, ow_age_pressure = dbl 1\<rparr>"

record optimizer_config =
  oc_capacity_bytes :: int
  oc_redundant_deadline_ms :: pyfloat
  oc_redundancy_risk_threshold :: pyfloat
  oc_failover_risk_margin :: pyfloat
  oc_degrade_floor :: pyfloat
  oc_min_critical_score :: pyfloat
  oc_min_best_effort_score :: pyfloat
  oc_max_redundant_paths :: int
  oc_redundancy_budget :: "int option"
  oc_require_diversity :: bool
  oc_weights :: optimizer_weights

definition default_optimizer_config :: optimizer_config where
  "default_optimizer_config =
     \<lparr>oc_capacity_bytes = 96000, oc_redundant_deadline_ms = dbl 40, oc_redundancy_risk_threshold = dbl (165/100),
      oc_failover_risk_margin = dbl (35/100), oc_degrade_floor = dbl (35/100), oc_min_critical_score = dbl (75/10),
      oc_min_best_effort_score = dbl 2, oc_max_redundant_paths = 2, oc_redundancy_budget = None,
      oc_require_diversity = True, oc_weights = default_optimizer_weights\<rparr>"

record path_decision =
  pd_flow_id :: string
  pd_robot_id :: string
  pd_action :: string
  pd_mode :: transport_mode
  pd_selected_paths :: "string list"
  pd_allocated_bytes :: int
  pd_utility_score :: pyfloat
  pd_best_path_score :: pyfloat
  pd_fairness_debt :: pyfloat
  pd_reason :: string

section \<open>Scores\<close>

fun class_value :: "flow_class \<Rightarrow> pyfloat" where
  "class_value SAFETY = dbl (42/10)"
| "class_value CONTROL = dbl (38/10)"
| "class_value COORDINATION = dbl (32/10)"
| "class_value STATE = dbl (24/10)"
| "class_value HUMAN_QOE = dbl (21/10)"
| "class_value PERCEPTION = dbl (15/10)"
| "class_value DEBUG = dbl (4/10)"
| "class_value BULK = dbl (2/10)"

definition optimizer_path_score :: "optimizer_config \<Rightarrow> path_telemetry \<Rightarrow> fleet_flow_demand \<Rightarrow> pyfloat" where
  "optimizer_path_score c p f =
     (let w = oc_weights c; deadline = py_max (dbl 1) (fl_deadline_ms f)
      in ow_loss w * clip01 (pt_loss p) + ow_latency w * py_max 0 (fdiv (pt_latency_ms p) deadline)
         + ow_jitter w * py_max 0 (fdiv (pt_jitter_ms p) deadline) + ow_nack w * clip01 (pt_nack_rate p)
         + ow_deadline_miss w * clip01 (pt_deadline_miss_ratio p)
         + ow_utilization w * clip01 (pt_bandwidth_utilization p))"

definition optimizer_utility :: "optimizer_config \<Rightarrow> fleet_flow_demand \<Rightarrow> pyfloat \<Rightarrow> pyfloat" where
  "optimizer_utility c f debt =
     (let w = oc_weights c;
          age_pressure = py_min (dbl 2) (fdiv (fl_age_ms f) (py_max (dbl 1) (fl_deadline_ms f)))
      in ow_class_value w * class_value (fl_flow_class f) + ow_criticality w * clip01 (fl_criticality f)
         + ow_qoe w * clip01 (fl_qoe_weight f) + ow_fairness_debt w * debt + ow_age_pressure w * age_pressure)"

definition robot_fairness_debt :: "robot_qoe_state option \<Rightarrow> pyfloat" where
  "robot_fairness_debt state =
     (case state of
        None \<Rightarrow> 0
      | Some s \<Rightarrow>
          clip01 (py_max 0 (dbl (98/100) - rq_control_delivery_ratio s) + clip01 (rq_deadline_miss_ratio s)
                  + py_max 0 (dbl (92/100) - rq_qoe_score s)))"

definition urgent_class :: "flow_class \<Rightarrow> bool" where
  "urgent_class k \<longleftrightarrow> k \<in> {SAFETY, CONTROL, COORDINATION}"

definition admission_floor :: "optimizer_config \<Rightarrow> fleet_flow_demand \<Rightarrow> pyfloat" where
  "admission_floor c f =
     (if urgent_class (fl_flow_class f) then oc_min_critical_score c else oc_min_best_effort_score c)"

definition demand_degradable :: "fleet_flow_demand \<Rightarrow> bool" where
  "demand_degradable f \<longleftrightarrow> fl_flow_class f \<in> {PERCEPTION, HUMAN_QOE, DEBUG, BULK}"

definition check_demand :: "fleet_flow_demand \<Rightarrow> unit outcome" where
  "check_demand f =
     (if fl_payload_bytes f \<le> 0 then Inl (ValueError ''payload_bytes must be positive'')
      else if fl_rate_hz f \<le> 0 then Inl (ValueError ''rate_hz must be positive'')
      else if fl_deadline_ms f \<le> 0 \<or> fl_lifespan_ms f \<le> 0
      then Inl (ValueError ''deadline_ms and lifespan_ms must be positive'')
      else Inr ())"

section \<open>Paths of a flow\<close>

definition failure_domain :: "path_telemetry \<Rightarrow> string" where
  "failure_domain p = (if pt_failure_domain p \<noteq> [] then pt_failure_domain p else pt_path_id p)"

text \<open>Ascending, equal scores in their order.\<close>

definition rank_paths :: "optimizer_config \<Rightarrow> fleet_flow_demand \<Rightarrow> path_telemetry list \<Rightarrow> path_telemetry list" where
  "rank_paths c f ps = sorted_desc (\<lambda>p q. optimizer_path_score c q f < optimizer_path_score c p f) ps"

fun first_of_domains :: "string set \<Rightarrow> path_telemetry list \<Rightarrow> path_telemetry list" where
  "first_of_domains domains [] = []"
| "first_of_domains domains (p # ps) =
     (if failure_domain p \<in> domains then first_of_domains domains ps
      else p # first_of_domains (insert (failure_domain p) domains) ps)"

definition diverse_paths :: "optimizer_config \<Rightarrow> path_telemetry list \<Rightarrow> path_telemetry list" where
  "diverse_paths c ranked =
     (case ranked of
        [] \<Rightarrow> []
      | p # ps \<Rightarrow> if \<not> oc_require_diversity c then ranked else p # first_of_domains {failure_domain p} ps)"

definition choose_mode ::
    "optimizer_config \<Rightarrow> fleet_flow_demand \<Rightarrow> path_telemetry list \<Rightarrow> pyfloat \<Rightarrow>
     transport_mode \<times> string list \<times> string" where
  "choose_mode c f ranked best_score =
     (let redundant = diverse_paths c ranked;
          second = 1 < length redundant;
          urgent = (fl_deadline_ms f \<le> oc_redundant_deadline_ms c);
          qoe_sensitive = (dbl (65/100) \<le> fl_qoe_weight f)
      in if second \<and> (urgent \<or> qoe_sensitive \<or> urgent_class (fl_flow_class f)) \<and>
            oc_redundancy_risk_threshold c \<le> best_score
         then (REDUNDANT, map pt_path_id (py_slice redundant 0 (oc_max_redundant_paths c)),
               ''high-risk urgent/QoE flow: failure-domain-diverse paths'')
         else if 1 < length ranked \<and> \<not> second
         then (UNICAST, [pt_path_id (hd ranked)], ''correlated paths: best scored path'')
         else (UNICAST, [pt_path_id (hd ranked)], ''best scored path''))"

section \<open>The decision of a tick\<close>

text \<open>A flow with its utility per byte, its ranked paths, its best score and its debt.\<close>

type_synonym scored_demand = "pyfloat \<times> fleet_flow_demand \<times> path_telemetry list \<times> pyfloat \<times> pyfloat"

definition path_decision_of ::
    "fleet_flow_demand \<Rightarrow> string \<Rightarrow> transport_mode \<Rightarrow> string list \<Rightarrow> int \<Rightarrow> pyfloat \<Rightarrow> pyfloat \<Rightarrow> pyfloat \<Rightarrow> string \<Rightarrow>
     path_decision" where
  "path_decision_of f action mode paths n utility best debt reason =
     \<lparr>pd_flow_id = fl_flow_id f, pd_robot_id = fl_robot_id f, pd_action = action, pd_mode = mode,
      pd_selected_paths = paths, pd_allocated_bytes = n, pd_utility_score = utility, pd_best_path_score = best,
      pd_fairness_debt = debt, pd_reason = reason\<rparr>"

fun score_demands ::
    "optimizer_config \<Rightarrow> path_telemetry list \<Rightarrow> robot_qoe_state list \<Rightarrow> fleet_flow_demand list \<Rightarrow>
     (scored_demand list \<times> path_decision list) outcome" where
  "score_demands c ps states [] = Inr ([], [])"
| "score_demands c ps states (f # fs) =
     (case check_demand f of
        Inl e \<Rightarrow> Inl e
      | Inr _ \<Rightarrow>
          let debt = robot_fairness_debt (map_of (map (\<lambda>s. (rq_robot_id s, s)) (rev states)) (fl_robot_id f))
          in if fl_lifespan_ms f < fl_age_ms f
             then map_sum id (\<lambda>(scored, ds).
                    (scored, path_decision_of f ''drop'' DROP [] 0 0 PInf debt ''stale beyond lifespan'' # ds))
                    (score_demands c ps states fs)
             else
               let ranked = rank_paths c f ps;
                   best = optimizer_path_score c (hd ranked) f
               in (case py_float_of_int (max 1 (fl_payload_bytes f)) of
                     Inl e \<Rightarrow> Inl e
                   | Inr payload \<Rightarrow>
                       map_sum id (\<lambda>(scored, ds).
                         ((fdiv (optimizer_utility c f debt) payload, f, ranked, best, debt) # scored, ds))
                         (score_demands c ps states fs)))"

definition lower_demand :: "optimizer_config \<Rightarrow> scored_demand \<Rightarrow> scored_demand \<Rightarrow> bool" where
  "lower_demand c x y \<longleftrightarrow>
     (case (x, y) of ((d, f, _, _, a), (e, g, _, _, b)) \<Rightarrow>
        if feq d e then optimizer_utility c f a < optimizer_utility c g b else d < e)"

text \<open>Without budget for the extra copies a redundant flow is sent on its best path.\<close>

definition within_redundancy ::
    "optimizer_config \<Rightarrow> int option \<Rightarrow> fleet_flow_demand \<Rightarrow> path_telemetry list \<Rightarrow> pyfloat \<Rightarrow>
     transport_mode \<times> string list \<times> int \<times> string" where
  "within_redundancy c budget f ranked best =
     (case choose_mode c f ranked best of (mode, paths, reason) \<Rightarrow>
      let extra = fl_payload_bytes f * max 0 (py_len paths - 1)
      in if mode = REDUNDANT \<and> (case budget of None \<Rightarrow> False | Some b \<Rightarrow> b < extra)
         then (UNICAST, [pt_path_id (hd ranked)], 0, ''redundancy budget exhausted: best scored path'')
         else (mode, paths, extra, reason))"

text \<open>One flow: its decision, and what is left of the capacity and of the redundancy budget.\<close>

definition decide_flow ::
    "optimizer_config \<Rightarrow> scored_demand \<Rightarrow> int \<Rightarrow> int option \<Rightarrow> (path_decision \<times> int \<times> int option) outcome" where
  "decide_flow c x remaining budget =
     (case x of (_, f, ranked, best, debt) \<Rightarrow>
      case within_redundancy c budget f ranked best of (mode, paths, extra, reason) \<Rightarrow>
      let utility = optimizer_utility c f debt;
          needed = fl_payload_bytes f * max 1 (py_len paths);
          best_path = pt_path_id (hd ranked);
          deferred = path_decision_of f ''defer'' DROP [] 0 utility best debt ''insufficient fleet capacity''
      in if utility < admission_floor c f
         then Inr (path_decision_of f ''drop'' DROP [] 0 utility best debt ''below admission floor'', remaining, budget)
         else if needed \<le> remaining
         then Inr (path_decision_of f ''send'' mode paths needed utility best debt reason, remaining - needed,
                   if mode = REDUNDANT then map_option (\<lambda>b. b - extra) budget else budget)
         else if mode = REDUNDANT \<and> fl_payload_bytes f \<le> remaining
         then Inr (path_decision_of f ''send'' UNICAST [best_path] (fl_payload_bytes f) utility best debt
                     ''capacity pressure: redundancy downgraded to unicast'', remaining - fl_payload_bytes f, budget)
         else if \<not> demand_degradable f then Inr (deferred, remaining, budget)
         else (case py_float_of_int (fl_payload_bytes f) of
                 Inl e \<Rightarrow> Inl e
               | Inr payload \<Rightarrow>
                   if \<not> payload * oc_degrade_floor c \<le> Fin (of_int remaining) then Inr (deferred, remaining, budget)
                   else (case py_int_of_float (payload * oc_degrade_floor c) of
                           Inl e \<Rightarrow> Inl e
                         | Inr n \<Rightarrow>
                             Inr (path_decision_of f ''send_degraded'' DEGRADED [best_path] (max 1 n) utility best debt
                                    ''capacity pressure: semantic degradation'', remaining - max 1 n, budget))))"

fun decide_flows ::
    "optimizer_config \<Rightarrow> scored_demand list \<Rightarrow> int \<Rightarrow> int option \<Rightarrow> path_decision list outcome" where
  "decide_flows c [] remaining budget = Inr []"
| "decide_flows c (x # xs) remaining budget =
     (case decide_flow c x remaining budget of
        Inl e \<Rightarrow> Inl e
      | Inr (d, remaining', budget') \<Rightarrow> map_sum id (\<lambda>ds. d # ds) (decide_flows c xs remaining' budget'))"

definition decide_paths ::
    "optimizer_config \<Rightarrow> fleet_flow_demand list \<Rightarrow> path_telemetry list \<Rightarrow> robot_qoe_state list \<Rightarrow>
     path_decision list outcome" where
  "decide_paths c fs ps states =
     (if ps = [] then Inl (ValueError ''at least one path is required'')
      else if oc_capacity_bytes c < 0 then Inl (ValueError ''capacity_bytes_per_tick must be non-negative'')
      else if (case oc_redundancy_budget c of None \<Rightarrow> False | Some b \<Rightarrow> b < 0)
      then Inl (ValueError ''redundancy_budget_bytes_per_tick must be non-negative'')
      else (case score_demands c ps states fs of Inl e \<Rightarrow> Inl e | Inr (scored, dropped) \<Rightarrow>
           (case decide_flows c (sorted_desc (lower_demand c) scored) (oc_capacity_bytes c) (oc_redundancy_budget c) of
              Inl e \<Rightarrow> Inl e
            | Inr ds \<Rightarrow> Inr (sort_key pd_flow_id (dropped @ ds)))))"

section \<open>The baseline and the records\<close>

fun static_primary :: "fleet_flow_demand list \<Rightarrow> string \<Rightarrow> int \<Rightarrow> path_decision list" where
  "static_primary [] primary remaining = []"
| "static_primary (f # fs) primary remaining =
     (if fl_payload_bytes f \<le> remaining
      then path_decision_of f ''send'' UNICAST [primary] (fl_payload_bytes f) (class_value (fl_flow_class f)) 0 0
             ''static primary path'' # static_primary fs primary (remaining - fl_payload_bytes f)
      else path_decision_of f ''defer'' DROP [] 0 (class_value (fl_flow_class f)) 0 0
             ''static primary capacity exhausted'' # static_primary fs primary remaining)"

fun mode_value :: "transport_mode \<Rightarrow> string" where
  "mode_value UNICAST = ''unicast''"
| "mode_value REDUNDANT = ''redundant''"
| "mode_value DEGRADED = ''degraded''"
| "mode_value DROP = ''drop''"

definition path_decision_record :: "path_decision \<Rightarrow> py_dict" where
  "path_decision_record d =
     [(''flow_id'', PStr (pd_flow_id d)), (''robot_id'', PStr (pd_robot_id d)), (''action'', PStr (pd_action d)),
      (''mode'', PStr (mode_value (pd_mode d))), (''selected_paths'', PList (map PStr (pd_selected_paths d))),
      (''allocated_bytes'', PInt (pd_allocated_bytes d)), (''utility_score'', PFloat (pd_utility_score d)),
      (''best_path_score'', PFloat (pd_best_path_score d)), (''fleet_fairness_debt'', PFloat (pd_fairness_debt d)),
      (''reason'', PStr (pd_reason d))]"

end
