(* ===== verification/FlowSafety.thy ===== *)
theory FlowSafety
  imports FlowScheduler "HOL-Library.Multiset"
begin

text \<open>
  What the flow scheduler guarantees: one decision for every candidate, staleness, and the budget of
  the link, which can exceed its capacity by what the critical reservation leaves.
\<close>

section \<open>Sorting and selecting\<close>

lemma mset_insert_desc [simp]: "mset (insert_desc below x ys) = add_mset x (mset ys)"
  by (induction ys) auto

lemma mset_sorted_desc [simp]: "mset (sorted_desc below xs) = mset xs"
  by (induction xs) (simp_all add: sorted_desc_def)

lemma flows_sorted_desc:
  "mset (map flow_of (sorted_desc below fs)) = mset (map flow_of fs)"
  "set (sorted_desc below fs) = set fs"
  using mset_sorted_desc [of below fs] by (metis mset_map, metis mset_eq_setD)

lemma plain_flow_decision_simps [simp]:
  "fd_flow_id (plain_flow_decision i a p n r dg) = i" "fd_action (plain_flow_decision i a p n r dg) = a"
  "fd_allocated_bytes (plain_flow_decision i a p n r dg) = n" "fd_reason (plain_flow_decision i a p n r dg) = r"
  by (simp_all add: plain_flow_decision_def)

lemma allocated_simps [simp]:
  "allocated [] = 0" "allocated (d # ds) = fd_allocated_bytes d + allocated ds"
  "allocated (ds @ es) = allocated ds + allocated es"
  by (simp_all add: allocated_def)

section \<open>One pass\<close>

text \<open>What the scheduler may decide for a candidate.\<close>

definition stale :: "flow_spec \<times> flow_observation \<Rightarrow> bool" where
  "stale c \<longleftrightarrow> qs_lifespan_ms (fs_qos (fst c)) < fo_age_ms (snd c)"

definition sends :: "flow_scheduler \<Rightarrow> flow_spec \<times> flow_observation \<Rightarrow> flow_decision \<Rightarrow> bool" where
  "sends sr c d \<longleftrightarrow>
     fd_flow_id d = fs_flow_id (fst c) \<and>
     (case effective_size (fst c) (snd c) of
        Inl _ \<Rightarrow> False
      | Inr n \<Rightarrow>
          fd_action d = ''send'' \<and> fd_allocated_bytes d = n
          \<or> fd_action d = ''send_degraded'' \<and> degradable (fst c) \<and> degraded_size sr n = Inr (fd_allocated_bytes d))"

definition decides :: "flow_scheduler \<Rightarrow> flow_spec \<times> flow_observation \<Rightarrow> flow_decision \<Rightarrow> bool" where
  "decides sr c d \<longleftrightarrow>
     (if stale c then fd_flow_id d = fs_flow_id (fst c) \<and> fd_action d = ''drop'' \<and> fd_allocated_bytes d = 0
      else sends sr c d \<or> fd_flow_id d = fs_flow_id (fst c) \<and> fd_action d = ''defer'' \<and> fd_allocated_bytes d = 0)"

text \<open>What a pass returns: decisions to send for some of its flows, within what there was.\<close>

fun candidate_of :: "scored_flow \<Rightarrow> flow_spec \<times> flow_observation" where
  "candidate_of (_, _, s, ob) = (s, ob)"

definition pass_ok ::
    "flow_scheduler \<Rightarrow> bool \<Rightarrow> string \<Rightarrow> scored_flow list \<Rightarrow> int \<Rightarrow> flow_decision list \<times> int \<Rightarrow> bool" where
  "pass_ok sr exact reason fs remaining r \<longleftrightarrow>
     (case r of (ds, left) \<Rightarrow>
        mset (map fd_flow_id ds) \<subseteq># mset (map flow_of fs) \<and> left = remaining - allocated ds \<and>
        allocated ds \<le> max 0 remaining \<and>
        (\<forall>d \<in> set ds. \<exists>f \<in> set fs. sends sr (candidate_of f) d) \<and>
        (\<forall>d \<in> set ds. fd_reason d = reason \<or> \<not> exact \<and> fd_reason d = reason @ '': degraded''))"

lemma pass_skip: "pass_ok sr exact reason fs remaining r \<Longrightarrow> pass_ok sr exact reason (f # fs) remaining r"
  by (auto simp: pass_ok_def intro: subset_mset.order_trans split: prod.splits)

lemma pass_take:
  assumes "pass_ok sr exact reason fs (remaining - n) (ds, left)" "0 < n" "n \<le> remaining"
    and "sends sr (s, ob) (plain_flow_decision (fs_flow_id s) a q n text dg)"
    and "text = reason \<or> \<not> exact \<and> text = reason @ '': degraded''"
  shows "pass_ok sr exact reason ((p, d, s, ob) # fs) remaining (plain_flow_decision (fs_flow_id s) a q n text dg # ds, left)"
  using assms by (auto simp: pass_ok_def max_def split: if_splits)

lemma sizes_positive: "effective_size s ob = Inr n \<Longrightarrow> 0 < n" "degraded_size sr m = Inr k \<Longrightarrow> 0 < k"
  by (auto simp: effective_size_def degraded_size_def split: sum.splits)

lemma admit_flows_pass:
  assumes "admit_flows sr allow reason fs remaining = Inr r" "exact \<longrightarrow> (\<forall>(_, _, s, _) \<in> set fs. \<not> degradable s)"
  shows "pass_ok sr exact reason fs remaining r"
  using assms
proof (induction sr allow reason fs remaining arbitrary: r rule: admit_flows.induct)
  case (1 sr allow reason remaining)
  then show ?case by (auto simp: pass_ok_def)
next
  case (2 sr allow reason p d s ob fs remaining)
  from 2(5) obtain n where n: "effective_size s ob = Inr n" by (auto split: sum.splits)
  have rest: "exact \<longrightarrow> (\<forall>(_, _, s, _) \<in> set fs. \<not> degradable s)" using 2(6) by auto
  note step = 2(5) [unfolded admit_flows.simps n sum.case]
  show ?case
  proof (cases "n \<le> remaining")
    case True
    with step obtain ds left where "admit_flows sr allow reason fs (remaining - n) = Inr (ds, left)"
        "r = (plain_flow_decision (fs_flow_id s) ''send'' p n reason False # ds, left)" by auto
    moreover have "sends sr (s, ob) (plain_flow_decision (fs_flow_id s) ''send'' p n reason False)" by (simp add: sends_def n)
    ultimately show ?thesis using 2(1) [OF n True _ rest] sizes_positive(1) [OF n] True by (auto intro: pass_take)
  next
    case False
    note big = False
    show ?thesis
    proof (cases "allow \<and> degradable s")
      case True
      with step big obtain k where k: "degraded_size sr n = Inr k" by (auto split: sum.splits)
      have inexact: "\<not> exact" using True 2(6) by auto
      show ?thesis
      proof (cases "k \<le> remaining")
        case fits: True
        with step big True k obtain ds left where "admit_flows sr allow reason fs (remaining - k) = Inr (ds, left)"
            "r = (plain_flow_decision (fs_flow_id s) ''send_degraded'' p k (reason @ '': degraded'') True # ds, left)" by auto
        moreover have "sends sr (s, ob)
            (plain_flow_decision (fs_flow_id s) ''send_degraded'' p k (reason @ '': degraded'') True)"
          using True by (simp add: sends_def n k)
        ultimately show ?thesis
          using 2(2) [OF n big True k fits _ rest] sizes_positive(2) [OF k] fits inexact by (auto intro: pass_take)
      next
        case tight: False
        with step big True k 2(3) [OF n big True k tight _ rest] show ?thesis by (auto intro: pass_skip)
      qed
    next
      case False
      with step big 2(4) [OF n big False _ rest] show ?thesis by (auto intro: pass_skip)
    qed
  qed
qed


section \<open>The three passes\<close>

lemma partition_flowsD:
  assumes "partition_flows fs = (cs, os)"
  shows "mset fs = mset cs + mset os" "\<forall>(_, _, s, _) \<in> set cs. \<not> degradable s"
  using assms by (auto simp: partition_flows_def critical_class_def degradable_def)

lemma set_map_fst_mset: "mset xs \<subseteq># mset ys \<Longrightarrow> set xs \<subseteq> set ys"
  by (metis set_mset_mset set_mset_mono)

lemma not_selected_ids: "set (map flow_of (not_selected ds fs)) = set (map flow_of fs) - set (map fd_flow_id ds)"
  by (auto simp: not_selected_def)

lemma set_not_selected: "set (not_selected ds fs) \<subseteq> set fs"
  by (auto simp: not_selected_def)

lemma set_focused_qoe: "set (focused_qoe fs) \<subseteq> set fs"
  by (auto simp: focused_qoe_def)

lemma pass_sorted: "pass_ok sr exact reason (sorted_desc below fs) n r = pass_ok sr exact reason fs n r"
  by (simp only: pass_ok_def flows_sorted_desc)

lemma share_capacity_passes:
  assumes "share_capacity sr capacity fs = Inr ds"
  obtains cs os budget qoe_limit ds1 ds2 ds3 left1 left2 left3 shared where
    "partition_flows fs = (cs, os)" "int_times capacity (sr_critical_fraction sr) = Inr budget"
    "pass_ok sr True ''critical reservation'' cs (min budget capacity) (ds1, left1)"
    "shared = capacity - allocated ds1 + max 0 left1"
    "pass_ok sr False ''semantic utility per byte'' (focused_qoe os) (min shared qoe_limit) (ds2, left2)"
    "pass_ok sr False ''semantic utility per byte'' (not_selected ds2 os @ not_selected ds1 cs)
       (shared - (min shared qoe_limit - left2)) (ds3, left3)"
    "ds = ds1 @ ds2 @ ds3"
proof -
  obtain cs os where p: "partition_flows fs = (cs, os)" by force
  note crit = partition_flowsD(2) [OF p]
  obtain budget where b: "int_times capacity (sr_critical_fraction sr) = Inr budget"
    using assms by (auto simp: share_capacity_def p split: sum.splits)
  obtain ds1 left1 where 1: "admit_by_priority sr cs (min budget capacity) = Inr (ds1, left1)"
    using assms by (auto simp: share_capacity_def p b split: sum.splits)
  define shared where "shared = capacity - allocated ds1 + max 0 left1"
  obtain limit where l: "int_times capacity (sr_qoe_fraction sr) = Inr limit"
    using assms by (auto simp: share_capacity_def p b 1 Let_def split: sum.splits)
  obtain ds2 left2 where 2: "admit_by_density sr (focused_qoe os) (min shared limit) = Inr (ds2, left2)"
    using assms by (auto simp: share_capacity_def p b 1 l Let_def shared_def split: sum.splits)
  obtain ds3 left3 where 3: "admit_by_density sr (not_selected ds2 os @ not_selected ds1 cs)
      (shared - (min shared limit - left2)) = Inr (ds3, left3)"
    using assms by (auto simp: share_capacity_def p b 1 l 2 [unfolded shared_def] Let_def shared_def split: sum.splits)
  have ds: "ds = ds1 @ ds2 @ ds3"
    using assms by (simp add: share_capacity_def p b 1 l 2 [unfolded shared_def] 3 [unfolded shared_def] Let_def)
  have "pass_ok sr True ''critical reservation'' cs (min budget capacity) (ds1, left1)"
    using admit_flows_pass [OF 1 [unfolded admit_by_priority_def], of True] partition_flowsD(2) [OF p]
    by (simp add: pass_sorted flows_sorted_desc)
  from that [OF p b this shared_def _ _ ds, of limit left2 left3] show thesis
    using admit_flows_pass [OF 2 [unfolded admit_by_density_def], of False]
      admit_flows_pass [OF 3 [unfolded admit_by_density_def], of False] by (simp add: pass_sorted)
qed


section \<open>One decision for every candidate\<close>

lemma mset_map_subset_set: "mset (map f xs) \<subseteq># mset (map g ys) \<Longrightarrow> f ` set xs \<subseteq> g ` set ys"
  by (metis set_map set_mset_mset set_mset_mono)

lemma distinct_submset: assumes "mset xs \<subseteq># mset ys" "distinct ys" shows "distinct xs"
proof -
  obtain zs where "mset ys = mset (xs @ zs)" using assms(1) by (metis ex_mset mset_append mset_subset_eq_exists_conv)
  with assms(2) have "distinct (xs @ zs)" by (metis mset_eq_imp_distinct_iff)
  then show ?thesis by simp
qed

lemma mset_map_subset_distinct: "\<lbrakk>mset (map f xs) \<subseteq># mset (map g ys); distinct (map g ys)\<rbrakk> \<Longrightarrow> distinct (map f xs)"
  using distinct_submset [of "map f xs" "map g ys"] by simp

lemma pass_okD:
  assumes "pass_ok sr exact reason fs n (ds, left)"
  shows "fd_flow_id ` set ds \<subseteq> flow_of ` set fs" "distinct (map flow_of fs) \<Longrightarrow> distinct (map fd_flow_id ds)"
    "d \<in> set ds \<Longrightarrow> \<exists>f \<in> set fs. sends sr (candidate_of f) d" "allocated ds \<le> max 0 n" "left = n - allocated ds"
    "d \<in> set ds \<Longrightarrow> fd_reason d = reason \<or> \<not> exact \<and> fd_reason d = reason @ '': degraded''"
  using assms mset_map_subset_set [of fd_flow_id ds flow_of fs] mset_map_subset_distinct [of fd_flow_id ds flow_of fs]
  by (auto simp: pass_ok_def)

lemma share_capacity_ids:
  assumes "share_capacity sr capacity fs = Inr ds" "distinct (map flow_of fs)"
  shows "distinct (map fd_flow_id ds)" "fd_flow_id ` set ds \<subseteq> flow_of ` set fs"
    "\<forall>d \<in> set ds. \<exists>f \<in> set fs. sends sr (candidate_of f) d"
proof -
  obtain cs os budget limit ds1 ds2 ds3 left1 left2 left3 shared where p: "partition_flows fs = (cs, os)"
    and 1: "pass_ok sr True ''critical reservation'' cs (min budget capacity) (ds1, left1)"
    and 2: "pass_ok sr False ''semantic utility per byte'' (focused_qoe os) (min shared limit) (ds2, left2)"
    and 3: "pass_ok sr False ''semantic utility per byte'' (not_selected ds2 os @ not_selected ds1 cs)
       (shared - (min shared limit - left2)) (ds3, left3)"
    and ds: "ds = ds1 @ ds2 @ ds3"
    using share_capacity_passes [OF assms(1)] by metis
  have fs: "set fs = set cs \<union> set os" by (metis partition_flowsD(1) [OF p] set_mset_mset set_mset_union)
  have "mset (map flow_of fs) = mset (map flow_of (cs @ os))" using partition_flowsD(1) [OF p] by simp
  then have "distinct (map flow_of (cs @ os))" using assms(2) by (metis mset_eq_imp_distinct_iff)
  then have dc: "distinct (map flow_of cs)" "distinct (map flow_of os)" "flow_of ` set cs \<inter> flow_of ` set os = {}"
    by auto
  have dq: "distinct (map flow_of (focused_qoe os))" using dc(2) by (simp add: focused_qoe_def distinct_map_filter)
  have dr: "distinct (map flow_of (not_selected ds2 os @ not_selected ds1 cs))"
    using dc by (auto simp: not_selected_def distinct_map_filter)
  have q: "flow_of ` set (focused_qoe os) \<subseteq> flow_of ` set os" using set_focused_qoe by blast
  have i1: "fd_flow_id ` set ds1 \<subseteq> flow_of ` set cs" by (rule pass_okD(1) [OF 1])
  have i2: "fd_flow_id ` set ds2 \<subseteq> flow_of ` set os" using pass_okD(1) [OF 2] q by (rule order_trans)
  have i3: "fd_flow_id ` set ds3 \<subseteq> (flow_of ` set os - fd_flow_id ` set ds2) \<union> (flow_of ` set cs - fd_flow_id ` set ds1)"
    using pass_okD(1) [OF 3] not_selected_ids [of ds2 os] not_selected_ids [of ds1 cs] by (simp add: image_Un)
  have "(fd_flow_id ` set ds1) \<inter> (fd_flow_id ` set ds2) = {}" using i1 i2 dc(3) by blast
  moreover have "(fd_flow_id ` set ds1) \<inter> (fd_flow_id ` set ds3) = {}" using i1 i3 dc(3) by blast
  moreover have "(fd_flow_id ` set ds2) \<inter> (fd_flow_id ` set ds3) = {}" using i2 i3 dc(3) by blast
  ultimately show "distinct (map fd_flow_id ds)"
    using pass_okD(2) [OF 1 dc(1)] pass_okD(2) [OF 2 dq] pass_okD(2) [OF 3 dr] by (simp add: ds Int_Un_distrib)
  show sent: "\<forall>d \<in> set ds. \<exists>f \<in> set fs. sends sr (candidate_of f) d"
  proof
    fix d assume "d \<in> set ds"
    then consider "d \<in> set ds1" | "d \<in> set ds2" | "d \<in> set ds3" by (auto simp: ds)
    then obtain f where "f \<in> set cs \<or> f \<in> set (focused_qoe os) \<or> f \<in> set (not_selected ds2 os @ not_selected ds1 cs)"
        and "sends sr (candidate_of f) d"
      by cases (use pass_okD(3) [OF 1] pass_okD(3) [OF 2] pass_okD(3) [OF 3] in metis)+
    moreover from this(1) have "f \<in> set fs" by (auto simp: fs not_selected_def focused_qoe_def)
    ultimately show "\<exists>f \<in> set fs. sends sr (candidate_of f) d" by blast
  qed
  then show "fd_flow_id ` set ds \<subseteq> flow_of ` set fs" by (force simp: sends_def)
qed


lemma score_flows_split:
  "score_flows sr l cs = Inr (scored, dropped) \<Longrightarrow>
     mset (map flow_of scored) + mset (map fd_flow_id dropped) = mset (map (fs_flow_id \<circ> fst) cs) \<and>
     (\<forall>f \<in> set scored. candidate_of f \<in> set cs \<and> \<not> stale (candidate_of f)) \<and>
     (\<forall>d \<in> set dropped. fd_reason d = ''stale beyond lifespan'' \<and> (\<exists>c \<in> set cs. decides sr c d)) \<and> allocated dropped = 0"
proof (induction cs arbitrary: scored dropped)
  case (Cons c cs)
  obtain s ob where c: "c = (s, ob)" by force
  show ?case
  proof (cases "qs_lifespan_ms (fs_qos s) < fo_age_ms ob")
    case True
    with Cons.prems obtain dropped' where 1: "score_flows sr l cs = Inr (scored, dropped')"
        "dropped = plain_flow_decision (fs_flow_id s) ''drop'' (- sw_stale_penalty (sr_weights sr)) 0 ''stale beyond lifespan'' False # dropped'"
      by (auto simp: c split: sum.splits)
    with Cons.IH [OF 1(1)] True show ?thesis by (simp add: c decides_def stale_def)
  next
    case False
    with Cons.prems obtain p d scored' where 1: "score_flows sr l cs = Inr (scored', dropped)"
        "scored = (p, d, s, ob) # scored'"
      by (auto simp: c split: sum.splits if_splits)
    with Cons.IH [OF 1(1)] False show ?thesis by (simp add: c stale_def)
  qed
qed simp

lemma defer_undecided_simps:
  "map fd_flow_id (defer_undecided fs S) = map flow_of (filter (\<lambda>f. flow_of f \<notin> S) fs)"
  "allocated (defer_undecided fs S) = 0"
  "d \<in> set (defer_undecided fs S) \<Longrightarrow> fd_reason d = ''insufficient capacity'' \<and>
     (\<exists>f \<in> set fs. fd_flow_id d = fs_flow_id (fst (candidate_of f)) \<and> fd_action d = ''defer'' \<and> fd_allocated_bytes d = 0)"
  by (induction fs S rule: defer_undecided.induct) (auto split: if_splits)

lemma schedule_flowsD:
  assumes "schedule_flows sr cs l = Inr ds"
  obtains scored dropped admitted where "score_flows sr l cs = Inr (scored, dropped)"
    "share_capacity sr (nl_capacity_bytes l) scored = Inr admitted"
    "ds = sort_key fd_flow_id (dropped @ admitted @ defer_undecided scored (set (map fd_flow_id (dropped @ admitted))))"
    "0 \<le> nl_capacity_bytes l"
proof -
  have pos: "0 \<le> nl_capacity_bytes l" and ok: "check_link l = Inr ()"
    using assms by (simp_all add: schedule_flows_def check_link_def split: sum.splits if_splits)
  obtain scored dropped where 1: "score_flows sr l cs = Inr (scored, dropped)"
    using assms by (auto simp: schedule_flows_def split: sum.splits)
  obtain admitted where 2: "share_capacity sr (nl_capacity_bytes l) scored = Inr admitted"
    using assms 1 by (auto simp: schedule_flows_def split: sum.splits)
  show thesis
  proof (rule that [OF 1 2 _ pos])
    show "ds = sort_key fd_flow_id (dropped @ admitted @
        defer_undecided scored (set (map fd_flow_id (dropped @ admitted))))"
      using assms by (simp only: schedule_flows_def Let_def ok 1 2 sum.case prod.case sum.inject append_assoc)
  qed
qed

lemma map_sort_key: "map k (sort_key k xs) = sort (map k xs)"
  by (rule properties_for_sort [symmetric]) simp_all

lemma mset_filter_both:
  assumes "distinct (map f xs)" "S \<subseteq> f ` set xs" "distinct ys" "set ys = S"
  shows "mset ys + mset (map f (filter (\<lambda>x. f x \<notin> S) xs)) = mset (map f xs)"
proof -
  have "mset ys = mset (map f (filter (\<lambda>x. f x \<in> S) xs))"
    using assms set_eq_iff_mset_eq_distinct [of ys "map f (filter (\<lambda>x. f x \<in> S) xs)"] by (auto simp: distinct_map_filter)
  then show ?thesis
    using multiset_partition [of "mset xs" "\<lambda>x. f x \<in> S"] by (simp flip: image_mset_union mset_filter)
qed

text \<open>C14: the scheduler returns exactly one decision for every candidate flow, sorted by flow id (for
  candidates with different ids): a sample past its lifespan is dropped and gets no bytes, and any
  other flow is sent with its effective size, sent degraded with its degraded size if its class
  allows that, or deferred with no bytes.\<close>

theorem flows_decided_once:
  assumes "schedule_flows sr cs l = Inr ds" "distinct (map (fs_flow_id \<circ> fst) cs)"
  shows "map fd_flow_id ds = sort (map (fs_flow_id \<circ> fst) cs) \<and> (\<forall>d \<in> set ds. \<exists>c \<in> set cs. decides sr c d)"
proof -
  obtain scored dropped admitted where sc: "score_flows sr l cs = Inr (scored, dropped)"
    and sh: "share_capacity sr (nl_capacity_bytes l) scored = Inr admitted"
    and ds: "ds = sort_key fd_flow_id (dropped @ admitted @ defer_undecided scored (set (map fd_flow_id (dropped @ admitted))))"
    by (rule schedule_flowsD [OF assms(1)])
  note split = score_flows_split [OF sc]
  have "mset (map flow_of scored @ map fd_flow_id dropped) = mset (map (fs_flow_id \<circ> fst) cs)" using split by simp
  then have dist: "distinct (map flow_of scored @ map fd_flow_id dropped)" using assms(2) by (metis mset_eq_imp_distinct_iff)
  then have dsc: "distinct (map flow_of scored)" by simp
  note ids = share_capacity_ids [OF sh dsc]
  let ?S = "set (map fd_flow_id admitted)"
  have apart: "filter (\<lambda>f. flow_of f \<notin> set (map fd_flow_id (dropped @ admitted))) scored = filter (\<lambda>f. flow_of f \<notin> ?S) scored"
    using dist by (intro filter_cong) auto
  have "mset (map fd_flow_id (dropped @ admitted @ defer_undecided scored (set (map fd_flow_id (dropped @ admitted))))) =
      mset (map fd_flow_id dropped) + mset (map flow_of scored)"
    using mset_filter_both [OF dsc, of ?S "map fd_flow_id admitted"] ids(1,2)
    by (simp add: defer_undecided_simps(1) apart [simplified] del: map_map)
  then have "mset (map fd_flow_id ds) = mset (map (fs_flow_id \<circ> fst) cs)"
    using split by (simp add: ds add.commute)
  moreover have "sorted (map fd_flow_id ds)" by (simp add: ds)
  moreover have "\<exists>c \<in> set cs. decides sr c d" if "d \<in> set ds" for d
  proof -
    from that consider "d \<in> set dropped" | "d \<in> set admitted"
      | "d \<in> set (defer_undecided scored (set (map fd_flow_id (dropped @ admitted))))" by (auto simp: ds)
    then show ?thesis
    proof cases
      case 2
      with ids(3) split show ?thesis by (metis decides_def)
    next
      case 3
      with defer_undecided_simps(3) [OF 3] split show ?thesis by (metis decides_def)
    qed (use split in blast)
  qed
  ultimately show ?thesis by (metis properties_for_sort)
qed


section \<open>The budget of the link\<close>

definition reserved_decisions :: "flow_decision list \<Rightarrow> flow_decision list" where
  "reserved_decisions ds = filter (\<lambda>d. fd_reason d = ''critical reservation'') ds"

lemma allocated_mset: "mset ds = mset es \<Longrightarrow> allocated ds = allocated es"
  by (simp add: allocated_def flip: sum_mset_sum_list)

lemma reserved_none: "\<forall>d \<in> set ds. fd_reason d \<noteq> ''critical reservation'' \<Longrightarrow> reserved_decisions ds = []"
  by (simp add: reserved_decisions_def)

lemma reserved_append: "reserved_decisions (ds @ es) = reserved_decisions ds @ reserved_decisions es"
  by (simp add: reserved_decisions_def)

lemma share_capacity_budget:
  assumes "share_capacity sr capacity fs = Inr ds" "0 \<le> capacity"
  obtains budget where "int_times capacity (sr_critical_fraction sr) = Inr budget"
    "allocated ds \<le> capacity + max 0 (min budget capacity - allocated (reserved_decisions ds))"
proof -
  obtain cs os budget limit ds1 ds2 ds3 left1 left2 left3 shared where
    b: "int_times capacity (sr_critical_fraction sr) = Inr budget"
    and 1: "pass_ok sr True ''critical reservation'' cs (min budget capacity) (ds1, left1)"
    and sh: "shared = capacity - allocated ds1 + max 0 left1"
    and 2: "pass_ok sr False ''semantic utility per byte'' (focused_qoe os) (min shared limit) (ds2, left2)"
    and 3: "pass_ok sr False ''semantic utility per byte'' (not_selected ds2 os @ not_selected ds1 cs)
       (shared - (min shared limit - left2)) (ds3, left3)"
    and ds: "ds = ds1 @ ds2 @ ds3"
    using share_capacity_passes [OF assms(1)] by metis
  have r1: "reserved_decisions ds1 = ds1" using pass_okD(6) [OF 1] by (simp add: reserved_decisions_def)
  have r2: "reserved_decisions ds2 = []" using pass_okD(6) [OF 2] by (fastforce intro: reserved_none)
  have r3: "reserved_decisions ds3 = []" using pass_okD(6) [OF 3] by (fastforce intro: reserved_none)
  have "allocated ds \<le> capacity + max 0 (min budget capacity - allocated ds1)"
  proof -
    have "allocated ds1 \<le> capacity" using pass_okD(4) [OF 1] assms(2) by linarith
    then have "0 \<le> shared" using sh by simp
    moreover have "allocated ds2 \<le> max 0 (min shared limit)" by (rule pass_okD(4) [OF 2])
    ultimately have "allocated ds2 \<le> shared" by simp
    moreover have "allocated ds3 \<le> max 0 (shared - allocated ds2)"
      using pass_okD(4) [OF 3] pass_okD(5) [OF 2] by simp
    ultimately have "allocated ds2 + allocated ds3 \<le> shared" by simp
    then show ?thesis using pass_okD(5) [OF 1] by (simp add: ds sh)
  qed
  with that [OF b] show thesis by (simp add: ds reserved_append r1 r2 r3)
qed

text \<open>C15: the bytes of a tick's decisions exceed the capacity of the link by at most what the
  critical reservation leaves unused, so they stay within the capacity when the reservation is used up.\<close>

theorem link_budget:
  assumes "schedule_flows sr cs l = Inr ds" "int_times (nl_capacity_bytes l) (sr_critical_fraction sr) = Inr budget"
  shows "allocated ds \<le> nl_capacity_bytes l + max 0 (min budget (nl_capacity_bytes l) - allocated (reserved_decisions ds))"
proof -
  obtain scored dropped admitted where sc: "score_flows sr l cs = Inr (scored, dropped)"
    and sh: "share_capacity sr (nl_capacity_bytes l) scored = Inr admitted"
    and ds: "ds = sort_key fd_flow_id (dropped @ admitted @ defer_undecided scored (set (map fd_flow_id (dropped @ admitted))))"
    and pos: "0 \<le> nl_capacity_bytes l"
    by (rule schedule_flowsD [OF assms(1)])
  let ?rest = "defer_undecided scored (set (map fd_flow_id (dropped @ admitted)))"
  have m: "mset ds = mset (dropped @ admitted @ ?rest)" by (simp add: ds)
  have r: "reserved_decisions dropped = []" "reserved_decisions ?rest = []"
    using score_flows_split [OF sc] defer_undecided_simps(3) by (fastforce intro!: reserved_none)+
  have "allocated (reserved_decisions ds) = allocated (reserved_decisions (dropped @ admitted @ ?rest))"
    using m by (intro allocated_mset) (simp add: reserved_decisions_def)
  then have a: "allocated (reserved_decisions ds) = allocated (reserved_decisions admitted)" by (simp only: reserved_append r append_Nil append_Nil2)
  have "allocated ds = allocated admitted"
    using allocated_mset [OF m] score_flows_split [OF sc] by (simp add: defer_undecided_simps(2))
  with a share_capacity_budget [OF sh pos] assms(2) show ?thesis by auto
qed

definition sample_qos :: qos_profile where
  "sample_qos = \<lparr>qs_reliability = ''best_effort'', qs_durability = ''volatile'', qs_depth = 1, qs_deadline_ms = dbl 100,
     qs_lifespan_ms = dbl 1000, qs_liveliness_lease_ms = dbl 1000\<rparr>"

definition sample_flow :: "string \<Rightarrow> flow_class \<Rightarrow> int \<Rightarrow> flow_spec" where
  "sample_flow i c n = \<lparr>fs_flow_id = i, fs_robot_id = ''r1'', fs_topic = ''/t'', fs_flow_class = c, fs_qos = sample_qos,
     fs_qoe = \<lparr>qe_operator_visible = False, qe_smoothness_weight = 0, qe_freeze_penalty = 0, qe_visual_confidence_weight = 0\<rparr>,
     fs_nominal_size_bytes = n, fs_nominal_rate_hz = dbl 10, fs_causal_task_gain = 0, fs_redundancy = 0,
     fs_semantic_delta_ratio = dbl 1, fs_tags = []\<rparr>"

definition sample_observation :: "int \<Rightarrow> flow_observation" where
  "sample_observation age = \<lparr>fo_age_ms = dbl (of_int age), fo_queue_depth = 1, fo_measured_loss = 0, fo_measured_rtt_ms = 0,
     fo_observed_jitter_ms = 0, fo_task = \<lparr>tk_task_id = ''t'', tk_robot_id = ''r1'', tk_task_criticality = 0,
       tk_collision_risk = 0, tk_operator_attention = 0, tk_coordination_pressure = 0\<rparr>\<rparr>"

definition sample_link :: network_link where
  "sample_link = \<lparr>nl_capacity_bytes = 1000, nl_capacity_packets = None, nl_capacity_airtime_ns = None, nl_loss = 0,
     nl_jitter_ms = 0, nl_rtt_ms = 0\<rparr>"

definition sample_candidates :: "(flow_spec \<times> flow_observation) list" where
  "sample_candidates =
     [(sample_flow ''video'' HUMAN_QOE 4000, sample_observation 10), (sample_flow ''stop'' SAFETY 300, sample_observation 10),
      (sample_flow ''map'' BULK 900, sample_observation 10), (sample_flow ''cmd'' CONTROL 200, sample_observation 20),
      (sample_flow ''pose'' STATE 100, sample_observation 2000)]"

definition decision_table :: "flow_decision list outcome \<Rightarrow> (string \<times> string \<times> int) list outcome" where
  "decision_table r = map_sum id (map (\<lambda>d. (fd_flow_id d, fd_action d, fd_allocated_bytes d))) r"

lemma sample_decisions:
  "decision_table (schedule_flows default_scheduler sample_candidates sample_link) =
   Inr [(''cmd'', ''send'', 200), (''map'', ''send_degraded'', 162), (''pose'', ''drop'', 0), (''stop'', ''send'', 300),
        (''video'', ''defer'', 0)]"
  by code_simp

lemma sample_budget: "int_times (nl_capacity_bytes sample_link) (sr_critical_fraction default_scheduler) = Inr 550"
  by code_simp

lemma decision_tableD: "decision_table r = Inr t \<Longrightarrow> \<exists>ds. r = Inr ds"
  by (cases r) (simp_all add: decision_table_def)

theorem flows_decided_once_witness:
  "\<exists>ds. schedule_flows default_scheduler sample_candidates sample_link = Inr ds \<and>
     map fd_flow_id ds = sort (map (fs_flow_id \<circ> fst) sample_candidates) \<and>
     (\<forall>d \<in> set ds. \<exists>c \<in> set sample_candidates. decides default_scheduler c d)"
proof -
  obtain ds where ds: "schedule_flows default_scheduler sample_candidates sample_link = Inr ds"
    using decision_tableD [OF sample_decisions] by blast
  have "distinct (map (fs_flow_id \<circ> fst) sample_candidates)" by (simp add: sample_candidates_def sample_flow_def)
  with flows_decided_once [OF ds] ds show ?thesis by blast
qed

theorem link_budget_witness:
  "\<exists>ds. schedule_flows default_scheduler sample_candidates sample_link = Inr ds \<and>
     allocated ds \<le> nl_capacity_bytes sample_link +
       max 0 (min 550 (nl_capacity_bytes sample_link) - allocated (reserved_decisions ds))"
proof -
  obtain ds where ds: "schedule_flows default_scheduler sample_candidates sample_link = Inr ds"
    using decision_tableD [OF sample_decisions] by blast
  with link_budget [OF ds sample_budget] show ?thesis by blast
qed


end
