(* ===== verification/OptimizerSafety.thy ===== *)
theory OptimizerSafety
  imports FleetOptimizer FlowSafety Doubles
begin

text \<open>
  What the fleet optimizer guarantees: one decision for every flow, the capacity and the redundancy
  budget of the tick, and copies of a flow on paths of different failure domains.
\<close>

section \<open>Paths\<close>

lemma set_rank_paths [simp]: "set (rank_paths c f ps) = set ps"
  by (metis mset_sorted_desc rank_paths_def set_mset_mset)

lemma first_of_domains_distinct:
  "distinct (map failure_domain (first_of_domains D ps)) \<and> failure_domain ` set (first_of_domains D ps) \<inter> D = {} \<and>
   set (first_of_domains D ps) \<subseteq> set ps"
  by (induction D ps rule: first_of_domains.induct) auto

lemma diverse_paths_distinct:
  assumes "oc_require_diversity c"
  shows "distinct (map failure_domain (diverse_paths c ranked)) \<and> set (diverse_paths c ranked) \<subseteq> set ranked"
proof (cases ranked)
  case (Cons p ps)
  with assms first_of_domains_distinct [of "{failure_domain p}" ps] show ?thesis
    by (auto simp: diverse_paths_def)
qed (simp add: diverse_paths_def)

section \<open>One flow\<close>

text \<open>The bytes of the extra copies of a decision.\<close>

definition extra_bytes :: "path_decision \<Rightarrow> int" where
  "extra_bytes d =
     (if pd_mode d = REDUNDANT \<and> pd_selected_paths d \<noteq> []
      then pd_allocated_bytes d - pd_allocated_bytes d div py_len (pd_selected_paths d) else 0)"

definition within_budget :: "int option \<Rightarrow> int \<Rightarrow> bool" where
  "within_budget budget n \<longleftrightarrow> (case budget of None \<Rightarrow> True | Some b \<Rightarrow> n \<le> b)"

lemma within_redundancy_cases:
  assumes "within_redundancy c budget f ranked best = (mode, paths, extra, reason)" "0 < fl_payload_bytes f"
  shows "(mode = REDUNDANT \<and> choose_mode c f ranked best = (REDUNDANT, paths, reason) \<and>
       extra = fl_payload_bytes f * max 0 (py_len paths - 1) \<and> within_budget budget extra) \<or>
     (mode = UNICAST \<and> paths = [pt_path_id (hd ranked)] \<and> extra = 0)"
  using assms
  by (auto simp: within_redundancy_def choose_mode_def within_budget_def Let_def split: if_splits option.splits)

text \<open>What the decision of one flow keeps.\<close>

definition keeps_limits :: "int \<Rightarrow> int option \<Rightarrow> path_decision \<times> int \<times> int option \<Rightarrow> bool" where
  "keeps_limits remaining budget r \<longleftrightarrow>
     (case r of (d, remaining', budget') \<Rightarrow>
        0 \<le> pd_allocated_bytes d \<and> 0 \<le> remaining' \<and> remaining' + pd_allocated_bytes d = remaining \<and> 0 \<le> extra_bytes d \<and>
        (case budget of None \<Rightarrow> budget' = None
         | Some b \<Rightarrow> \<exists>b'. budget' = Some b' \<and> 0 \<le> b' \<and> b' + extra_bytes d = b))"

lemma degraded_fits:
  assumes "py_float_of_int n = Inr s" "1 \<le> n" "is_double x" "0 < x" "s * x \<le> Fin (of_int m)" "py_int_of_float (s * x) = Inr k"
  shows "max 1 k \<le> m"
proof -
  obtain a where a: "s = Fin a" "dbl (of_int n) = Fin a"
    using assms(1) by (cases "dbl (of_int n)") (auto simp: py_float_of_int_def)
  have "1 \<le> a" using dbl_mono [of 1 "of_int n"] assms(2) a(2) by simp
  obtain b where b: "x = Fin b" "0 < b" "dbl b = Fin b"
    using assms(3,4,5) a \<open>1 \<le> a\<close> by (cases x) (auto simp: zero_pyfloat_def)
  have "b \<le> a * b" using \<open>1 \<le> a\<close> b(2) by simp
  then have "Fin b \<le> s * x" using dbl_above [OF b(3)] by (simp add: a(1) b(1))
  moreover obtain z where z: "s * x = Fin z" using assms(6) by (cases "s * x") auto
  ultimately have "0 < z" "z \<le> of_int m" "k = \<lfloor>z\<rfloor>" using b(2) assms(5,6) by auto
  then show ?thesis by (auto simp: floor_le_iff)
qed

lemma sent_limits:
  assumes w: "within_redundancy c budget f ranked best = (mode, paths, extra, reason)" and "0 < fl_payload_bytes f"
    and "case budget of None \<Rightarrow> True | Some b \<Rightarrow> 0 \<le> b" and fits: "fl_payload_bytes f * max 1 (py_len paths) \<le> remaining"
  shows "keeps_limits remaining budget
    (path_decision_of f ''send'' mode paths (fl_payload_bytes f * max 1 (py_len paths)) u b d reason,
     remaining - fl_payload_bytes f * max 1 (py_len paths),
     if mode = REDUNDANT then map_option (\<lambda>b. b - extra) budget else budget)"
  using within_redundancy_cases [OF w assms(2)]
proof (elim disjE conjE)
  assume r: "mode = REDUNDANT" "extra = fl_payload_bytes f * max 0 (py_len paths - 1)" "within_budget budget extra"
  let ?n = "fl_payload_bytes f * max 1 (py_len paths)"
  have "extra_bytes (path_decision_of f ''send'' mode paths ?n u b d reason) = extra"
  proof (cases "paths = []")
    case False
    then have "1 \<le> py_len paths" by (cases paths) simp_all
    then have "?n div py_len paths = fl_payload_bytes f" "extra = ?n - fl_payload_bytes f"
      by (simp_all add: r(2) algebra_simps)
    with False r(1) show ?thesis by (simp add: extra_bytes_def path_decision_of_def)
  qed (simp add: r(2) extra_bytes_def path_decision_of_def)
  moreover have "0 \<le> extra" using assms(2) by (simp add: r(2))
  moreover have "0 \<le> ?n" using assms(2) by simp
  ultimately show ?thesis using r fits
    by (auto simp: keeps_limits_def within_budget_def path_decision_of_def split: option.splits)
qed (use assms in \<open>auto simp: keeps_limits_def extra_bytes_def path_decision_of_def split: option.splits\<close>)

lemma single_limits:
  assumes "0 \<le> n" "n \<le> remaining" "mode \<noteq> REDUNDANT" "case budget of None \<Rightarrow> True | Some b \<Rightarrow> 0 \<le> b"
  shows "keeps_limits remaining budget (path_decision_of f action mode paths n u b d reason, remaining - n, budget)"
  using assms by (auto simp: keeps_limits_def extra_bytes_def path_decision_of_def split: option.splits)

lemma decide_flow_limits:
  assumes "decide_flow c (u, f, ranked, best, debt) remaining budget = Inr r" "0 < fl_payload_bytes f" "0 \<le> remaining"
    and "case budget of None \<Rightarrow> True | Some b \<Rightarrow> 0 \<le> b" "0 < oc_degrade_floor c" "is_double (oc_degrade_floor c)"
  shows "keeps_limits remaining budget r \<and> pd_flow_id (fst r) = fl_flow_id f"
proof -
  obtain mode paths extra reason where w: "within_redundancy c budget f ranked best = (mode, paths, extra, reason)"
    by (metis prod_cases4)
  have idle: "keeps_limits remaining budget (path_decision_of f action DROP [] 0 v b d reason, remaining, budget)"
    for action v b d reason using single_limits [of 0 remaining DROP budget f action "[]" v b d reason] assms(3,4) by simp
  have id: "pd_flow_id (fst r) = fl_flow_id f"
    using assms(1) by (auto simp: decide_flow_def w Let_def path_decision_of_def split: if_splits sum.splits)
  consider "r = (path_decision_of f ''drop'' DROP [] 0 (optimizer_utility c f debt) best debt ''below admission floor'', remaining, budget)"
    | "fl_payload_bytes f * max 1 (py_len paths) \<le> remaining"
      "r = (path_decision_of f ''send'' mode paths (fl_payload_bytes f * max 1 (py_len paths)) (optimizer_utility c f debt) best debt reason,
        remaining - fl_payload_bytes f * max 1 (py_len paths), if mode = REDUNDANT then map_option (\<lambda>b. b - extra) budget else budget)"
    | "fl_payload_bytes f \<le> remaining"
      "r = (path_decision_of f ''send'' UNICAST [pt_path_id (hd ranked)] (fl_payload_bytes f) (optimizer_utility c f debt) best debt
        ''capacity pressure: redundancy downgraded to unicast'', remaining - fl_payload_bytes f, budget)"
    | "r = (path_decision_of f ''defer'' DROP [] 0 (optimizer_utility c f debt) best debt ''insufficient fleet capacity'', remaining, budget)"
    | payload n where "py_float_of_int (fl_payload_bytes f) = Inr payload" "payload * oc_degrade_floor c \<le> Fin (of_int remaining)"
      "py_int_of_float (payload * oc_degrade_floor c) = Inr n"
      "r = (path_decision_of f ''send_degraded'' DEGRADED [pt_path_id (hd ranked)] (max 1 n) (optimizer_utility c f debt) best debt
        ''capacity pressure: semantic degradation'', remaining - max 1 n, budget)"
    using assms(1) by (auto simp: decide_flow_def w Let_def split: if_splits sum.splits)
  then have "keeps_limits remaining budget r"
  proof cases
    case 1
    show ?thesis unfolding 1 by (rule idle)
  next
    case 4
    show ?thesis unfolding 4 by (rule idle)
  next
    case 2
    then show ?thesis using sent_limits [OF w assms(2,4)] by simp
  next
    case 3
    then show ?thesis using assms(2,4) by (simp add: single_limits)
  next
    case (5 payload n)
    have "max 1 n \<le> remaining"
      using degraded_fits [OF 5(1) _ assms(6,5) 5(2,3)] assms(2) by simp
    then show ?thesis using assms(4) by (simp add: 5(4) single_limits)
  qed
  with id show ?thesis by blast
qed


section \<open>A tick\<close>

definition redundant_bytes :: "path_decision list \<Rightarrow> int" where
  "redundant_bytes ds = sum_list (map extra_bytes ds)"

definition path_bytes :: "path_decision list \<Rightarrow> int" where
  "path_bytes ds = sum_list (map pd_allocated_bytes ds)"

lemma decide_flows_limits:
  assumes "decide_flows c xs remaining budget = Inr ds" "\<forall>(_, f, _, _, _) \<in> set xs. 0 < fl_payload_bytes f" "0 \<le> remaining"
    and "case budget of None \<Rightarrow> True | Some b \<Rightarrow> 0 \<le> b" "0 < oc_degrade_floor c" "is_double (oc_degrade_floor c)"
  shows "map pd_flow_id ds = map (fl_flow_id \<circ> fst \<circ> snd) xs \<and> path_bytes ds \<le> remaining \<and>
    within_budget budget (redundant_bytes ds)"
  using assms(1-4)
proof (induction xs arbitrary: remaining budget ds)
  case (Cons x xs)
  obtain u f ranked best debt where x: "x = (u, f, ranked, best, debt)" by (metis prod_cases5)
  from Cons.prems(1) obtain d remaining' budget' ds' where
    d: "decide_flow c x remaining budget = Inr (d, remaining', budget')"
    and rest: "decide_flows c xs remaining' budget' = Inr ds'" "ds = d # ds'" by (auto split: sum.splits)
  have l: "keeps_limits remaining budget (d, remaining', budget')" "pd_flow_id d = fl_flow_id f"
    using decide_flow_limits [OF d [unfolded x] _ Cons.prems(3,4) assms(5,6)] Cons.prems(2) by (auto simp: x)
  then have "0 \<le> remaining'" "case budget' of None \<Rightarrow> True | Some b \<Rightarrow> 0 \<le> b"
    by (auto simp: keeps_limits_def split: option.splits)
  with Cons.IH [OF rest(1)] Cons.prems(2) l show ?case
    by (auto simp: rest(2) x keeps_limits_def path_bytes_def redundant_bytes_def within_budget_def split: option.splits)
qed (auto simp: path_bytes_def redundant_bytes_def within_budget_def split: option.splits)

lemma score_demands_split:
  "score_demands c ps states fs = Inr (scored, dropped) \<Longrightarrow>
     mset (map (fl_flow_id \<circ> fst \<circ> snd) scored) + mset (map pd_flow_id dropped) = mset (map fl_flow_id fs) \<and>
     (\<forall>(_, f, ranked, _, _) \<in> set scored. 0 < fl_payload_bytes f \<and> ranked = rank_paths c f ps) \<and>
     (\<forall>d \<in> set dropped. pd_mode d = DROP) \<and> path_bytes dropped = 0 \<and> redundant_bytes dropped = 0"
proof (induction fs arbitrary: scored dropped)
  case (Cons f fs)
  have ok: "check_demand f = Inr ()" "0 < fl_payload_bytes f"
    using Cons.prems by (auto simp: check_demand_def split: sum.splits if_splits)
  let ?debt = "robot_fairness_debt (map_of (map (\<lambda>s. (rq_robot_id s, s)) (rev states)) (fl_robot_id f))"
  show ?case
  proof (cases "fl_lifespan_ms f < fl_age_ms f")
    case True
    with Cons.prems ok obtain dropped' where 1: "score_demands c ps states fs = Inr (scored, dropped')"
        "dropped = path_decision_of f ''drop'' DROP [] 0 0 PInf ?debt ''stale beyond lifespan'' # dropped'"
      by (auto simp: Let_def)
    with Cons.IH [OF 1(1)] show ?thesis by (simp add: path_decision_of_def path_bytes_def redundant_bytes_def extra_bytes_def)
  next
    case False
    with Cons.prems ok obtain u best scored' where 1: "score_demands c ps states fs = Inr (scored', dropped)"
        "scored = (u, f, rank_paths c f ps, best, ?debt) # scored'"
      by (auto simp: Let_def split: sum.splits)
    with Cons.IH [OF 1(1)] ok show ?thesis by simp
  qed
qed (simp add: path_bytes_def redundant_bytes_def)

lemma tick_mset: "mset ds = mset es \<Longrightarrow> path_bytes ds = path_bytes es \<and> redundant_bytes ds = redundant_bytes es"
  by (simp add: path_bytes_def redundant_bytes_def flip: sum_mset_sum_list)

lemma decide_pathsE:
  assumes "decide_paths c fs ps states = Inr ds"
  obtains scored dropped decided where "score_demands c ps states fs = Inr (scored, dropped)"
    "decide_flows c (sorted_desc (lower_demand c) scored) (oc_capacity_bytes c) (oc_redundancy_budget c) = Inr decided"
    "ds = sort_key pd_flow_id (dropped @ decided)" "0 \<le> oc_capacity_bytes c"
    "case oc_redundancy_budget c of None \<Rightarrow> True | Some b \<Rightarrow> 0 \<le> b"
  using assms by (auto simp: decide_paths_def not_less split: sum.splits if_splits option.splits)

text \<open>C16: the decisions of a tick: exactly one for every flow, sorted by id; their bytes fit the capacity of the
  tick, and the bytes of the extra copies of redundant flows fit the redundancy budget.\<close>

theorem tick_within_capacity:
  assumes "decide_paths c fs ps states = Inr ds" "0 < oc_degrade_floor c" "is_double (oc_degrade_floor c)"
  shows "map pd_flow_id ds = sort (map fl_flow_id fs) \<and> path_bytes ds \<le> oc_capacity_bytes c \<and>
    within_budget (oc_redundancy_budget c) (redundant_bytes ds)"
proof -
  obtain scored dropped decided where sc: "score_demands c ps states fs = Inr (scored, dropped)"
    and de: "decide_flows c (sorted_desc (lower_demand c) scored) (oc_capacity_bytes c) (oc_redundancy_budget c) = Inr decided"
    and ds: "ds = sort_key pd_flow_id (dropped @ decided)" and ok: "0 \<le> oc_capacity_bytes c"
      "case oc_redundancy_budget c of None \<Rightarrow> True | Some b \<Rightarrow> 0 \<le> b"
    by (rule decide_pathsE [OF assms(1)])
  note split = score_demands_split [OF sc]
  have perm: "mset (sorted_desc (lower_demand c) scored) = mset scored" by simp
  have "\<forall>(_, f, _, _, _) \<in> set (sorted_desc (lower_demand c) scored). 0 < fl_payload_bytes f"
    using split mset_eq_setD [OF perm] by auto
  note l = decide_flows_limits [OF de this ok assms(2,3)]
  have bytes: "path_bytes ds = path_bytes (dropped @ decided)" "redundant_bytes ds = redundant_bytes (dropped @ decided)"
    using tick_mset [of ds "dropped @ decided"] by (simp_all add: ds)
  have "mset (map pd_flow_id decided) = mset (map (fl_flow_id \<circ> fst \<circ> snd) scored)"
    using l perm by (metis mset_map)
  then have "mset (map pd_flow_id ds) = mset (map fl_flow_id fs)" using split by (simp add: ds add.commute)
  moreover have "sorted (map pd_flow_id ds)" by (simp add: ds)
  ultimately have "map pd_flow_id ds = sort (map fl_flow_id fs)" by (metis properties_for_sort)
  with l split show ?thesis unfolding bytes by (simp add: path_bytes_def redundant_bytes_def)
qed


lemma redundant_decision:
  assumes "decide_flow c (u, f, ranked, best, debt) remaining budget = Inr (d, r)" "pd_mode d = REDUNDANT"
  shows "pd_selected_paths d = map pt_path_id (py_slice (diverse_paths c ranked) 0 (oc_max_redundant_paths c)) \<and>
    pd_flow_id d = fl_flow_id f"
proof -
  obtain mode paths extra reason where w: "within_redundancy c budget f ranked best = (mode, paths, extra, reason)"
    by (metis prod_cases4)
  have d: "mode = REDUNDANT" "pd_selected_paths d = paths" "pd_flow_id d = fl_flow_id f"
    using assms by (auto simp: decide_flow_def w Let_def path_decision_of_def split: if_splits sum.splits)
  then have "choose_mode c f ranked best = (REDUNDANT, paths, reason)"
    using w by (auto simp: within_redundancy_def Let_def split: if_splits prod.splits)
  with d show ?thesis by (auto simp: choose_mode_def Let_def split: if_splits)
qed

lemma redundant_decisions:
  assumes "decide_flows c xs remaining budget = Inr ds" "d \<in> set ds" "pd_mode d = REDUNDANT"
  shows "\<exists>(_, f, ranked, _, _) \<in> set xs. pd_flow_id d = fl_flow_id f \<and>
    pd_selected_paths d = map pt_path_id (py_slice (diverse_paths c ranked) 0 (oc_max_redundant_paths c))"
  using assms(1,2)
proof (induction xs arbitrary: remaining budget ds)
  case (Cons x xs)
  obtain u f ranked best debt where x: "x = (u, f, ranked, best, debt)" by (metis prod_cases5)
  from Cons.prems(1) obtain d' remaining' budget' ds' where
    d': "decide_flow c x remaining budget = Inr (d', remaining', budget')"
    and rest: "decide_flows c xs remaining' budget' = Inr ds'" "ds = d' # ds'" by (auto split: sum.splits)
  show ?case
  proof (cases "d = d'")
    case True
    with redundant_decision [OF d' [unfolded x]] assms(3) show ?thesis by (auto simp: x)
  next
    case False
    with Cons.IH [OF rest(1)] Cons.prems(2) show ?thesis by (auto simp: rest(2))
  qed
qed simp

lemma py_slice_sub: "set (py_slice xs 0 n) \<subseteq> set xs" "distinct (map g xs) \<Longrightarrow> distinct (map g (py_slice xs 0 n))"
  "0 \<le> n \<Longrightarrow> py_len (py_slice xs 0 n) \<le> n"
  by (auto simp: py_slice_def py_bound_def py_len_def drop_map [symmetric] take_map [symmetric] dest: in_set_dropD in_set_takeD)

text \<open>C33: the copies of a redundant flow go over paths of the telemetry that are in different failure domains, and
  there are at most as many as configured.\<close>

theorem copies_in_different_domains:
  assumes "decide_paths c fs ps states = Inr ds" "oc_require_diversity c" "d \<in> set ds" "pd_mode d = REDUNDANT"
  shows "\<exists>qs. pd_selected_paths d = map pt_path_id qs \<and> set qs \<subseteq> set ps \<and> distinct (map failure_domain qs) \<and>
    (0 \<le> oc_max_redundant_paths c \<longrightarrow> py_len qs \<le> oc_max_redundant_paths c)"
proof -
  obtain scored dropped decided where sc: "score_demands c ps states fs = Inr (scored, dropped)"
    and de: "decide_flows c (sorted_desc (lower_demand c) scored) (oc_capacity_bytes c) (oc_redundancy_budget c) = Inr decided"
    and ds: "ds = sort_key pd_flow_id (dropped @ decided)"
    by (rule decide_pathsE [OF assms(1)])
  note split = score_demands_split [OF sc]
  have "d \<in> set decided" using assms(3,4) split by (auto simp: ds)
  from redundant_decisions [OF de this assms(4)] obtain u f ranked best debt
    where x: "(u, f, ranked, best, debt) \<in> set (sorted_desc (lower_demand c) scored)"
      "pd_selected_paths d = map pt_path_id (py_slice (diverse_paths c ranked) 0 (oc_max_redundant_paths c))" by auto
  have "set (sorted_desc (lower_demand c) scored) = set scored" by (metis mset_sorted_desc set_mset_mset)
  with x(1) split have "ranked = rank_paths c f ps" by auto
  note diverse = diverse_paths_distinct [OF assms(2), of ranked]
  let ?qs = "py_slice (diverse_paths c ranked) 0 (oc_max_redundant_paths c)"
  have "set ?qs \<subseteq> set ps" using py_slice_sub(1) diverse \<open>ranked = rank_paths c f ps\<close> by fastforce
  with x(2) diverse show ?thesis by (intro exI [of _ ?qs]) (simp add: py_slice_sub)
qed

section \<open>A tick with a redundant flow\<close>

definition demo_path :: "string \<Rightarrow> string \<Rightarrow> rat \<Rightarrow> path_telemetry" where
  "demo_path i domain loss =
     \<lparr>pt_path_id = i, pt_latency_ms = dbl 20, pt_jitter_ms = dbl 10, pt_loss = dbl loss, pt_nack_rate = dbl (1/2),
      pt_deadline_miss_ratio = dbl (1/4), pt_bandwidth_utilization = dbl (1/2), pt_failure_domain = domain\<rparr>"

definition demo_paths :: "path_telemetry list" where
  "demo_paths = [demo_path ''wifi2'' ''ap'' (1/4), demo_path ''wifi1'' ''ap'' (1/8), demo_path ''lte'' ''cell'' (1/2)]"

definition demo_demand :: "string \<Rightarrow> flow_class \<Rightarrow> int \<Rightarrow> int \<Rightarrow> fleet_flow_demand" where
  "demo_demand i k n age =
     \<lparr>fl_flow_id = i, fl_robot_id = ''r1'', fl_flow_class = k, fl_deadline_ms = dbl 40, fl_payload_bytes = n,
      fl_rate_hz = dbl 10, fl_criticality = dbl (1/2), fl_qoe_weight = 0, fl_age_ms = dbl (of_int age),
      fl_lifespan_ms = dbl 250\<rparr>"

definition demo_weights :: optimizer_weights where
  "demo_weights =
     \<lparr>ow_loss = dbl 4, ow_latency = 0, ow_jitter = 0, ow_nack = dbl 4, ow_deadline_miss = 0, ow_utilization = 0,
      ow_class_value = dbl 3, ow_criticality = 0, ow_qoe = 0, ow_fairness_debt = 0, ow_age_pressure = 0\<rparr>"

definition demo_config :: optimizer_config where
  "demo_config =
     default_optimizer_config\<lparr>oc_capacity_bytes := 1000, oc_redundancy_budget := Some 400, oc_weights := demo_weights\<rparr>"

definition demo_demands :: "fleet_flow_demand list" where
  "demo_demands = [demo_demand ''video'' PERCEPTION 900 0, demo_demand ''cmd'' CONTROL 300 10, demo_demand ''old'' STATE 50 300]"

definition tick_table :: "path_decision list outcome \<Rightarrow> (string \<times> string \<times> transport_mode \<times> string list \<times> int) list outcome" where
  "tick_table r = map_sum id (map (\<lambda>d. (pd_flow_id d, pd_action d, pd_mode d, pd_selected_paths d, pd_allocated_bytes d))) r"

lemma demo_tick:
  "tick_table (decide_paths demo_config demo_demands demo_paths []) =
   Inr [(''cmd'', ''send'', REDUNDANT, [''wifi1'', ''lte''], 600), (''old'', ''drop'', DROP, [], 0),
        (''video'', ''send_degraded'', DEGRADED, [''wifi1''], 315)]"
  by code_simp


lemma demo_decided:
  obtains ds where "decide_paths demo_config demo_demands demo_paths [] = Inr ds"
    "map (\<lambda>d. (pd_flow_id d, pd_mode d)) ds = [(''cmd'', REDUNDANT), (''old'', DROP), (''video'', DEGRADED)]"
  using demo_tick that
  by (cases "decide_paths demo_config demo_demands demo_paths []") (auto simp: tick_table_def)

theorem tick_within_capacity_witness:
  "\<exists>ds. decide_paths demo_config demo_demands demo_paths [] = Inr ds \<and>
     map pd_flow_id ds = sort (map fl_flow_id demo_demands) \<and> path_bytes ds \<le> 1000 \<and> redundant_bytes ds \<le> 400"
proof -
  have c: "0 < oc_degrade_floor demo_config" "is_double (oc_degrade_floor demo_config)"
    "oc_capacity_bytes demo_config = 1000" "oc_redundancy_budget demo_config = Some 400" by code_simp+
  obtain ds where ds: "decide_paths demo_config demo_demands demo_paths [] = Inr ds" by (rule demo_decided)
  from tick_within_capacity [OF ds c(1,2)] ds c(3,4) show ?thesis by (auto simp: within_budget_def)
qed

theorem copies_in_different_domains_witness:
  "\<exists>ds d qs. decide_paths demo_config demo_demands demo_paths [] = Inr ds \<and> d \<in> set ds \<and> pd_mode d = REDUNDANT \<and>
     pd_selected_paths d = map pt_path_id qs \<and> set qs \<subseteq> set demo_paths \<and> distinct (map failure_domain qs)"
proof -
  obtain ds where ds: "decide_paths demo_config demo_demands demo_paths [] = Inr ds"
    "map (\<lambda>d. (pd_flow_id d, pd_mode d)) ds = [(''cmd'', REDUNDANT), (''old'', DROP), (''video'', DEGRADED)]"
    by (rule demo_decided)
  then obtain d where d: "d \<in> set ds" "pd_mode d = REDUNDANT" by (cases ds) auto
  have "oc_require_diversity demo_config" by code_simp
  from copies_in_different_domains [OF ds(1) this d] ds(1) d show ?thesis by blast
qed

end
