(* ===== verification/PredictiveAdmission.thy ===== *)
theory PredictiveAdmission
  imports FlowScheduler
begin

text \<open>
  \<open>PredictiveAdmissionController\<close> and \<open>RiskConstrainedPredictiveAdmissionController\<close> of
  \<open>fleetqox/control_plane.py\<close>: admission with estimates of the link, budgets of bytes, packets and airtime, and a
  guard that drops flows whose deadline the link cannot meet. A call returns the controller with its new
  estimates and the decisions. The format \<open>.1f\<close> of a reason is a parameter.
\<close>

section \<open>Configuration and state\<close>

record predictive_config =
  pc_ewma_alpha :: pyfloat
  pc_safety_margin :: pyfloat
  pc_compaction_threshold :: pyfloat
  pc_drop_threshold :: pyfloat
  pc_qoe_floor_fraction :: pyfloat
  pc_compaction_ratio :: pyfloat
  pc_degradation_ratio :: pyfloat
  pc_stale_drop_ratio :: pyfloat
  pc_remaining_fraction :: pyfloat

definition default_predictive_config :: predictive_config where
  "default_predictive_config =
     \<lparr>pc_ewma_alpha = dbl (32/100), pc_safety_margin = dbl (88/100), pc_compaction_threshold = dbl (82/100),
      pc_drop_threshold = dbl (112/100), pc_qoe_floor_fraction = dbl (8/100), pc_compaction_ratio = dbl (55/100),
      pc_degradation_ratio = dbl (14/100), pc_stale_drop_ratio = dbl (82/100), pc_remaining_fraction = dbl (15/100)\<rparr>"

record risk_config = predictive_config +
  rk_deadline_tail_sigma :: pyfloat
  rk_loss_tail_rtt_fraction :: pyfloat
  rk_min_wire_slack_ms :: pyfloat
  rk_guarded_classes :: "flow_class list"

definition default_risk_config :: risk_config where
  "default_risk_config =
     predictive_config.extend default_predictive_config
       (risk_config.fields (dbl (165/100)) (dbl (25/100)) 0 [SAFETY, CONTROL])"

record 'x predictive_controller =
  pa_config :: "'x predictive_config_scheme"
  pa_scheduler :: flow_scheduler
  pa_capacity_ewma :: "pyfloat option"
  pa_loss_ewma :: pyfloat
  pa_rtt_ewma :: pyfloat
  pa_jitter_ewma :: pyfloat

definition new_predictive_controller ::
    "'x predictive_config_scheme \<Rightarrow> scheduler_weights \<Rightarrow> 'x predictive_controller outcome" where
  "new_predictive_controller c w =
     map_sum id (\<lambda>sr. \<lparr>pa_config = c, pa_scheduler = sr, pa_capacity_ewma = None, pa_loss_ewma = 0, pa_rtt_ewma = dbl 20,
         pa_jitter_ewma = 0\<rparr>)
       (new_flow_scheduler w (dbl (72/100)) (pc_qoe_floor_fraction c) (pc_degradation_ratio c))"

record flow_entry =
  en_priority :: pyfloat
  en_density :: pyfloat
  en_base_size :: int
  en_slack_ms :: pyfloat
  en_reliability :: string
  en_spec :: flow_spec
  en_obs :: flow_observation

section \<open>Estimates\<close>

definition update_link_estimate :: "network_link \<Rightarrow> 'x predictive_controller \<Rightarrow> 'x predictive_controller outcome" where
  "update_link_estimate l pa =
     (let a = pc_ewma_alpha (pa_config pa)
      in map_sum id (\<lambda>capacity.
           pa\<lparr>pa_capacity_ewma := Some (case pa_capacity_ewma pa of
                None \<Rightarrow> capacity | Some e \<Rightarrow> a * capacity + (dbl 1 - a) * e),
              pa_loss_ewma := a * nl_loss l + (dbl 1 - a) * pa_loss_ewma pa,
              pa_rtt_ewma := a * nl_rtt_ms l + (dbl 1 - a) * pa_rtt_ewma pa,
              pa_jitter_ewma := a * nl_jitter_ms l + (dbl 1 - a) * pa_jitter_ewma pa\<rparr>)
           (py_float_of_int (nl_capacity_bytes l)))"

text \<open>The estimate \<open>or\<close> the capacity: an estimate of zero counts as none.\<close>

definition link_pressure :: "'x predictive_controller \<Rightarrow> flow_entry list \<Rightarrow> network_link \<Rightarrow> pyfloat outcome" where
  "link_pressure pa es l =
     (case py_float_of_int (nl_capacity_bytes l) of Inl e \<Rightarrow> Inl e | Inr capacity \<Rightarrow>
      let estimate = (case pa_capacity_ewma pa of None \<Rightarrow> capacity | Some e \<Rightarrow> if feq e 0 then capacity else e);
          predicted = py_min capacity
            (estimate * pc_safety_margin (pa_config pa) * (dbl 1 - py_min (dbl (35/100)) (pa_loss_ewma pa)))
      in map_sum id (\<lambda>offered. fdiv offered (py_max (dbl 1) predicted))
           (py_float_of_int (sum_list (map en_base_size es))))"

definition estimate_airtime_ns :: "int \<Rightarrow> int" where
  "estimate_airtime_ns n = 160000 + (max 0 n * 8 * 1000000000) div 54000000"

definition flow_slack :: "flow_spec \<Rightarrow> flow_observation \<Rightarrow> pyfloat" where
  "flow_slack s ob = qs_deadline_ms (fs_qos s) - fo_age_ms ob"

definition adaptive_reliability ::
    "'x predictive_controller \<Rightarrow> flow_spec \<Rightarrow> flow_observation \<Rightarrow> network_link \<Rightarrow> string" where
  "adaptive_reliability pa s ob l =
     (let retry = py_max (nl_rtt_ms l) (pa_rtt_ewma pa) * dbl (135/100) < flow_slack s ob
      in if fs_flow_class s \<in> {SAFETY, CONTROL, COORDINATION}
         then (if retry \<and> dbl (3/100) \<le> nl_loss l then ''reliable'' else ''best_effort_fresh'')
         else if fs_flow_class s = STATE
         then (if retry \<and> nl_loss l < dbl (8/100) then ''reliable'' else ''best_effort_fresh'')
         else ''best_effort_fresh'')"

definition predictive_priority ::
    "'x predictive_controller \<Rightarrow> flow_spec \<Rightarrow> flow_observation \<Rightarrow> network_link \<Rightarrow> pyfloat outcome" where
  "predictive_priority pa s ob l =
     (let deadline = qs_deadline_ms (fs_qos s);
          urgency = py_max 0 (dbl 1 - fdiv (flow_slack s ob) deadline);
          penalty = pa_loss_ewma pa + fdiv (pa_jitter_ewma pa) (py_max (dbl 1) deadline);
          boost = (if critical_class (fs_flow_class s) then dbl (25/10) else 0)
      in map_sum id (\<lambda>base. base + dbl 5 * urgency + boost - penalty) (flow_priority (pa_scheduler pa) l s ob))"

section \<open>Decisions\<close>

definition preemptively_dropped :: "'x predictive_controller \<Rightarrow> flow_spec \<Rightarrow> flow_observation \<Rightarrow> bool" where
  "preemptively_dropped pa s ob \<longleftrightarrow>
     \<not> critical_class (fs_flow_class s) \<and>
     qs_lifespan_ms (fs_qos s) * pc_stale_drop_ratio (pa_config pa) \<le> fo_age_ms ob"

definition dropped_unadmitted :: "'x predictive_controller \<Rightarrow> flow_entry \<Rightarrow> pyfloat \<Rightarrow> bool" where
  "dropped_unadmitted pa en pressure \<longleftrightarrow>
     \<not> critical_class (fs_flow_class (en_spec en)) \<and>
     (pc_drop_threshold (pa_config pa) \<le> pressure \<or>
      qs_lifespan_ms (fs_qos (en_spec en)) * dbl (65/100) \<le> fo_age_ms (en_obs en))"

definition drop_decision :: "'x predictive_controller \<Rightarrow> flow_spec \<Rightarrow> string \<Rightarrow> flow_observation \<Rightarrow> flow_decision" where
  "drop_decision pa s reason ob =
     (plain_flow_decision (fs_flow_id s) ''drop'' (- sw_stale_penalty (sr_weights (pa_scheduler pa))) 0 reason False)
       \<lparr>fd_predicted_slack_ms := flow_slack s ob\<rparr>"

definition entry_decision :: "flow_entry \<Rightarrow> string \<Rightarrow> int \<Rightarrow> string \<Rightarrow> bool \<Rightarrow> string \<Rightarrow> flow_decision" where
  "entry_decision en action n reason degraded wire =
     \<lparr>fd_flow_id = fs_flow_id (en_spec en), fd_action = action, fd_priority = en_priority en, fd_allocated_bytes = n,
      fd_reason = reason, fd_degraded = degraded, fd_reliability = en_reliability en, fd_wire_mode = wire,
      fd_predicted_slack_ms = en_slack_ms en\<rparr>"

definition should_compact :: "'x predictive_controller \<Rightarrow> flow_entry \<Rightarrow> pyfloat \<Rightarrow> int \<Rightarrow> bool" where
  "should_compact pa en pressure remaining \<longleftrightarrow>
     critical_class (fs_flow_class (en_spec en)) \<and>
     (pc_compaction_threshold (pa_config pa) \<le> pressure \<or>
      remaining < en_base_size en \<and> en_slack_ms en \<le> qs_deadline_ms (fs_qos (en_spec en)))"

definition decision_for_entry ::
    "'x predictive_controller \<Rightarrow> flow_entry \<Rightarrow> pyfloat \<Rightarrow> int \<Rightarrow> flow_decision option outcome" where
  "decision_for_entry pa en pressure remaining =
     (if should_compact pa en pressure remaining
      then map_sum id (\<lambda>n. Some (entry_decision en ''send_compacted'' (max 1 n)
               ''predictive admission: semantic compaction'' False ''semantic_delta''))
             (int_times (en_base_size en) (pc_compaction_ratio (pa_config pa)))
      else if en_base_size en \<le> remaining
      then Inr (Some (entry_decision en ''send'' (en_base_size en) ''predictive admission'' False ''native''))
      else if degradable (en_spec en)
      then map_sum id (\<lambda>n. if max 1 n \<le> remaining
               then Some (entry_decision en ''send_degraded'' (max 1 n) ''predictive admission: QoE degradation'' True
                            ''degraded'')
               else None)
             (int_times (en_base_size en) (pc_degradation_ratio (pa_config pa)))
      else Inr None)"

text \<open>What is left of a tick: bytes, and packets and airtime where they are limited.\<close>

type_synonym tick_budget = "int \<times> int option \<times> int option"

fun exhausted :: "int option \<Rightarrow> bool" where
  "exhausted None = False"
| "exhausted (Some n) = (n \<le> 0)"

fun admit_entries ::
    "'x predictive_controller \<Rightarrow> pyfloat \<Rightarrow> flow_entry list \<Rightarrow> tick_budget \<Rightarrow>
     (flow_decision list \<times> tick_budget) outcome" where
  "admit_entries pa pressure [] budget = Inr ([], budget)"
| "admit_entries pa pressure (en # ens) (remaining, packets, airtime) =
     (if exhausted packets \<or> exhausted airtime then Inr ([], remaining, packets, airtime)
      else case decision_for_entry pa en pressure remaining of
        Inl e \<Rightarrow> Inl e
      | Inr None \<Rightarrow> admit_entries pa pressure ens (remaining, packets, airtime)
      | Inr (Some d) \<Rightarrow>
          let cost = estimate_airtime_ns (fd_allocated_bytes d)
          in if \<not> fd_allocated_bytes d \<le> remaining \<or> (case airtime of None \<Rightarrow> False | Some t \<Rightarrow> t < cost)
             then admit_entries pa pressure ens (remaining, packets, airtime)
             else map_sum id (\<lambda>(ds, budget). (d # ds, budget))
                    (admit_entries pa pressure ens
                       (remaining - fd_allocated_bytes d, map_option (\<lambda>n. n - 1) packets,
                        map_option (\<lambda>t. t - cost) airtime)))"

section \<open>Partitions\<close>

definition pair_less :: "pyfloat \<times> pyfloat \<Rightarrow> pyfloat \<times> pyfloat \<Rightarrow> bool" where
  "pair_less x y \<longleftrightarrow> (if feq (fst x) (fst y) then snd x < snd y else fst x < fst y)"

definition sorted_entries :: "(flow_entry \<Rightarrow> pyfloat \<times> pyfloat) \<Rightarrow> flow_entry list \<Rightarrow> flow_entry list" where
  "sorted_entries key es = sorted_desc (\<lambda>x y. pair_less (key y) (key x)) es"

definition entry_tier :: "flow_entry \<Rightarrow> nat" where
  "entry_tier en =
     (let k = fs_flow_class (en_spec en)
      in if k \<in> {SAFETY, CONTROL} then 0
         else if k \<in> {COORDINATION, STATE} then 1
         else if k = HUMAN_QOE \<and> 0 < tk_operator_attention (fo_task (en_obs en)) then 2
         else 3)"

definition tier :: "nat \<Rightarrow> flow_entry list \<Rightarrow> flow_entry list" where
  "tier i es = filter (\<lambda>en. entry_tier en = i) es"

definition ordered_partitions :: "flow_entry list \<Rightarrow> flow_entry list list" where
  "ordered_partitions es =
     [sorted_entries (\<lambda>en. (en_slack_ms en, - en_priority en)) (tier 0 es),
      sorted_entries (\<lambda>en. (en_slack_ms en, - en_priority en)) (tier 1 es),
      sorted_entries (\<lambda>en. (- en_priority en, en_slack_ms en)) (tier 2 es),
      sorted_desc (\<lambda>x y. pair_less (en_density x, en_priority x) (en_density y, en_priority y)) (tier 3 es)]"

text \<open>The partitions share the budget; the last one gets a fraction of the bytes that are left.\<close>

fun admit_partitions ::
    "'x predictive_controller \<Rightarrow> pyfloat \<Rightarrow> flow_entry list list \<Rightarrow> tick_budget \<Rightarrow> flow_decision list outcome" where
  "admit_partitions pa pressure [] budget = Inr []"
| "admit_partitions pa pressure (p # ps) (remaining, packets, airtime) =
     (case (if ps = [] then int_times remaining (pc_remaining_fraction (pa_config pa)) else Inr remaining) of
        Inl e \<Rightarrow> Inl e
      | Inr capacity \<Rightarrow>
          (case admit_entries pa pressure p (capacity, packets, airtime) of
             Inl e \<Rightarrow> Inl e
           | Inr (ds, budget) \<Rightarrow> map_sum id (\<lambda>rest. ds @ rest) (admit_partitions pa pressure ps budget)))"

section \<open>A tick\<close>

fun collect_entries ::
    "'x predictive_controller \<Rightarrow> network_link \<Rightarrow> (flow_spec \<times> flow_observation) list \<Rightarrow>
     (flow_entry list \<times> flow_decision list) outcome" where
  "collect_entries pa l [] = Inr ([], [])"
| "collect_entries pa l ((s, ob) # cs) =
     (case check_spec s of
        Inl e \<Rightarrow> Inl e
      | Inr _ \<Rightarrow>
          if qs_lifespan_ms (fs_qos s) < fo_age_ms ob
          then map_sum id (\<lambda>(es, ds). (es, drop_decision pa s ''stale beyond lifespan'' ob # ds)) (collect_entries pa l cs)
          else if preemptively_dropped pa s ob
          then map_sum id (\<lambda>(es, ds). (es, drop_decision pa s ''predictive stale drop'' ob # ds)) (collect_entries pa l cs)
          else (case effective_size s ob of Inl e \<Rightarrow> Inl e | Inr n \<Rightarrow>
               (case predictive_priority pa s ob l of Inl e \<Rightarrow> Inl e | Inr p \<Rightarrow>
               (case py_float_of_int (max 1 n) of Inl e \<Rightarrow> Inl e | Inr bytes \<Rightarrow>
                map_sum id (\<lambda>(es, ds).
                  (\<lparr>en_priority = p, en_density = fdiv p bytes, en_base_size = n, en_slack_ms = flow_slack s ob,
                    en_reliability = adaptive_reliability pa s ob l, en_spec = s, en_obs = ob\<rparr> # es, ds))
                  (collect_entries pa l cs)))))"

fun settle_unadmitted ::
    "'x predictive_controller \<Rightarrow> pyfloat \<Rightarrow> string set \<Rightarrow> flow_entry list \<Rightarrow> flow_decision list" where
  "settle_unadmitted pa pressure selected [] = []"
| "settle_unadmitted pa pressure selected (en # ens) =
     (if fs_flow_id (en_spec en) \<in> selected then settle_unadmitted pa pressure selected ens
      else (if dropped_unadmitted pa en pressure
            then drop_decision pa (en_spec en) ''predictive queue shedding'' (en_obs en)
            else entry_decision en ''defer'' 0 ''predictive admission: no budget'' False [])
           # settle_unadmitted pa pressure selected ens)"

definition decide_tick ::
    "'x predictive_controller \<Rightarrow> (flow_spec \<times> flow_observation) list \<Rightarrow> network_link \<Rightarrow> flow_decision list outcome" where
  "decide_tick pa cs l =
     (case collect_entries pa l cs of Inl e \<Rightarrow> Inl e | Inr (es, ds) \<Rightarrow>
     (case link_pressure pa es l of Inl e \<Rightarrow> Inl e | Inr pressure \<Rightarrow>
     (case admit_partitions pa pressure (ordered_partitions es)
             (nl_capacity_bytes l, nl_capacity_packets l, nl_capacity_airtime_ns l) of
        Inl e \<Rightarrow> Inl e
      | Inr selected \<Rightarrow>
          Inr (sort_key fd_flow_id
                 (ds @ selected @ settle_unadmitted pa pressure (set (map fd_flow_id selected)) es)))))"

definition predictive_schedule ::
    "(flow_spec \<times> flow_observation) list \<Rightarrow> network_link \<Rightarrow> 'x predictive_controller \<Rightarrow>
     'x predictive_controller \<times> flow_decision list outcome" where
  "predictive_schedule cs l pa =
     (case check_link l of Inl e \<Rightarrow> (pa, Inl e) | Inr _ \<Rightarrow>
     (case update_link_estimate l pa of Inl e \<Rightarrow> (pa, Inl e) | Inr pa' \<Rightarrow> (pa', decide_tick pa' cs l)))"

section \<open>The deadline guard\<close>

text \<open>The controller with a risk configuration.\<close>

type_synonym risk_controller = "unit risk_config_ext predictive_controller"

definition tail_wire_time_ms :: "risk_controller \<Rightarrow> network_link \<Rightarrow> pyfloat" where
  "tail_wire_time_ms pa l =
     (let rtt = py_max (nl_rtt_ms l) (pa_rtt_ewma pa);
          jitter = py_max (nl_jitter_ms l) (pa_jitter_ewma pa);
          loss = py_max (nl_loss l) (pa_loss_ewma pa)
      in dbl (1/2) * rtt + rk_deadline_tail_sigma (pa_config pa) * jitter
         + rk_loss_tail_rtt_fraction (pa_config pa) * loss * rtt)"

definition deadline_risky :: "risk_controller \<Rightarrow> flow_spec \<Rightarrow> flow_observation \<Rightarrow> pyfloat \<Rightarrow> bool" where
  "deadline_risky pa s ob tail_ms \<longleftrightarrow>
     fs_flow_class s \<in> set (rk_guarded_classes (pa_config pa)) \<and>
     flow_slack s ob < tail_ms + rk_min_wire_slack_ms (pa_config pa)"

definition guard_drop ::
    "(pyfloat \<Rightarrow> string) \<Rightarrow> risk_controller \<Rightarrow> flow_spec \<Rightarrow> flow_observation \<Rightarrow> network_link \<Rightarrow> pyfloat \<Rightarrow> flow_decision" where
  "guard_drop format1 pa s ob l tail_ms =
     (drop_decision pa s (''deadline-risk guard: tail_wire_ms='' @ format1 tail_ms @ '' exceeds slack_ms='' @
          format1 (flow_slack s ob)) ob)
       \<lparr>fd_reliability := adaptive_reliability pa s ob l\<rparr>"

text \<open>The estimates are updated before the guard looks at them, and again by the schedule of the rest.\<close>

definition risk_schedule ::
    "(pyfloat \<Rightarrow> string) \<Rightarrow> (flow_spec \<times> flow_observation) list \<Rightarrow> network_link \<Rightarrow> risk_controller \<Rightarrow>
     risk_controller \<times> flow_decision list outcome" where
  "risk_schedule format1 cs l pa =
     (case check_link l of Inl e \<Rightarrow> (pa, Inl e) | Inr _ \<Rightarrow>
     (case update_link_estimate l pa of Inl e \<Rightarrow> (pa, Inl e) | Inr pa1 \<Rightarrow>
      let tail_ms = tail_wire_time_ms pa1 l;
          drops = map (\<lambda>(s, ob). guard_drop format1 pa1 s ob l tail_ms)
                    (filter (\<lambda>(s, ob). deadline_risky pa1 s ob tail_ms) cs)
      in case predictive_schedule (filter (\<lambda>(s, ob). \<not> deadline_risky pa1 s ob tail_ms) cs) l pa1 of
           (pa2, Inl e) \<Rightarrow> (pa2, Inl e)
         | (pa2, Inr ds) \<Rightarrow> (pa2, Inr (sort_key fd_flow_id (ds @ drops)))))"

end
