(* ===== verification/PredictiveSafety.thy ===== *)
theory PredictiveSafety
  imports PredictiveAdmission FlowSafety
begin

text \<open>
  What the predictive admission controllers guarantee: the three budgets of a tick, one decision for
  every flow, and no late flow of a guarded class; and how often the guard updates the estimates.
\<close>

section \<open>Budgets\<close>

definition airtime :: "flow_decision list \<Rightarrow> int" where
  "airtime ds = sum_list (map (\<lambda>d. estimate_airtime_ns (fd_allocated_bytes d)) ds)"

lemma airtime_simps [simp]: "airtime [] = 0" "airtime (d # ds) = estimate_airtime_ns (fd_allocated_bytes d) + airtime ds"
  "airtime (ds @ es) = airtime ds + airtime es"
  by (simp_all add: airtime_def)

definition fits_limit :: "int option \<Rightarrow> int \<Rightarrow> bool" where
  "fits_limit limit n \<longleftrightarrow> (case limit of None \<Rightarrow> True | Some k \<Rightarrow> n \<le> k)"

definition open_limit :: "int option \<Rightarrow> bool" where
  "open_limit limit \<longleftrightarrow> fits_limit limit 0"

lemma limit_simps [simp]: "fits_limit None n" "fits_limit (Some k) n \<longleftrightarrow> n \<le> k" "open_limit None" "open_limit (Some k) \<longleftrightarrow> 0 \<le> k"
  by (simp_all add: fits_limit_def open_limit_def)

definition entry_id :: "flow_entry \<Rightarrow> string" where
  "entry_id en = fs_flow_id (en_spec en)"

lemma entry_decision_simps [simp]:
  "fd_flow_id (entry_decision en action n reason dg wire) = entry_id en"
  "fd_allocated_bytes (entry_decision en action n reason dg wire) = n"
  by (simp_all add: entry_decision_def entry_id_def)

lemma decision_for_entry_simps:
  assumes "decision_for_entry pa en pressure remaining = Inr (Some d)" "0 < en_base_size en"
  shows "fd_flow_id d = entry_id en \<and> 0 < fd_allocated_bytes d"
  using assms by (auto simp: decision_for_entry_def split: if_splits)

text \<open>What admitting entries keeps of a budget.\<close>

definition spends :: "flow_entry list \<Rightarrow> tick_budget \<Rightarrow> flow_decision list \<times> tick_budget \<Rightarrow> bool" where
  "spends ens b r \<longleftrightarrow>
     (case (b, r) of ((remaining, packets, air), (ds, remaining', packets', air')) \<Rightarrow>
        mset (map fd_flow_id ds) \<subseteq># mset (map entry_id ens) \<and> list_all (\<lambda>d. 0 < fd_allocated_bytes d) ds \<and>
        remaining' = remaining - allocated ds \<and> allocated ds \<le> max 0 remaining \<and>
        packets' = map_option (\<lambda>n. n - int (length ds)) packets \<and> air' = map_option (\<lambda>t. t - airtime ds) air \<and>
        (open_limit packets \<longrightarrow> open_limit packets') \<and> (open_limit air \<longrightarrow> open_limit air'))"

lemma spends_none: "spends ens (r, p, a) ([], r, p, a)"
  by (simp add: spends_def option.map_ident)

lemma spends_skip: "spends ens b r \<Longrightarrow> spends (en # ens) b r"
  by (auto simp: spends_def intro: subset_mset.order_trans split: prod.splits)

lemma spends_take:
  assumes "spends ens (remaining - fd_allocated_bytes d, map_option (\<lambda>n. n - 1) packets,
      map_option (\<lambda>t. t - estimate_airtime_ns (fd_allocated_bytes d)) air) (ds, b)"
    and "fd_flow_id d = entry_id en" "0 < fd_allocated_bytes d" "fd_allocated_bytes d \<le> remaining"
    "\<not> exhausted packets" "fits_limit air (estimate_airtime_ns (fd_allocated_bytes d))"
  shows "spends (en # ens) (remaining, packets, air) (d # ds, b)"
  using assms by (cases packets; cases air) (auto simp: spends_def max_def split: prod.splits if_splits)

lemma admit_entries_spends:
  assumes "admit_entries pa pressure ens b = Inr r" "\<forall>en \<in> set ens. 0 < en_base_size en"
  shows "spends ens b r"
  using assms
proof (induction pa pressure ens b arbitrary: r rule: admit_entries.induct)
  case (1 pa pressure budget)
  then show ?case by (cases budget) (auto intro: spends_none)
next
  case (2 pa pressure en ens remaining packets air)
  show ?case
  proof (cases "exhausted packets \<or> exhausted air")
    case True
    with "2.prems"(1) show ?thesis by (auto intro: spends_none)
  next
    case avail: False
    obtain x where x: "decision_for_entry pa en pressure remaining = Inr x"
      using "2.prems"(1) avail by (auto split: sum.splits)
    note step = "2.prems"(1) [unfolded admit_entries.simps x sum.case]
    have rest: "\<forall>en \<in> set ens. 0 < en_base_size en" using "2.prems"(2) by simp
    show ?thesis
    proof (cases x)
      case None
      with step avail x 2(1) [OF avail x None _ rest] show ?thesis by (auto intro: spends_skip)
    next
      case (Some d)
      let ?cost = "estimate_airtime_ns (fd_allocated_bytes d)"
      let ?no = "\<not> fd_allocated_bytes d \<le> remaining \<or> (case air of None \<Rightarrow> False | Some t \<Rightarrow> t < ?cost)"
      show ?thesis
      proof (cases ?no)
        case True
        with step avail Some have "admit_entries pa pressure ens (remaining, packets, air) = Inr r" by (auto simp: Let_def)
        with 2(2) [OF avail x Some refl True _ rest] show ?thesis by (auto intro: spends_skip)
      next
        case False
        with step avail Some obtain ds b where r: "r = (d # ds, b)"
          and run: "admit_entries pa pressure ens (remaining - fd_allocated_bytes d, map_option (\<lambda>n. n - 1) packets,
             map_option (\<lambda>t. t - ?cost) air) = Inr (ds, b)" by (auto simp: Let_def)
        note d = decision_for_entry_simps [OF x [unfolded Some]]
        show ?thesis unfolding r
        proof (rule spends_take [OF 2(3) [OF avail x Some refl False run rest]])
          show "fits_limit air ?cost" using False by (cases air) auto
        qed (use d "2.prems"(2) False avail in auto)
      qed
    qed
  qed
qed


section \<open>Partitions\<close>

lemma int_times_le:
  assumes "int_times n x = Inr k" "0 \<le> n" "n < 2 ^ 53" "x \<le> 1"
  shows "k \<le> n"
proof -
  have n: "py_float_of_int n = Inr (Fin (of_int n))" using int_float_exact [of n] assms(2,3) by simp
  obtain a where a: "Fin (of_int n) * x = Fin a" using assms(1) by (cases "Fin (of_int n) * x") (auto simp: int_times_def n)
  have "a \<le> of_int n"
  proof (cases x)
    case (Fin b)
    then have "b \<le> 1" using assms(4) by (simp add: one_pyfloat_def)
    then have "of_int n * b \<le> of_int n" using assms(2) by (simp add: mult_left_le)
    then have "dbl (of_int n * b) \<le> Fin (of_int n)" using dbl_mono [of "of_int n * b" "of_int n"] dbl_int [of n] assms(2,3) by simp
    with a Fin show ?thesis by simp
  qed (use assms(4) a in \<open>auto simp: one_pyfloat_def split: if_splits\<close>)
  moreover have "k = (if 0 \<le> a then \<lfloor>a\<rfloor> else \<lceil>a\<rceil>)" using assms(1) by (simp add: int_times_def n a)
  ultimately show ?thesis using assms(2) by (auto simp: floor_le_iff ceiling_le_iff split: if_splits)
qed

text \<open>What is admitted in all partitions.\<close>

definition spends_all :: "flow_entry list \<Rightarrow> tick_budget \<Rightarrow> flow_decision list \<Rightarrow> bool" where
  "spends_all ens b ds \<longleftrightarrow>
     (case b of (remaining, packets, air) \<Rightarrow>
        mset (map fd_flow_id ds) \<subseteq># mset (map entry_id ens) \<and> list_all (\<lambda>d. 0 < fd_allocated_bytes d) ds \<and>
        allocated ds \<le> remaining \<and> fits_limit packets (int (length ds)) \<and> fits_limit air (airtime ds))"

lemma admit_partitions_spend:
  assumes "admit_partitions pa pressure ps (remaining, packets, air) = Inr ds" "0 \<le> remaining" "remaining < 2 ^ 53"
    "pc_remaining_fraction (pa_config pa) \<le> 1" "open_limit packets" "open_limit air"
    "\<forall>en \<in> set (concat ps). 0 < en_base_size en"
  shows "spends_all (concat ps) (remaining, packets, air) ds"
  using assms(1-3,5-7)
proof (induction ps arbitrary: remaining packets air ds)
  case Nil
  then show ?case by (simp add: spends_all_def open_limit_def)
next
  case (Cons p ps)
  from Cons.prems(1) obtain capacity where c:
      "(if ps = [] then int_times remaining (pc_remaining_fraction (pa_config pa)) else Inr remaining) = Inr capacity"
    by (auto split: sum.splits)
  have le: "capacity \<le> remaining"
    using c int_times_le [of remaining _ capacity] Cons.prems(2,3) assms(4) by (auto split: if_splits)
  from Cons.prems(1) c obtain es r p' a' rest where run: "admit_entries pa pressure p (capacity, packets, air) = Inr (es, r, p', a')"
    and more: "admit_partitions pa pressure ps (r, p', a') = Inr rest" and ds: "ds = es @ rest"
    by (auto split: sum.splits)
  have "spends p (capacity, packets, air) (es, r, p', a')"
    using admit_entries_spends [OF run] Cons.prems(6) by auto
  then have s: "mset (map fd_flow_id es) \<subseteq># mset (map entry_id p)" "list_all (\<lambda>d. 0 < fd_allocated_bytes d) es"
    "r = capacity - allocated es" "allocated es \<le> max 0 capacity" "p' = map_option (\<lambda>n. n - int (length es)) packets"
    "a' = map_option (\<lambda>t. t - airtime es) air" "open_limit p'" "open_limit a'"
    using Cons.prems(4,5) unfolding spends_def by auto
  show ?case
  proof (cases "ps = []")
    case True
    with more s le Cons.prems(2) show ?thesis
      by (cases packets; cases air) (auto simp: ds spends_all_def)
  next
    case False
    then have "capacity = remaining" using c by simp
    have "0 \<le> allocated es" using s(2) by (induction es) auto
    with \<open>capacity = remaining\<close> have "0 \<le> r" "r < 2 ^ 53" using s(3,4) Cons.prems(2,3) by auto
    from Cons.IH [OF more this s(7,8)] Cons.prems(6)
    have "spends_all (concat ps) (r, p', a') rest" by auto
    then have t: "mset (map fd_flow_id rest) \<subseteq># mset (map entry_id (concat ps))" "list_all (\<lambda>d. 0 < fd_allocated_bytes d) rest"
      "allocated rest \<le> r" "fits_limit p' (int (length rest))" "fits_limit a' (airtime rest)"
      unfolding spends_all_def by auto
    have "mset (map fd_flow_id ds) \<subseteq># mset (map entry_id (concat (p # ps)))"
      using subset_mset.add_mono [OF s(1) t(1)] by (simp add: ds)
    moreover have "fits_limit packets (int (length ds))" using t(4) by (cases packets) (auto simp: s(5) ds)
    moreover have "fits_limit air (airtime ds)" using t(5) by (cases air) (auto simp: s(6) ds)
    ultimately show ?thesis using s(2,3) t(2,3) \<open>capacity = remaining\<close> by (simp add: ds spends_all_def)
  qed
qed

lemma tiers_mset: "mset (concat (ordered_partitions es)) = mset es"
proof -
  have "mset (tier 0 es) + mset (tier 1 es) + mset (tier 2 es) + mset (tier 3 es) = mset es"
    by (induction es) (auto simp: tier_def entry_tier_def Let_def)
  then show ?thesis by (simp add: ordered_partitions_def sorted_entries_def ac_simps)
qed


section \<open>A tick\<close>

lemma drop_decision_simps [simp]:
  "fd_flow_id (drop_decision pa s reason ob) = fs_flow_id s" "fd_allocated_bytes (drop_decision pa s reason ob) = 0"
  "fd_action (drop_decision pa s reason ob) = ''drop''"
  by (simp_all add: drop_decision_def)

lemma collect_entries_split:
  "collect_entries pa l cs = Inr (es, ds) \<Longrightarrow>
     mset (map entry_id es) + mset (map fd_flow_id ds) = mset (map (fs_flow_id \<circ> fst) cs) \<and>
     (\<forall>en \<in> set es. 0 < en_base_size en) \<and> list_all (\<lambda>d. fd_allocated_bytes d = 0) ds"
proof (induction cs arbitrary: es ds)
  case (Cons c cs)
  obtain s ob where c: "c = (s, ob)" by force
  show ?case
  proof (cases "qs_lifespan_ms (fs_qos s) < fo_age_ms ob \<or> preemptively_dropped pa s ob")
    case True
    with Cons.prems obtain ds' reason where 1: "collect_entries pa l cs = Inr (es, ds')" "ds = drop_decision pa s reason ob # ds'"
      by (auto simp: c split: sum.splits if_splits)
    with Cons.IH [OF 1(1)] show ?thesis by (simp add: c)
  next
    case False
    with Cons.prems obtain n en es' where 1: "collect_entries pa l cs = Inr (es', ds)" "es = en # es'"
      "effective_size s ob = Inr n" "en_base_size en = n" "en_spec en = s"
      by (auto simp: c split: sum.splits)
    with Cons.IH [OF 1(1)] sizes_positive(1) [OF 1(3)] show ?thesis by (simp add: c entry_id_def)
  qed
qed simp

lemma settle_unadmitted_simps:
  "map fd_flow_id (settle_unadmitted pa pressure S es) = map entry_id (filter (\<lambda>en. entry_id en \<notin> S) es) \<and>
   list_all (\<lambda>d. fd_allocated_bytes d = 0) (settle_unadmitted pa pressure S es)"
  by (induction es) (auto simp: entry_id_def)

definition sent :: "flow_decision list \<Rightarrow> flow_decision list" where
  "sent ds = filter (\<lambda>d. 0 < fd_allocated_bytes d) ds"

lemma sent_none: "list_all (\<lambda>d. fd_allocated_bytes d = 0) ds \<Longrightarrow> sent ds = [] \<and> allocated ds = 0"
  by (induction ds) (auto simp: sent_def)

lemma sent_all: "list_all (\<lambda>d. 0 < fd_allocated_bytes d) ds \<Longrightarrow> sent ds = ds"
  by (induction ds) (auto simp: sent_def)

lemma sent_append: "sent (ds @ es) = sent ds @ sent es"
  by (simp add: sent_def)

lemma airtime_mset: "mset ds = mset es \<Longrightarrow> airtime ds = airtime es"
  by (simp add: airtime_def flip: sum_mset_sum_list)

lemma decide_tickE:
  assumes "decide_tick pa cs l = Inr ds"
  obtains es dropped pressure selected where "collect_entries pa l cs = Inr (es, dropped)"
    "admit_partitions pa pressure (ordered_partitions es)
       (nl_capacity_bytes l, nl_capacity_packets l, nl_capacity_airtime_ns l) = Inr selected"
    "ds = sort_key fd_flow_id (dropped @ selected @ settle_unadmitted pa pressure (set (map fd_flow_id selected)) es)"
  using assms that by (simp add: decide_tick_def split: sum.splits prod.splits)

lemma predictive_scheduleE:
  assumes "predictive_schedule cs l pa = (pa', Inr ds)"
  shows "update_link_estimate l pa = Inr pa' \<and> decide_tick pa' cs l = Inr ds \<and> pa_config pa' = pa_config pa \<and>
    0 \<le> nl_capacity_bytes l \<and> open_limit (nl_capacity_packets l) \<and> open_limit (nl_capacity_airtime_ns l)"
  using assms
  by (auto simp: predictive_schedule_def update_link_estimate_def check_link_def Let_def open_limit_def fits_limit_def
      split: sum.splits if_splits option.splits)

lemma tick_facts:
  assumes "predictive_schedule cs l pa = (pa', Inr ds)" "nl_capacity_bytes l < 2 ^ 53" "pc_remaining_fraction (pa_config pa) \<le> 1"
  obtains es dropped selected rest where
    "mset (map entry_id es) + mset (map fd_flow_id dropped) = mset (map (fs_flow_id \<circ> fst) cs)"
    "spends_all es (nl_capacity_bytes l, nl_capacity_packets l, nl_capacity_airtime_ns l) selected"
    "ds = sort_key fd_flow_id (dropped @ selected @ rest)" "mset ds = mset (dropped @ selected @ rest)"
    "map fd_flow_id rest = map entry_id (filter (\<lambda>en. entry_id en \<notin> set (map fd_flow_id selected)) es)"
    "sent dropped = [] \<and> allocated dropped = 0" "sent rest = [] \<and> allocated rest = 0" "sent selected = selected"
proof -
  note p = predictive_scheduleE [OF assms(1)]
  obtain es dropped pressure selected where c: "collect_entries pa' l cs = Inr (es, dropped)"
    and a: "admit_partitions pa' pressure (ordered_partitions es)
       (nl_capacity_bytes l, nl_capacity_packets l, nl_capacity_airtime_ns l) = Inr selected"
    and ds: "ds = sort_key fd_flow_id (dropped @ selected @ settle_unadmitted pa' pressure (set (map fd_flow_id selected)) es)"
    using p decide_tickE [of pa' cs l ds] by metis
  note c = collect_entries_split [OF c]
  have set: "set (concat (ordered_partitions es)) = set es" by (metis tiers_mset set_mset_mset)
  have "spends_all (concat (ordered_partitions es)) (nl_capacity_bytes l, nl_capacity_packets l, nl_capacity_airtime_ns l) selected"
    using p assms(2,3) c set by (intro admit_partitions_spend [OF a]) auto
  moreover have "mset (map entry_id (concat (ordered_partitions es))) = mset (map entry_id es)"
    using tiers_mset [of es] by (metis mset_map)
  ultimately have s: "spends_all es (nl_capacity_bytes l, nl_capacity_packets l, nl_capacity_airtime_ns l) selected"
    unfolding spends_all_def by (simp only: prod.case)
  have "sent selected = selected" using s by (intro sent_all) (simp add: spends_all_def)
  with c s show thesis
    using that [of es dropped selected "settle_unadmitted pa' pressure (set (map fd_flow_id selected)) es"]
      settle_unadmitted_simps sent_none by (metis ds mset_sort)
qed

text \<open>C17: the predictive controller keeps the three budgets of a tick: the bytes of its decisions fit the
  capacity, the number of flows it sends fits the packets, and the channel occupancy it estimates for them fits
  the airtime, where these are limited; and it decides flows of different ids exactly once, sorted by id.\<close>

theorem predictive_budgets:
  assumes "predictive_schedule cs l pa = (pa', Inr ds)" "nl_capacity_bytes l < 2 ^ 53" "pc_remaining_fraction (pa_config pa) \<le> 1"
  shows "allocated ds \<le> nl_capacity_bytes l \<and> fits_limit (nl_capacity_packets l) (int (length (sent ds))) \<and>
    fits_limit (nl_capacity_airtime_ns l) (airtime (sent ds)) \<and>
    (distinct (map (fs_flow_id \<circ> fst) cs) \<longrightarrow> map fd_flow_id ds = sort (map (fs_flow_id \<circ> fst) cs))"
proof -
  obtain es dropped selected rest where ids: "mset (map entry_id es) + mset (map fd_flow_id dropped) = mset (map (fs_flow_id \<circ> fst) cs)"
    and s: "spends_all es (nl_capacity_bytes l, nl_capacity_packets l, nl_capacity_airtime_ns l) selected"
    and ds: "ds = sort_key fd_flow_id (dropped @ selected @ rest)" "mset ds = mset (dropped @ selected @ rest)"
    and r: "map fd_flow_id rest = map entry_id (filter (\<lambda>en. entry_id en \<notin> set (map fd_flow_id selected)) es)"
    and z: "sent dropped = [] \<and> allocated dropped = 0" "sent rest = [] \<and> allocated rest = 0" "sent selected = selected"
    by (rule tick_facts [OF assms])
  have "allocated ds = allocated selected" using allocated_mset [OF ds(2)] z by simp
  moreover have m: "mset (sent ds) = mset selected"
  proof -
    have "mset (sent ds) = mset (sent (dropped @ selected @ rest))" unfolding sent_def mset_filter ds(2) ..
    then show ?thesis using z by (simp add: sent_append)
  qed
  moreover have "map fd_flow_id ds = sort (map (fs_flow_id \<circ> fst) cs)" if "distinct (map (fs_flow_id \<circ> fst) cs)"
  proof -
    have "mset (map entry_id es @ map fd_flow_id dropped) = mset (map (fs_flow_id \<circ> fst) cs)" using ids by simp
    with that have "distinct (map entry_id es)" by (metis distinct_append mset_eq_imp_distinct_iff)
    moreover have sub: "mset (map fd_flow_id selected) \<subseteq># mset (map entry_id es)" using s by (simp add: spends_all_def)
    moreover have "fd_flow_id ` set selected \<subseteq> entry_id ` set es" by (rule mset_map_subset_set [OF sub])
    ultimately have both: "mset (map fd_flow_id selected) + mset (map entry_id (filter (\<lambda>en. entry_id en \<notin> set (map fd_flow_id selected)) es)) =
        mset (map entry_id es)"
      by (intro mset_filter_both) (auto simp: mset_map_subset_distinct [OF sub])
    have "mset (map fd_flow_id ds) =
        mset (map fd_flow_id dropped) + (mset (map fd_flow_id selected) + mset (map fd_flow_id rest))"
      using arg_cong [OF ds(2), of "image_mset fd_flow_id"] by (simp add: ac_simps)
    also have "\<dots> = mset (map (fs_flow_id \<circ> fst) cs)" by (simp only: r both) (use ids in \<open>simp add: ac_simps\<close>)
    finally have "mset (map fd_flow_id ds) = mset (map (fs_flow_id \<circ> fst) cs)" .
    moreover have "sorted (map fd_flow_id ds)" by (simp add: ds(1))
    ultimately show ?thesis by (metis properties_for_sort)
  qed
  moreover have "length (sent ds) = length selected" "airtime (sent ds) = airtime selected"
    using m by (metis size_mset) (rule airtime_mset [OF m])
  ultimately show ?thesis using s by (simp add: spends_all_def)
qed


section \<open>The deadline guard\<close>

lemma admit_partitions_ids:
  assumes "admit_partitions pa pressure ps b = Inr ds" "\<forall>en \<in> set (concat ps). 0 < en_base_size en"
  shows "fd_flow_id ` set ds \<subseteq> entry_id ` set (concat ps)"
  using assms
proof (induction ps arbitrary: b ds)
  case (Cons p ps)
  obtain remaining packets air where b: "b = (remaining, packets, air)" by (metis prod_cases3)
  from Cons.prems(1) obtain capacity es b' rest where run: "admit_entries pa pressure p (capacity, packets, air) = Inr (es, b')"
    and more: "admit_partitions pa pressure ps b' = Inr rest" "ds = es @ rest"
    by (auto simp: b split: sum.splits)
  have "spends p (capacity, packets, air) (es, b')" using admit_entries_spends [OF run] Cons.prems(2) by auto
  then have "mset (map fd_flow_id es) \<subseteq># mset (map entry_id p)" by (auto simp: spends_def split: prod.splits)
  from mset_map_subset_set [OF this] Cons.IH [OF more(1)] Cons.prems(2) show ?case
    by (simp add: more(2) image_Un) blast
qed simp

lemma sends_for_candidates:
  assumes "predictive_schedule cs l pa = (pa', Inr ds)" "d \<in> set ds"
  shows "fd_flow_id d \<in> (fs_flow_id \<circ> fst) ` set cs"
proof -
  obtain es dropped pressure selected where c: "collect_entries pa' l cs = Inr (es, dropped)"
    and a: "admit_partitions pa' pressure (ordered_partitions es)
       (nl_capacity_bytes l, nl_capacity_packets l, nl_capacity_airtime_ns l) = Inr selected"
    and ds: "ds = sort_key fd_flow_id (dropped @ selected @ settle_unadmitted pa' pressure (set (map fd_flow_id selected)) es)"
    using predictive_scheduleE [OF assms(1)] decide_tickE [of pa' cs l ds] by metis
  note c = collect_entries_split [OF c]
  have "mset (map entry_id es @ map fd_flow_id dropped) = mset (map (fs_flow_id \<circ> fst) cs)" using c by simp
  then have ids: "entry_id ` set es \<union> fd_flow_id ` set dropped = (fs_flow_id \<circ> fst) ` set cs"
    by (metis mset_eq_setD set_append set_map)
  have set: "set (concat (ordered_partitions es)) = set es" by (metis tiers_mset set_mset_mset)
  have "fd_flow_id ` set selected \<subseteq> entry_id ` set es"
    using admit_partitions_ids [OF a] c set by auto
  moreover have "fd_flow_id ` set (settle_unadmitted pa' pressure (set (map fd_flow_id selected)) es) \<subseteq> entry_id ` set es"
  proof -
    have "set (map fd_flow_id (settle_unadmitted pa' pressure (set (map fd_flow_id selected)) es)) \<subseteq> set (map entry_id es)"
      by (simp only: settle_unadmitted_simps) auto
    then show ?thesis by simp
  qed
  moreover have "fd_flow_id d \<in> fd_flow_id ` set dropped \<union> fd_flow_id ` set selected \<union>
      fd_flow_id ` set (settle_unadmitted pa' pressure (set (map fd_flow_id selected)) es)"
    using assms(2) by (auto simp: ds)
  ultimately show ?thesis using ids by blast
qed

text \<open>C18: the deadline guard. With the estimates it has after the tick's sample, the risk controller drops every
  flow of a guarded class whose slack is less than the tail of the wire time plus the margin, without
  bytes; and every flow it gives bytes is one of the others.\<close>

theorem risky_flows_dropped:
  assumes "risk_schedule format1 cs l pa = (pa2, Inr ds)" "update_link_estimate l pa = Inr pa1"
  shows "(\<forall>(s, ob) \<in> set cs. deadline_risky pa1 s ob (tail_wire_time_ms pa1 l) \<longrightarrow>
       (\<exists>d \<in> set ds. fd_flow_id d = fs_flow_id s \<and> fd_action d = ''drop'' \<and> fd_allocated_bytes d = 0)) \<and>
    (\<forall>d \<in> set ds. fd_allocated_bytes d \<noteq> 0 \<longrightarrow>
       (\<exists>(s, ob) \<in> set cs. fd_flow_id d = fs_flow_id s \<and> \<not> deadline_risky pa1 s ob (tail_wire_time_ms pa1 l)))"
proof -
  let ?risky = "\<lambda>(s, ob). deadline_risky pa1 s ob (tail_wire_time_ms pa1 l)"
  let ?drops = "map (\<lambda>(s, ob). guard_drop format1 pa1 s ob l (tail_wire_time_ms pa1 l)) (filter ?risky cs)"
  obtain es where rest: "predictive_schedule (filter (\<lambda>(s, ob). \<not> deadline_risky pa1 s ob (tail_wire_time_ms pa1 l)) cs) l pa1 = (pa2, Inr es)"
    and ds: "ds = sort_key fd_flow_id (es @ ?drops)"
    using assms by (auto simp: risk_schedule_def Let_def split: sum.splits prod.splits)
  have guard: "fd_flow_id (guard_drop format1 pa1 s ob l t) = fs_flow_id s \<and> fd_action (guard_drop format1 pa1 s ob l t) = ''drop'' \<and>
      fd_allocated_bytes (guard_drop format1 pa1 s ob l t) = 0" for s ob t
    by (simp add: guard_drop_def)
  have "\<exists>d \<in> set ds. fd_flow_id d = fs_flow_id s \<and> fd_action d = ''drop'' \<and> fd_allocated_bytes d = 0"
    if "(s, ob) \<in> set cs" "deadline_risky pa1 s ob (tail_wire_time_ms pa1 l)" for s ob
    using that guard [of s ob "tail_wire_time_ms pa1 l"] by (intro bexI [of _ "guard_drop format1 pa1 s ob l (tail_wire_time_ms pa1 l)"]) (auto simp: ds)
  moreover have "\<exists>(s, ob) \<in> set cs. fd_flow_id d = fs_flow_id s \<and> \<not> deadline_risky pa1 s ob (tail_wire_time_ms pa1 l)"
    if "d \<in> set ds" "fd_allocated_bytes d \<noteq> 0" for d
  proof -
    have "d \<in> set es" using that guard by (auto simp: ds)
    from sends_for_candidates [OF rest this] show ?thesis by auto
  qed
  ultimately show ?thesis by blast
qed


lemma risk_schedule_state:
  assumes "check_link l = Inr ()" "update_link_estimate l pa = Inr pa1" "update_link_estimate l pa1 = Inr pa2"
  shows "fst (risk_schedule format1 cs l pa) = pa2" "fst (predictive_schedule cs l pa) = pa1"
  using assms by (auto simp: risk_schedule_def predictive_schedule_def Let_def split: prod.splits sum.splits)

section \<open>A tick\<close>

definition plain_weights :: scheduler_weights where
  "plain_weights =
     \<lparr>sw_causal_gain = 0, sw_risk_reduction = 0, sw_freshness = 0, sw_deadline = 0, sw_operator_qoe = 0, sw_coordination = 0,
      sw_reliability_penalty = 0, sw_bandwidth_cost = 0, sw_redundancy_penalty = 0, sw_stale_penalty = dbl 6\<rparr>"

definition plain_config :: predictive_config where
  "plain_config =
     \<lparr>pc_ewma_alpha = dbl (1/2), pc_safety_margin = dbl 1, pc_compaction_threshold = dbl 8, pc_drop_threshold = dbl 8,
      pc_qoe_floor_fraction = dbl (1/8), pc_compaction_ratio = dbl (1/2), pc_degradation_ratio = dbl (1/8),
      pc_stale_drop_ratio = dbl (3/4), pc_remaining_fraction = dbl (1/4)\<rparr>"

definition plain_controller :: "'x predictive_config_scheme \<Rightarrow> 'x predictive_controller" where
  "plain_controller c =
     \<lparr>pa_config = c,
      pa_scheduler = \<lparr>sr_weights = plain_weights, sr_critical_fraction = dbl (72/100), sr_qoe_fraction = dbl (1/8),
        sr_degradation_floor = dbl (1/8)\<rparr>,
      pa_capacity_ewma = None, pa_loss_ewma = 0, pa_rtt_ewma = dbl 20, pa_jitter_ewma = 0\<rparr>"

definition radio_link :: network_link where
  "radio_link = \<lparr>nl_capacity_bytes = 1000, nl_capacity_packets = Some 2, nl_capacity_airtime_ns = Some 400000, nl_loss = 0,
     nl_jitter_ms = 0, nl_rtt_ms = dbl 60\<rparr>"

definition radio_candidates :: "(flow_spec \<times> flow_observation) list" where
  "radio_candidates =
     [(sample_flow ''stop'' SAFETY 300, sample_observation 10), (sample_flow ''late'' CONTROL 200, sample_observation 90),
      (sample_flow ''map'' BULK 900, sample_observation 10)]"

definition plain_risk_config :: risk_config where
  "plain_risk_config = predictive_config.extend plain_config (risk_config.fields (dbl 1) 0 0 [SAFETY, CONTROL])"

lemma radio_tick:
  "decision_table (snd (predictive_schedule radio_candidates radio_link (plain_controller plain_config))) =
   Inr [(''late'', ''send'', 200), (''map'', ''defer'', 0), (''stop'', ''send'', 300)]"
  by code_simp

lemma radio_guarded:
  "decision_table (snd (risk_schedule (\<lambda>x. []) radio_candidates radio_link (plain_controller plain_risk_config))) =
   Inr [(''late'', ''drop'', 0), (''map'', ''send_degraded'', 112), (''stop'', ''send'', 300)]"
  by code_simp

theorem predictive_budgets_witness:
  "\<exists>pa ds. predictive_schedule radio_candidates radio_link (plain_controller plain_config) = (pa, Inr ds) \<and>
     allocated ds \<le> 1000 \<and> length (sent ds) \<le> 2 \<and> airtime (sent ds) \<le> 400000"
proof -
  obtain pa ds where ds: "predictive_schedule radio_candidates radio_link (plain_controller plain_config) = (pa, Inr ds)"
    using decision_tableD [OF radio_tick] by (metis prod.collapse)
  have "nl_capacity_bytes radio_link < 2 ^ 53" "pc_remaining_fraction (pa_config (plain_controller plain_config)) \<le> 1"
    by code_simp+
  from predictive_budgets [OF ds this] ds show ?thesis by (auto simp: radio_link_def)
qed

theorem risky_flows_dropped_witness:
  "\<exists>pa ds. risk_schedule (\<lambda>x. []) radio_candidates radio_link (plain_controller plain_risk_config) = (pa, Inr ds) \<and>
     (\<exists>d \<in> set ds. fd_flow_id d = ''late'' \<and> fd_action d = ''drop'' \<and> fd_allocated_bytes d = 0)"
proof -
  let ?pa = "plain_controller plain_risk_config"
  obtain pa ds where ds: "risk_schedule (\<lambda>x. []) radio_candidates radio_link ?pa = (pa, Inr ds)"
    using decision_tableD [OF radio_guarded] by (metis prod.collapse)
  define pa1 where "pa1 = projr (update_link_estimate radio_link ?pa)"
  have "isl (update_link_estimate radio_link ?pa) = False" by code_simp
  then have u: "update_link_estimate radio_link ?pa = Inr pa1" by (simp add: pa1_def sum.collapse(2))
  have "deadline_risky pa1 (sample_flow ''late'' CONTROL 200) (sample_observation 90) (tail_wire_time_ms pa1 radio_link)"
    unfolding pa1_def by code_simp
  with risky_flows_dropped [OF ds u] ds show ?thesis by (auto simp: radio_candidates_def sample_flow_def)
qed

text \<open>The guard updates the estimates before it calls the schedule, which updates them again: after one sample with
  a loss of 1 and a weight of one half, the estimate of the loss is 3/4, and not 1/2 as without the guard.\<close>

theorem estimates_updated_twice:
  "pa_loss_ewma (fst (risk_schedule (\<lambda>x. []) [] (radio_link\<lparr>nl_loss := dbl 1\<rparr>) (plain_controller plain_risk_config))) = dbl (3/4) \<and>
   pa_loss_ewma (fst (predictive_schedule [] (radio_link\<lparr>nl_loss := dbl 1\<rparr>) (plain_controller plain_config))) = dbl (1/2)"
  by code_simp

end
