(* ===== verification/Spec2Isabelle.thy ===== *)
theory Spec2Isabelle
  imports RaftClients WriterLease AckNack RepairSafety PolicyRecords GatewayErrors TaskReports StoreEquivalence
    ControlLimits OptimizerSafety PredictiveSafety
begin

text \<open>
  A verification library for FleetQoX, a communication layer for fleets of robots: robots publish frames
  over lossy links, a QUIC gateway admits, stores and delivers them, standby gateways take over through
  a lease or a Raft cluster, and schedulers decide which flow or repair gets the capacity of a link. The
  models are translations of the Python sources under \<open>src/\<close>; every theory imports \<open>Prelude\<close>, directly or
  through another, and this one imports them all.

  \<^bold>\<open>How the program is put together.\<close> A sidecar event is encoded as a data-plane frame (\<open>fleetqox/rmw_frame.py\<close>)
  and the receiver answers with ACK/NACK records (\<open>fleetqox/rmw_ack.py\<close>). Demands for repair are
  scheduled by \<open>fleetqox/repair_scheduler.py\<close>, which the admission policy of the gateway calls. The gateway
  (\<open>fleetqox/quic_gateway_state.py\<close>) parses the body of a request, asks its admission policy, commits the frame to
  its durable store (SQLite in the same file, PostgreSQL in \<open>fleetqox/quic_gateway_postgres.py\<close>) under a fenced
  writer lease, keeps bounded histories in memory and serves consumers from their cursors. Applications
  report the outcome of tasks with \<open>fleetqox/task_outcome.py\<close>. A standby waits for the lease
  (\<open>fleetqox/quic_gateway_lease.py\<close>) or for the leadership of the replica beside it
  (\<open>fleetqox/raft_writer_lease.py\<close>); the replica is \<open>fleetqox/raft.py\<close>, driven by
  \<open>scripts/fleetqox_raft_node_service.py\<close>. On the robot, \<open>fleetqox/local_control_lease.py\<close> lets velocity
  commands through only under a lease. \<open>fleetqox/scheduler.py\<close> and \<open>fleetqox/fleet_optimizer.py\<close> share out the bytes of a
  tick among flows (\<open>fleetqox/model.py\<close>).

  \<^bold>\<open>Shared theories.\<close> \<open>Prelude\<close>: exceptions, outcomes (\<open>Inl\<close> an exception, \<open>Inr\<close> a value), Python's lists, and the
  locales of inductive invariants and of quorum systems. \<open>PyFloat\<close> and \<open>Doubles\<close>: floats as rationals with IEEE rounding
  of every operation, and NaN and the infinities. \<open>PyObj\<close>: dynamic values and their conversions. \<open>Json\<close>, \<open>Url\<close>, \<open>Digest\<close>: the
  parts of \<open>json\<close>, \<open>urllib.parse\<close> and \<open>hashlib\<close> the sources call.

  \<^bold>\<open>Consensus.\<close> \<open>Raft\<close> has \<open>RaftNode\<close> as a record and its methods as functions; \<open>RaftCluster\<close> the transition system
  of replicas and network with the invariant on votes; \<open>RaftLogs\<close> the invariant on logs; \<open>RaftSafety\<close> election
  safety, log matching, the commit rule and a run in which two replicas apply different commands. \<open>RaftService\<close> is the
  node service: documents of the RPCs, state machine, timers and routes, one operation for each block that holds
  the lock. \<open>RaftFleet\<close> connects services by documents in transit, proves by simulation that a fleet is a
  cluster, and what a client may conclude from an acknowledgement; \<open>RaftClients\<close> has the run in which an acknowledged write is
  lost. \<open>WriterLease\<close> has the two waits of a standby; their closed forms give the result, the statistics and the sleeps
  of every run, and when a run ends.

  \<^bold>\<open>Frames.\<close> \<open>RmwFrame\<close> is the codec with its round trip, \<open>AckNack\<close> the tracker of sequences with the proof that its records
  are exact. \<open>TaskOutcome\<close> builds task reports and \<open>TaskReports\<close> proves that the gateway reads them as meant.

  \<^bold>\<open>The gateway.\<close> \<open>GatewayFrame\<close> is the parser. \<open>GatewayPolicy\<close>, \<open>GatewayAdmission\<close> and \<open>GatewayDurable\<close> are the admission policy with
  its quotas, observations, snapshot and restored state; \<open>PolicySafety\<close> and \<open>PolicyRecords\<close> prove its quotas and
  counters invariant. \<open>GatewayTables\<close> has the tables and the SQL statements, \<open>GatewayStore\<close> and \<open>GatewayPostgres\<close> the two
  stores as transactions of them; \<open>StoreSafety\<close> (through the locale of leased stores, interpreted on both) proves the
  fence and that failed calls change nothing, \<open>StoreEffects\<close> what each call writes, \<open>StoreEquivalence\<close> that the stores
  answer alike. \<open>GatewayState\<close> and \<open>GatewayService\<close> are \<open>FleetQoxGatewayState\<close> and its routes. \<open>GatewayCore\<close> ties memory to the tables,
  \<open>GatewayRecovery\<close> rebuilds memory from them, \<open>GatewayRuns\<close> and \<open>GatewayDelivery\<close> refine the gateway, restarts
  included, to an abstract machine of queues, \<open>GatewayRequests\<close> carries that over to HTTP requests, and \<open>GatewayErrors\<close> has the
  exceptions that no route answers and the places where memory and database part.

  \<^bold>\<open>The robot.\<close> \<open>LocalControl\<close> is the controller with its policies, leases and limits; \<open>ControlSafety\<close> proves
  that it publishes only under a lease and stops after it, \<open>ControlLimits\<close> bounds its acceleration with all rounding.

  \<^bold>\<open>Sharing capacity.\<close> \<open>RepairScheduler\<close> and \<open>RepairSafety\<close>: the dynamic program over repairs, its limits and its
  optimality. \<open>FlowScheduler\<close> and \<open>FlowSafety\<close>: the three passes over the flows of a tick, one decision for each
  flow, and the budget of the link, which can be exceeded. \<open>FleetOptimizer\<close> and \<open>OptimizerSafety\<close>: paths and bytes of the flows of
  a fleet, within the capacity and the redundancy budget, with copies in different failure domains. \<open>PredictiveAdmission\<close> and
  \<open>PredictiveSafety\<close>: the predictive and the risk-constrained controllers of \<open>fleetqox/control_plane.py\<close>, built on the flow scheduler,
  with their budgets of bytes, packets and airtime and the deadline guard.

  \<^bold>\<open>Conventions.\<close> A class is a record and a method a function from the state to the new state and an outcome; a method
  that raises half way returns the state it left behind. What the code cannot determine is a parameter: clock readings are
  streams, and so are the results of factories and replies; \<open>math.log1p\<close>, the texts of library exceptions, the check of a network location
  and the statement at which a database fails are functions. A lock makes the block it guards one step. Samples in the
  witnesses are evaluated by the kernel.

  \<^bold>\<open>Bounds and fuel.\<close> Only the JSON parser takes fuel: \<open>json_loads\<close> passes two units per byte and two more, and
  \<open>json_loads_fuel\<close> proves that this is enough for every text; the shortest decimal of a float is searched up to the 17 digits that
  always suffice. The loops of the two waits may not end and are partial
  functions into \<open>option\<close>, whose \<open>None\<close> is characterised. Every other recursion has its termination proof. Python integers are unbounded
  \<open>int\<close>; the 64-bit range of a database parameter is checked where it is bound.

  \<^bold>\<open>Not modelled.\<close> Of the modelled modules: gaps that a rolled back PostgreSQL sequence leaves, a COMMIT whose acknowledgement is
  lost, a ROLLBACK that fails and the creation of the database's directory; the depth limit of JSON documents; the sign of
  zero; the order of sort keys that are NaN; document fields of the Raft RPCs that have another type than their class
  declares; threads, sockets, logging and command lines; the report statistics of \<open>fleet_optimizer.py\<close>. Of the program: the
  planners that learn multipliers and profiles (the Lagrangian, semantic-contract, profile and robot-budget controllers of \<open>control_plane.py\<close>,
  \<open>transport_selector.py\<close>, \<open>semantic_contract.py\<close> and their relatives),
  whose results are tuned scores without a stated contract; the UDP runtimes and sockets of the sidecar and of the RMW
  boundary, and the adapters to aioquic, etcd, rclpy and tc, which are calls of libraries and of the system; simulator, traces,
  reports and the experiment scripts; and the C++ middleware, which is in another language.
\<close>

end
